(* ===== verification/Prelude.thy ===== *)
theory Prelude
  imports Main "HOL-Library.List_Lexorder" "HOL-Library.Char_ord" "HOL-Library.AList" "HOL-Library.Multiset"
begin

text \<open>
  Shared ground of the development: the collections of simplification rules the component
  theories fill, association lists (Go maps with a fixed iteration order), and lemmas on lists,
  options and maps that several components use.  Strings are lists of bytes, ordered
  bytewise as Go orders them (List_Lexorder with Char_ord).
\<close>

named_theorems go_simps "evaluation rules of the modelled Go standard library"
named_theorems err_simps "classification of API errors"
named_theorems frame_simps "what an operation leaves unchanged"

section \<open>Association lists\<close>

text \<open>A Go map is kept as an association list without repeated keys; \<open>map_of\<close> reads it.\<close>

definition aput :: "'k \<Rightarrow> 'v \<Rightarrow> ('k \<times> 'v) list \<Rightarrow> ('k \<times> 'v) list" where
  "aput k v m = AList.update k v m"

definition adel :: "'k \<Rightarrow> ('k \<times> 'v) list \<Rightarrow> ('k \<times> 'v) list" where
  "adel k m = AList.delete k m"

abbreviation akeys :: "('k \<times> 'v) list \<Rightarrow> 'k list" where
  "akeys m \<equiv> map fst m"

lemma map_of_aput [simp]: "map_of (aput k v m) = (map_of m)(k \<mapsto> v)"
  by (simp add: aput_def update_conv')

lemma map_of_adel [simp]: "map_of (adel k m) = (map_of m)(k := None)"
  by (simp add: adel_def delete_conv')

lemma distinct_aput [simp]: "distinct (akeys m) \<Longrightarrow> distinct (akeys (aput k v m))"
  by (simp add: aput_def distinct_update)

lemma distinct_adel [simp]: "distinct (akeys m) \<Longrightarrow> distinct (akeys (adel k m))"
  by (simp add: adel_def distinct_delete)

lemma aput_Nil [simp]: "aput k v [] = [(k, v)]"
  by (simp add: aput_def)

lemma aput_Cons [simp]:
  "aput k v ((k', v') # m) = (if k' = k then (k, v) # m else (k', v') # aput k v m)"
  by (simp add: aput_def)

lemma adel_Nil [simp]: "adel k [] = []"
  by (simp add: adel_def)

lemma adel_Cons [simp]:
  "adel k ((k', v') # m) = (if k' = k then adel k m else (k', v') # adel k m)"
  by (simp add: adel_def delete_simps)

lemma set_akeys_aput [simp]: "set (akeys (aput k v m)) = insert k (set (akeys m))"
  by (simp add: aput_def dom_update)

section \<open>Sorting\<close>

text \<open>
  \<open>sort.Slice\<close> with a comparison on a key returns some permutation of its input that is
  ordered by the key.  When the keys are distinct there is only one such list, so the
  stable \<open>sort_key\<close> used in the model is what any sorting routine returns.
\<close>

definition sorts_by :: "('a \<Rightarrow> 'k::linorder) \<Rightarrow> ('a list \<Rightarrow> 'a list) \<Rightarrow> bool" where
  "sorts_by f s \<longleftrightarrow> (\<forall>xs. mset (s xs) = mset xs \<and> sorted (map f (s xs)))"

lemma sorts_by_sort_key: "sorts_by f (sort_key f)"
  by (simp add: sorts_by_def)

lemma sorts_by_unique:
  assumes "sorts_by f s" and "distinct (map f xs)"
  shows "s xs = sort_key f xs"
proof -
  from assms(1) have m: "mset (s xs) = mset xs" and so: "sorted (map f (s xs))"
    by (auto simp: sorts_by_def)
  from assms(2) have "distinct xs" and inj: "inj_on f (set xs)"
    by (auto simp: distinct_map)
  from m have st: "set (s xs) = set xs" by (metis set_mset_mset)
  from m \<open>distinct xs\<close> have "distinct (s xs)" by (metis mset_eq_imp_distinct_iff)
  with inj st have d: "distinct (map f (s xs))" by (simp add: distinct_map)
  from assms(2) have d2: "distinct (map f (sort_key f xs))"
    using inj \<open>distinct xs\<close> by (simp add: distinct_map)
  have "set (map f (s xs)) = set (map f (sort_key f xs))" using st by simp
  then have "map f (s xs) = map f (sort_key f xs)"
    using so d d2 by (intro sorted_distinct_set_unique) simp_all
  moreover have "inj_on f (set (s xs) \<union> set (sort_key f xs))"
    using inj st by simp
  ultimately show ?thesis by (simp add: inj_on_map_eq_map)
qed

lemma sort_key_perm:
  assumes "mset xs = mset ys" and "distinct (map f xs)"
  shows "sort_key f xs = sort_key f ys"
proof -
  have "sorts_by f (\<lambda>zs. if zs = ys then sort_key f xs else sort_key f zs)"
    using assms(1) by (simp add: sorts_by_def)
  moreover from assms have "distinct (map f ys)"
    by (metis distinct_map mset_eq_imp_distinct_iff set_mset_mset)
  ultimately show ?thesis using sorts_by_unique by fastforce
qed

section \<open>Options, sums and lists\<close>

lemma filter_map_fst_distinct:
  "distinct (map f xs) \<Longrightarrow> distinct (map f (filter P xs))"
  by (induction xs) auto

lemma map_of_filter_key:
  "distinct (akeys m) \<Longrightarrow>
   map_of (filter (\<lambda>(k, v). P k) m) = (\<lambda>k. if P k then map_of m k else None)"
  by (induction m) (auto simp: fun_eq_iff)

lemma takeWhile_append_stop:
  "(\<And>x. x \<in> set xs \<Longrightarrow> P x) \<Longrightarrow> \<not> P y \<Longrightarrow> takeWhile P (xs @ y # ys) = xs"
  by (induction xs) auto

lemma dropWhile_append_stop:
  "(\<And>x. x \<in> set xs \<Longrightarrow> P x) \<Longrightarrow> \<not> P y \<Longrightarrow> dropWhile P (xs @ y # ys) = y # ys"
  by (induction xs) auto

end
