(* ===== verification/GoStd.thy ===== *)
theory GoStd
  imports Prelude "HOL-Library.Word"
begin

text \<open>
  The parts of the Go standard library the runtime rests on, on byte strings:
  \<open>strconv.FormatUint\<close>, \<open>ParseUint\<close>, \<open>Atoi\<close>, \<open>fmt\<close>'s \<open>%d\<close> and \<open>%x\<close>,
  \<open>strings.SplitN(s, sep, 2)\<close> and \<open>Join\<close>, and \<open>base64.StdEncoding\<close>, with their round
  trips.
\<close>

section \<open>Decimal numbers (strconv)\<close>

definition digit :: "nat \<Rightarrow> char" where
  "digit n = char_of (48 + n)"

definition is_digit :: "char \<Rightarrow> bool" where
  "is_digit c \<longleftrightarrow> (48::nat) \<le> of_char c \<and> (of_char c :: nat) \<le> 57"

definition digit_val :: "char \<Rightarrow> nat" where
  "digit_val c = of_char c - 48"

fun dec_nat :: "nat \<Rightarrow> string" where
  "dec_nat n = (if n < 10 then [digit n] else dec_nat (n div 10) @ [digit (n mod 10)])"

declare dec_nat.simps [simp del]

definition dec_int :: "int \<Rightarrow> string" where
  "dec_int i = (if i < 0 then CHR ''-'' # dec_nat (nat (- i)) else dec_nat (nat i))"

fun digits_val :: "nat \<Rightarrow> string \<Rightarrow> nat option" where
  "digits_val acc [] = Some acc"
| "digits_val acc (c # cs) =
     (if is_digit c then digits_val (10 * acc + digit_val c) cs else None)"

text \<open>\<open>strconv.ParseUint(s, 10, 64)\<close>: \<open>None\<close> for a syntax or a range error.\<close>

definition parse_uint64 :: "string \<Rightarrow> nat option" where
  "parse_uint64 s =
     (if s = [] then None
      else case digits_val 0 s of
             None \<Rightarrow> None
           | Some n \<Rightarrow> if n < 2 ^ 64 then Some n else None)"

text \<open>\<open>strconv.Atoi\<close> on a 64-bit platform: an optional sign, then digits, within range.\<close>

definition atoi :: "string \<Rightarrow> int option" where
  "atoi s =
     (case s of
        [] \<Rightarrow> None
      | c # cs \<Rightarrow>
          (let (neg, ds) = (if c = CHR ''-'' then (True, cs)
                            else if c = CHR ''+'' then (False, cs) else (False, s))
           in if ds = [] then None
              else case digits_val 0 ds of
                     None \<Rightarrow> None
                   | Some n \<Rightarrow>
                       (let i = (if neg then - int n else int n)
                        in if - (2 ^ 63) \<le> i \<and> i < 2 ^ 63 then Some i else None)))"

lemma of_char_digit: "n < 10 \<Longrightarrow> (of_char (digit n) :: nat) = 48 + n"
  by (simp add: digit_def)

lemma is_digit_digit [simp]: "n < 10 \<Longrightarrow> is_digit (digit n)"
  by (simp add: is_digit_def of_char_digit)

lemma digit_val_digit [simp]: "n < 10 \<Longrightarrow> digit_val (digit n) = n"
  by (simp add: digit_val_def of_char_digit)

lemma digits_val_append:
  "digits_val acc (xs @ ys) = Option.bind (digits_val acc xs) (\<lambda>a. digits_val a ys)"
  by (induction xs arbitrary: acc) auto

lemma dec_nat_digits: "c \<in> set (dec_nat n) \<Longrightarrow> is_digit c"
proof (induction n rule: dec_nat.induct)
  case (1 n)
  show ?case
  proof (cases "n < 10")
    case True
    with "1.prems" show ?thesis by (subst (asm) dec_nat.simps) simp
  next
    case False
    then have "dec_nat n = dec_nat (n div 10) @ [digit (n mod 10)]"
      by (subst dec_nat.simps) simp
    with "1.IH" [OF False] "1.prems" show ?thesis by auto
  qed
qed

lemma dec_nat_not_Nil [simp]: "dec_nat n \<noteq> []"
  by (subst dec_nat.simps) simp

lemma digits_val_dec_nat: "digits_val 0 (dec_nat n) = Some n"
proof (induction n rule: dec_nat.induct)
  case (1 n)
  show ?case
  proof (cases "n < 10")
    case True
    then show ?thesis by (subst dec_nat.simps) simp
  next
    case False
    then have "dec_nat n = dec_nat (n div 10) @ [digit (n mod 10)]"
      by (subst dec_nat.simps) simp
    with "1.IH" [OF False] show ?thesis by (simp add: digits_val_append)
  qed
qed

lemma parse_dec_nat [simp]: "n < 2 ^ 64 \<Longrightarrow> parse_uint64 (dec_nat n) = Some n"
  by (simp add: parse_uint64_def digits_val_dec_nat)

lemma parse_uint64_bound: "parse_uint64 s = Some n \<Longrightarrow> n < 2 ^ 64"
  by (auto simp: parse_uint64_def split: if_splits option.splits)

lemma dec_nat_inj: "dec_nat m = dec_nat n \<Longrightarrow> m = n"
  by (metis digits_val_dec_nat option.inject)

lemma dec_nat_notin: "\<not> is_digit c \<Longrightarrow> c \<notin> set (dec_nat n)"
  using dec_nat_digits by blast

lemma is_digit_consts [simp]:
  "\<not> is_digit (CHR ''-'')" "\<not> is_digit (CHR ''+'')" "\<not> is_digit (CHR '':'')"
  "\<not> is_digit (CHR ''.'')" "\<not> is_digit (CHR ''/'')"
  by (simp_all add: is_digit_def)

lemma atoi_dec_nat [simp]: "n < 2 ^ 63 \<Longrightarrow> atoi (dec_nat n) = Some (int n)"
proof -
  assume n: "n < 2 ^ 63"
  obtain c cs where cs: "dec_nat n = c # cs" by (cases "dec_nat n") auto
  then have "is_digit c" using dec_nat_digits [of c n] by simp
  then have "c \<noteq> CHR ''-''" "c \<noteq> CHR ''+''" by auto
  moreover have "digits_val 0 (c # cs) = Some n"
    using digits_val_dec_nat [of n] cs by simp
  moreover have "int n < 2 ^ 63" using n by (metis of_nat_less_iff of_nat_numeral of_nat_power)
  ultimately show ?thesis unfolding cs atoi_def by (simp del: digits_val.simps)
qed

section \<open>Splitting and joining (strings)\<close>

text \<open>\<open>strings.SplitN(s, sep, 2)\<close> for a one-byte separator: one part, or two.\<close>

definition split2 :: "char \<Rightarrow> string \<Rightarrow> string list" where
  "split2 sep s =
     (case dropWhile (\<lambda>c. c \<noteq> sep) s of
        [] \<Rightarrow> [s]
      | _ # rest \<Rightarrow> [takeWhile (\<lambda>c. c \<noteq> sep) s, rest])"

lemma split2_at: "sep \<notin> set xs \<Longrightarrow> split2 sep (xs @ sep # ys) = [xs, ys]"
  unfolding split2_def
  by (subst dropWhile_append_stop, blast, blast, subst takeWhile_append_stop, blast, blast) simp

text \<open>\<open>strings.Join(xs, sep)\<close>.\<close>

fun join :: "string \<Rightarrow> string list \<Rightarrow> string" where
  "join sep [] = []"
| "join sep [x] = x"
| "join sep (x # y # zs) = x @ sep @ join sep (y # zs)"

text \<open>\<open>strings.ReplaceAll(s, [a], [b])\<close> for single bytes.\<close>

definition replace_char :: "char \<Rightarrow> char \<Rightarrow> string \<Rightarrow> string" where
  "replace_char a b s = map (\<lambda>c. if c = a then b else c) s"

section \<open>Hexadecimal (encoding/hex, and fmt's x verb)\<close>

definition hex_digit :: "nat \<Rightarrow> char" where
  "hex_digit n = (if n < 10 then char_of (48 + n) else char_of (87 + n))"

definition hex_byte :: "nat \<Rightarrow> string" where
  "hex_byte b = [hex_digit (b div 16), hex_digit (b mod 16)]"

definition hex_bytes :: "nat list \<Rightarrow> string" where
  "hex_bytes bs = concat (map hex_byte bs)"

lemma length_hex_bytes [simp]: "length (hex_bytes bs) = 2 * length bs"
  by (induction bs) (auto simp: hex_bytes_def hex_byte_def)

definition is_hex :: "char \<Rightarrow> bool" where
  "is_hex c \<longleftrightarrow> c \<in> set ''0123456789abcdef''"

lemma is_hex_hex_digit: "n < 16 \<Longrightarrow> is_hex (hex_digit n)"
proof -
  have "\<forall>m\<in>set [0..<16]. is_hex (hex_digit m)" by code_simp
  then show "n < 16 \<Longrightarrow> is_hex (hex_digit n)" by simp
qed

lemma hex_bytes_is_hex:
  "\<forall>b\<in>set bs. b < 256 \<Longrightarrow> c \<in> set (hex_bytes bs) \<Longrightarrow> is_hex c"
  by (auto simp: hex_bytes_def hex_byte_def intro!: is_hex_hex_digit)

section \<open>Base64 (base64.StdEncoding)\<close>

definition b64_alphabet :: string where
  "b64_alphabet = ''ABCDEFGHIJKLMNOPQRSTUVWXYZabcdefghijklmnopqrstuvwxyz0123456789+/''"

definition b64_char :: "nat \<Rightarrow> char" where
  "b64_char n = b64_alphabet ! n"

definition b64_index :: "char \<Rightarrow> nat option" where
  "b64_index c = map_of (zip b64_alphabet [0..<64]) c"

fun b64_bytes :: "nat list \<Rightarrow> string" where
  "b64_bytes [] = []"
| "b64_bytes [a] = [b64_char (a div 4), b64_char (a mod 4 * 16), CHR ''='', CHR ''='']"
| "b64_bytes [a, b] =
     [b64_char (a div 4), b64_char (a mod 4 * 16 + b div 16), b64_char (b mod 16 * 4), CHR ''='']"
| "b64_bytes (a # b # c # bs) =
     b64_char (a div 4) # b64_char (a mod 4 * 16 + b div 16) #
     b64_char (b mod 16 * 4 + c div 64) # b64_char (c mod 64) # b64_bytes bs"

definition b64_encode :: "string \<Rightarrow> string" where
  "b64_encode s = b64_bytes (map of_char s)"

text \<open>
  \<open>DecodeString\<close>: newlines and carriage returns are skipped; every quantum has four
  characters; padding only ends the input; unused trailing bits are not checked (the
  encoding is not \<open>Strict\<close>).
\<close>

fun b64_quanta :: "string \<Rightarrow> nat list option" where
  "b64_quanta [] = Some []"
| "b64_quanta (p # q # r # s # rest) =
     (case (b64_index p, b64_index q) of
        (Some i, Some j) \<Rightarrow>
          (if r = CHR ''='' then
             (if s = CHR ''='' \<and> rest = [] then Some [i * 4 + j div 16] else None)
           else case b64_index r of
             None \<Rightarrow> None
           | Some k \<Rightarrow>
               (if s = CHR ''='' then
                  (if rest = [] then Some [i * 4 + j div 16, j mod 16 * 16 + k div 4] else None)
                else case b64_index s of
                  None \<Rightarrow> None
                | Some l \<Rightarrow>
                    map_option (\<lambda>bs. (i * 4 + j div 16) # (j mod 16 * 16 + k div 4) #
                                      (k mod 4 * 64 + l) # bs) (b64_quanta rest)))
      | _ \<Rightarrow> None)"
| "b64_quanta _ = None"

definition b64_decode :: "string \<Rightarrow> string option" where
  "b64_decode s =
     map_option (map char_of)
       (b64_quanta (filter (\<lambda>c. c \<noteq> CHR 0x0A \<and> c \<noteq> CHR 0x0D) s))"

lemma b64_index_char: "n < 64 \<Longrightarrow> b64_index (b64_char n) = Some n"
proof -
  have "\<forall>m\<in>set [0..<64]. b64_index (b64_char m) = Some m" by code_simp
  then show "n < 64 \<Longrightarrow> b64_index (b64_char n) = Some n" by simp
qed

lemma b64_char_plain:
  "n < 64 \<Longrightarrow> b64_char n \<noteq> CHR ''='' \<and> b64_char n \<noteq> CHR 0x0A \<and> b64_char n \<noteq> CHR 0x0D"
proof -
  have "\<forall>m\<in>set [0..<64]. b64_char m \<noteq> CHR ''='' \<and> b64_char m \<noteq> CHR 0x0A \<and> b64_char m \<noteq> CHR 0x0D"
    by code_simp
  then show "n < 64 \<Longrightarrow> ?thesis" by simp
qed

lemma b64_sextets:
  fixes a b c :: nat
  assumes "a < 256" "b < 256" "c < 256"
  shows "a div 4 < 64" "a mod 4 * 16 + b div 16 < 64" "a mod 4 * 16 < 64"
    "b mod 16 * 4 + c div 64 < 64" "b mod 16 * 4 < 64" "c mod 64 < 64"
  using assms by auto

lemma split_join:
  fixes x y m :: nat
  assumes "x < m"
  shows "(y * m + x) div m = y" "(y * m + x) mod m = x"
  using assms by simp_all

lemma b64_join:
  fixes a b c :: nat
  assumes "b < 256" "c < 256"
  shows "a div 4 * 4 + (a mod 4 * 16 + b div 16) div 16 = a"
    "(a mod 4 * 16 + b div 16) mod 16 * 16 + (b mod 16 * 4 + c div 64) div 4 = b"
    "(b mod 16 * 4 + c div 64) mod 4 * 64 + c mod 64 = c"
proof -
  from assms have "b div 16 < 16" "c div 64 < 4" by auto
  then show "a div 4 * 4 + (a mod 4 * 16 + b div 16) div 16 = a"
    "(a mod 4 * 16 + b div 16) mod 16 * 16 + (b mod 16 * 4 + c div 64) div 4 = b"
    "(b mod 16 * 4 + c div 64) mod 4 * 64 + c mod 64 = c"
    by (simp_all only: split_join div_mult_mod_eq)
qed

lemma b64_quanta_bytes:
  "\<forall>x\<in>set bs. x < 256 \<Longrightarrow> b64_quanta (b64_bytes bs) = Some bs"
proof (induction bs rule: b64_bytes.induct)
  case (2 a)
  then have "a < 256" by simp
  then show ?case
    using b64_sextets [of a 0 0] b64_join(1) [of 0 0 a] by (simp add: b64_index_char)
next
  case (3 a b)
  then have "a < 256" "b < 256" by simp_all
  then show ?case
    using b64_sextets [of a b 0] b64_join(1,2) [of b 0 a] b64_char_plain [of "b mod 16 * 4"]
    by (simp add: b64_index_char)
next
  case (4 a b c bs)
  then have "a < 256" "b < 256" "c < 256" by simp_all
  with 4 show ?case
    using b64_sextets [of a b c] b64_join(1,2) [of b c a] b64_join(3) [of b c]
      b64_char_plain [of "b mod 16 * 4 + c div 64"] b64_char_plain [of "c mod 64"]
    by (simp add: b64_index_char)
qed simp

lemma b64_bytes_no_newline:
  "\<forall>x\<in>set bs. x < 256 \<Longrightarrow> c \<in> set (b64_bytes bs) \<Longrightarrow> c \<noteq> CHR 0x0A \<and> c \<noteq> CHR 0x0D"
proof (induction bs rule: b64_bytes.induct)
  case (2 a)
  then show ?case using b64_sextets [of a 0 0] b64_char_plain by auto
next
  case (3 a b)
  then show ?case using b64_sextets [of a b 0] b64_char_plain by auto
next
  case (4 a b c' bs)
  then show ?case using b64_sextets [of a b c'] b64_char_plain by auto
qed simp

lemma b64_roundtrip [go_simps]: "b64_decode (b64_encode s) = Some s"
proof -
  let ?bs = "map of_char s :: nat list"
  have b: "\<forall>x\<in>set ?bs. x < 256" by auto
  have "filter (\<lambda>c. c \<noteq> CHR 0x0A \<and> c \<noteq> CHR 0x0D) (b64_bytes ?bs) = b64_bytes ?bs"
    using b64_bytes_no_newline [OF b] by (simp add: filter_id_conv)
  then show ?thesis
    by (simp add: b64_decode_def b64_encode_def b64_quanta_bytes [OF b] comp_def)
qed

end
