(* ===== verification/GoTime.thy ===== *)
theory GoTime
  imports GoStd
begin

text \<open>
  \<open>time.Time\<close> as the number of nanoseconds since January 1 of the year 1, 00:00 UTC (the zero
  \<open>Time\<close> is 0, so \<open>IsZero\<close> is \<open>t = 0\<close>), with \<open>Format(time.RFC3339)\<close> of a UTC time and
  \<open>Parse(time.RFC3339, _)\<close> of the strings it produces.  The format has whole seconds: a
  round trip truncates.
\<close>

type_synonym gotime = int

definition ns_per_s :: int where
  "ns_per_s = 1000000000"

definition trunc_s :: "gotime \<Rightarrow> gotime" where
  "trunc_s t = (t div ns_per_s) * ns_per_s"

section \<open>The civil calendar\<close>

definition leap :: "nat \<Rightarrow> bool" where
  "leap y \<longleftrightarrow> y mod 4 = 0 \<and> (y mod 100 \<noteq> 0 \<or> y mod 400 = 0)"

definition month_lengths :: "bool \<Rightarrow> nat list" where
  "month_lengths lp = [31, if lp then 29 else 28, 31, 30, 31, 30, 31, 31, 30, 31, 30, 31]"

text \<open>Days of the years before year \<open>Suc p\<close>.\<close>

definition days_before :: "nat \<Rightarrow> nat" where
  "days_before p = 365 * p + p div 4 - p div 100 + p div 400"

text \<open>\<open>absDate\<close>: cut whole 400-, 100-, 4- and 1-year cycles off the day number.\<close>

definition year_day :: "nat \<Rightarrow> nat \<times> nat" where
  "year_day d =
     (let a = d div 146097; d1 = d mod 146097;
          b = min 3 (d1 div 36524); d2 = d1 - b * 36524;
          c = d2 div 1461; d3 = d2 mod 1461;
          e = min 3 (d3 div 365); d4 = d3 - e * 365
      in (400 * a + 100 * b + 4 * c + e + 1, d4))"

fun month_day :: "nat list \<Rightarrow> nat \<Rightarrow> nat \<Rightarrow> nat \<times> nat" where
  "month_day [] m d = (m, d + 1)"
| "month_day (l # ls) m d = (if d < l then (m, d + 1) else month_day ls (m + 1) (d - l))"

definition civil :: "nat \<Rightarrow> nat \<times> nat \<times> nat" where
  "civil d = (let (y, yd) = year_day d; (m, dd) = month_day (month_lengths (leap y)) 1 yd
              in (y, m, dd))"

definition days_of :: "nat \<Rightarrow> nat \<Rightarrow> nat \<Rightarrow> nat" where
  "days_of y m d = days_before (y - 1) + sum_list (take (m - 1) (month_lengths (leap y))) + (d - 1)"

lemma month_day_inverse:
  "d < sum_list ls \<Longrightarrow> month_day ls m d = (m', d') \<Longrightarrow>
   m \<le> m' \<and> m' < m + length ls \<and> 1 \<le> d' \<and> d' \<le> ls ! (m' - m) \<and>
   sum_list (take (m' - m) ls) + (d' - 1) = d"
proof (induction ls m d rule: month_day.induct)
  case (2 l ls m d)
  show ?case
  proof (cases "d < l")
    case True
    with 2 show ?thesis by auto
  next
    case False
    have IH: "m + 1 \<le> m' \<and> m' < m + 1 + length ls \<and> 1 \<le> d' \<and> d' \<le> ls ! (m' - (m + 1)) \<and>
      sum_list (take (m' - (m + 1)) ls) + (d' - 1) = d - l"
      by (rule "2.IH" [OF False]) (use "2.prems" False in auto)
    from IH have eq: "m' - m = Suc (m' - (m + 1))" by arith
    have "m \<le> m'" "m' < m + length (l # ls)" "1 \<le> d'" using IH by auto
    moreover have "d' \<le> (l # ls) ! (m' - m)" using IH unfolding eq by simp
    moreover have "sum_list (take (m' - m) (l # ls)) + (d' - 1) = d"
      using IH False unfolding eq take_Suc_Cons sum_list.Cons by linarith
    ultimately show ?thesis by blast
  qed
qed simp

lemma days_before_cycles:
  assumes "b \<le> 3" "c \<le> 24" "e \<le> 3"
  shows "days_before (400 * a + 100 * b + 4 * c + e) = 146097 * a + 36524 * b + 1461 * c + 365 * e"
proof -
  let ?p = "400 * a + 100 * b + 4 * c + e"
  have "?p div 4 = 100 * a + 25 * b + c" using assms by (simp add: div_nat_eqI)
  moreover have "?p div 100 = 4 * a + b" using assms by (simp add: div_nat_eqI)
  moreover have "?p div 400 = a" using assms by (simp add: div_nat_eqI)
  ultimately show ?thesis by (simp add: days_before_def)
qed

lemma year_day_inverse:
  assumes "year_day d = (y, yd)"
  shows "days_before (y - 1) + yd = d" "1 \<le> y" "yd < (if leap y then 366 else 365)"
proof -
  define a d1 where "a = d div 146097" and "d1 = d mod 146097"
  define b d2 where "b = min 3 (d1 div 36524)" and "d2 = d1 - b * 36524"
  define c d3 where "c = d2 div 1461" and "d3 = d2 mod 1461"
  define e d4 where "e = min 3 (d3 div 365)" and "d4 = d3 - e * 365"
  from assms have y: "y = 400 * a + 100 * b + 4 * c + e + 1" and yd: "yd = d4"
    by (simp_all add: year_day_def Let_def a_def d1_def b_def d2_def c_def d3_def e_def d4_def)
  have d1: "d1 < 146097" "d = 146097 * a + d1" by (simp_all add: a_def d1_def)
  have b: "b \<le> 3" "b * 36524 \<le> d1" "d1 < (b + 1) * 36524 \<or> b = 3"
    by (auto simp: b_def min_def)
  have d2: "d1 = b * 36524 + d2" "d2 < 36524 \<or> (b = 3 \<and> d2 < 36525)"
    using b d1 by (auto simp: d2_def)
  have c: "d2 = 1461 * c + d3" "d3 < 1461" by (simp_all add: c_def d3_def)
  have c24: "c \<le> 24" using c d2 by linarith
  have e: "e \<le> 3" "e * 365 \<le> d3" "d3 < (e + 1) * 365 \<or> e = 3"
    by (auto simp: e_def min_def)
  have d4: "d3 = e * 365 + d4" "d4 < 365 \<or> (e = 3 \<and> d4 < 366)"
    using e c by (auto simp: d4_def)
  have "days_before (y - 1) = 146097 * a + 36524 * b + 1461 * c + 365 * e"
    using days_before_cycles [OF b(1) c24 e(1), of a] y by simp
  then show "days_before (y - 1) + yd = d" using d1 d2 c d4 yd by simp
  show "1 \<le> y" using y by simp
  show "yd < (if leap y then 366 else 365)"
  proof (cases "d4 < 365")
    case True
    then show ?thesis using yd by simp
  next
    case False
    with d4 have e3: "e = 3" and d4': "d4 = 365" by auto
    have "c < 24 \<or> b = 3"
      using c d2 d4 e3 d4' c24 by linarith
    moreover have "y = 4 * (100 * a + 25 * b + c + 1)" using y e3 by simp
    then have "y mod 4 = 0" by simp
    moreover have "y mod 100 \<noteq> 0" if "c < 24"
    proof -
      have "y = 100 * (4 * a + b) + (4 * c + 4)" using y e3 by simp
      then have "y mod 100 = (4 * c + 4) mod 100" by (metis mod_mult_self4)
      with that show ?thesis by simp
    qed
    moreover have "y mod 400 = 0" if "b = 3" "c = 24"
    proof -
      have "y = 400 * (a + 1)" using y e3 that by simp
      then show ?thesis by simp
    qed
    ultimately have "leap y" using c24 unfolding leap_def by (metis order_le_less)
    then show ?thesis using yd d4' by simp
  qed
qed

lemma sum_month_lengths: "sum_list (month_lengths lp) = (if lp then 366 else 365)"
  by (simp add: month_lengths_def)

lemma civil_inverse:
  assumes "civil d = (y, m, dd)"
  shows "days_of y m dd = d" "1 \<le> y" "1 \<le> m" "m \<le> 12" "1 \<le> dd" "dd \<le> 31"
proof -
  obtain yd where yd: "year_day d = (y, yd)" and
    md: "month_day (month_lengths (leap y)) 1 yd = (m, dd)"
    using assms by (auto simp: civil_def Let_def split: prod.splits)
  note Y = year_day_inverse [OF yd]
  have "yd < sum_list (month_lengths (leap y))" using Y(3) by (simp add: sum_month_lengths)
  note M = month_day_inverse [OF this md]
  show "days_of y m dd = d" unfolding days_of_def using Y(1) M by linarith
  show "1 \<le> y" "1 \<le> m" "1 \<le> dd" using Y M by auto
  show "m \<le> 12" using M by (simp add: month_lengths_def)
  have "\<forall>x\<in>set (month_lengths (leap y)). x \<le> 31" by (simp add: month_lengths_def)
  moreover have "month_lengths (leap y) ! (m - 1) \<in> set (month_lengths (leap y))"
    using M by (intro nth_mem) auto
  ultimately show "dd \<le> 31" using M by fastforce
qed

section \<open>RFC 3339\<close>

definition two :: "nat \<Rightarrow> string" where
  "two n = [digit (n div 10), digit (n mod 10)]"

definition four :: "nat \<Rightarrow> string" where
  "four n = two (n div 100) @ two (n mod 100)"

text \<open>\<open>t.UTC().Format(time.RFC3339)\<close> for years 1 to 9999.\<close>

definition rfc3339 :: "gotime \<Rightarrow> string" where
  "rfc3339 t =
     (let s = nat (t div ns_per_s); (y, m, d) = civil (s div 86400); r = s mod 86400
      in four y @ ''-'' @ two m @ ''-'' @ two d @ ''T'' @
         two (r div 3600) @ '':'' @ two (r mod 3600 div 60) @ '':'' @ two (r mod 60) @ ''Z'')"

definition num :: "string \<Rightarrow> nat option" where
  "num s = digits_val 0 s"

text \<open>
  \<open>time.Parse(time.RFC3339, s)\<close> on UTC timestamps (the suffix Z); the fields are checked
  for their ranges.  Other zone suffixes and fractional seconds are not produced by the
  writers modelled here and are outside this function.
\<close>

definition parse_rfc3339 :: "string \<Rightarrow> gotime option" where
  "parse_rfc3339 s =
     (case s of
        [y1, y2, y3, y4, s1, m1, m2, s2, d1, d2, tt, h1, h2, s3, n1, n2, s4, c1, c2, z] \<Rightarrow>
          (if [s1, s2, tt, s3, s4, z] \<noteq> ''--T::Z'' then None
           else case (num [y1, y2, y3, y4], num [m1, m2], num [d1, d2],
                      num [h1, h2], num [n1, n2], num [c1, c2]) of
             (Some y, Some m, Some d, Some h, Some n, Some c) \<Rightarrow>
               (if 1 \<le> y \<and> 1 \<le> m \<and> m \<le> 12 \<and> 1 \<le> d \<and> d \<le> month_lengths (leap y) ! (m - 1)
                   \<and> h < 24 \<and> n < 60 \<and> c < 60
                then Some (int (days_of y m d * 86400 + h * 3600 + n * 60 + c) * ns_per_s)
                else None)
           | _ \<Rightarrow> None)
      | _ \<Rightarrow> None)"

lemma num_two [simp]: "n < 100 \<Longrightarrow> num (two n) = Some n"
  by (simp add: num_def two_def)

lemma num_four [simp]: "n < 10000 \<Longrightarrow> num (four n) = Some n"
  by (simp add: num_def four_def two_def)

definition max_time :: gotime where
  "max_time = 3652059 * 86400 * ns_per_s"

lemma civil_year_bound: "d < 3652059 \<Longrightarrow> civil d = (y, m, dd) \<Longrightarrow> y < 10000"
proof -
  assume d: "d < 3652059" and c: "civil d = (y, m, dd)"
  obtain yd where yd: "year_day d = (y, yd)"
    using c by (auto simp: civil_def Let_def split: prod.splits)
  note Y = year_day_inverse [OF yd]
  show "y < 10000"
  proof (rule ccontr)
    assume "\<not> y < 10000"
    then have "9999 \<le> y - 1" by simp
    have "3652059 \<le> days_before p" if p: "9999 \<le> p" for p
    proof -
      obtain k where k: "p = 9999 + k" using p le_Suc_ex by blast
      have "2499 \<le> p div 4" "24 \<le> p div 400" "p div 100 \<le> 99 + k" unfolding k by linarith+
      then show ?thesis unfolding days_before_def using k by linarith
    qed
    from this [OF \<open>9999 \<le> y - 1\<close>] show False using Y(1) d by simp
  qed
qed

lemma civil_day_bound:
  assumes "civil d = (y, m, dd)"
  shows "dd \<le> month_lengths (leap y) ! (m - 1)"
proof -
  obtain yd where yd: "year_day d = (y, yd)" and
    md: "month_day (month_lengths (leap y)) 1 yd = (m, dd)"
    using assms by (auto simp: civil_def Let_def split: prod.splits)
  have "yd < sum_list (month_lengths (leap y))"
    using year_day_inverse(3) [OF yd] by (simp add: sum_month_lengths)
  from month_day_inverse [OF this md] show ?thesis by simp
qed

theorem rfc3339_roundtrip:
  assumes "0 \<le> t" and "t < max_time"
  shows "parse_rfc3339 (rfc3339 t) = Some (trunc_s t)"
proof -
  define s where "s = nat (t div ns_per_s)"
  obtain y m d where c: "civil (s div 86400) = (y, m, d)" by (cases "civil (s div 86400)") auto
  define r where "r = s mod 86400"
  have "t div ns_per_s < 3652059 * 86400"
    using assms by (simp add: max_time_def ns_per_s_def)
  then have "s < 3652059 * 86400" using assms(1) by (simp add: s_def ns_per_s_def)
  then have "s div 86400 < 3652059" by (simp add: less_mult_imp_div_less)
  then have y: "y < 10000" using c by (rule civil_year_bound)
  note C = civil_inverse [OF c] and D = civil_day_bound [OF c]
  have r: "r < 86400" by (simp add: r_def)
  have hms: "r div 3600 < 24" "r mod 3600 div 60 < 60" "r mod 60 < 60"
    using r by (auto simp: less_mult_imp_div_less)
  have "r mod 3600 mod 60 = r mod 60" by (simp add: mod_mod_cancel)
  then have rr: "r div 3600 * 3600 + r mod 3600 div 60 * 60 + r mod 60 = r"
    by (metis add.assoc div_mult_mod_eq)
  have ss: "s div 86400 * 86400 + r = s" by (simp add: r_def)
  have n4: "num [digit (y div 100 div 10), digit (y div 100 mod 10),
                 digit (y mod 100 div 10), digit (y mod 100 mod 10)] = Some y"
    using num_four [OF y] by (simp add: four_def two_def)
  have n2: "n < 100 \<Longrightarrow> num [digit (n div 10), digit (n mod 10)] = Some n" for n
    using num_two [of n] by (simp add: two_def)
  have "parse_rfc3339 (rfc3339 t) =
          Some (int (days_of y m d * 86400 + r div 3600 * 3600 + r mod 3600 div 60 * 60 + r mod 60)
                * ns_per_s)"
    unfolding rfc3339_def Let_def s_def [symmetric] c prod.case r_def [symmetric]
    using C D y hms
    by (simp add: parse_rfc3339_def four_def two_def n4 n2 del: One_nat_def)
  also have "\<dots> = Some (int s * ns_per_s)" using C(1) rr ss by (simp add: add.assoc)
  also have "int s = t div ns_per_s" using assms(1) by (simp add: s_def ns_per_s_def)
  finally show ?thesis by (simp add: trunc_s_def)
qed

end
