(* ===== verification/KubeTypes.thy ===== *)
theory KubeTypes
  imports GoStd GoTime
begin

text \<open>
  The Kubernetes values the runtime passes around: API errors and their classification,
  callers, object and list metadata, served objects and lists, label and field selectors,
  watch events.  They are the data of the k8s.io modules as this code reads and writes
  them; the behaviour of those modules (selectors, validation, the host API server) enters
  the definitions as arguments.
\<close>

section \<open>API errors\<close>

text \<open>
  One constructor per constructor function of \<open>apierrors\<close> in use; \<open>Internal\<close> keeps the
  error it reports but does not expose it to \<open>errors.As\<close>, \<open>Wrapped\<close> is
  \<open>fmt.Errorf("...: %w", err)\<close> and does.
\<close>

datatype api_err =
    NotFound string
  | AlreadyExists string
  | Conflict string string
  | BadRequest string
  | Expired string string
  | MethodNotSupported string
  | Forbidden string string
  | ServiceUnavailable string
  | Invalid string "(string \<times> string) list"
  | Internal api_err
  | Wrapped string api_err
  | Plain string

type_synonym 'a res = "api_err + 'a"

fun is_conflict :: "api_err \<Rightarrow> bool" where
  "is_conflict (Conflict _ _) = True"
| "is_conflict (Wrapped _ e) = is_conflict e"
| "is_conflict _ = False"

fun is_not_found :: "api_err \<Rightarrow> bool" where
  "is_not_found (NotFound _) = True"
| "is_not_found (Wrapped _ e) = is_not_found e"
| "is_not_found _ = False"

fun is_already_exists :: "api_err \<Rightarrow> bool" where
  "is_already_exists (AlreadyExists _) = True"
| "is_already_exists (Wrapped _ e) = is_already_exists e"
| "is_already_exists _ = False"

fun is_internal :: "api_err \<Rightarrow> bool" where
  "is_internal (Internal _) = True"
| "is_internal (Wrapped _ e) = is_internal e"
| "is_internal _ = False"

lemma err_disjoint [err_simps]:
  "is_conflict e \<Longrightarrow> \<not> is_not_found e" "is_conflict e \<Longrightarrow> \<not> is_already_exists e"
  "is_conflict e \<Longrightarrow> \<not> is_internal e" "is_not_found e \<Longrightarrow> \<not> is_already_exists e"
  "is_not_found e \<Longrightarrow> \<not> is_internal e"
  by (induction e) simp_all

section \<open>Callers, metadata, objects, lists\<close>

record user =
  u_name :: string
  u_groups :: "string list"

text \<open>The whole of \<open>user.Info\<close>, for the code that passes it on.\<close>

record user_info = user +
  ui_uid :: string
  ui_extra :: "(string \<times> string list) list"

record group_resource =
  gr_group :: string
  gr_resource :: string

type_synonym smap = "(string \<times> string) list"

record ometa =
  om_name :: string
  om_ns :: string
  om_rv :: string
  om_uid :: string
  om_labels :: smap
  om_anns :: smap
  om_fins :: "string list"
  om_created :: gotime
  om_deleted :: "gotime option"
  om_managed :: string
  om_owners :: string

definition empty_meta :: ometa where
  "empty_meta = \<lparr>om_name = [], om_ns = [], om_rv = [], om_uid = [], om_labels = [], om_anns = [],
     om_fins = [], om_created = 0, om_deleted = None, om_managed = [], om_owners = []\<rparr>"

text \<open>
  A \<open>runtime.Object\<close>: with metadata (\<open>meta.Accessor\<close> succeeds) or without it; the payload
  \<open>'p\<close> is the rest of the object.
\<close>

datatype 'p robj = Obj ometa 'p | Bare 'p

fun accessor :: "'p robj \<Rightarrow> ometa option" where
  "accessor (Obj m p) = Some m"
| "accessor (Bare p) = None"

fun with_meta :: "(ometa \<Rightarrow> ometa) \<Rightarrow> 'p robj \<Rightarrow> 'p robj" where
  "with_meta f (Obj m p) = Obj (f m) p"
| "with_meta f (Bare p) = Bare p"

fun payload :: "'p robj \<Rightarrow> 'p" where
  "payload (Obj m p) = p"
| "payload (Bare p) = p"

text \<open>
  A list object as the code can see it: whether \<open>meta.ExtractList\<close>, \<open>meta.SetList\<close>, the
  reflective fallback on an \<open>Items\<close> field, \<open>metav1.ListInterface\<close> and
  \<open>meta.ListAccessor\<close> succeed on it, its items and its list metadata.
\<close>

record 'p rlist =
  l_extract :: bool
  l_setlist :: bool
  l_reflect :: bool
  l_iface :: bool
  l_accessor :: bool
  l_items :: "'p robj list"
  l_rv :: string
  l_continue :: string
  l_remaining :: "int option"

text \<open>A well-formed typed list, the one every generated list type is.\<close>

definition std_list :: "'p robj list \<Rightarrow> 'p rlist" where
  "std_list xs = \<lparr>l_extract = True, l_setlist = True, l_reflect = True, l_iface = True,
     l_accessor = True, l_items = xs, l_rv = [], l_continue = [], l_remaining = None\<rparr>"

definition std_shape :: "'p rlist \<Rightarrow> bool" where
  "std_shape l \<longleftrightarrow> l_extract l \<and> l_setlist l \<and> l_iface l"

lemma std_list_sel [simp]:
  "l_extract (std_list xs)" "l_setlist (std_list xs)" "l_iface (std_list xs)"
  "l_items (std_list xs) = xs" "l_rv (std_list xs) = []" "l_continue (std_list xs) = []"
  "l_remaining (std_list xs) = None" "std_shape (std_list xs)"
  by (simp_all add: std_list_def std_shape_def)

section \<open>Selectors and watch events\<close>

record lsel =
  ls_empty :: bool
  ls_matches :: "smap \<Rightarrow> bool"

record freq =
  fr_field :: string
  fr_op :: string
  fr_value :: string

record fsel =
  fs_empty :: bool
  fs_reqs :: "freq list"

text \<open>\<open>labels.Everything()\<close>.\<close>

definition everything :: lsel where
  "everything = \<lparr>ls_empty = True, ls_matches = (\<lambda>_. True)\<rparr>"

datatype event_type = Added | Modified | Deleted | Bookmark

record 'p event =
  ev_type :: event_type
  ev_obj :: "'p robj"

text \<open>\<open>metainternalversion.ListOptions\<close>.\<close>

record list_options =
  lo_label :: "lsel option"
  lo_field :: "fsel option"
  lo_rv :: string
  lo_bookmarks :: bool
  lo_limit :: int
  lo_continue :: string

end
