(* ===== verification/GoSha256.thy ===== *)
theory GoSha256
  imports GoStd
begin

unbundle bit_operations_syntax

text \<open>
  \<open>crypto/sha256.Sum256\<close> (FIPS 180-4): padding, message schedule and compression over
  32-bit words.  The runtime uses it for deterministic UIDs, long record names and the
  body hash; what those uses rely on (a digest of 32 bytes) is proved here.
\<close>

type_synonym w32 = "32 word"

definition sha_k :: "w32 list" where
  "sha_k =
    [1116352408, 1899447441, 3049323471, 3921009573, 961987163, 1508970993, 2453635748, 2870763221,
     3624381080, 310598401, 607225278, 1426881987, 1925078388, 2162078206, 2614888103, 3248222580,
     3835390401, 4022224774, 264347078, 604807628, 770255983, 1249150122, 1555081692, 1996064986,
     2554220882, 2821834349, 2952996808, 3210313671, 3336571891, 3584528711, 113926993, 338241895,
     666307205, 773529912, 1294757372, 1396182291, 1695183700, 1986661051, 2177026350, 2456956037,
     2730485921, 2820302411, 3259730800, 3345764771, 3516065817, 3600352804, 4094571909, 275423344,
     430227734, 506948616, 659060556, 883997877, 958139571, 1322822218, 1537002063, 1747873779,
     1955562222, 2024104815, 2227730452, 2361852424, 2428436474, 2756734187, 3204031479, 3329325298]"

record sha_state =
  sa :: w32  sb :: w32  sc :: w32  sd :: w32
  se :: w32  sf :: w32  sg :: w32  sh :: w32

definition sha_init :: sha_state where
  "sha_init = \<lparr>sa = 1779033703, sb = 3144134277, sc = 1013904242, sd = 2773480762,
               se = 1359893119, sf = 2600822924, sg = 528734635, sh = 1541459225\<rparr>"

definition rotr :: "nat \<Rightarrow> w32 \<Rightarrow> w32" where
  "rotr n x = (drop_bit n x) OR (push_bit (32 - n) x)"

definition sha_round :: "sha_state \<Rightarrow> w32 \<times> w32 \<Rightarrow> sha_state" where
  "sha_round s kw =
     (let s1 = rotr 6 (se s) XOR rotr 11 (se s) XOR rotr 25 (se s);
          ch = (se s AND sf s) XOR (NOT (se s) AND sg s);
          t1 = sh s + s1 + ch + fst kw + snd kw;
          s0 = rotr 2 (sa s) XOR rotr 13 (sa s) XOR rotr 22 (sa s);
          mj = (sa s AND sb s) XOR (sa s AND sc s) XOR (sb s AND sc s);
          t2 = s0 + mj
      in \<lparr>sa = t1 + t2, sb = sa s, sc = sb s, sd = sc s,
          se = sd s + t1, sf = se s, sg = sf s, sh = sg s\<rparr>)"

text \<open>The schedule is kept newest word first, so each new word reads fixed positions.\<close>

definition sha_next :: "w32 list \<Rightarrow> w32" where
  "sha_next ws =
     (let x = ws ! 14; y = ws ! 1
      in ws ! 15 + (rotr 7 x XOR rotr 18 x XOR drop_bit 3 x)
         + ws ! 6 + (rotr 17 y XOR rotr 19 y XOR drop_bit 10 y))"

fun sha_extend :: "nat \<Rightarrow> w32 list \<Rightarrow> w32 list" where
  "sha_extend 0 ws = ws"
| "sha_extend (Suc n) ws = sha_extend n (sha_next ws # ws)"

fun be_word :: "nat list \<Rightarrow> w32" where
  "be_word bs = of_nat (foldl (\<lambda>acc b. acc * 256 + b) 0 bs)"

fun be_words :: "nat list \<Rightarrow> w32 list" where
  "be_words (a # b # c # d # bs) = be_word [a, b, c, d] # be_words bs"
| "be_words _ = []"

definition sha_block :: "sha_state \<Rightarrow> nat list \<Rightarrow> sha_state" where
  "sha_block s blk =
     (let ws = rev (sha_extend 48 (rev (be_words blk)));
          t = foldl sha_round s (zip sha_k ws)
      in \<lparr>sa = sa s + sa t, sb = sb s + sb t, sc = sc s + sc t, sd = sd s + sd t,
          se = se s + se t, sf = sf s + sf t, sg = sg s + sg t, sh = sh s + sh t\<rparr>)"

text \<open>Padding: 0x80, zeros up to 56 modulo 64, the bit length in eight bytes.\<close>

fun be_bytes :: "nat \<Rightarrow> nat \<Rightarrow> nat list" where
  "be_bytes 0 n = []"
| "be_bytes (Suc k) n = be_bytes k (n div 256) @ [n mod 256]"

definition sha_pad :: "nat list \<Rightarrow> nat list" where
  "sha_pad bs =
     (let n = length bs; z = (119 - n mod 64) mod 64
      in bs @ 128 # replicate z 0 @ be_bytes 8 ((n * 8) mod 2 ^ 64))"

fun sha_blocks :: "nat \<Rightarrow> sha_state \<Rightarrow> nat list \<Rightarrow> sha_state" where
  "sha_blocks 0 s bs = s"
| "sha_blocks (Suc n) s bs = sha_blocks n (sha_block s (take 64 bs)) (drop 64 bs)"

definition word_bytes :: "w32 \<Rightarrow> nat list" where
  "word_bytes w = be_bytes 4 (unat w)"

definition sha256 :: "string \<Rightarrow> nat list" where
  "sha256 msg =
     (let bs = sha_pad (map of_char msg);
          s = sha_blocks (length bs div 64) sha_init bs
      in concat (map word_bytes [sa s, sb s, sc s, sd s, se s, sf s, sg s, sh s]))"

lemma length_be_bytes [simp]: "length (be_bytes k n) = k"
  by (induction k arbitrary: n) auto

lemma be_bytes_bound: "b \<in> set (be_bytes k n) \<Longrightarrow> b < 256"
  by (induction k arbitrary: n) auto

lemma length_sha256 [simp]: "length (sha256 m) = 32"
  by (simp add: sha256_def word_bytes_def Let_def)

lemma sha256_bytes: "b \<in> set (sha256 m) \<Longrightarrow> b < 256"
  by (auto simp: sha256_def word_bytes_def Let_def dest: be_bytes_bound)

lemma sha_pad_blocks: "length (sha_pad bs) mod 64 = 0"
proof -
  define q r where "q = length bs div 64" and "r = length bs mod 64"
  then have n: "length bs = 64 * q + r" and "r < 64" by simp_all
  have "(119 - r) mod 64 = (if r \<le> 55 then 55 - r else 119 - r)"
  proof (cases "r \<le> 55")
    case True
    then have "119 - r = (55 - r) + 64 * 1" and "55 - r < 64" by simp_all
    then show ?thesis using True by (metis mod_less mod_mult_self2)
  next
    case False
    then show ?thesis by simp
  qed
  moreover have "length (sha_pad bs) = 64 * q + r + 9 + (119 - r) mod 64"
    unfolding sha_pad_def Let_def r_def [symmetric] by (simp add: n)
  ultimately have "length (sha_pad bs) = 64 * (q + 1) \<or> length (sha_pad bs) = 64 * (q + 2)"
    using \<open>r < 64\<close> by (auto split: if_splits)
  then show ?thesis by auto
qed

end
