(* ===== verification/LibHelpers.thy ===== *)
theory LibHelpers
  imports KubeTypes GoSha256
begin

text \<open>
  \<open>runtime/library/helpers.go\<close> and \<open>uid.go\<close>: the helpers on objects and lists every
  adapter uses (stamping resource versions, reading and writing list items, label matching,
  the resource-version order) and the deterministic UID.  Objects and lists are never nil
  here: the code's nil guards return the nil object unchanged.
\<close>

section \<open>Access to lists (meta.ExtractList, meta.SetList)\<close>

definition extract_list :: "'p rlist \<Rightarrow> 'p robj list option" where
  "extract_list l = (if l_extract l then Some (l_items l) else None)"

definition set_list :: "'p robj list \<Rightarrow> 'p rlist \<Rightarrow> 'p rlist option" where
  "set_list xs l = (if l_setlist l then Some (l\<lparr>l_items := xs\<rparr>) else None)"

section \<open>helpers.go\<close>

definition stampRV :: "'p robj \<Rightarrow> string \<Rightarrow> 'p robj" where
  "stampRV obj rv = with_meta (\<lambda>m. m\<lparr>om_rv := rv\<rparr>) obj"

definition setListRV :: "'p rlist \<Rightarrow> string \<Rightarrow> 'p rlist" where
  "setListRV l rv =
     (if l_iface l then l\<lparr>l_rv := rv\<rparr>
      else if l_accessor l then l\<lparr>l_rv := rv\<rparr> else l)"

definition listItems :: "'p rlist \<Rightarrow> 'p robj list res" where
  "listItems l = (case extract_list l of
     None \<Rightarrow> Inl (Plain ''extract list'') | Some xs \<Rightarrow> Inr xs)"

definition setListItemsReflect :: "'p rlist \<Rightarrow> 'p robj list \<Rightarrow> 'p rlist" where
  "setListItemsReflect l kept = (if l_reflect l then l\<lparr>l_items := kept\<rparr> else l)"

definition setListItems :: "'p rlist \<Rightarrow> 'p robj list \<Rightarrow> 'p rlist" where
  "setListItems l items =
     (case set_list items l of Some l' \<Rightarrow> l' | None \<Rightarrow> setListItemsReflect l items)"

definition matchesLabels :: "'p robj \<Rightarrow> lsel option \<Rightarrow> bool" where
  "matchesLabels obj sel =
     (case sel of
        None \<Rightarrow> True
      | Some s \<Rightarrow>
          (if ls_empty s then True
           else case accessor obj of
                  None \<Rightarrow> True
                | Some m \<Rightarrow> ls_matches s (om_labels m)))"

definition filterList :: "'p rlist \<Rightarrow> lsel option \<Rightarrow> 'p rlist" where
  "filterList l sel =
     (case extract_list l of
        None \<Rightarrow> l
      | Some items \<Rightarrow> setListItems l (filter (\<lambda>o'. matchesLabels o' sel) items))"

definition objectNameFromObj :: "'p robj \<Rightarrow> string" where
  "objectNameFromObj obj = (case accessor obj of None \<Rightarrow> [] | Some m \<Rightarrow> om_name m)"

definition objectNamespaceFromObj :: "'p robj \<Rightarrow> string" where
  "objectNamespaceFromObj obj = (case accessor obj of None \<Rightarrow> [] | Some m \<Rightarrow> om_ns m)"

definition rvLess :: "string \<Rightarrow> string \<Rightarrow> bool" where
  "rvLess a b =
     (if a = [] then b \<noteq> []
      else if b = [] then False
      else case (parse_uint64 a, parse_uint64 b) of
             (Some an, Some bn) \<Rightarrow> an < bn
           | _ \<Rightarrow> a < b)"

definition everythingSelector :: lsel where
  "everythingSelector = everything"

section \<open>uid.go\<close>

definition DeterministicUID :: "group_resource \<Rightarrow> string \<Rightarrow> string \<Rightarrow> string" where
  "DeterministicUID gr namespace name =
     (let h = sha256 (gr_group gr @ ''/'' @ gr_resource gr @ ''/'' @ namespace @ ''/'' @ name)
      in hex_bytes (take 4 h) @ ''-'' @ hex_bytes (take 2 (drop 4 h)) @ ''-'' @
         hex_bytes (take 2 (drop 6 h)) @ ''-'' @ hex_bytes (take 2 (drop 8 h)) @ ''-'' @
         hex_bytes (take 6 (drop 10 h)))"

section \<open>Lemmas on the helpers\<close>

lemma accessor_stampRV [simp]:
  "accessor (stampRV o' rv) = map_option (\<lambda>m. m\<lparr>om_rv := rv\<rparr>) (accessor o')"
  by (cases o') (simp_all add: stampRV_def)

lemma payload_stampRV [simp]: "payload (stampRV o' rv) = payload o'"
  by (cases o') (simp_all add: stampRV_def)

lemma name_stampRV [simp]: "objectNameFromObj (stampRV o' rv) = objectNameFromObj o'"
  by (cases o') (simp_all add: objectNameFromObj_def stampRV_def)

lemma stampRV_idem [simp]: "stampRV (stampRV o' a) b = stampRV o' b"
  by (cases o') (simp_all add: stampRV_def)

lemma matchesLabels_stampRV [simp]: "matchesLabels (stampRV o' rv) sel = matchesLabels o' sel"
  by (cases o') (simp_all add: matchesLabels_def stampRV_def split: option.splits)

lemma std_shape_setListItems [simp]:
  "std_shape l \<Longrightarrow> setListItems l xs = l\<lparr>l_items := xs\<rparr>"
  by (simp add: setListItems_def set_list_def std_shape_def)

lemma std_shape_items_update [simp]: "std_shape (l\<lparr>l_items := xs\<rparr>) = std_shape l"
  by (simp add: std_shape_def)

lemma std_shape_rv_update [simp]: "std_shape (l\<lparr>l_rv := xs\<rparr>) = std_shape l"
  by (simp add: std_shape_def)

lemma filterList_std [simp]:
  "std_shape l \<Longrightarrow>
   filterList l sel = l\<lparr>l_items := filter (\<lambda>o'. matchesLabels o' sel) (l_items l)\<rparr>"
  by (simp add: filterList_def extract_list_def) (simp add: std_shape_def)

lemma setListRV_std [simp]: "std_shape l \<Longrightarrow> setListRV l rv = l\<lparr>l_rv := rv\<rparr>"
  by (simp add: setListRV_def std_shape_def)

lemma listItems_std [simp]: "std_shape l \<Longrightarrow> listItems l = Inr (l_items l)"
  by (simp add: listItems_def extract_list_def std_shape_def)

lemma rvLess_dec [simp]:
  "m < 2 ^ 64 \<Longrightarrow> n < 2 ^ 64 \<Longrightarrow> rvLess (dec_nat m) (dec_nat n) \<longleftrightarrow> m < n"
  by (simp add: rvLess_def)

lemma rvLess_irrefl [simp]: "\<not> rvLess a a"
  by (auto simp: rvLess_def split: option.splits)

lemma rvLess_Nil [simp]: "rvLess [] b \<longleftrightarrow> b \<noteq> []" "\<not> rvLess a []"
  by (auto simp: rvLess_def)

text \<open>
  On the resource versions etcd hands out (decimal numbers, or empty) \<open>rvLess\<close> is a strict
  order.
\<close>

definition numeric_rv :: "string \<Rightarrow> bool" where
  "numeric_rv s \<longleftrightarrow> s = [] \<or> parse_uint64 s \<noteq> None"

lemma rvLess_trans_numeric:
  "numeric_rv a \<Longrightarrow> numeric_rv b \<Longrightarrow> numeric_rv c \<Longrightarrow> rvLess a b \<Longrightarrow> rvLess b c \<Longrightarrow> rvLess a c"
  by (auto simp: rvLess_def numeric_rv_def split: if_splits)

lemma rvLess_asym: "rvLess a b \<Longrightarrow> \<not> rvLess b a"
  by (auto simp: rvLess_def split: if_splits option.splits)

text \<open>On mixed strings it is not one: 9 < 10 numerically, 10 < 1a and 1a < 9 bytewise.\<close>

lemma rvLess_mixed_cycle:
  "rvLess ''9'' ''10'' \<and> rvLess ''10'' ''1a'' \<and> rvLess ''1a'' ''9''"
  by (simp add: rvLess_def parse_uint64_def is_digit_def digit_val_def less_char_def)

subsection \<open>The shape of a deterministic UID\<close>

text \<open>The layout 8-4-4-4-12: \<open>True\<close> marks a dash, \<open>False\<close> a lower-case hexadecimal digit.\<close>

definition uuid_mask :: "bool list" where
  "uuid_mask = replicate 8 False @ True # replicate 4 False @ True # replicate 4 False @ True #
     replicate 4 False @ True # replicate 12 False"

definition uuid_shape :: "string \<Rightarrow> bool" where
  "uuid_shape s \<longleftrightarrow> list_all2 (\<lambda>dash c. if dash then c = CHR ''-'' else is_hex c) uuid_mask s"

lemma uuid_shape_length: "uuid_shape s \<Longrightarrow> length s = 36"
  by (auto simp: uuid_shape_def uuid_mask_def dest!: list_all2_lengthD)

lemma list_all2_replicate_hex:
  "length a = n \<Longrightarrow> \<forall>x\<in>set a. is_hex x \<Longrightarrow>
   list_all2 (\<lambda>dash c. if dash then c = CHR ''-'' else is_hex c) (replicate n False) a"
  by (simp add: list_all2_conv_all_nth)

lemma uuid_shape_parts:
  assumes "length a = 8" "length b = 4" "length c = 4" "length d = 4" "length e = 12"
    and "\<forall>x\<in>set (a @ b @ c @ d @ e). is_hex x"
  shows "uuid_shape (a @ ''-'' @ b @ ''-'' @ c @ ''-'' @ d @ ''-'' @ e)"
  unfolding uuid_shape_def uuid_mask_def append_Cons append_Nil
  using assms
  by (intro list_all2_appendI list_all2_Cons [THEN iffD2] conjI list_all2_replicate_hex) auto

lemma DeterministicUID_uuid: "uuid_shape (DeterministicUID gr ns nm)"
proof -
  let ?h = "sha256 (gr_group gr @ ''/'' @ gr_resource gr @ ''/'' @ ns @ ''/'' @ nm)"
  have hex: "set (hex_bytes bs) \<subseteq> Collect is_hex" if "set bs \<subseteq> set ?h" for bs
    using that by (auto intro!: hex_bytes_is_hex [of bs] dest: sha256_bytes)
  have "set (take n (drop m ?h)) \<subseteq> set ?h" for n m
    by (meson order_trans set_drop_subset set_take_subset)
  then have part: "set (hex_bytes (take n (drop m ?h))) \<subseteq> Collect is_hex" for n m
    by (rule hex)
  have "\<forall>x\<in>set (hex_bytes (take 4 ?h) @ hex_bytes (take 2 (drop 4 ?h)) @
          hex_bytes (take 2 (drop 6 ?h)) @ hex_bytes (take 2 (drop 8 ?h)) @
          hex_bytes (take 6 (drop 10 ?h))). is_hex x"
    using part [of 4 0] part [of 2 4] part [of 2 6] part [of 2 8] part [of 6 10] by auto
  then show ?thesis
    unfolding DeterministicUID_def Let_def by (intro uuid_shape_parts) simp_all
qed

end
