(* ===== verification/Pagination.thy ===== *)
theory Pagination
  imports LibHelpers
begin

text \<open>
  \<open>runtime/library/pagination.go\<close>: the continue token and the page cut of a sorted list.
  Go's \<open>int\<close> arithmetic wraps at 64 bits and a slice expression out of range panics; both
  are written out.
\<close>

section \<open>Panics and machine integers\<close>

text \<open>A call either panics or returns (an error or a value).\<close>

datatype 'a run = Panic | Ret "'a res"

definition wrap64 :: "int \<Rightarrow> int" where
  "wrap64 i = (i + 2 ^ 63) mod 2 ^ 64 - 2 ^ 63"

definition int64 :: "int \<Rightarrow> bool" where
  "int64 i \<longleftrightarrow> - (2 ^ 63) \<le> i \<and> i < 2 ^ 63"

text \<open>\<open>xs[a:b]\<close>; the bounds used here never exceed the length, so the capacity is not needed.\<close>

definition go_slice :: "'a list \<Rightarrow> int \<Rightarrow> int \<Rightarrow> 'a list option" where
  "go_slice xs a b =
     (if 0 \<le> a \<and> a \<le> b \<and> b \<le> int (length xs)
      then Some (take (nat (b - a)) (drop (nat a) xs)) else None)"

lemma wrap64_id [simp]: "int64 i \<Longrightarrow> wrap64 i = i"
  by (simp add: wrap64_def int64_def)

section \<open>The continue token\<close>

definition encodeContinueToken :: "string \<Rightarrow> int \<Rightarrow> string" where
  "encodeContinueToken rv offset = b64_encode (rv @ '':'' @ dec_int offset)"

definition decodeContinueToken :: "string \<Rightarrow> (string \<times> int) res" where
  "decodeContinueToken token =
     (case b64_decode token of
        None \<Rightarrow> Inl (Plain ''base64 decode'')
      | Some raw \<Rightarrow>
          (case split2 (CHR '':'') raw of
             [rv, off] \<Rightarrow>
               (case atoi off of
                  None \<Rightarrow> Inl (Plain ''invalid offset'')
                | Some i \<Rightarrow> Inr (rv, i))
           | _ \<Rightarrow> Inl (Plain ''expected rv:offset format'')))"

section \<open>paginateList\<close>

text \<open>
  The items are sorted by name (\<open>sort.Slice\<close>; see \<open>sorts_by_unique\<close> for why the choice of
  sorting routine does not matter when names are distinct).
\<close>

definition pageOffset :: "string \<Rightarrow> string \<Rightarrow> int res" where
  "pageOffset continueToken currentRV =
     (if continueToken = [] then Inr 0
      else case decodeContinueToken continueToken of
             Inl e \<Rightarrow> Inl (BadRequest ''invalid continue token'')
           | Inr (tokenRV, tokenOffset) \<Rightarrow>
               (if tokenRV \<noteq> currentRV then Inl (Expired tokenRV currentRV)
                else Inr tokenOffset))"

definition paginateList ::
  "'p rlist \<Rightarrow> int \<Rightarrow> string \<Rightarrow> string \<Rightarrow> 'p rlist run" where
  "paginateList l limit continueToken currentRV =
     (if limit = 0 \<and> continueToken = [] then Ret (Inr l)
      else case extract_list l of
        None \<Rightarrow> Ret (Inl (Plain ''extracting list items''))
      | Some items0 \<Rightarrow>
          (let items = sort_key objectNameFromObj items0 in
           case pageOffset continueToken currentRV of
             Inl e \<Rightarrow> Ret (Inl e)
           | Inr offset0 \<Rightarrow>
               (let total = int (length items);
                    offset = (if offset0 > total then total else offset0);
                    end' = (if limit > 0 \<and> wrap64 (offset + limit) < total
                            then wrap64 (offset + limit) else total)
                in case go_slice items offset end' of
                     None \<Rightarrow> Panic
                   | Some page \<Rightarrow>
                       (let nextContinue = (if end' < total
                                            then encodeContinueToken currentRV end' else [])
                        in case set_list page l of
                             None \<Rightarrow> Ret (Inl (Plain ''setting list items''))
                           | Some l' \<Rightarrow>
                               Ret (Inr (if l_iface l'
                                 then l'\<lparr>l_rv := currentRV, l_continue := nextContinue,
                                         l_remaining := (if end' < total then Some (total - end')
                                                         else None)\<rparr>
                                 else l'))))))"

section \<open>Lemmas\<close>

lemma atoi_dec_int:
  assumes "int64 i"
  shows "atoi (dec_int i) = Some i"
proof (cases "i < 0")
  case True
  define n where "n = nat (- i)"
  have n: "int n = - i" using True by (simp add: n_def)
  with assms have b: "- (2 ^ 63) \<le> - int n" "- int n < 2 ^ 63" by (simp_all add: int64_def)
  have "dec_int i = CHR ''-'' # dec_nat n" using True by (simp add: dec_int_def n_def)
  moreover have "atoi (CHR ''-'' # dec_nat n) = Some (- int n)"
    unfolding atoi_def using b by (simp add: digits_val_dec_nat)
  ultimately show ?thesis using n by simp
next
  case False
  then show ?thesis
    using assms atoi_dec_nat [of "nat i"] by (simp add: dec_int_def int64_def)
qed

lemma token_decode_encode [go_simps]:
  assumes "CHR '':'' \<notin> set rv" and "int64 off"
  shows "decodeContinueToken (encodeContinueToken rv off) = Inr (rv, off)"
  using split2_at [OF assms(1), of "dec_int off"] atoi_dec_int [OF assms(2)]
  by (simp add: decodeContinueToken_def encodeContinueToken_def b64_roundtrip)

lemma encode_not_Nil [simp]: "encodeContinueToken rv off \<noteq> []"
proof
  assume e: "encodeContinueToken rv off = []"
  have "b64_decode (encodeContinueToken rv off) = Some (rv @ '':'' @ dec_int off)"
    by (simp add: encodeContinueToken_def b64_roundtrip)
  with e show False by (simp add: b64_decode_def)
qed

lemma dec_nat_no_colon [simp]: "CHR '':'' \<notin> set (dec_nat n)"
  by (simp add: dec_nat_notin)

text \<open>What one page request returns on a well-formed list when nothing is out of range.\<close>

definition page_result :: "'p rlist \<Rightarrow> nat \<Rightarrow> nat \<Rightarrow> string \<Rightarrow> 'p rlist" where
  "page_result l off lim rv =
     (let items = sort_key objectNameFromObj (l_items l); n = length items in
      l\<lparr>l_items := take lim (drop off items), l_rv := rv,
        l_continue := (if off + lim < n then encodeContinueToken rv (int (off + lim)) else []),
        l_remaining := (if off + lim < n then Some (int n - int (off + lim)) else None)\<rparr>)"

lemma paginate_at:
  assumes std: "std_shape l" and lim: "0 < lim" and off: "off \<le> length (l_items l)"
    and range: "int (length (l_items l)) + int lim < 2 ^ 63"
    and tok: "(tok = [] \<and> off = 0) \<or> (tok \<noteq> [] \<and> decodeContinueToken tok = Inr (rv, int off))"
  shows "paginateList l (int lim) tok rv = Ret (Inr (page_result l off lim rv))"
proof -
  have po: "pageOffset tok rv = Inr (int off)" using tok by (auto simp: pageOffset_def)
  have w: "wrap64 (int off + int lim) = int off + int lim"
    using off range by (intro wrap64_id) (simp add: int64_def)
  have ng: "\<not> int off > int (length (l_items l))" using off by simp
  show ?thesis
  proof (cases "off + lim < length (l_items l)")
    case True
    then have "int off + int lim < int (length (l_items l))" by linarith
    with True show ?thesis
      unfolding paginateList_def po Let_def length_sort
      using std lim ng
      by (simp add: extract_list_def set_list_def std_shape_def w go_slice_def page_result_def Let_def
          nat_int_add)
  next
    case False
    then have f: "\<not> int off + int lim < int (length (l_items l))" by linarith
    have tk: "take (length (l_items l) - off) (drop off (sort_key objectNameFromObj (l_items l))) =
      take lim (drop off (sort_key objectNameFromObj (l_items l)))"
      using False by simp
    have "nat (int (length (l_items l)) - int off) = length (l_items l) - off" by simp
    with f False show ?thesis
      unfolding paginateList_def po Let_def length_sort
      using std lim ng off tk
      by (simp add: extract_list_def set_list_def std_shape_def w go_slice_def page_result_def Let_def)
  qed
qed

lemma paginate_expired:
  assumes "extract_list l = Some xs" and "decodeContinueToken tok = Inr (rv', off)"
    and "tok \<noteq> []" and "rv' \<noteq> rv"
  shows "paginateList l limit tok rv = Ret (Inl (Expired rv' rv))"
  using assms by (simp add: paginateList_def pageOffset_def Let_def)

lemma paginate_malformed:
  assumes "extract_list l = Some xs" and "decodeContinueToken tok = Inl e" and "tok \<noteq> []"
  shows "paginateList l limit tok rv = Ret (Inl (BadRequest ''invalid continue token''))"
  using assms by (simp add: paginateList_def pageOffset_def Let_def)

text \<open>A negative offset in a token always reaches the slice expression and panics.\<close>

lemma paginate_negative_panics:
  assumes "extract_list l = Some xs" and "decodeContinueToken tok = Inr (rv, off)"
    and "tok \<noteq> []" and "off < 0"
  shows "paginateList l limit tok rv = Panic"
  using assms by (auto simp: paginateList_def pageOffset_def Let_def go_slice_def)

text \<open>So does a limit that overflows when a positive offset is added to it.\<close>

lemma paginate_overflow_panics:
  assumes "extract_list l = Some xs" and "decodeContinueToken tok = Inr (rv, off)"
    and "tok \<noteq> []" and "0 < off" and "off \<le> int (length xs)"
    and "limit < 2 ^ 63" and "2 ^ 63 \<le> off + limit" and "int (length xs) < 2 ^ 63"
  shows "paginateList l limit tok rv = Panic"
proof -
  have "(off + limit + 2 ^ 63) mod 2 ^ 64 = off + limit + 2 ^ 63 - 2 ^ 64"
  proof -
    have "(off + limit + 2 ^ 63 - 2 ^ 64) mod 2 ^ 64 = off + limit + 2 ^ 63 - 2 ^ 64"
      using assms(5-8) by (intro mod_pos_pos_trivial) simp_all
    then show ?thesis by (simp only: minus_mod_self2)
  qed
  then have w: "wrap64 (off + limit) = off + limit - 2 ^ 64" by (simp add: wrap64_def)
  have neg: "off + limit - 2 ^ 64 < 0" and lp: "0 < limit" using assms(5-8) by simp_all
  show ?thesis
    unfolding paginateList_def pageOffset_def Let_def
    using assms(1-5) neg lp by (simp add: w go_slice_def)
qed

section \<open>Walking the pages\<close>

text \<open>
  A client that follows the continue tokens: request \<open>i\<close> is answered from the list \<open>ls i\<close>
  (a backend may return its objects in another order each time).  \<open>fuel\<close> bounds the number
  of requests; the result is \<open>None\<close> when it runs out or a request fails.
\<close>

fun walk_pages :: "nat \<Rightarrow> (nat \<Rightarrow> 'p rlist) \<Rightarrow> int \<Rightarrow> string \<Rightarrow> string \<Rightarrow> 'p robj list option" where
  "walk_pages 0 ls limit tok rv = None"
| "walk_pages (Suc fuel) ls limit tok rv =
     (case paginateList (ls 0) limit tok rv of
        Ret (Inr l) \<Rightarrow>
          (if l_continue l = [] then Some (l_items l)
           else map_option (\<lambda>rest. l_items l @ rest)
                  (walk_pages fuel (\<lambda>i. ls (Suc i)) limit (l_continue l) rv))
      | _ \<Rightarrow> None)"

lemma walk_from:
  assumes "\<And>i. std_shape (ls i)" and "\<And>i. sort_key objectNameFromObj (l_items (ls i)) = S"
    and "0 < lim" and "int (length S) + int lim < 2 ^ 63" and "CHR '':'' \<notin> set rv"
    and "off \<le> length S" and "length S - off < fuel"
    and "(tok = [] \<and> off = 0) \<or> (tok \<noteq> [] \<and> decodeContinueToken tok = Inr (rv, int off))"
  shows "walk_pages fuel ls (int lim) tok rv = Some (drop off S)"
  using assms
proof (induction fuel arbitrary: ls off tok)
  case (Suc fuel)
  have len: "length (l_items (ls i)) = length S" for i
    using Suc.prems(2) [of i] length_sort by metis
  have pg: "paginateList (ls 0) (int lim) tok rv = Ret (Inr (page_result (ls 0) off lim rv))"
    by (rule paginate_at) (use Suc.prems len in auto)
  show ?case
  proof (cases "off + lim < length S")
    case True
    let ?tok = "encodeContinueToken rv (int (off + lim))"
    have d: "decodeContinueToken ?tok = Inr (rv, int (off + lim))"
      using Suc.prems(4,5) True by (intro token_decode_encode) (auto simp: int64_def)
    have "walk_pages fuel (\<lambda>i. ls (Suc i)) (int lim) ?tok rv = Some (drop (off + lim) S)"
      using Suc.prems d True by (intro Suc.IH) auto
    moreover have "take lim (drop off S) @ drop (off + lim) S = drop off S"
      by (metis add.commute append_take_drop_id drop_drop)
    ultimately show ?thesis
      using pg True len by (simp add: page_result_def Let_def Suc.prems(2))
  next
    case False
    then show ?thesis
      using pg len by (simp add: page_result_def Let_def Suc.prems(2))
  qed
qed simp

section \<open>Properties\<close>

text \<open>
  A continue token decodes to the resource version and the offset it was made from, for
  every resource version without a colon and every 64-bit offset.
\<close>

theorem continue_token_roundtrip:
  assumes "CHR '':'' \<notin> set rv" and "int64 off"
  shows "decodeContinueToken (encodeContinueToken rv off) = Inr (rv, off)"
  by (rule token_decode_encode [OF assms])

theorem continue_token_roundtrip_witness:
  "decodeContinueToken (encodeContinueToken ''42'' 100) = Inr (''42'', 100)"
  by (rule continue_token_roundtrip) (simp_all add: int64_def)

text \<open>
  C22: Following the continue tokens with any positive limit returns every object of the list
  exactly once, in name order, within one request more than there are objects, even if
  the backend returns its objects in a different order on every request (names are distinct
  and the resource version does not change).
\<close>

theorem pagination_complete:
  assumes "\<And>i. std_shape (ls i)" and "\<And>i. mset (l_items (ls i)) = mset xs"
    and "distinct (map objectNameFromObj xs)"
    and "0 < lim" and "int (length xs) + int lim < 2 ^ 63" and "CHR '':'' \<notin> set rv"
  shows "walk_pages (Suc (length xs)) ls (int lim) [] rv = Some (sort_key objectNameFromObj xs)"
proof -
  have "sort_key objectNameFromObj (l_items (ls i)) = sort_key objectNameFromObj xs" for i
    using sort_key_perm [of xs "l_items (ls i)" objectNameFromObj] assms(2,3) by simp
  then show ?thesis
    using assms walk_from [of ls "sort_key objectNameFromObj xs" lim rv 0 "Suc (length xs)" "[]"]
    by simp
qed

definition named_obj :: "string \<Rightarrow> unit robj" where
  "named_obj n = Obj (empty_meta\<lparr>om_name := n\<rparr>) ()"

lemma name_named_obj [simp]: "objectNameFromObj (named_obj n) = n"
  by (simp add: named_obj_def objectNameFromObj_def)

theorem pagination_complete_witness:
  "walk_pages 4 (\<lambda>i. std_list (if even i then [named_obj ''b'', named_obj ''a'', named_obj ''c'']
                              else [named_obj ''c'', named_obj ''b'', named_obj ''a''])) 2 [] ''7''
   = Some [named_obj ''a'', named_obj ''b'', named_obj ''c'']"
proof -
  let ?xs = "[named_obj ''b'', named_obj ''a'', named_obj ''c'']"
  let ?ls = "\<lambda>i::nat. std_list (if even i then ?xs else [named_obj ''c'', named_obj ''b'', named_obj ''a''])"
  have "walk_pages (Suc (length ?xs)) ?ls (int 2) [] ''7'' = Some (sort_key objectNameFromObj ?xs)"
    by (rule pagination_complete) auto
  moreover have "sort_key objectNameFromObj ?xs = [named_obj ''a'', named_obj ''b'', named_obj ''c'']"
    by (simp add: less_char_def)
  moreover have "Suc (length ?xs) = 4" by simp
  ultimately show ?thesis by (simp only: of_nat_numeral)
qed



end
