(* ===== verification/FieldSel.thy ===== *)
theory FieldSel
  imports LibHelpers
begin

text \<open>
  \<open>runtime/library/fieldsel.go\<close>: validation of field selectors against the known fields and
  matching of objects.  The consumer's \<open>FieldAccessor\<close> is an optional function in the
  configuration.
\<close>

type_synonym 'p field_accessor = "'p robj \<Rightarrow> string \<Rightarrow> string option"

record 'p fieldSelectorConfig =
  fc_selectable :: "string list"
  fc_accessor :: "'p field_accessor option"

definition knownFields :: "'p fieldSelectorConfig \<Rightarrow> string list" where
  "knownFields c = ''metadata.name'' # ''metadata.namespace'' # fc_selectable c"

fun firstUnknown :: "string list \<Rightarrow> freq list \<Rightarrow> string option" where
  "firstUnknown known [] = None"
| "firstUnknown known (r # rs) =
     (if fr_field r \<in> set known then firstUnknown known rs else Some (fr_field r))"

definition fs_validate :: "'p fieldSelectorConfig \<Rightarrow> fsel option \<Rightarrow> api_err option" where
  "fs_validate c sel =
     (case sel of
        None \<Rightarrow> None
      | Some s \<Rightarrow>
          (if fs_empty s then None
           else map_option (\<lambda>f. BadRequest (''field label not supported: '' @ f))
                  (firstUnknown (knownFields c) (fs_reqs s))))"

text \<open>The value a requirement is compared with; \<open>None\<close> makes the match fail.\<close>

definition fieldValue :: "'p fieldSelectorConfig \<Rightarrow> 'p robj \<Rightarrow> string \<Rightarrow> string option" where
  "fieldValue c obj f =
     (if f = ''metadata.name'' then Some (objectNameFromObj obj)
      else if f = ''metadata.namespace'' then Some (objectNamespaceFromObj obj)
      else case fc_accessor c of
             None \<Rightarrow> None
           | Some acc \<Rightarrow> acc obj f)"

definition matchesReq :: "'p fieldSelectorConfig \<Rightarrow> 'p robj \<Rightarrow> freq \<Rightarrow> bool" where
  "matchesReq c obj req =
     (case fieldValue c obj (fr_field req) of
        None \<Rightarrow> False
      | Some val \<Rightarrow>
          (if fr_op req = ''='' \<or> fr_op req = ''=='' then val = fr_value req
           else if fr_op req = ''!='' then val \<noteq> fr_value req
           else False))"

definition matchesField :: "'p fieldSelectorConfig \<Rightarrow> 'p robj \<Rightarrow> fsel option \<Rightarrow> bool" where
  "matchesField c obj sel =
     (case sel of
        None \<Rightarrow> True
      | Some s \<Rightarrow> if fs_empty s then True else list_all (matchesReq c obj) (fs_reqs s))"

definition filterListByField :: "'p fieldSelectorConfig \<Rightarrow> 'p rlist \<Rightarrow> fsel option \<Rightarrow> 'p rlist" where
  "filterListByField c l sel =
     (case extract_list l of
        None \<Rightarrow> l
      | Some items \<Rightarrow> setListItems l (filter (\<lambda>o'. matchesField c o' sel) items))"

section \<open>Lemmas\<close>

lemma filterListByField_std [simp]:
  "std_shape l \<Longrightarrow>
   filterListByField c l sel = l\<lparr>l_items := filter (\<lambda>o'. matchesField c o' sel) (l_items l)\<rparr>"
  by (simp add: filterListByField_def extract_list_def) (simp add: std_shape_def)

lemma firstUnknown_None: "firstUnknown known rs = None \<longleftrightarrow> (\<forall>r\<in>set rs. fr_field r \<in> set known)"
  by (induction rs) auto

lemma fs_validate_None:
  "fs_validate c (Some s) = None \<longleftrightarrow>
     fs_empty s \<or> (\<forall>r\<in>set (fs_reqs s). fr_field r \<in> set (knownFields c))"
  by (auto simp: fs_validate_def firstUnknown_None)

lemma fs_validate_bad: "fs_validate c sel = Some e \<Longrightarrow> \<exists>m. e = BadRequest m"
  by (auto simp: fs_validate_def split: option.splits if_splits)

lemma fieldValue_stampRV [simp]:
  "fc_accessor c = None \<Longrightarrow> fieldValue c (stampRV obj rv) f = fieldValue c obj f"
  by (cases obj) (simp_all add: fieldValue_def objectNamespaceFromObj_def stampRV_def objectNameFromObj_def)

end
