(* ===== verification/Occ.thy ===== *)
theory Occ
  imports LibHelpers
begin

text \<open>
  \<open>runtime/library/occ.go\<close>: the tracker of the last resource version assigned per object name
  and the conflict check of an update.  The tracker's map is an association list; its mutex
  makes each operation atomic.
\<close>

type_synonym occ_tracker = "(string \<times> string) list"

definition newOCCTracker :: occ_tracker where
  "newOCCTracker = []"

definition recordRV :: "'p robj \<Rightarrow> occ_tracker \<Rightarrow> occ_tracker" where
  "recordRV obj t =
     (case accessor obj of
        None \<Rightarrow> t
      | Some m \<Rightarrow> aput (om_name m) (om_rv m) t)"

definition occ_stampRV :: "occ_tracker \<Rightarrow> 'p robj \<Rightarrow> string \<Rightarrow> 'p robj" where
  "occ_stampRV t obj name =
     (case map_of t name of
        None \<Rightarrow> obj
      | Some rv \<Rightarrow> stampRV obj rv)"

text \<open>The extracted items are pointers into the list, so stamping them changes the list.\<close>

definition stampListRVs :: "occ_tracker \<Rightarrow> 'p rlist \<Rightarrow> 'p rlist" where
  "stampListRVs t l =
     (case extract_list l of
        None \<Rightarrow> l
      | Some items \<Rightarrow>
          l\<lparr>l_items := map (\<lambda>item. case accessor item of
                                     None \<Rightarrow> item
                                   | Some m \<Rightarrow> occ_stampRV t item (om_name m)) items\<rparr>)"

definition checkConflict :: "string \<Rightarrow> 'p robj \<Rightarrow> 'p robj \<Rightarrow> api_err option" where
  "checkConflict name current updated =
     (case accessor current of
        None \<Rightarrow> Some (Wrapped ''cannot access current object metadata'' (Plain ''no metadata''))
      | Some cm \<Rightarrow>
          (case accessor updated of
             None \<Rightarrow> Some (Wrapped ''cannot access updated object metadata'' (Plain ''no metadata''))
           | Some um \<Rightarrow>
               (let incomingRV = om_rv um; storedRV = om_rv cm
                in if incomingRV = []
                   then Some (Conflict name ''resourceVersion must be specified for an update'')
                   else if incomingRV \<noteq> storedRV
                   then Some (Conflict name ''the object has been modified'')
                   else None)))"

definition deleteRV :: "string \<Rightarrow> occ_tracker \<Rightarrow> occ_tracker" where
  "deleteRV name t = adel name t"

section \<open>Lemmas\<close>

lemma checkConflict_None:
  "checkConflict name cur upd = None \<longleftrightarrow>
     (\<exists>cm um. accessor cur = Some cm \<and> accessor upd = Some um \<and>
              om_rv um \<noteq> [] \<and> om_rv um = om_rv cm)"
  by (auto simp: checkConflict_def Let_def split: option.splits)

lemma checkConflict_conflict:
  "accessor cur = Some cm \<Longrightarrow> accessor upd = Some um \<Longrightarrow> om_rv um \<noteq> om_rv cm \<Longrightarrow>
   \<exists>m. checkConflict name cur upd = Some (Conflict name m)"
  by (auto simp: checkConflict_def Let_def)

lemma recordRV_lookup:
  "accessor obj = Some m \<Longrightarrow> map_of (recordRV obj t) = (map_of t)(om_name m \<mapsto> om_rv m)"
  by (simp add: recordRV_def)

lemma recordRV_distinct: "distinct (akeys t) \<Longrightarrow> distinct (akeys (recordRV obj t))"
  by (auto simp: recordRV_def split: option.splits)

lemma deleteRV_lookup: "map_of (deleteRV name t) = (map_of t)(name := None)"
  by (simp add: deleteRV_def)

lemma deleteRV_distinct: "distinct (akeys t) \<Longrightarrow> distinct (akeys (deleteRV name t))"
  by (simp add: deleteRV_def)

lemma occ_stampRV_tracked:
  "map_of t name = Some rv \<Longrightarrow> occ_stampRV t obj name = stampRV obj rv"
  by (simp add: occ_stampRV_def)

lemma occ_stampRV_untracked: "map_of t name = None \<Longrightarrow> occ_stampRV t obj name = obj"
  by (simp add: occ_stampRV_def)

lemma name_occ_stampRV [simp]: "objectNameFromObj (occ_stampRV t obj n) = objectNameFromObj obj"
  by (simp add: occ_stampRV_def split: option.splits)

lemma stampListRVs_std:
  "std_shape l \<Longrightarrow>
   map objectNameFromObj (l_items (stampListRVs t l)) = map objectNameFromObj (l_items l)"
  by (auto simp: stampListRVs_def extract_list_def split: option.splits)

end
