(* ===== verification/LibAdapter.thy ===== *)
theory LibAdapter
  imports Pagination FieldSel Occ
begin

text \<open>
  \<open>runtime/library/adapter.go\<close>, \<open>bookmark.go\<close> and \<open>options.go\<close>: the enhanced REST adapter.
  The consumer's backend (the interfaces of \<open>runtime/storage/backend.go\<close>) is a record of
  state transformers over its own state \<open>'s\<close>; the adapter's state is the resource-version
  counter, the optional tracker and the log of events handed to the broadcaster.
\<close>

section \<open>The backend interface (storage/backend.go)\<close>

record ctx =
  c_user :: "user option"
  c_ns :: string

datatype 'p anyobj = AnObj "'p robj" | AList "'p rlist"

type_synonym row_cells = "string list"

record ('s, 'p) WritableBackend =
  bw_create :: "user option \<Rightarrow> 'p robj \<Rightarrow> 's \<Rightarrow> 'p robj res \<times> 's"
  bw_update :: "user option \<Rightarrow> string \<Rightarrow> 'p robj \<Rightarrow> bool \<Rightarrow> 's \<Rightarrow> ('p robj \<times> bool) res \<times> 's"
  bw_delete :: "user option \<Rightarrow> string \<Rightarrow> 's \<Rightarrow> ('p robj \<times> bool) res \<times> 's"

record ('s, 'p) Backend =
  be_new :: "'p robj"
  be_get :: "user option \<Rightarrow> string \<Rightarrow> 's \<Rightarrow> 'p robj res \<times> 's"
  be_list :: "user option \<Rightarrow> lsel option \<Rightarrow> 's \<Rightarrow> 'p rlist res \<times> 's"
  be_columns :: "string list"
  be_rows :: "'p anyobj \<Rightarrow> row_cells list res"
  be_writable :: "('s, 'p) WritableBackend option"

text \<open>Validation functions and \<open>rest.UpdatedObjectInfo\<close>, as the API machinery passes them.\<close>

type_synonym 'p validate = "('p robj \<Rightarrow> api_err option) option"
type_synonym 'p validate_update = "('p robj \<Rightarrow> 'p robj \<Rightarrow> api_err option) option"
type_synonym 'p updated_info = "'p robj option \<Rightarrow> 'p robj res"

definition run_validate :: "'p validate \<Rightarrow> 'p robj \<Rightarrow> api_err option" where
  "run_validate v obj = (case v of None \<Rightarrow> None | Some f \<Rightarrow> f obj)"

definition run_validate_update :: "'p validate_update \<Rightarrow> 'p robj \<Rightarrow> 'p robj \<Rightarrow> api_err option" where
  "run_validate_update v new old = (case v of None \<Rightarrow> None | Some f \<Rightarrow> f new old)"

section \<open>Options and state\<close>

record 'p FieldSelectorOptions =
  fo_selectable :: "string list"
  fo_accessor :: "'p field_accessor option"

record 'p Options =
  op_gr :: group_resource
  op_uids :: bool
  op_pagination :: bool
  op_occ :: bool
  op_bookmark :: bool
  op_fields :: "'p FieldSelectorOptions option"

record 'p REST =
  r_gr :: group_resource
  r_rv :: "64 word"
  r_log :: "'p event list"
  r_occ :: "occ_tracker option"
  r_field :: "'p fieldSelectorConfig option"
  r_uids :: bool
  r_pagination :: bool
  r_bookmark :: bool

definition New :: "'p Options \<Rightarrow> 'p REST" where
  "New opts =
     \<lparr>r_gr = op_gr opts, r_rv = 1, r_log = [],
      r_occ = (if op_occ opts then Some newOCCTracker else None),
      r_field = map_option (\<lambda>f. \<lparr>fc_selectable = fo_selectable f, fc_accessor = fo_accessor f\<rparr>)
                  (op_fields opts),
      r_uids = op_uids opts, r_pagination = op_pagination opts, r_bookmark = op_bookmark opts\<rparr>"

definition CurrentResourceVersion :: "'p REST \<Rightarrow> string" where
  "CurrentResourceVersion r = dec_nat (unat (r_rv r))"

definition NextResourceVersion :: "'p REST \<Rightarrow> string \<times> 'p REST" where
  "NextResourceVersion r = (let v = r_rv r + 1 in (dec_nat (unat v), r\<lparr>r_rv := v\<rparr>))"

section \<open>Publisher\<close>

text \<open>Each function also returns the stamped object: the code stamps it in place.\<close>

definition PublishAdded :: "'p robj \<Rightarrow> 'p REST \<Rightarrow> 'p robj \<times> 'p REST" where
  "PublishAdded obj r =
     (let (rv, r1) = NextResourceVersion r; o' = stampRV obj rv;
          r2 = r1\<lparr>r_occ := map_option (recordRV o') (r_occ r1)\<rparr>
      in (o', r2\<lparr>r_log := r_log r2 @ [\<lparr>ev_type = Added, ev_obj = o'\<rparr>]\<rparr>))"

definition PublishModified :: "'p robj \<Rightarrow> 'p REST \<Rightarrow> 'p robj \<times> 'p REST" where
  "PublishModified obj r =
     (let (rv, r1) = NextResourceVersion r; o' = stampRV obj rv;
          r2 = r1\<lparr>r_occ := map_option (recordRV o') (r_occ r1)\<rparr>
      in (o', r2\<lparr>r_log := r_log r2 @ [\<lparr>ev_type = Modified, ev_obj = o'\<rparr>]\<rparr>))"

definition PublishDeleted :: "'p robj \<Rightarrow> 'p REST \<Rightarrow> 'p robj \<times> 'p REST" where
  "PublishDeleted obj r =
     (let (rv, r1) = NextResourceVersion r; o' = stampRV obj rv;
          r2 = r1\<lparr>r_occ := map_option (deleteRV (objectNameFromObj o')) (r_occ r1)\<rparr>
      in (o', r2\<lparr>r_log := r_log r2 @ [\<lparr>ev_type = Deleted, ev_obj = o'\<rparr>]\<rparr>))"

section \<open>Read path\<close>

definition userFromCtx :: "ctx \<Rightarrow> user option" where
  "userFromCtx c = c_user c"

definition listOptsFrom :: "list_options option \<Rightarrow> lsel option" where
  "listOptsFrom opts =
     (case opts of
        None \<Rightarrow> Some everything
      | Some o' \<Rightarrow> (case lo_label o' of None \<Rightarrow> Some everything | Some s \<Rightarrow> Some s))"

definition Get :: "('s, 'p) Backend \<Rightarrow> ctx \<Rightarrow> string \<Rightarrow> 's \<times> 'p REST \<Rightarrow> 'p robj res \<times> 's \<times> 'p REST" where
  "Get B c name = (\<lambda>(s, r).
     case be_get B (userFromCtx c) name s of
       (Inl e, s1) \<Rightarrow> (Inl e, s1, r)
     | (Inr obj, s1) \<Rightarrow>
         (case r_occ r of
            None \<Rightarrow> (Inr obj, s1, r)
          | Some t \<Rightarrow> (Inr (occ_stampRV t obj name), s1, r)))"

text \<open>
  The field selector a request filters by: the error, no selector, or the selector.  Without
  a configuration only \<open>metadata.name\<close> and \<open>metadata.namespace\<close> are accepted.
\<close>

definition fieldSelectorOf :: "'p REST \<Rightarrow> list_options option \<Rightarrow> fsel option res" where
  "fieldSelectorOf r opts =
     (case opts of
        None \<Rightarrow> Inr None
      | Some o' \<Rightarrow>
          (case lo_field o' of
             None \<Rightarrow> Inr None
           | Some fs \<Rightarrow>
               (if fs_empty fs then Inr None
                else case r_field r of
                  Some c \<Rightarrow> (case fs_validate c (Some fs) of Some e \<Rightarrow> Inl e | None \<Rightarrow> Inr (Some fs))
                | None \<Rightarrow>
                    (case firstUnknown [''metadata.name'', ''metadata.namespace''] (fs_reqs fs) of
                       Some f \<Rightarrow> Inl (BadRequest (''field label not supported: '' @ f))
                     | None \<Rightarrow> Inr (Some fs)))))"

definition labelActive :: "lsel option \<Rightarrow> bool" where
  "labelActive sel = (case sel of None \<Rightarrow> False | Some s \<Rightarrow> \<not> ls_empty s)"

definition fieldConfigOf :: "'p REST \<Rightarrow> 'p fieldSelectorConfig" where
  "fieldConfigOf r = (case r_field r of Some c \<Rightarrow> c
     | None \<Rightarrow> \<lparr>fc_selectable = [], fc_accessor = None\<rparr>)"

definition List ::
  "('s, 'p) Backend \<Rightarrow> ctx \<Rightarrow> list_options option \<Rightarrow> 's \<times> 'p REST \<Rightarrow>
   'p rlist run \<times> 's \<times> 'p REST" where
  "List B c opts = (\<lambda>(s, r).
     case fieldSelectorOf r opts of
       Inl e \<Rightarrow> (Ret (Inl e), s, r)
     | Inr fieldSel \<Rightarrow>
         (let sel = listOptsFrom opts in
          case be_list B (userFromCtx c) sel s of
            (Inl e, s1) \<Rightarrow> (Ret (Inl e), s1, r)
          | (Inr out0, s1) \<Rightarrow>
              (let out1 = (if labelActive sel then filterList out0 sel else out0);
                   out2 = (case fieldSel of
                             None \<Rightarrow> out1
                           | Some fs \<Rightarrow> filterListByField (fieldConfigOf r) out1 (Some fs));
                   currentRV = CurrentResourceVersion r;
                   paged = (if r_pagination r
                            then (case opts of
                                    None \<Rightarrow> paginateList out2 0 [] currentRV
                                  | Some o' \<Rightarrow> paginateList out2 (lo_limit o') (lo_continue o') currentRV)
                            else Ret (Inr (setListRV out2 currentRV)))
               in case paged of
                    Ret (Inr out3) \<Rightarrow>
                      (Ret (Inr (case r_occ r of None \<Rightarrow> out3 | Some t \<Rightarrow> stampListRVs t out3)), s1, r)
                  | other \<Rightarrow> (other, s1, r))))"

section \<open>bookmark.go\<close>

definition bookmarkAnnotationKey :: string where
  "bookmarkAnnotationKey = ''k8s.io/initial-events-end''"

definition makeBookmarkEvent :: "'p robj \<Rightarrow> string \<Rightarrow> 'p event" where
  "makeBookmarkEvent obj rv =
     \<lparr>ev_type = Bookmark,
      ev_obj = with_meta (\<lambda>m. m\<lparr>om_rv := rv, om_anns := [(bookmarkAnnotationKey, ''true'')]\<rparr>) obj\<rparr>"

definition shouldEmitBookmark :: "bool \<Rightarrow> bool" where
  "shouldEmitBookmark allowWatchBookmarks = allowWatchBookmarks"

section \<open>Watch\<close>

text \<open>
  A watch is its prefix (what \<open>WatchWithPrefix\<close> replays) and the predicate \<open>watch.Filter\<close>
  applies to the replayed and the live events.
\<close>

record 'p wstream =
  ws_prefix :: "'p event list"
  ws_filter :: "'p event \<Rightarrow> bool"

definition delivered :: "'p wstream \<Rightarrow> 'p event list \<Rightarrow> 'p event list" where
  "delivered w live = filter (ws_filter w) (ws_prefix w @ live)"

definition hasFieldSel :: "'p REST \<Rightarrow> list_options option \<Rightarrow> bool" where
  "hasFieldSel r opts =
     (r_field r \<noteq> None \<and>
      (case opts of None \<Rightarrow> False
       | Some o' \<Rightarrow> (case lo_field o' of None \<Rightarrow> False | Some fs \<Rightarrow> \<not> fs_empty fs)))"

definition optField :: "list_options option \<Rightarrow> fsel option" where
  "optField opts = (case opts of None \<Rightarrow> None | Some o' \<Rightarrow> lo_field o')"

definition requestedRV :: "list_options option \<Rightarrow> string" where
  "requestedRV opts = (case opts of None \<Rightarrow> [] | Some o' \<Rightarrow> lo_rv o')"

definition allowBookmarks :: "list_options option \<Rightarrow> bool" where
  "allowBookmarks opts = (case opts of None \<Rightarrow> False | Some o' \<Rightarrow> lo_bookmarks o')"

definition watchAdmits :: "'p REST \<Rightarrow> list_options option \<Rightarrow> 'p robj \<Rightarrow> bool" where
  "watchAdmits r opts obj =
     ((labelActive (listOptsFrom opts) \<longrightarrow> matchesLabels obj (listOptsFrom opts)) \<and>
      (hasFieldSel r opts \<longrightarrow> matchesField (fieldConfigOf r) obj (optField opts)))"

definition Watch ::
  "('s, 'p) Backend \<Rightarrow> ctx \<Rightarrow> list_options option \<Rightarrow> 's \<times> 'p REST \<Rightarrow>
   'p wstream res \<times> 's \<times> 'p REST" where
  "Watch B c opts = (\<lambda>(s, r).
     case (if hasFieldSel r opts then fs_validate (fieldConfigOf r) (optField opts) else None) of
       Some e \<Rightarrow> (Inl e, s, r)
     | None \<Rightarrow>
         (let sel = listOptsFrom opts; requested = requestedRV opts in
          if requested \<noteq> [] \<and> requested \<noteq> ''0'' \<and>
             parse_uint64 requested \<noteq> Some (unat (r_rv r))
          then (Inl (Expired requested (CurrentResourceVersion r)), s, r)
          else case be_list B (userFromCtx c) sel s of
            (Inl e, s1) \<Rightarrow> (Inl e, s1, r)
          | (Inr snapshot, s1) \<Rightarrow>
              (case listItems snapshot of
                 Inl e \<Rightarrow> (Inl e, s1, r)
               | Inr items \<Rightarrow>
                   (let prefix = map (\<lambda>o'. \<lparr>ev_type = Added, ev_obj = o'\<rparr>)
                                   (filter (watchAdmits r opts) items);
                        prefix' = (if r_bookmark r \<and> shouldEmitBookmark (allowBookmarks opts)
                                   then prefix @ [makeBookmarkEvent (be_new B) (CurrentResourceVersion r)]
                                   else prefix)
                    in (Inr \<lparr>ws_prefix = prefix',
                             ws_filter = (if \<not> labelActive sel \<and> \<not> hasFieldSel r opts then (\<lambda>_. True)
                                          else (\<lambda>ev. ev_type ev = Bookmark \<or> watchAdmits r opts (ev_obj ev)))\<rparr>,
                        s1, r)))))"

section \<open>TableConvertor\<close>

record 'p table_row =
  tr_cells :: row_cells
  tr_object :: "'p robj option"

record 'p table =
  t_columns :: "string list"
  t_rows :: "'p table_row list"
  t_rv :: string
  t_continue :: string
  t_remaining :: "int option"

definition ConvertToTable :: "('s, 'p) Backend \<Rightarrow> 'p anyobj \<Rightarrow> 'p table res" where
  "ConvertToTable B object =
     (case be_rows B object of
        Inl e \<Rightarrow> Inl e
      | Inr rows \<Rightarrow>
          (let plain = map (\<lambda>cs. \<lparr>tr_cells = cs, tr_object = None\<rparr>) rows;
               t0 = \<lparr>t_columns = be_columns B, t_rows = plain, t_rv = [], t_continue = [],
                     t_remaining = None\<rparr>
           in case object of
                AList l \<Rightarrow>
                  (let t1 = (case extract_list l of
                               None \<Rightarrow> t0
                             | Some items \<Rightarrow>
                                 (if length items = length rows
                                  then t0\<lparr>t_rows := map2 (\<lambda>cs it. \<lparr>tr_cells = cs, tr_object = Some it\<rparr>)
                                             rows items\<rparr>
                                  else t0))
                   in Inr (if l_iface l
                           then t1\<lparr>t_rv := l_rv l, t_continue := l_continue l,
                                   t_remaining := l_remaining l\<rparr>
                           else t1))
              | AnObj o' \<Rightarrow>
                  (case rows of
                     [cs] \<Rightarrow> Inr (t0\<lparr>t_rows := [\<lparr>tr_cells = cs, tr_object = Some o'\<rparr>]\<rparr>)
                   | _ \<Rightarrow> Inr t0)))"

section \<open>Writable path\<close>

definition stampUID :: "'p REST \<Rightarrow> 'p robj \<Rightarrow> 'p robj" where
  "stampUID r obj =
     (if r_uids r
      then with_meta (\<lambda>m. m\<lparr>om_uid := DeterministicUID (r_gr r) (om_ns m) (om_name m)\<rparr>) obj
      else obj)"

definition Create ::
  "('s, 'p) Backend \<Rightarrow> ctx \<Rightarrow> 'p robj \<Rightarrow> 'p validate \<Rightarrow> 's \<times> 'p REST \<Rightarrow>
   'p robj res \<times> 's \<times> 'p REST" where
  "Create B c obj createValidation = (\<lambda>(s, r).
     case be_writable B of
       None \<Rightarrow> (Inl (MethodNotSupported ''create''), s, r)
     | Some W \<Rightarrow>
         (case run_validate createValidation obj of
            Some e \<Rightarrow> (Inl e, s, r)
          | None \<Rightarrow>
              (case bw_create W (userFromCtx c) (stampUID r obj) s of
                 (Inl e, s1) \<Rightarrow> (Inl e, s1, r)
               | (Inr stored, s1) \<Rightarrow>
                   (let (stored', r1) = PublishAdded stored r in (Inr stored', s1, r1)))))"

text \<open>
  What \<open>Update\<close> decides before it reaches the backend's write: the object to store, or the
  error.  \<open>current\<close> is the object the backend returned (\<open>None\<close> when it was not found, with
  that error).
\<close>

definition prepareUpdate ::
  "'p REST \<Rightarrow> string \<Rightarrow> 'p updated_info \<Rightarrow> 'p validate \<Rightarrow> 'p validate_update \<Rightarrow> bool \<Rightarrow>
   'p robj res \<Rightarrow> 'p robj res" where
  "prepareUpdate r name objInfo createValidation updateValidation forceAllowCreate got =
     (case got of
        Inl getErr \<Rightarrow>
          (if \<not> is_not_found getErr then Inl getErr
           else case objInfo None of
             Inl e \<Rightarrow> Inl e
           | Inr updated \<Rightarrow>
               (if \<not> forceAllowCreate then Inl getErr
                else case run_validate createValidation updated of
                  Some e \<Rightarrow> Inl e
                | None \<Rightarrow> Inr (stampUID r updated)))
      | Inr existing \<Rightarrow>
          (let current = (case r_occ r of None \<Rightarrow> existing | Some t \<Rightarrow> occ_stampRV t existing name) in
           case objInfo (Some current) of
             Inl e \<Rightarrow> Inl e
           | Inr updated \<Rightarrow>
               (case (case r_occ r of None \<Rightarrow> None | Some t \<Rightarrow> checkConflict name current updated) of
                  Some e \<Rightarrow> Inl e
                | None \<Rightarrow>
                    (case run_validate_update updateValidation updated current of
                       Some e \<Rightarrow> Inl e
                     | None \<Rightarrow> Inr updated))))"

definition Update ::
  "('s, 'p) Backend \<Rightarrow> ctx \<Rightarrow> string \<Rightarrow> 'p updated_info \<Rightarrow> 'p validate \<Rightarrow> 'p validate_update \<Rightarrow> bool \<Rightarrow>
   's \<times> 'p REST \<Rightarrow> ('p robj \<times> bool) res \<times> 's \<times> 'p REST" where
  "Update B c name objInfo createValidation updateValidation forceAllowCreate = (\<lambda>(s, r).
     case be_writable B of
       None \<Rightarrow> (Inl (MethodNotSupported ''update''), s, r)
     | Some W \<Rightarrow>
         (case be_get B (userFromCtx c) name s of
            (got, s1) \<Rightarrow>
              (case prepareUpdate r name objInfo createValidation updateValidation forceAllowCreate got of
                 Inl e \<Rightarrow> (Inl e, s1, r)
               | Inr updated \<Rightarrow>
                   (case bw_update W (userFromCtx c) name updated forceAllowCreate s1 of
                      (Inl e, s2) \<Rightarrow> (Inl e, s2, r)
                    | (Inr (stored, created), s2) \<Rightarrow>
                        (let (stored', r1) = (if created then PublishAdded stored r
                                              else PublishModified stored r)
                         in (Inr (stored', created), s2, r1))))))"

definition Delete ::
  "('s, 'p) Backend \<Rightarrow> ctx \<Rightarrow> string \<Rightarrow> 'p validate \<Rightarrow> 's \<times> 'p REST \<Rightarrow>
   ('p robj \<times> bool) res \<times> 's \<times> 'p REST" where
  "Delete B c name deleteValidation = (\<lambda>(s, r).
     case be_writable B of
       None \<Rightarrow> (Inl (MethodNotSupported ''delete''), s, r)
     | Some W \<Rightarrow>
         (case be_get B (userFromCtx c) name s of
            (Inl e, s1) \<Rightarrow> (Inl e, s1, r)
          | (Inr existing, s1) \<Rightarrow>
              (case run_validate deleteValidation existing of
                 Some e \<Rightarrow> (Inl e, s1, r)
               | None \<Rightarrow>
                   (case bw_delete W (userFromCtx c) name s1 of
                      (Inl e, s2) \<Rightarrow> (Inl e, s2, r)
                    | (Inr (stored, deleted), s2) \<Rightarrow>
                        (if deleted
                         then (let (stored', r1) = PublishDeleted stored r
                               in (Inr (stored', deleted), s2, r1))
                         else (Inr (stored, deleted), s2, r))))))"

end
