(* ===== verification/LibInvariants.thy ===== *)
theory LibInvariants
  imports LibAdapter
begin

text \<open>
  What every sequence of calls on the enhanced REST adapter keeps: the resource-version counter
  counts the events handed to the broadcaster, the events carry consecutive resource
  versions, and the tracker is a function of the event log.  On top of it: optimistic
  concurrency never loses an update.
\<close>

section \<open>The event log determines the tracker\<close>

definition track1 :: "(string \<rightharpoonup> string) \<Rightarrow> 'p event \<Rightarrow> (string \<rightharpoonup> string)" where
  "track1 m ev =
     (if ev_type ev = Deleted then m(objectNameFromObj (ev_obj ev) := None)
      else case accessor (ev_obj ev) of
             None \<Rightarrow> m
           | Some om \<Rightarrow> m(om_name om \<mapsto> om_rv om))"

definition tracked :: "'p event list \<Rightarrow> (string \<rightharpoonup> string)" where
  "tracked log = foldl track1 Map.empty log"

definition event_rvs :: "'p event list \<Rightarrow> string option list" where
  "event_rvs log = map (\<lambda>ev. map_option om_rv (accessor (ev_obj ev))) log"

text \<open>Event number \<open>i\<close> (from 0) carries resource version \<open>i + 2\<close>: the adapter starts at 1.\<close>

definition rest_inv :: "'p REST \<Rightarrow> bool" where
  "rest_inv r \<longleftrightarrow>
     unat (r_rv r) = length (r_log r) + 1 \<and>
     (\<forall>i < length (r_log r). event_rvs (r_log r) ! i \<in> {None, Some (dec_nat (i + 2))}) \<and>
     (case r_occ r of
        None \<Rightarrow> True
      | Some t \<Rightarrow> distinct (akeys t) \<and> map_of t = tracked (r_log r))"

lemma tracked_snoc [simp]: "tracked (log @ [ev]) = track1 (tracked log) ev"
  by (simp add: tracked_def)

lemma tracked_Nil [simp]: "tracked [] = Map.empty"
  by (simp add: tracked_def)

lemma length_event_rvs [simp]: "length (event_rvs log) = length log"
  by (simp add: event_rvs_def)

lemma event_rvs_snoc:
  "event_rvs (log @ [ev]) = event_rvs log @ [map_option om_rv (accessor (ev_obj ev))]"
  by (simp add: event_rvs_def)

lemma rest_inv_New: "rest_inv (New opts)"
  by (simp add: rest_inv_def New_def newOCCTracker_def fun_eq_iff)

text \<open>All three publishers do the same up to the tracker entry: one lemma covers them.\<close>

lemma rest_inv_publish:
  assumes inv: "rest_inv r" and room: "length (r_log r) + 2 < 2 ^ 64"
    and occ: "\<And>t. r_occ r = Some t \<Longrightarrow> distinct (akeys t) \<Longrightarrow> distinct (akeys (f t)) \<and>
                map_of (f t) = track1 (map_of t) \<lparr>ev_type = et, ev_obj = stampRV obj rv\<rparr>"
    and rv: "rv = dec_nat (length (r_log r) + 2)"
    and r': "r' = r\<lparr>r_rv := r_rv r + 1, r_occ := map_option f (r_occ r),
                    r_log := r_log r @ [\<lparr>ev_type = et, ev_obj = stampRV obj rv\<rparr>]\<rparr>"
  shows "rest_inv r' \<and> length (r_log r') = length (r_log r) + 1"
proof -
  have "unat (r_rv r + 1) = unat (r_rv r) + 1"
    using inv room by (simp add: rest_inv_def unat_word_ariths)
  moreover have "event_rvs (r_log r') ! i \<in> {None, Some (dec_nat (i + 2))}"
    if "i < length (r_log r')" for i
  proof (cases "i < length (r_log r)")
    case True
    with inv show ?thesis by (simp add: r' rest_inv_def event_rvs_def nth_append)
  next
    case False
    with that have "i = length (r_log r)" by (simp add: r')
    then show ?thesis by (cases obj) (simp_all add: r' event_rvs_def nth_append rv stampRV_def)
  qed
  moreover have "case r_occ r' of None \<Rightarrow> True
      | Some t \<Rightarrow> distinct (akeys t) \<and> map_of t = tracked (r_log r')"
    using inv occ by (auto simp: r' rest_inv_def split: option.splits)
  ultimately show ?thesis using inv by (auto simp: rest_inv_def r' split: option.splits)
qed

lemma next_rv:
  assumes "rest_inv r" and "length (r_log r) + 2 < 2 ^ 64"
  shows "NextResourceVersion r = (dec_nat (length (r_log r) + 2), r\<lparr>r_rv := r_rv r + 1\<rparr>)"
  using assms by (simp add: NextResourceVersion_def Let_def rest_inv_def unat_word_ariths)

lemma rest_inv_PublishAdded:
  assumes "rest_inv r" and "length (r_log r) + 2 < 2 ^ 64"
  shows "rest_inv (snd (PublishAdded obj r)) \<and>
         length (r_log (snd (PublishAdded obj r))) = length (r_log r) + 1"
  by (rule rest_inv_publish [OF assms, where f = "recordRV (stampRV obj (dec_nat (length (r_log r) + 2)))"
        and et = Added])
     (auto simp: PublishAdded_def next_rv [OF assms] Let_def recordRV_distinct recordRV_def track1_def
       split: option.splits)

lemma rest_inv_PublishModified:
  assumes "rest_inv r" and "length (r_log r) + 2 < 2 ^ 64"
  shows "rest_inv (snd (PublishModified obj r)) \<and>
         length (r_log (snd (PublishModified obj r))) = length (r_log r) + 1"
  by (rule rest_inv_publish [OF assms, where f = "recordRV (stampRV obj (dec_nat (length (r_log r) + 2)))"
        and et = Modified])
     (auto simp: PublishModified_def next_rv [OF assms] Let_def recordRV_distinct recordRV_def track1_def
       split: option.splits)

lemma rest_inv_PublishDeleted:
  assumes "rest_inv r" and "length (r_log r) + 2 < 2 ^ 64"
  shows "rest_inv (snd (PublishDeleted obj r)) \<and>
         length (r_log (snd (PublishDeleted obj r))) = length (r_log r) + 1"
  by (rule rest_inv_publish [OF assms, where f = "deleteRV (objectNameFromObj obj)" and et = Deleted])
     (auto simp: PublishDeleted_def next_rv [OF assms] Let_def deleteRV_distinct deleteRV_lookup track1_def)

lemmas rest_inv_publishers = rest_inv_PublishAdded rest_inv_PublishModified rest_inv_PublishDeleted

section \<open>Runs of the adapter\<close>

datatype 'p rest_op =
    OpGet ctx string
  | OpList ctx "list_options option"
  | OpWatch ctx "list_options option"
  | OpCreate ctx "'p robj" "'p validate"
  | OpUpdate ctx string "'p updated_info" "'p validate" "'p validate_update" bool
  | OpDelete ctx string "'p validate"
  | OpPublishAdded "'p robj"
  | OpPublishModified "'p robj"
  | OpPublishDeleted "'p robj"

fun rest_step :: "('s, 'p) Backend \<Rightarrow> 's \<times> 'p REST \<Rightarrow> 'p rest_op \<Rightarrow> 's \<times> 'p REST" where
  "rest_step B \<sigma> (OpGet c n) = snd (Get B c n \<sigma>)"
| "rest_step B \<sigma> (OpList c l) = snd (List B c l \<sigma>)"
| "rest_step B \<sigma> (OpWatch c l) = snd (Watch B c l \<sigma>)"
| "rest_step B \<sigma> (OpCreate c obj v) = snd (Create B c obj v \<sigma>)"
| "rest_step B \<sigma> (OpUpdate c n i v u f) = snd (Update B c n i v u f \<sigma>)"
| "rest_step B \<sigma> (OpDelete c n v) = snd (Delete B c n v \<sigma>)"
| "rest_step B \<sigma> (OpPublishAdded obj) = (fst \<sigma>, snd (PublishAdded obj (snd \<sigma>)))"
| "rest_step B \<sigma> (OpPublishModified obj) = (fst \<sigma>, snd (PublishModified obj (snd \<sigma>)))"
| "rest_step B \<sigma> (OpPublishDeleted obj) = (fst \<sigma>, snd (PublishDeleted obj (snd \<sigma>)))"

definition rest_run :: "('s, 'p) Backend \<Rightarrow> 's \<times> 'p REST \<Rightarrow> 'p rest_op list \<Rightarrow> 's \<times> 'p REST" where
  "rest_run B \<sigma> ops = foldl (rest_step B) \<sigma> ops"

text \<open>A read leaves the adapter's state alone; a write publishes at most one event.\<close>

lemma Get_rest [frame_simps]: "snd (snd (Get B c n \<sigma>)) = snd \<sigma>"
  by (auto simp: Get_def split: prod.splits sum.splits option.splits)

lemma List_rest [frame_simps]: "snd (snd (List B c l \<sigma>)) = snd \<sigma>"
  by (auto simp: List_def Let_def split: prod.splits sum.splits run.splits)

lemma Watch_rest [frame_simps]: "snd (snd (Watch B c l \<sigma>)) = snd \<sigma>"
  by (auto simp: Watch_def Let_def split: prod.splits sum.splits option.splits)

lemma Create_rest:
  "snd (snd (Create B c obj v (s, r))) = r \<or>
   (\<exists>st. snd (snd (Create B c obj v (s, r))) = snd (PublishAdded st r))"
  by (auto simp: Create_def split: option.splits prod.splits sum.splits) (metis snd_conv)+

lemma Update_rest:
  "snd (snd (Update B c n i v u f (s, r))) = r \<or>
   (\<exists>st. snd (snd (Update B c n i v u f (s, r))) = snd (PublishAdded st r)) \<or>
   (\<exists>st. snd (snd (Update B c n i v u f (s, r))) = snd (PublishModified st r))"
  by (auto simp: Update_def Let_def split: option.splits prod.splits sum.splits if_splits)
     (metis snd_conv)+

lemma Delete_rest:
  "snd (snd (Delete B c n v (s, r))) = r \<or>
   (\<exists>st. snd (snd (Delete B c n v (s, r))) = snd (PublishDeleted st r))"
  by (auto simp: Delete_def Let_def split: option.splits prod.splits sum.splits) (metis snd_conv)+

lemma rest_step_inv:
  assumes inv: "rest_inv (snd \<sigma>)" and room: "length (r_log (snd \<sigma>)) + 2 < 2 ^ 64"
  shows "rest_inv (snd (rest_step B \<sigma> op)) \<and>
         length (r_log (snd (rest_step B \<sigma> op))) \<le> length (r_log (snd \<sigma>)) + 1"
proof -
  obtain s r where \<sigma>: "\<sigma> = (s, r)" by (cases \<sigma>)
  note pub = rest_inv_publishers [OF inv room]
  show ?thesis
  proof (cases op)
    case (OpCreate c obj v)
    then show ?thesis using Create_rest [of B c obj v s r] pub inv by (auto simp: \<sigma>)
  next
    case (OpUpdate c n i v u f)
    then show ?thesis using Update_rest [of B c n i v u f s r] pub inv by (auto simp: \<sigma>)
  next
    case (OpDelete c n v)
    then show ?thesis using Delete_rest [of B c n v s r] pub inv by (auto simp: \<sigma>)
  qed (use inv pub in \<open>simp_all add: frame_simps\<close>)
qed

lemma rest_run_inv:
  assumes "rest_inv (snd \<sigma>)" and "length (r_log (snd \<sigma>)) + length ops + 2 < 2 ^ 64"
  shows "rest_inv (snd (rest_run B \<sigma> ops))"
  using assms
proof (induction ops arbitrary: \<sigma>)
  case (Cons op ops)
  have step: "rest_inv (snd (rest_step B \<sigma> op)) \<and>
      length (r_log (snd (rest_step B \<sigma> op))) \<le> length (r_log (snd \<sigma>)) + 1"
    using Cons.prems by (intro rest_step_inv) auto
  have "rest_inv (snd (rest_run B (rest_step B \<sigma> op) ops))"
    using step Cons.prems(2) by (intro Cons.IH) auto
  then show ?case by (simp add: rest_run_def)
qed (simp add: rest_run_def)

section \<open>Optimistic concurrency\<close>

text \<open>A tracked resource version was handed out before: it is never the next one.\<close>

lemma tracked_bound:
  assumes "\<forall>i < length log. event_rvs log ! i \<in> {None, Some (dec_nat (i + 2))}"
    and "tracked log n = Some rv"
  shows "\<exists>i < length log. rv = dec_nat (i + 2)"
  using assms
proof (induction log arbitrary: rv rule: rev_induct)
  case (snoc ev log)
  have pre: "\<forall>i < length log. event_rvs log ! i \<in> {None, Some (dec_nat (i + 2))}"
  proof (intro allI impI)
    fix i assume "i < length log"
    then have "event_rvs (log @ [ev]) ! i = event_rvs log ! i" "i < length (log @ [ev])"
      by (simp_all add: event_rvs_snoc nth_append)
    with snoc.prems(1) show "event_rvs log ! i \<in> {None, Some (dec_nat (i + 2))}" by metis
  qed
  have last: "event_rvs (log @ [ev]) ! length log \<in> {None, Some (dec_nat (length log + 2))}"
    using snoc.prems(1) by auto
  show ?case
  proof (cases "tracked log n = Some rv")
    case True
    from snoc.IH [OF pre this] show ?thesis by (auto intro: less_SucI)
  next
    case False
    with snoc.prems(2) obtain m where m: "accessor (ev_obj ev) = Some m" "rv = om_rv m"
      by (auto simp: track1_def split: if_splits option.splits)
    with last have "rv = dec_nat (length log + 2)" by (simp add: event_rvs_def nth_append)
    then show ?thesis by auto
  qed
qed simp

lemma tracked_not_next:
  assumes "rest_inv r" and "r_occ r = Some t" and "map_of t n = Some rv"
  shows "rv \<noteq> dec_nat (length (r_log r) + 2)"
proof
  assume e: "rv = dec_nat (length (r_log r) + 2)"
  have "tracked (r_log r) n = Some rv" using assms by (simp add: rest_inv_def)
  then obtain i where "i < length (r_log r)" "rv = dec_nat (i + 2)"
    using tracked_bound [of "r_log r"] assms(1) by (auto simp: rest_inv_def)
  with e show False using dec_nat_inj by fastforce
qed

text \<open>
  What the adapter needs of a writable backend for its concurrency control: objects carry
  metadata, and a write of an object named \<open>n\<close> under \<open>n\<close> stores an object named \<open>n\<close>.
\<close>

locale writable_backend =
  fixes B :: "('s, 'p) Backend" and W :: "('s, 'p) WritableBackend" and ok :: "'s \<Rightarrow> bool"
  assumes writable: "be_writable B = Some W"
    and get_ok: "ok s \<Longrightarrow> ok (snd (be_get B u n s))"
    and get_meta: "ok s \<Longrightarrow> fst (be_get B u n s) = Inr obj \<Longrightarrow> accessor obj \<noteq> None"
    and create_ok: "ok s \<Longrightarrow> accessor obj \<noteq> None \<Longrightarrow> ok (snd (bw_create W u obj s))"
    and update_ok: "ok s \<Longrightarrow> objectNameFromObj obj = n \<Longrightarrow> accessor obj \<noteq> None \<Longrightarrow>
      ok (snd (bw_update W u n obj f s))"
    and update_named: "ok s \<Longrightarrow> objectNameFromObj obj = n \<Longrightarrow> accessor obj \<noteq> None \<Longrightarrow>
      fst (bw_update W u n obj f s) = Inr (st, cr) \<Longrightarrow>
      accessor st \<noteq> None \<and> objectNameFromObj st = n"
    and delete_ok: "ok s \<Longrightarrow> ok (snd (bw_delete W u n s))"
begin

text \<open>A successful update of a tracked object went through the conflict check.\<close>

lemma update_success:
  assumes "Update B c n info cv uv f (s, r) = (Inr (st, cr), s', r')"
    and "ok s" and "r_occ r = Some t" and "map_of t n = Some rv"
    and "\<forall>o' u. info o' = Inr u \<longrightarrow> objectNameFromObj u = n \<and> accessor u \<noteq> None"
    and "fst (be_get B (c_user c) n s) = Inr cur"
  shows "\<exists>u um. info (Some (stampRV cur rv)) = Inr u \<and> accessor u = Some um \<and> om_rv um = rv"
    and "ok s'"
    and "\<exists>o'. objectNameFromObj o' = n \<and> accessor o' \<noteq> None \<and>
           (r' = snd (PublishAdded o' r) \<or> r' = snd (PublishModified o' r))"
proof -
  obtain s1 where g: "be_get B (c_user c) n s = (Inr cur, s1)"
    using assms(6) by (cases "be_get B (c_user c) n s") auto
  have s1: "ok s1" using get_ok [OF assms(2), of "c_user c" n] g by simp
  obtain u where p: "prepareUpdate r n info cv uv f (Inr cur) = Inr u"
    using assms(1) g by (auto simp: Update_def userFromCtx_def writable split: sum.splits)
  then have i: "info (Some (stampRV cur rv)) = Inr u"
    and cc: "checkConflict n (stampRV cur rv) u = None"
    using assms(3,4) by (auto simp: prepareUpdate_def Let_def occ_stampRV_def split: sum.splits option.splits)
  then show "\<exists>u um. info (Some (stampRV cur rv)) = Inr u \<and> accessor u = Some um \<and> om_rv um = rv"
    by (auto simp: checkConflict_None)
  note un = assms(5) [rule_format, OF i]
  obtain st0 cr0 s2 where w: "bw_update W (c_user c) n u f s1 = (Inr (st0, cr0), s2)"
    using assms(1) g p
    by (auto simp: Update_def userFromCtx_def writable split: sum.splits prod.splits)
  have "ok s2" using update_ok [OF s1, of u n "c_user c" f] un w by simp
  moreover have "s' = s2" using assms(1) g p w
    by (auto simp: Update_def userFromCtx_def writable split: prod.splits if_splits)
  ultimately show "ok s'" by simp
  have "accessor st0 \<noteq> None \<and> objectNameFromObj st0 = n"
    using update_named [OF s1, of u n "c_user c" f st0 cr0] un w by simp
  moreover have "r' = snd (PublishAdded st0 r) \<or> r' = snd (PublishModified st0 r)"
    using assms(1) g p w
    by (auto simp: Update_def userFromCtx_def writable split: prod.splits if_splits)
  ultimately show "\<exists>o'. objectNameFromObj o' = n \<and> accessor o' \<noteq> None \<and>
      (r' = snd (PublishAdded o' r) \<or> r' = snd (PublishModified o' r))" by blast
qed

lemma publish_tracks:
  assumes "rest_inv r" and "length (r_log r) + 2 < 2 ^ 64" and "r_occ r = Some t"
    and "accessor o' \<noteq> None"
    and "r' = snd (PublishAdded o' r) \<or> r' = snd (PublishModified o' r)"
  shows "\<exists>t'. r_occ r' = Some t' \<and>
           map_of t' (objectNameFromObj o') = Some (dec_nat (length (r_log r) + 2))"
  using assms(3-5)
  by (cases o')
     (auto simp: PublishAdded_def PublishModified_def next_rv [OF assms(1,2)] recordRV_def
       objectNameFromObj_def stampRV_def Let_def)

text \<open>Two updates made from the same resource version: the second is refused.\<close>

lemma no_lost_update:
  assumes first: "Update B c n info1 cv uv f (s, r) = (Inr (st, cr), s1, r1)"
    and ok: "ok s" and inv: "rest_inv r" and room: "length (r_log r) + 2 < 2 ^ 64"
    and occ: "r_occ r = Some t" "map_of t n = Some rv"
    and found: "fst (be_get B (c_user c) n s) = Inr cur"
    and i1: "\<forall>o' u. info1 o' = Inr u \<longrightarrow> objectNameFromObj u = n \<and> accessor u \<noteq> None"
    and found2: "fst (be_get B (c_user c2) n s1) = Inr cur2"
    and i2: "info2 (Some (stampRV cur2 (dec_nat (length (r_log r) + 2)))) = Inr u2"
    and same: "accessor u2 = Some um2" "om_rv um2 = rv"
  shows "\<exists>m. fst (Update B c2 n info2 cv2 uv2 f2 (s1, r1)) = Inl (Conflict n m)"
    and "snd (Update B c2 n info2 cv2 uv2 f2 (s1, r1)) = (snd (be_get B (c_user c2) n s1), r1)"
proof -
  note us = update_success [OF first ok occ i1 found]
  obtain o' where o': "objectNameFromObj o' = n" "accessor o' \<noteq> None"
    "r1 = snd (PublishAdded o' r) \<or> r1 = snd (PublishModified o' r)"
    using us(3) by blast
  from publish_tracks [OF inv room occ(1) o'(2,3)] o'(1)
  obtain t1 where t1: "r_occ r1 = Some t1" "map_of t1 n = Some (dec_nat (length (r_log r) + 2))"
    by auto
  have ne: "rv \<noteq> dec_nat (length (r_log r) + 2)" using tracked_not_next [OF inv occ] .
  obtain s2 where g: "be_get B (c_user c2) n s1 = (Inr cur2, s2)"
    using found2 by (cases "be_get B (c_user c2) n s1") auto
  have "accessor cur2 \<noteq> None" using get_meta [OF us(2) found2] .
  then obtain cm where "accessor (stampRV cur2 (dec_nat (length (r_log r) + 2))) = Some cm"
    "om_rv cm = dec_nat (length (r_log r) + 2)" by (cases cur2) auto
  then obtain m where "checkConflict n (stampRV cur2 (dec_nat (length (r_log r) + 2))) u2 =
      Some (Conflict n m)"
    using checkConflict_conflict [OF _ same(1), of _ cm n] same(2) ne by metis
  then have "prepareUpdate r1 n info2 cv2 uv2 f2 (Inr cur2) = Inl (Conflict n m)"
    using t1 i2 by (simp add: prepareUpdate_def Let_def occ_stampRV_def)
  then show "\<exists>m. fst (Update B c2 n info2 cv2 uv2 f2 (s1, r1)) = Inl (Conflict n m)"
    and "snd (Update B c2 n info2 cv2 uv2 f2 (s1, r1)) = (snd (be_get B (c_user c2) n s1), r1)"
    using g by (simp_all add: Update_def userFromCtx_def writable)
qed

end

end
