(* ===== verification/MemBackend.thy ===== *)
theory MemBackend
  imports LibInvariants
begin

text \<open>
  The in-memory writable backend of \<open>runtime/library/adapter_test.go\<close>, the repository's own
  implementation of the \<open>WritableBackend\<close> interface: it provides the contract
  \<open>writable_backend\<close> and the concrete runs of the adapter's properties.
\<close>

record testPayload =
  tp_color :: string
  tp_size :: string
  tp_phase :: string

definition empty_payload :: testPayload where
  "empty_payload = \<lparr>tp_color = [], tp_size = [], tp_phase = []\<rparr>"

type_synonym mem_store = "(string \<times> (ometa \<times> testPayload)) list"

text \<open>The type assertion \<open>obj.(*testObj)\<close>: every object handed in is a test object.\<close>

definition testObj_of :: "testPayload robj \<Rightarrow> ometa \<times> testPayload" where
  "testObj_of obj = (case obj of Obj m p \<Rightarrow> (m, p) | Bare p \<Rightarrow> (empty_meta, p))"

definition mem_Get :: "user option \<Rightarrow> string \<Rightarrow> mem_store \<Rightarrow> testPayload robj res \<times> mem_store" where
  "mem_Get u name b =
     (case map_of b name of
        None \<Rightarrow> (Inl (Plain (''not found: '' @ name)), b)
      | Some (m, p) \<Rightarrow> (Inr (Obj m p), b))"

definition mem_List :: "user option \<Rightarrow> lsel option \<Rightarrow> mem_store \<Rightarrow> testPayload rlist res \<times> mem_store" where
  "mem_List u sel b = (Inr (std_list (map (\<lambda>(n, m, p). Obj m p) b)), b)"

definition mem_Create :: "user option \<Rightarrow> testPayload robj \<Rightarrow> mem_store \<Rightarrow> testPayload robj res \<times> mem_store" where
  "mem_Create u obj b =
     (let (m, p) = testObj_of obj in
      case map_of b (om_name m) of
        Some x \<Rightarrow> (Inl (Plain (''already exists: '' @ om_name m)), b)
      | None \<Rightarrow> (Inr (Obj m p), aput (om_name m) (m, p) b))"

definition mem_Update ::
  "user option \<Rightarrow> string \<Rightarrow> testPayload robj \<Rightarrow> bool \<Rightarrow> mem_store \<Rightarrow>
   (testPayload robj \<times> bool) res \<times> mem_store" where
  "mem_Update u name obj forceAllowCreate b =
     (let (m, p) = testObj_of obj; present = (map_of b name \<noteq> None) in
      if \<not> present \<and> \<not> forceAllowCreate then (Inl (Plain (''not found: '' @ name)), b)
      else (Inr (Obj m p, \<not> present), aput name (m, p) b))"

definition mem_Delete ::
  "user option \<Rightarrow> string \<Rightarrow> mem_store \<Rightarrow> (testPayload robj \<times> bool) res \<times> mem_store" where
  "mem_Delete u name b =
     (case map_of b name of
        None \<Rightarrow> (Inl (Plain (''not found: '' @ name)), b)
      | Some (m, p) \<Rightarrow> (Inr (Obj m p, True), adel name b))"

definition mem_row :: "testPayload robj \<Rightarrow> row_cells" where
  "mem_row obj = [objectNameFromObj obj, tp_color (payload obj)]"

definition mem_RowsFor :: "testPayload anyobj \<Rightarrow> row_cells list res" where
  "mem_RowsFor obj = (case obj of
     AnObj o' \<Rightarrow> Inr [mem_row o'] | AList l \<Rightarrow> Inr (map mem_row (l_items l)))"

definition memWritable :: "(mem_store, testPayload) WritableBackend" where
  "memWritable = \<lparr>bw_create = mem_Create, bw_update = mem_Update, bw_delete = mem_Delete\<rparr>"

definition memBackend :: "(mem_store, testPayload) Backend" where
  "memBackend = \<lparr>be_new = Obj empty_meta empty_payload, be_get = mem_Get, be_list = mem_List,
     be_columns = [''Name'', ''Color''], be_rows = mem_RowsFor, be_writable = Some memWritable\<rparr>"

lemmas mem_defs = memBackend_def memWritable_def mem_Get_def mem_List_def mem_Create_def
  mem_Update_def mem_Delete_def testObj_of_def

interpretation mem: writable_backend memBackend memWritable "\<lambda>_. True"
proof
  show "be_writable memBackend = Some memWritable" by (simp add: memBackend_def)
  show "fst (be_get memBackend u n s) = Inr obj \<Longrightarrow> accessor obj \<noteq> None" for s u n obj
    by (auto simp: mem_defs split: option.splits)
  show "fst (bw_update memWritable u n obj f s) = Inr (st, cr) \<Longrightarrow>
      objectNameFromObj obj = n \<Longrightarrow> accessor obj \<noteq> None \<Longrightarrow>
      accessor st \<noteq> None \<and> objectNameFromObj st = n" for s u n obj f st cr
    by (cases obj) (auto simp: mem_defs Let_def objectNameFromObj_def split: if_splits)
qed simp_all

section \<open>Properties of the adapter\<close>

definition default_ctx :: ctx where
  "default_ctx = \<lparr>c_user = None, c_ns = ''default''\<rparr>"

definition test_opts :: "testPayload Options" where
  "test_opts = \<lparr>op_gr = \<lparr>gr_group = ''test.io'', gr_resource = ''testobjs''\<rparr>, op_uids = False,
     op_pagination = False, op_occ = True, op_bookmark = True, op_fields = None\<rparr>"

definition test_obj :: "string \<Rightarrow> string \<Rightarrow> string \<Rightarrow> testPayload robj" where
  "test_obj n rv color = Obj (empty_meta\<lparr>om_name := n, om_rv := rv\<rparr>) (empty_payload\<lparr>tp_color := color\<rparr>)"





text \<open>
  A successful Create on an adapter with deterministic UIDs hands the backend an object
  whose UID has the 8-4-4-4-12 hexadecimal layout of a UUID and depends only on group,
  resource, namespace and name; the returned object carries the next resource version and is
  the ADDED event watchers see.
\<close>

theorem create_publishes:
  assumes "be_writable B = Some W" and "r_uids r" and "accessor obj = Some m"
    and "Create B c obj cv (s, r) = (Inr st, s1, r1)"
  shows "\<exists>uid st0. uuid_shape uid \<and> uid = DeterministicUID (r_gr r) (om_ns m) (om_name m) \<and>
           bw_create W (c_user c) (with_meta (\<lambda>m. m\<lparr>om_uid := uid\<rparr>) obj) s = (Inr st0, s1) \<and>
           st = stampRV st0 (dec_nat (unat (r_rv r + 1))) \<and>
           r_log r1 = r_log r @ [\<lparr>ev_type = Added, ev_obj = st\<rparr>] \<and> r_rv r1 = r_rv r + 1"
proof -
  let ?uid = "DeterministicUID (r_gr r) (om_ns m) (om_name m)"
  have "stampUID r obj = with_meta (\<lambda>m. m\<lparr>om_uid := ?uid\<rparr>) obj"
    using assms(2,3) by (cases obj) (simp_all add: stampUID_def)
  then show ?thesis
    using assms(1,4) DeterministicUID_uuid [of "r_gr r" "om_ns m" "om_name m"]
    by (auto simp: Create_def userFromCtx_def PublishAdded_def NextResourceVersion_def Let_def
        split: option.splits prod.splits sum.splits)
qed

theorem create_publishes_witness:
  "uuid_shape (om_uid (fst (the (map_of (fst (snd (Create memBackend default_ctx
     (test_obj ''a'' [] ''red'') None ([], (New test_opts)\<lparr>r_uids := True\<rparr>)))) ''a''))))"
proof -
  let ?r = "(New test_opts)\<lparr>r_uids := True\<rparr>"
  obtain st s1 r1 where c: "Create memBackend default_ctx (test_obj ''a'' [] ''red'') None ([], ?r) =
      (Inr st, s1, r1)"
    by (cases "Create memBackend default_ctx (test_obj ''a'' [] ''red'') None ([], ?r)")
      (auto simp: Create_def mem_defs run_validate_def stampUID_def test_obj_def PublishAdded_def
        NextResourceVersion_def Let_def split: option.splits)
  obtain uid st0 where uid: "uuid_shape uid"
    and b: "bw_create memWritable (c_user default_ctx)
        (with_meta (\<lambda>m. m\<lparr>om_uid := uid\<rparr>) (test_obj ''a'' [] ''red'')) [] = (Inr st0, s1)"
    using create_publishes [OF mem.writable _ _ c, of "empty_meta\<lparr>om_name := ''a''\<rparr>"]
    by (auto simp: test_obj_def empty_meta_def)
  have "om_uid (fst (the (map_of s1 ''a''))) = uid"
    using b by (auto simp: memWritable_def mem_Create_def testObj_of_def test_obj_def)
  then show ?thesis using uid by (simp add: c)
qed

end
