(* ===== verification/Storage.thy ===== *)
theory Storage
  imports MemBackend
begin

text \<open>
  \<open>runtime/storage\<close>: the minimal REST adapter the enhanced one of \<open>runtime/library\<close> grew
  from.  Its names carry the prefix \<open>st_\<close>.  The backend interface is shared (the library's
  types are aliases of this package's).  The last section runs both adapters on the same
  calls: with every option off the enhanced adapter is this one.
\<close>

section \<open>helpers.go\<close>

definition st_stampRV :: "'p robj \<Rightarrow> string \<Rightarrow> 'p robj" where
  "st_stampRV obj rv = with_meta (\<lambda>m. m\<lparr>om_rv := rv\<rparr>) obj"

definition st_setListRV :: "'p rlist \<Rightarrow> string \<Rightarrow> 'p rlist" where
  "st_setListRV l rv =
     (if l_iface l then l\<lparr>l_rv := rv\<rparr>
      else if l_accessor l then l\<lparr>l_rv := rv\<rparr> else l)"

definition st_listItems :: "'p rlist \<Rightarrow> 'p robj list res" where
  "st_listItems l = (case extract_list l of
     None \<Rightarrow> Inl (Plain ''extract list'') | Some xs \<Rightarrow> Inr xs)"

definition st_matchesLabels :: "'p robj \<Rightarrow> lsel option \<Rightarrow> bool" where
  "st_matchesLabels obj sel =
     (case sel of
        None \<Rightarrow> True
      | Some s \<Rightarrow>
          (if ls_empty s then True
           else case accessor obj of
                  None \<Rightarrow> True
                | Some m \<Rightarrow> ls_matches s (om_labels m)))"

definition st_setListItemsReflect :: "'p rlist \<Rightarrow> 'p robj list \<Rightarrow> 'p rlist" where
  "st_setListItemsReflect l kept = (if l_reflect l then l\<lparr>l_items := kept\<rparr> else l)"

definition st_filterList :: "'p rlist \<Rightarrow> lsel option \<Rightarrow> 'p rlist" where
  "st_filterList l sel =
     (case extract_list l of
        None \<Rightarrow> l
      | Some items \<Rightarrow>
          (let kept = filter (\<lambda>o'. st_matchesLabels o' sel) items
           in case set_list kept l of Some l' \<Rightarrow> l' | None \<Rightarrow> st_setListItemsReflect l kept))"

section \<open>adapter.go: state and publisher\<close>

record 'p srest =
  s_gr :: group_resource
  s_rv :: "64 word"
  s_log :: "'p event list"

definition st_New :: "group_resource \<Rightarrow> 'p srest" where
  "st_New gr = \<lparr>s_gr = gr, s_rv = 1, s_log = []\<rparr>"

definition st_Writable :: "('s, 'p) Backend \<Rightarrow> bool" where
  "st_Writable B = (be_writable B \<noteq> None)"

definition st_CurrentResourceVersion :: "'p srest \<Rightarrow> string" where
  "st_CurrentResourceVersion r = dec_nat (unat (s_rv r))"

definition st_NextResourceVersion :: "'p srest \<Rightarrow> string \<times> 'p srest" where
  "st_NextResourceVersion r = (let v = s_rv r + 1 in (dec_nat (unat v), r\<lparr>s_rv := v\<rparr>))"

definition st_PublishAdded :: "'p robj \<Rightarrow> 'p srest \<Rightarrow> 'p robj \<times> 'p srest" where
  "st_PublishAdded obj r =
     (let (rv, r1) = st_NextResourceVersion r; o' = st_stampRV obj rv
      in (o', r1\<lparr>s_log := s_log r1 @ [\<lparr>ev_type = Added, ev_obj = o'\<rparr>]\<rparr>))"

definition st_PublishModified :: "'p robj \<Rightarrow> 'p srest \<Rightarrow> 'p robj \<times> 'p srest" where
  "st_PublishModified obj r =
     (let (rv, r1) = st_NextResourceVersion r; o' = st_stampRV obj rv
      in (o', r1\<lparr>s_log := s_log r1 @ [\<lparr>ev_type = Modified, ev_obj = o'\<rparr>]\<rparr>))"

definition st_PublishDeleted :: "'p robj \<Rightarrow> 'p srest \<Rightarrow> 'p robj \<times> 'p srest" where
  "st_PublishDeleted obj r =
     (let (rv, r1) = st_NextResourceVersion r; o' = st_stampRV obj rv
      in (o', r1\<lparr>s_log := s_log r1 @ [\<lparr>ev_type = Deleted, ev_obj = o'\<rparr>]\<rparr>))"

section \<open>adapter.go: read path\<close>

definition st_userFromCtx :: "ctx \<Rightarrow> user option" where
  "st_userFromCtx c = c_user c"

definition st_listOptsFrom :: "list_options option \<Rightarrow> lsel option" where
  "st_listOptsFrom opts =
     (case opts of
        None \<Rightarrow> Some everything
      | Some o' \<Rightarrow> (case lo_label o' of None \<Rightarrow> Some everything | Some s \<Rightarrow> Some s))"

definition st_Get ::
  "('s, 'p) Backend \<Rightarrow> ctx \<Rightarrow> string \<Rightarrow> 's \<times> 'p srest \<Rightarrow> 'p robj res \<times> 's \<times> 'p srest" where
  "st_Get B c name = (\<lambda>(s, r). case be_get B (st_userFromCtx c) name s of (res, s1) \<Rightarrow> (res, s1, r))"

definition st_List ::
  "('s, 'p) Backend \<Rightarrow> ctx \<Rightarrow> list_options option \<Rightarrow> 's \<times> 'p srest \<Rightarrow>
   'p rlist res \<times> 's \<times> 'p srest" where
  "st_List B c opts = (\<lambda>(s, r).
     let sel = st_listOptsFrom opts in
     case be_list B (st_userFromCtx c) sel s of
       (Inl e, s1) \<Rightarrow> (Inl e, s1, r)
     | (Inr out, s1) \<Rightarrow>
         (let out1 = (case sel of None \<Rightarrow> out
                      | Some l \<Rightarrow> if \<not> ls_empty l then st_filterList out sel else out)
          in (Inr (st_setListRV out1 (st_CurrentResourceVersion r)), s1, r)))"

definition st_Watch ::
  "('s, 'p) Backend \<Rightarrow> ctx \<Rightarrow> list_options option \<Rightarrow> 's \<times> 'p srest \<Rightarrow>
   'p wstream res \<times> 's \<times> 'p srest" where
  "st_Watch B c opts = (\<lambda>(s, r).
     let sel = st_listOptsFrom opts;
         requested = (case opts of None \<Rightarrow> [] | Some o' \<Rightarrow> lo_rv o') in
     if requested \<noteq> [] \<and> requested \<noteq> ''0'' \<and>
        (case parse_uint64 requested of None \<Rightarrow> True | Some reqN \<Rightarrow> reqN \<noteq> unat (s_rv r))
     then (Inl (Expired requested (st_CurrentResourceVersion r)), s, r)
     else case be_list B (st_userFromCtx c) sel s of
       (Inl e, s1) \<Rightarrow> (Inl e, s1, r)
     | (Inr snapshot, s1) \<Rightarrow>
         (case st_listItems snapshot of
            Inl e \<Rightarrow> (Inl e, s1, r)
          | Inr items \<Rightarrow>
              (let hasSel = (case sel of None \<Rightarrow> False | Some l \<Rightarrow> \<not> ls_empty l);
                   prefix = map (\<lambda>o'. \<lparr>ev_type = Added, ev_obj = o'\<rparr>)
                              (filter (\<lambda>o'. \<not> (hasSel \<and> \<not> st_matchesLabels o' sel)) items)
               in (Inr \<lparr>ws_prefix = prefix,
                        ws_filter = (if \<not> hasSel then (\<lambda>_. True)
                                     else (\<lambda>ev. st_matchesLabels (ev_obj ev) sel))\<rparr>, s1, r))))"

definition st_ConvertToTable :: "('s, 'p) Backend \<Rightarrow> 'p anyobj \<Rightarrow> 'p table res" where
  "st_ConvertToTable B object =
     (case be_rows B object of
        Inl e \<Rightarrow> Inl e
      | Inr rows \<Rightarrow>
          Inr \<lparr>t_columns = be_columns B,
               t_rows = map (\<lambda>cs. \<lparr>tr_cells = cs, tr_object = None\<rparr>) rows,
               t_rv = (case object of AList l \<Rightarrow> (if l_iface l then l_rv l else []) | AnObj _ \<Rightarrow> []),
               t_continue = [], t_remaining = None\<rparr>)"

section \<open>adapter.go: writable path\<close>

definition st_Create ::
  "('s, 'p) Backend \<Rightarrow> ctx \<Rightarrow> 'p robj \<Rightarrow> 'p validate \<Rightarrow> 's \<times> 'p srest \<Rightarrow>
   'p robj res \<times> 's \<times> 'p srest" where
  "st_Create B c obj createValidation = (\<lambda>(s, r).
     case be_writable B of
       None \<Rightarrow> (Inl (MethodNotSupported ''create''), s, r)
     | Some W \<Rightarrow>
         (case run_validate createValidation obj of
            Some e \<Rightarrow> (Inl e, s, r)
          | None \<Rightarrow>
              (case bw_create W (st_userFromCtx c) obj s of
                 (Inl e, s1) \<Rightarrow> (Inl e, s1, r)
               | (Inr stored, s1) \<Rightarrow>
                   (let (stored', r1) = st_PublishAdded stored r in (Inr stored', s1, r1)))))"

definition st_Update ::
  "('s, 'p) Backend \<Rightarrow> ctx \<Rightarrow> string \<Rightarrow> 'p updated_info \<Rightarrow> 'p validate \<Rightarrow> 'p validate_update \<Rightarrow> bool \<Rightarrow>
   's \<times> 'p srest \<Rightarrow> ('p robj \<times> bool) res \<times> 's \<times> 'p srest" where
  "st_Update B c name objInfo createValidation updateValidation forceAllowCreate = (\<lambda>(s, r).
     case be_writable B of
       None \<Rightarrow> (Inl (MethodNotSupported ''update''), s, r)
     | Some W \<Rightarrow>
         (case be_get B (st_userFromCtx c) name s of
            (got, s1) \<Rightarrow>
              (let refuse = (\<lambda>e. (Inl e, s1, r));
                   store = (\<lambda>updated.
                     case bw_update W (st_userFromCtx c) name updated forceAllowCreate s1 of
                       (Inl e, s2) \<Rightarrow> (Inl e, s2, r)
                     | (Inr (stored, created), s2) \<Rightarrow>
                         (let (stored', r1) = (if created then st_PublishAdded stored r
                                               else st_PublishModified stored r)
                          in (Inr (stored', created), s2, r1)))
               in case got of
                    Inl getErr \<Rightarrow>
                      (if \<not> is_not_found getErr then refuse getErr
                       else case objInfo None of
                         Inl e \<Rightarrow> refuse e
                       | Inr updated \<Rightarrow>
                           (if \<not> forceAllowCreate then refuse getErr
                            else case run_validate createValidation updated of
                              Some e \<Rightarrow> refuse e
                            | None \<Rightarrow> store updated))
                  | Inr current \<Rightarrow>
                      (case objInfo (Some current) of
                         Inl e \<Rightarrow> refuse e
                       | Inr updated \<Rightarrow>
                           (case run_validate_update updateValidation updated current of
                              Some e \<Rightarrow> refuse e
                            | None \<Rightarrow> store updated)))))"

definition st_Delete ::
  "('s, 'p) Backend \<Rightarrow> ctx \<Rightarrow> string \<Rightarrow> 'p validate \<Rightarrow> 's \<times> 'p srest \<Rightarrow>
   ('p robj \<times> bool) res \<times> 's \<times> 'p srest" where
  "st_Delete B c name deleteValidation = (\<lambda>(s, r).
     case be_writable B of
       None \<Rightarrow> (Inl (MethodNotSupported ''delete''), s, r)
     | Some W \<Rightarrow>
         (case be_get B (st_userFromCtx c) name s of
            (Inl e, s1) \<Rightarrow> (Inl e, s1, r)
          | (Inr existing, s1) \<Rightarrow>
              (case run_validate deleteValidation existing of
                 Some e \<Rightarrow> (Inl e, s1, r)
               | None \<Rightarrow>
                   (case bw_delete W (st_userFromCtx c) name s1 of
                      (Inl e, s2) \<Rightarrow> (Inl e, s2, r)
                    | (Inr (stored, deleted), s2) \<Rightarrow>
                        (if deleted
                         then (let (stored', r1) = st_PublishDeleted stored r
                               in (Inr (stored', deleted), s2, r1))
                         else (Inr (stored, deleted), s2, r))))))"

section \<open>The enhanced adapter with every option off\<close>

definition plain :: "'p REST \<Rightarrow> bool" where
  "plain r \<longleftrightarrow> r_occ r = None \<and> r_field r = None \<and> \<not> r_uids r \<and> \<not> r_pagination r \<and> \<not> r_bookmark r"

definition abs_rest :: "'p REST \<Rightarrow> 'p srest" where
  "abs_rest r = \<lparr>s_gr = r_gr r, s_rv = r_rv r, s_log = r_log r\<rparr>"

text \<open>What a caller sees of each call, and one call on either adapter.\<close>

datatype 'p rest_out =
    OutObj "'p robj res"
  | OutList "'p rlist run"
  | OutWatch "'p wstream res"
  | OutWrite "('p robj \<times> bool) res"
  | OutPub "'p robj"

fun rest_call :: "('s, 'p) Backend \<Rightarrow> 'p rest_op \<Rightarrow> 's \<times> 'p REST \<Rightarrow> 'p rest_out \<times> 's \<times> 'p REST" where
  "rest_call B (OpGet c n) \<sigma> = apfst OutObj (Get B c n \<sigma>)"
| "rest_call B (OpList c l) \<sigma> = apfst OutList (List B c l \<sigma>)"
| "rest_call B (OpWatch c l) \<sigma> = apfst OutWatch (Watch B c l \<sigma>)"
| "rest_call B (OpCreate c obj v) \<sigma> = apfst OutObj (Create B c obj v \<sigma>)"
| "rest_call B (OpUpdate c n i v u f) \<sigma> = apfst OutWrite (Update B c n i v u f \<sigma>)"
| "rest_call B (OpDelete c n v) \<sigma> = apfst OutWrite (Delete B c n v \<sigma>)"
| "rest_call B (OpPublishAdded obj) (s, r) = (case PublishAdded obj r of (o', r1) \<Rightarrow> (OutPub o', s, r1))"
| "rest_call B (OpPublishModified obj) (s, r) = (case PublishModified obj r of (o', r1) \<Rightarrow> (OutPub o', s, r1))"
| "rest_call B (OpPublishDeleted obj) (s, r) = (case PublishDeleted obj r of (o', r1) \<Rightarrow> (OutPub o', s, r1))"

fun st_call :: "('s, 'p) Backend \<Rightarrow> 'p rest_op \<Rightarrow> 's \<times> 'p srest \<Rightarrow> 'p rest_out \<times> 's \<times> 'p srest" where
  "st_call B (OpGet c n) \<sigma> = apfst OutObj (st_Get B c n \<sigma>)"
| "st_call B (OpList c l) \<sigma> = apfst (\<lambda>x. OutList (Ret x)) (st_List B c l \<sigma>)"
| "st_call B (OpWatch c l) \<sigma> = apfst OutWatch (st_Watch B c l \<sigma>)"
| "st_call B (OpCreate c obj v) \<sigma> = apfst OutObj (st_Create B c obj v \<sigma>)"
| "st_call B (OpUpdate c n i v u f) \<sigma> = apfst OutWrite (st_Update B c n i v u f \<sigma>)"
| "st_call B (OpDelete c n v) \<sigma> = apfst OutWrite (st_Delete B c n v \<sigma>)"
| "st_call B (OpPublishAdded obj) (s, r) = (case st_PublishAdded obj r of (o', r1) \<Rightarrow> (OutPub o', s, r1))"
| "st_call B (OpPublishModified obj) (s, r) = (case st_PublishModified obj r of (o', r1) \<Rightarrow> (OutPub o', s, r1))"
| "st_call B (OpPublishDeleted obj) (s, r) = (case st_PublishDeleted obj r of (o', r1) \<Rightarrow> (OutPub o', s, r1))"

fun calls :: "('o \<Rightarrow> 'st \<Rightarrow> 'out \<times> 'st) \<Rightarrow> 'o list \<Rightarrow> 'st \<Rightarrow> 'out list \<times> 'st" where
  "calls f [] \<sigma> = ([], \<sigma>)"
| "calls f (op # ops) \<sigma> =
     (let (out, \<sigma>1) = f op \<sigma>; (outs, \<sigma>2) = calls f ops \<sigma>1 in (out # outs, \<sigma>2))"

text \<open>The older adapter has no field selectors: a List that carries one is out of scope.\<close>

fun no_field_sel :: "'p rest_op \<Rightarrow> bool" where
  "no_field_sel (OpList c opts) = (case optField opts of None \<Rightarrow> True | Some fs \<Rightarrow> fs_empty fs)"
| "no_field_sel _ = True"

text \<open>A watch filter of the enhanced adapter lets bookmarks through; published events are none.\<close>

definition same_watch :: "'p rest_out \<Rightarrow> 'p rest_out \<Rightarrow> bool" where
  "same_watch a b \<longleftrightarrow>
     (case (a, b) of
        (OutWatch (Inr v), OutWatch (Inr w)) \<Rightarrow>
          ws_prefix v = ws_prefix w \<and>
          (\<forall>ev. ev_type ev \<noteq> Bookmark \<longrightarrow> ws_filter v ev = ws_filter w ev)
      | _ \<Rightarrow> a = b)"

lemmas st_helper_defs = st_stampRV_def st_setListRV_def st_listItems_def st_matchesLabels_def
  st_setListItemsReflect_def st_filterList_def st_userFromCtx_def st_listOptsFrom_def

lemma st_helpers:
  "st_stampRV = stampRV" "st_setListRV = setListRV" "st_listItems = listItems"
  "st_matchesLabels = matchesLabels" "st_filterList = filterList"
  "st_userFromCtx = userFromCtx" "st_listOptsFrom = listOptsFrom"
  by (auto simp: fun_eq_iff st_helper_defs stampRV_def setListRV_def listItems_def matchesLabels_def
      filterList_def setListItems_def setListItemsReflect_def userFromCtx_def listOptsFrom_def Let_def
      split: option.splits)

lemma abs_rest_sel [simp]:
  "s_rv (abs_rest r) = r_rv r" "s_log (abs_rest r) = r_log r" "s_gr (abs_rest r) = r_gr r"
  by (simp_all add: abs_rest_def)

lemma plain_New:
  "\<not> op_uids opts \<Longrightarrow> \<not> op_pagination opts \<Longrightarrow> \<not> op_occ opts \<Longrightarrow> \<not> op_bookmark opts \<Longrightarrow>
   op_fields opts = None \<Longrightarrow> plain (New opts) \<and> abs_rest (New opts) = st_New (op_gr opts)"
  by (simp add: plain_def New_def abs_rest_def st_New_def)

text \<open>The simulation, publisher by publisher and operation by operation.\<close>

lemma sim_publish:
  assumes "plain r"
  shows "st_PublishAdded obj (abs_rest r) = apsnd abs_rest (PublishAdded obj r)"
    "st_PublishModified obj (abs_rest r) = apsnd abs_rest (PublishModified obj r)"
    "st_PublishDeleted obj (abs_rest r) = apsnd abs_rest (PublishDeleted obj r)"
  using assms
  by (simp_all add: PublishAdded_def PublishModified_def PublishDeleted_def st_PublishAdded_def
      st_PublishModified_def st_PublishDeleted_def st_NextResourceVersion_def NextResourceVersion_def
      st_helpers Let_def abs_rest_def plain_def)

lemma plain_publish:
  "PublishAdded obj r = (o', r1) \<Longrightarrow> plain r \<Longrightarrow> plain r1"
  "PublishModified obj r = (o', r1) \<Longrightarrow> plain r \<Longrightarrow> plain r1"
  "PublishDeleted obj r = (o', r1) \<Longrightarrow> plain r \<Longrightarrow> plain r1"
  by (auto simp: PublishAdded_def PublishModified_def PublishDeleted_def NextResourceVersion_def
      Let_def plain_def)

lemma uids_plain: "plain r \<Longrightarrow> r_uids r = False" and occ_plain: "plain r \<Longrightarrow> r_occ r = None"
  by (simp_all add: plain_def)

definition sim_out :: "'p rest_out \<times> 's \<times> 'p REST \<Rightarrow> 'p rest_out \<times> 's \<times> 'p srest \<Rightarrow> bool" where
  "sim_out x y \<longleftrightarrow>
     same_watch (fst x) (fst y) \<and> fst (snd x) = fst (snd y) \<and>
     abs_rest (snd (snd x)) = snd (snd y) \<and> plain (snd (snd x))"

lemma same_watch_refl [simp]: "same_watch x x"
  by (auto simp: same_watch_def split: rest_out.splits sum.splits)

lemma sim_Get: "plain r \<Longrightarrow> sim_out (rest_call B (OpGet c n) (s, r)) (st_call B (OpGet c n) (s, abs_rest r))"
  by (auto simp: sim_out_def Get_def st_Get_def st_helpers plain_def split: prod.splits sum.splits)

lemma sim_List:
  assumes "plain r" and "no_field_sel (OpList c l)"
  shows "sim_out (rest_call B (OpList c l) (s, r)) (st_call B (OpList c l) (s, abs_rest r))"
proof -
  have "fieldSelectorOf r l = Inr None"
    using assms by (auto simp: fieldSelectorOf_def optField_def plain_def split: option.splits)
  then show ?thesis
    using assms(1)
    by (cases "be_list B (userFromCtx c) (listOptsFrom l) s")
       (auto simp: sim_out_def List_def st_List_def Let_def st_helpers plain_def labelActive_def
         CurrentResourceVersion_def st_CurrentResourceVersion_def split: option.splits sum.splits)
qed

lemma sim_Watch:
  assumes "plain r"
  shows "sim_out (rest_call B (OpWatch c l) (s, r)) (st_call B (OpWatch c l) (s, abs_rest r))"
proof -
  have nf: "hasFieldSel r l = False" using assms by (simp add: hasFieldSel_def plain_def)
  have rv: "(case parse_uint64 x of None \<Rightarrow> True | Some n \<Rightarrow> n \<noteq> k) \<longleftrightarrow> parse_uint64 x \<noteq> Some k"
    for x and k :: nat
    by (auto split: option.splits)
  have la: "(case listOptsFrom l of None \<Rightarrow> False | Some s \<Rightarrow> \<not> ls_empty s) = labelActive (listOptsFrom l)"
    by (simp add: labelActive_def)
  have adm: "watchAdmits r l = (\<lambda>o'. labelActive (listOptsFrom l) \<longrightarrow> matchesLabels o' (listOptsFrom l))"
    by (simp add: fun_eq_iff watchAdmits_def nf)
  show ?thesis
    using assms
    by (cases "be_list B (userFromCtx c) (listOptsFrom l) s")
       (auto simp: sim_out_def Watch_def st_Watch_def Let_def st_helpers plain_def nf rv la adm
         requestedRV_def CurrentResourceVersion_def st_CurrentResourceVersion_def same_watch_def
         split: sum.splits)
qed

lemma sim_Create:
  "plain r \<Longrightarrow> sim_out (rest_call B (OpCreate c obj v) (s, r)) (st_call B (OpCreate c obj v) (s, abs_rest r))"
  by (auto simp: sim_out_def Create_def st_Create_def st_helpers sim_publish stampUID_def uids_plain
      dest: plain_publish split: option.splits prod.splits sum.splits)

lemma sim_Update:
  "plain r \<Longrightarrow> sim_out (rest_call B (OpUpdate c n i v u f) (s, r)) (st_call B (OpUpdate c n i v u f) (s, abs_rest r))"
  by (auto simp: sim_out_def Update_def st_Update_def st_helpers sim_publish stampUID_def uids_plain
      occ_plain prepareUpdate_def Let_def dest: plain_publish
      split: option.splits prod.splits sum.splits if_splits)

lemma sim_Delete:
  "plain r \<Longrightarrow> sim_out (rest_call B (OpDelete c n v) (s, r)) (st_call B (OpDelete c n v) (s, abs_rest r))"
  by (auto simp: sim_out_def Delete_def st_Delete_def st_helpers sim_publish Let_def
      dest: plain_publish split: option.splits prod.splits sum.splits)

lemma sim_call:
  assumes "plain r" and "no_field_sel op"
  shows "sim_out (rest_call B op (s, r)) (st_call B op (s, abs_rest r))"
  using assms
  by (cases op)
     (simp_all add: sim_Get sim_List sim_Watch sim_Create sim_Update sim_Delete
        del: rest_call.simps(1-6) st_call.simps(1-6),
      auto simp: sim_out_def sim_publish dest: plain_publish split: prod.splits)

lemma sim_calls:
  assumes "plain r" and "\<forall>op \<in> set ops. no_field_sel op"
  shows "list_all2 same_watch (fst (calls (rest_call B) ops (s, r))) (fst (calls (st_call B) ops (s, abs_rest r))) \<and>
    snd (calls (st_call B) ops (s, abs_rest r)) = apsnd abs_rest (snd (calls (rest_call B) ops (s, r)))"
  using assms
proof (induction ops arbitrary: s r)
  case (Cons op ops)
  obtain out s1 r1 where a: "rest_call B op (s, r) = (out, s1, r1)" by (cases "rest_call B op (s, r)")
  obtain out' r1' where b: "st_call B op (s, abs_rest r) = (out', s1, r1')"
    and "same_watch out out'" "r1' = abs_rest r1" "plain r1"
    using sim_call [OF Cons.prems(1), of op B s] Cons.prems(2) a
    by (cases "st_call B op (s, abs_rest r)") (auto simp: sim_out_def)
  then show ?case
    using a Cons.IH [of r1 s1] Cons.prems(2) by (auto simp: split_beta)
qed simp

section \<open>Properties\<close>



end
