(* ===== verification/PollWatch.thy ===== *)
theory PollWatch
  imports Storage
begin

text \<open>
  \<open>runtime/library/pollwatch.go\<close>: watch semantics for backends that can only list.  The
  watcher's snapshot is an association list from object names to the last published object
  and its hash (\<open>json.Marshal\<close>, a parameter since the payload is).  The order in which Go
  ranges over the snapshot is the parameter \<open>ord\<close>.  What the watcher needs of its publisher is
  the locale \<open>poll_publisher\<close>; both adapters provide it.
\<close>

section \<open>The publisher interface\<close>

record ('r, 'p) publisher =
  pb_added :: "'p robj \<Rightarrow> 'r \<Rightarrow> 'p robj \<times> 'r"
  pb_modified :: "'p robj \<Rightarrow> 'r \<Rightarrow> 'p robj \<times> 'r"
  pb_deleted :: "'p robj \<Rightarrow> 'r \<Rightarrow> 'p robj \<times> 'r"

definition libPublisher :: "('p REST, 'p) publisher" where
  "libPublisher = \<lparr>pb_added = PublishAdded, pb_modified = PublishModified, pb_deleted = PublishDeleted\<rparr>"

definition stPublisher :: "('p srest, 'p) publisher" where
  "stPublisher = \<lparr>pb_added = st_PublishAdded, pb_modified = st_PublishModified,
     pb_deleted = st_PublishDeleted\<rparr>"

section \<open>The watcher\<close>

type_synonym 'p snapshot = "(string \<times> 'p robj \<times> string) list"

definition BackendPollLister :: "('s, 'p) Backend \<Rightarrow> 's \<Rightarrow> 'p robj list res \<times> 's" where
  "BackendPollLister B s =
     (case be_list B None None s of
        (Inl e, s1) \<Rightarrow> (Inl e, s1)
      | (Inr l, s1) \<Rightarrow>
          (case extract_list l of
             None \<Rightarrow> (Inl (Plain ''extract list''), s1)
           | Some items \<Rightarrow> (Inr items, s1)))"

definition NewPollWatcher :: "'p snapshot" where
  "NewPollWatcher = []"

definition pollObjectName :: "'p robj \<Rightarrow> string" where
  "pollObjectName obj = (case accessor obj of None \<Rightarrow> [] | Some m \<Rightarrow> om_name m)"

text \<open>
  The first loop of \<open>poll\<close>.  The entry shares the object with the publisher, which stamps its
  resource version: the snapshot keeps the stamped object and the hash taken before.
\<close>

fun pollItems ::
  "('r, 'p) publisher \<Rightarrow> ('p robj \<Rightarrow> string) \<Rightarrow> 'p robj list \<Rightarrow> string list \<Rightarrow> 'p snapshot \<times> 'r \<Rightarrow>
   string list \<times> 'p snapshot \<times> 'r" where
  "pollItems P hash [] seen w = (seen, w)"
| "pollItems P hash (obj # items) seen (snap, r) =
     (let name = pollObjectName obj in
      if name = [] then pollItems P hash items seen (snap, r)
      else (let h = hash obj in
        case map_of snap name of
          None \<Rightarrow>
            (let (o', r1) = pb_added P obj r
             in pollItems P hash items (name # seen) (aput name (o', h) snap, r1))
        | Some (po, ph) \<Rightarrow>
            (if ph \<noteq> h
             then (let (o', r1) = pb_modified P obj r
                   in pollItems P hash items (name # seen) (aput name (o', h) snap, r1))
             else pollItems P hash items (name # seen) (snap, r))))"

fun pollGone ::
  "('r, 'p) publisher \<Rightarrow> string list \<Rightarrow> 'p snapshot \<Rightarrow> 'p snapshot \<times> 'r \<Rightarrow> 'p snapshot \<times> 'r" where
  "pollGone P seen [] w = w"
| "pollGone P seen ((name, e) # es) (snap, r) =
     (if name \<in> set seen then pollGone P seen es (snap, r)
      else pollGone P seen es (adel name snap, snd (pb_deleted P (fst e) r)))"

definition poll ::
  "('r, 'p) publisher \<Rightarrow> ('p snapshot \<Rightarrow> 'p snapshot) \<Rightarrow> ('p robj \<Rightarrow> string) \<Rightarrow>
   ('s \<Rightarrow> 'p robj list res \<times> 's) \<Rightarrow> 's \<times> 'p snapshot \<times> 'r \<Rightarrow> 's \<times> 'p snapshot \<times> 'r" where
  "poll P ord hash lister = (\<lambda>(s, w).
     case lister s of
       (Inl e, s1) \<Rightarrow> (s1, w)
     | (Inr items, s1) \<Rightarrow>
         (let (seen, snap, r) = pollItems P hash items [] w
          in (s1, pollGone P seen (ord snap) (snap, r))))"

text \<open>
  \<open>Run\<close>: one poll at once, then one per tick of the ticker; each element of \<open>ticks\<close> is what the
  rest of the world did to the lister's source before that tick.
\<close>

definition Run ::
  "('r, 'p) publisher \<Rightarrow> ('p snapshot \<Rightarrow> 'p snapshot) \<Rightarrow> ('p robj \<Rightarrow> string) \<Rightarrow>
   ('s \<Rightarrow> 'p robj list res \<times> 's) \<Rightarrow> ('s \<Rightarrow> 's) list \<Rightarrow> 's \<times> 'p snapshot \<times> 'r \<Rightarrow> 's \<times> 'p snapshot \<times> 'r" where
  "Run P ord hash lister ticks \<sigma> =
     foldl (\<lambda>st env. poll P ord hash lister (apfst env st)) (poll P ord hash lister \<sigma>) ticks"

section \<open>Views\<close>

text \<open>
  The content of an object is what is left when its resource version is erased.  A view maps
  names to contents: that of a list of objects, and that a watch client has after the events it
  saw.
\<close>

definition obj_content :: "'p robj \<Rightarrow> 'p robj" where
  "obj_content obj = stampRV obj []"

fun view_add :: "(string \<rightharpoonup> 'p robj) \<Rightarrow> 'p robj \<Rightarrow> (string \<rightharpoonup> 'p robj)" where
  "view_add m obj = (if pollObjectName obj = [] then m else m(pollObjectName obj \<mapsto> obj_content obj))"

definition list_view :: "'p robj list \<Rightarrow> string \<rightharpoonup> 'p robj" where
  "list_view items = foldl view_add Map.empty items"

fun view_event :: "(string \<rightharpoonup> 'p robj) \<Rightarrow> 'p event \<Rightarrow> (string \<rightharpoonup> 'p robj)" where
  "view_event m ev =
     (if ev_type ev = Deleted then m(pollObjectName (ev_obj ev) := None)
      else if ev_type ev = Bookmark then m
      else m(pollObjectName (ev_obj ev) \<mapsto> obj_content (ev_obj ev)))"

definition replay :: "(string \<rightharpoonup> 'p robj) \<Rightarrow> 'p event list \<Rightarrow> (string \<rightharpoonup> 'p robj)" where
  "replay m evs = foldl view_event m evs"

definition snap_view :: "'p snapshot \<Rightarrow> string \<rightharpoonup> 'p robj" where
  "snap_view snap n = map_option (\<lambda>e. obj_content (fst e)) (map_of snap n)"

text \<open>Equal hashes of objects in \<open>D\<close> mean equal contents, as the JSON encoding guarantees.\<close>

definition hash_faithful :: "'p robj set \<Rightarrow> ('p robj \<Rightarrow> string) \<Rightarrow> bool" where
  "hash_faithful D hash \<longleftrightarrow> (\<forall>a\<in>D. \<forall>b\<in>D. hash a = hash b \<longrightarrow> obj_content a = obj_content b)"

text \<open>Every entry was listed once: its hash is that of an object with its content.\<close>

definition snap_ok :: "'p robj set \<Rightarrow> ('p robj \<Rightarrow> string) \<Rightarrow> 'p snapshot \<Rightarrow> bool" where
  "snap_ok D hash snap \<longleftrightarrow> distinct (akeys snap) \<and>
     (\<forall>n o' h. map_of snap n = Some (o', h) \<longrightarrow>
        pollObjectName o' = n \<and> n \<noteq> [] \<and> (\<exists>raw\<in>D. h = hash raw \<and> obj_content raw = obj_content o'))"

lemma name_content [simp]: "pollObjectName (obj_content o') = pollObjectName o'"
  by (cases o') (simp_all add: obj_content_def pollObjectName_def stampRV_def)

lemma content_stampRV [simp]: "obj_content (stampRV o' rv) = obj_content o'"
  by (simp add: obj_content_def)

lemma name_of_content: "obj_content a = obj_content b \<Longrightarrow> pollObjectName a = pollObjectName b"
  by (metis name_content)

lemma replay_Nil [simp]: "replay m [] = m" and replay_append [simp]:
  "replay m (a @ b) = replay (replay m a) b"
  by (simp_all add: replay_def)

lemma view_add_put: "pollObjectName obj \<noteq> [] \<Longrightarrow> view_add m obj = m(pollObjectName obj \<mapsto> obj_content obj)"
  and view_add_skip: "pollObjectName obj = [] \<Longrightarrow> view_add m obj = m"
  by simp_all

lemma replay_put:
  "et = Added \<or> et = Modified \<Longrightarrow> replay m (\<lparr>ev_type = et, ev_obj = o'\<rparr> # evs) =
     replay (m(pollObjectName o' \<mapsto> obj_content o')) evs"
  and replay_del:
  "replay m (\<lparr>ev_type = Deleted, ev_obj = o'\<rparr> # evs) = replay (m(pollObjectName o' := None)) evs"
  by (auto simp: replay_def)

declare view_add.simps [simp del] view_event.simps [simp del]

lemma snap_view_aput: "snap_view (aput n e snap) = (snap_view snap)(n \<mapsto> obj_content (fst e))"
  by (auto simp: snap_view_def fun_eq_iff)

lemma snap_view_adel: "snap_view (adel n snap) = (snap_view snap)(n := None)"
  by (auto simp: snap_view_def fun_eq_iff)

lemma snap_ok_aput:
  "snap_ok D hash snap \<Longrightarrow> obj \<in> D \<Longrightarrow> obj_content o' = obj_content obj \<Longrightarrow> pollObjectName obj = n \<Longrightarrow>
   n \<noteq> [] \<Longrightarrow> snap_ok D hash (aput n (o', hash obj) snap)"
  unfolding snap_ok_def by (auto dest: name_of_content)

lemma snap_ok_adel: "snap_ok D hash snap \<Longrightarrow> snap_ok D hash (adel n snap)"
  unfolding snap_ok_def by auto

section \<open>The contract of a publisher, and what the watcher does with it\<close>

locale poll_publisher =
  fixes P :: "('r, 'p) publisher" and log :: "'r \<Rightarrow> 'p event list"
  assumes added: "log (snd (pb_added P obj r)) = log r @ [\<lparr>ev_type = Added, ev_obj = fst (pb_added P obj r)\<rparr>]"
    and modified: "log (snd (pb_modified P obj r)) = log r @ [\<lparr>ev_type = Modified, ev_obj = fst (pb_modified P obj r)\<rparr>]"
    and deleted: "log (snd (pb_deleted P obj r)) = log r @ [\<lparr>ev_type = Deleted, ev_obj = fst (pb_deleted P obj r)\<rparr>]"
    and same: "obj_content (fst (pb_added P obj r)) = obj_content obj"
      "obj_content (fst (pb_modified P obj r)) = obj_content obj"
      "obj_content (fst (pb_deleted P obj r)) = obj_content obj"
begin

lemma same_name:
  "pollObjectName (fst (pb_added P obj r)) = pollObjectName obj"
  "pollObjectName (fst (pb_modified P obj r)) = pollObjectName obj"
  "pollObjectName (fst (pb_deleted P obj r)) = pollObjectName obj"
  by (rule name_of_content, rule same)+

text \<open>What the item loop has done once it is through \<open>items\<close>.\<close>

definition items_done ::
  "'p robj set \<Rightarrow> ('p robj \<Rightarrow> string) \<Rightarrow> 'p robj list \<Rightarrow> 'p snapshot \<times> 'r \<Rightarrow> 'p snapshot \<times> 'r \<Rightarrow> bool" where
  "items_done D hash items w w' \<longleftrightarrow>
     snap_ok D hash (fst w') \<and> snap_view (fst w') = foldl view_add (snap_view (fst w)) items \<and>
     (\<exists>evs. log (snd w') = log (snd w) @ evs \<and> replay (snap_view (fst w)) evs = snap_view (fst w'))"

lemma items_done_Cons:
  assumes "items_done D hash items (aput (pollObjectName obj) (o', h) snap, r1) w'"
    and "log r1 = log r @ [\<lparr>ev_type = et, ev_obj = o'\<rparr>]" and "et = Added \<or> et = Modified"
    and "obj_content o' = obj_content obj" and "pollObjectName obj \<noteq> []"
  shows "items_done D hash (obj # items) (snap, r) w'"
proof -
  have sv: "snap_view (aput (pollObjectName obj) (o', h) snap) = view_add (snap_view snap) obj"
    using assms(4,5) by (simp add: snap_view_aput view_add_put)
  from assms(1) obtain evs where e: "log (snd w') = log r1 @ evs"
    "replay (view_add (snap_view snap) obj) evs = snap_view (fst w')"
    by (auto simp: items_done_def sv)
  have "replay (snap_view snap) (\<lparr>ev_type = et, ev_obj = o'\<rparr> # evs) = snap_view (fst w')"
    using e(2) assms(3-5) name_of_content [OF assms(4)] by (simp add: replay_put view_add_put)
  moreover have "log (snd w') = log r @ (\<lparr>ev_type = et, ev_obj = o'\<rparr> # evs)"
    using e(1) assms(2) by simp
  ultimately show ?thesis using assms(1) unfolding items_done_def sv fst_conv snd_conv foldl_Cons
    by blast
qed

lemma pollItems_spec:
  assumes "snap_ok D hash snap" and "hash_faithful D hash" and "set items \<subseteq> D"
    and "pollItems P hash items seen (snap, r) = (seen', w')"
  shows "items_done D hash items (snap, r) w' \<and>
     set seen' = set seen \<union> (set (map pollObjectName items) - {[]})"
  using assms
proof (induction items arbitrary: seen snap r)
  case Nil
  then show ?case by (auto simp: items_done_def)
next
  case (Cons obj items)
  let ?n = "pollObjectName obj"
  note IH = Cons.IH [OF _ Cons.prems(2)]
  have D: "obj \<in> D" "set items \<subseteq> D" using Cons.prems(3) by auto
  consider (skip) "?n = []" | (new) "?n \<noteq> []" "map_of snap ?n = None"
    | (changed) po ph where "?n \<noteq> []" "map_of snap ?n = Some (po, ph)" "ph \<noteq> hash obj"
    | (same) po where "?n \<noteq> []" "map_of snap ?n = Some (po, hash obj)"
    by (cases "map_of snap ?n") auto
  then show ?case
  proof cases
    case skip
    then have "pollItems P hash items seen (snap, r) = (seen', w')"
      using Cons.prems(4) by simp
    from IH [OF Cons.prems(1) D(2) this] skip show ?thesis by (auto simp: items_done_def view_add_skip)
  next
    case new
    let ?p = "pb_added P obj r"
    have "pollItems P hash items (?n # seen) (aput ?n (fst ?p, hash obj) snap, snd ?p) = (seen', w')"
      using Cons.prems(4) new by (simp add: Let_def split_beta)
    note I = IH [OF snap_ok_aput [OF Cons.prems(1) D(1) same(1) refl new(1)] D(2) this]
    from I [THEN conjunct2] new(1)
    show ?thesis 
      using items_done_Cons [OF I [THEN conjunct1] added disjI1 [OF refl] same(1) new(1)] by auto
  next
    case changed
    let ?p = "pb_modified P obj r"
    have "pollItems P hash items (?n # seen) (aput ?n (fst ?p, hash obj) snap, snd ?p) = (seen', w')"
      using Cons.prems(4) changed by (simp add: Let_def split_beta)
    note I = IH [OF snap_ok_aput [OF Cons.prems(1) D(1) same(2) refl changed(1)] D(2) this]
    from I [THEN conjunct2] changed(1)
    show ?thesis 
      using items_done_Cons [OF I [THEN conjunct1] modified disjI2 [OF refl] same(2) changed(1)] by auto
  next
    case same
    then have "obj_content obj = obj_content po"
      using Cons.prems(1,2) D(1) unfolding snap_ok_def hash_faithful_def by metis
    then have "view_add (snap_view snap) obj = snap_view snap"
      using same by (auto simp: view_add_put snap_view_def fun_eq_iff)
    moreover have "pollItems P hash items (?n # seen) (snap, r) = (seen', w')"
      using Cons.prems(4) same by (simp add: Let_def)
    ultimately show ?thesis
      using IH [OF Cons.prems(1) D(2), of "?n # seen" r] same by (auto simp: items_done_def)
  qed
qed

lemma pollGone_spec:
  assumes "snap_ok D hash snap" and "distinct (akeys es)"
    and "\<forall>(n, e) \<in> set es. map_of snap n = Some e"
    and "pollGone P seen es (snap, r) = (snap', r')"
  shows "snap_ok D hash snap' \<and>
     snap_view snap' = (\<lambda>n. if n \<in> set (akeys es) - set seen then None else snap_view snap n) \<and>
     (\<exists>evs. log r' = log r @ evs \<and> replay (snap_view snap) evs = snap_view snap')"
  using assms
proof (induction es arbitrary: snap r)
  case (Cons e es)
  obtain n o' h where e: "e = (n, o', h)" by (cases e)
  show ?case
  proof (cases "n \<in> set seen")
    case True
    then show ?thesis using Cons.IH [of snap r] Cons.prems by (auto simp: e fun_eq_iff)
  next
    case False
    let ?r1 = "snd (pb_deleted P o' r)"
    have nm: "pollObjectName o' = n"
      using Cons.prems(1,3) unfolding snap_ok_def e by auto
    have rest: "\<forall>(k, v) \<in> set es. map_of (adel n snap) k = Some v"
    proof clarify
      fix k o1 h1 assume "(k, o1, h1) \<in> set es"
      moreover from this Cons.prems(2) have "k \<noteq> n" by (force simp: e)
      ultimately show "map_of (adel n snap) k = Some (o1, h1)" using Cons.prems(3) by (fastforce simp: e)
    qed
    have gone: "pollGone P seen es (adel n snap, ?r1) = (snap', r')"
      using Cons.prems(4) False by (simp add: e)
    have ds: "distinct (akeys es)" using Cons.prems(2) by simp
    from Cons.IH [OF snap_ok_adel [OF Cons.prems(1)] ds rest gone]
    obtain evs where ok: "snap_ok D hash snap'"
      and v: "snap_view snap' = (\<lambda>k. if k \<in> set (akeys es) - set seen then None
                else snap_view (adel n snap) k)"
      and l: "log r' = log ?r1 @ evs" "replay (snap_view (adel n snap)) evs = snap_view snap'"
      by blast
    have "snap_view snap' = (\<lambda>k. if k \<in> set (akeys (e # es)) - set seen then None else snap_view snap k)"
      unfolding v using False by (auto simp: e snap_view_adel)
    moreover have "log r' = log r @ \<lparr>ev_type = Deleted, ev_obj = fst (pb_deleted P o' r)\<rparr> # evs"
      using l(1) deleted [of o' r] by simp
    moreover have "replay (snap_view snap) (\<lparr>ev_type = Deleted, ev_obj = fst (pb_deleted P o' r)\<rparr> # evs) =
        snap_view snap'"
      using l(2) nm by (simp add: replay_del same_name snap_view_adel)
    ultimately show ?thesis using ok by blast
  qed
qed auto

text \<open>One poll: the snapshot becomes the list's view, and the new events lead there.\<close>

lemma poll_spec:
  assumes ok: "snap_ok D hash snap" and hash: "hash_faithful D hash"
    and ord: "\<forall>xs. set (ord xs) = set xs \<and> distinct (akeys (ord xs)) = distinct (akeys xs)"
    and list: "fst (lister s) = Inr items" "set items \<subseteq> D"
    and p: "poll P ord hash lister (s, snap, r) = (s', snap', r')"
  shows "snap_ok D hash snap' \<and> snap_view snap' = list_view items \<and>
     (\<exists>evs. log r' = log r @ evs \<and> replay (snap_view snap) evs = snap_view snap')"
proof -
  obtain seen snap1 r1 where i: "pollItems P hash items [] (snap, r) = (seen, snap1, r1)"
    by (cases "pollItems P hash items [] (snap, r)")
  obtain s1 where s1: "lister s = (Inr items, s1)" using list(1) by (cases "lister s") auto
  have g: "pollGone P seen (ord snap1) (snap1, r1) = (snap', r')"
    using p i s1 by (simp add: poll_def)
  note I' = pollItems_spec [OF ok hash list(2) i]
  have I: "snap_ok D hash snap1" "snap_view snap1 = foldl view_add (snap_view snap) items"
    "set seen = {} \<union> (set (map pollObjectName items) - {[]})"
    "\<exists>evs. log r1 = log r @ evs \<and> replay (snap_view snap) evs = snap_view snap1"
    using I' unfolding items_done_def fst_conv snd_conv set_empty list.set by blast+
  have d: "distinct (akeys snap1)" using I(1) unfolding snap_ok_def by blast
  have dord: "distinct (akeys (ord snap1))" using d ord by blast
  have m: "\<forall>(n, e) \<in> set (ord snap1). map_of snap1 n = Some e"
    using d ord by auto
  note G = pollGone_spec [OF I(1) dord m g]
  have keys: "n \<in> set (akeys (ord snap1)) \<longleftrightarrow> snap_view snap1 n \<noteq> None" for n
  proof -
    have "set (akeys (ord snap1)) = set (akeys snap1)" using ord by simp
    then show ?thesis by (simp add: snap_view_def map_of_eq_None_iff)
  qed
  let ?named = "\<lambda>n. n \<in> set (map pollObjectName items) - {[]}"
  have fold: "foldl view_add m xs n =
      (if n \<in> set (map pollObjectName xs) - {[]} then list_view xs n else m n)" for m xs n
    by (induction xs rule: rev_induct) (auto simp: list_view_def view_add.simps)
  have out: "\<not> ?named n \<Longrightarrow> list_view items n = None" for n
    by (subst list_view_def, subst fold) (rule if_not_P)
  have seen: "n \<in> set seen \<longleftrightarrow> ?named n" for n using I(3) by simp
  have v1: "snap_view snap1 n = (if ?named n then list_view items n else snap_view snap n)" for n
    unfolding I(2) by (rule fold)
  have v2: "snap_view snap' n = (if n \<in> set (akeys (ord snap1)) - set seen then None else snap_view snap1 n)" for n
    using G by simp
  have "snap_view snap' = list_view items"
  proof (rule ext)
    fix n
    show "snap_view snap' n = list_view items n"
    proof (cases "?named n")
      case True
      then show ?thesis using v1 [of n] v2 [of n] seen [of n] by simp
    next
      case False
      then show ?thesis using v1 [of n] v2 [of n] seen [of n] keys [of n] out [of n] by (simp split: if_splits)
    qed
  qed
  moreover obtain evs1 evs2 where "log r1 = log r @ evs1" "replay (snap_view snap) evs1 = snap_view snap1"
    "log r' = log r1 @ evs2" "replay (snap_view snap1) evs2 = snap_view snap'"
    using I(4) G by blast
  ultimately show ?thesis using G by (metis append_assoc replay_append)
qed

text \<open>A run of polls: at every moment the events published so far lead to the snapshot.\<close>

definition poll_inv ::
  "'p robj set \<Rightarrow> ('p robj \<Rightarrow> string) \<Rightarrow> 'p event list \<Rightarrow> 's \<times> 'p snapshot \<times> 'r \<Rightarrow> bool" where
  "poll_inv D hash log0 \<sigma> \<longleftrightarrow>
     snap_ok D hash (fst (snd \<sigma>)) \<and>
     (\<exists>evs. log (snd (snd \<sigma>)) = log0 @ evs \<and> replay Map.empty evs = snap_view (fst (snd \<sigma>)))"

lemma poll_step:
  assumes inv: "poll_inv D hash log0 (s, snap, r)" and hash: "hash_faithful D hash"
    and ord: "\<forall>xs. set (ord xs) = set xs \<and> distinct (akeys (ord xs)) = distinct (akeys xs)"
    and D: "\<forall>s items. fst (lister s) = Inr items \<longrightarrow> set items \<subseteq> D"
    and p: "poll P ord hash lister (s, snap, r) = (s', snap', r')"
  shows "poll_inv D hash log0 (s', snap', r') \<and>
    (\<forall>items. fst (lister s) = Inr items \<longrightarrow> snap_view snap' = list_view items)"
proof (cases "fst (lister s)")
  case (Inl e)
  then show ?thesis using inv p by (cases "lister s") (auto simp: poll_def poll_inv_def)
next
  case (Inr items)
  have S: "snap_ok D hash snap'" "snap_view snap' = list_view items"
    "\<exists>evs. log r' = log r @ evs \<and> replay (snap_view snap) evs = snap_view snap'"
    using poll_spec [OF _ hash ord Inr _ p] inv D Inr unfolding poll_inv_def fst_conv snd_conv
    by blast+
  then obtain evs0 evs where "log r = log0 @ evs0" "replay Map.empty evs0 = snap_view snap"
    "log r' = log r @ evs" "replay (snap_view snap) evs = snap_view snap'"
    using inv unfolding poll_inv_def by auto
  then have "log r' = log0 @ (evs0 @ evs)" "replay Map.empty (evs0 @ evs) = snap_view snap'"
    by simp_all
  then show ?thesis using S(1,2) Inr unfolding poll_inv_def by auto
qed

lemma Run_inv:
  assumes "poll_inv D hash log0 \<sigma>" and hash: "hash_faithful D hash"
    and ord: "\<forall>xs. set (ord xs) = set xs \<and> distinct (akeys (ord xs)) = distinct (akeys xs)"
    and D: "\<forall>s items. fst (lister s) = Inr items \<longrightarrow> set items \<subseteq> D"
  shows "poll_inv D hash log0 (Run P ord hash lister ticks \<sigma>)"
proof (induction ticks rule: rev_induct)
  case Nil
  obtain s snap r where "\<sigma> = (s, snap, r)" by (cases \<sigma>)
  then show ?case
    using poll_step [OF _ hash ord D] assms(1) by (cases "poll P ord hash lister \<sigma>") (auto simp: Run_def)
next
  case (snoc env ticks)
  obtain s snap r where w: "Run P ord hash lister ticks \<sigma> = (s, snap, r)"
    by (cases "Run P ord hash lister ticks \<sigma>")
  have "poll_inv D hash log0 (env s, snap, r)" using snoc.IH by (simp add: w poll_inv_def)
  then show ?case
    using poll_step [OF _ hash ord D] w
    by (cases "poll P ord hash lister (env s, snap, r)") (auto simp: Run_def)
qed

text \<open>What a watcher's publisher has announced when a poll has succeeded.\<close>

lemma Run_announces:
  assumes "snap_ok D hash []" and hash: "hash_faithful D hash"
    and ord: "\<forall>xs. set (ord xs) = set xs \<and> distinct (akeys (ord xs)) = distinct (akeys xs)"
    and D: "\<forall>s items. fst (lister s) = Inr items \<longrightarrow> set items \<subseteq> D"
    and w: "Run P ord hash lister ticks (s, [], r) = (s1, w)"
    and ok: "fst (lister s1) = Inr items"
    and p: "poll P ord hash lister (s1, w) = (s2, snap', r')"
  shows "\<exists>evs. log r' = log r @ evs \<and> replay Map.empty evs = list_view items"
proof -
  have "poll_inv D hash (log r) (s, [], r)"
    using assms(1) by (simp add: poll_inv_def snap_view_def fun_eq_iff)
  from Run_inv [where ticks = ticks, OF this hash ord D] have "poll_inv D hash (log r) (s1, fst w, snd w)"
    by (simp add: w)
  from poll_step [OF this hash ord D] p ok show ?thesis by (fastforce simp: poll_inv_def)
qed

end

lemma snap_ok_Nil: "snap_ok D hash []"
  by (simp add: snap_ok_def)

interpretation lib_pub: poll_publisher libPublisher r_log
  by unfold_locales
     (simp_all add: libPublisher_def PublishAdded_def PublishModified_def PublishDeleted_def
       NextResourceVersion_def Let_def)

interpretation st_pub: poll_publisher stPublisher s_log
  by unfold_locales
     (simp_all add: stPublisher_def st_PublishAdded_def st_PublishModified_def st_PublishDeleted_def
       st_NextResourceVersion_def st_helpers Let_def)

section \<open>Properties\<close>

text \<open>
  C20: The poll watcher gives a list-only backend the semantics of a watch: after any number of
  polls (some of which may have failed), whenever one succeeds the events published since the
  watcher started, replayed by a client from the empty view, give exactly the names and
  contents the poll listed.  The order in which Go ranges over the snapshot does not matter.
\<close>

theorem poll_watch_faithful:
  assumes "hash_faithful D hash"
    and "\<forall>xs. set (ord xs) = set xs \<and> distinct (akeys (ord xs)) = distinct (akeys xs)"
    and "\<forall>s items. fst (BackendPollLister B s) = Inr items \<longrightarrow> set items \<subseteq> D"
    and "Run libPublisher ord hash (BackendPollLister B) ticks (s, NewPollWatcher, r) = (s1, w)"
    and "fst (BackendPollLister B s1) = Inr items"
    and "poll libPublisher ord hash (BackendPollLister B) (s1, w) = (s2, snap', r')"
  shows "\<exists>evs. r_log r' = r_log r @ evs \<and> replay Map.empty evs = list_view items"
  by (rule lib_pub.Run_announces [OF snap_ok_Nil assms(1-3) assms(4) [unfolded NewPollWatcher_def] assms(5,6)])

text \<open>A read-only source whose state says what it lists: a red object, a blue one, nothing.\<close>

definition poll_src :: "(nat, testPayload) Backend" where
  "poll_src = \<lparr>be_new = Obj empty_meta empty_payload, be_get = (\<lambda>_ n s. (Inl (NotFound n), s)),
     be_list = (\<lambda>_ _ s. (Inr (std_list (if s = 0 then [test_obj ''a'' [] ''red'']
                                    else if s = 1 then [test_obj ''a'' [] ''blue''] else [])), s)),
     be_columns = [], be_rows = (\<lambda>_. Inr []), be_writable = None\<rparr>"

theorem poll_watch_faithful_witness:
  "let hash = (\<lambda>o'. tp_color (payload o'));
       (s1, w) = Run libPublisher rev hash (BackendPollLister poll_src) [\<lambda>_. 2, \<lambda>_. 1] (0, NewPollWatcher, New test_opts);
       (s2, snap', r') = poll libPublisher rev hash (BackendPollLister poll_src) (s1, w)
   in \<exists>evs. r_log r' = r_log (New test_opts) @ evs \<and>
        replay Map.empty evs = list_view [test_obj ''a'' [] ''blue'']"
proof -
  let ?hash = "\<lambda>o' :: testPayload robj. tp_color (payload o')"
  let ?D = "{test_obj ''a'' [] ''red'', test_obj ''a'' [] ''blue''}"
  let ?L = "BackendPollLister poll_src"
  have L: "?L s = (Inr (if s = 0 then [test_obj ''a'' [] ''red'']
      else if s = 1 then [test_obj ''a'' [] ''blue''] else []), s)" for s
    by (simp add: BackendPollLister_def poll_src_def extract_list_def)
  have h: "hash_faithful ?D ?hash" by (simp add: hash_faithful_def test_obj_def)
  have ord: "\<forall>xs :: testPayload snapshot. set (rev xs) = set xs \<and> distinct (akeys (rev xs)) = distinct (akeys xs)"
    by (simp add: rev_map [symmetric])
  obtain s1 w where r: "Run libPublisher rev ?hash ?L [\<lambda>_. 2, \<lambda>_. 1] (0, NewPollWatcher, New test_opts) = (s1, w)"
    by (cases "Run libPublisher rev ?hash ?L [\<lambda>_. 2, \<lambda>_. 1] (0, NewPollWatcher, New test_opts)")
  have fst_poll: "fst (poll libPublisher rev ?hash ?L \<sigma>) = fst \<sigma>" for \<sigma>
    by (cases \<sigma>) (simp add: poll_def L split: prod.splits)
  have "s1 = fst (Run libPublisher rev ?hash ?L [\<lambda>_. 2, \<lambda>_. 1] (0, NewPollWatcher, New test_opts))"
    by (simp only: r fst_conv)
  then have "s1 = 1" by (simp add: Run_def fst_poll)
  moreover obtain s2 snap' r' where p: "poll libPublisher rev ?hash ?L (s1, w) = (s2, snap', r')"
    by (cases "poll libPublisher rev ?hash ?L (s1, w)")
  moreover have D: "\<forall>s items. fst (?L s) = Inr items \<longrightarrow> set items \<subseteq> ?D" by (auto simp: L)
  ultimately show ?thesis
    using poll_watch_faithful [OF h ord D r _ p, of "[test_obj ''a'' [] ''blue'']"] r p
    by (simp add: L)
qed

end
