(* ===== verification/Subresource.thy ===== *)
theory Subresource
  imports MemBackend
begin

text \<open>
  \<open>runtime/library/subresource.go\<close>: the \<open>/status\<close> and spec-only update paths.  The consumer's
  \<open>StatusUpdater\<close> and \<open>SpecUpdater\<close> are arguments; the main store's \<open>Update\<close> is any state
  transformer of the adapter's shape.
\<close>

type_synonym 'p sub_updater = "'p robj \<Rightarrow> 'p robj \<Rightarrow> 'p robj"

type_synonym ('st, 'p) rest_updater =
  "ctx \<Rightarrow> string \<Rightarrow> 'p updated_info \<Rightarrow> 'p validate \<Rightarrow> 'p validate_update \<Rightarrow> bool \<Rightarrow> 'st \<Rightarrow>
   ('p robj \<times> bool) res \<times> 'st"

type_synonym ('st, 'p) rest_getter = "ctx \<Rightarrow> string \<Rightarrow> 'st \<Rightarrow> 'p robj res \<times> 'st"

text \<open>\<open>subresourceUpdateInfo.UpdatedObject\<close>.\<close>

definition UpdatedObject :: "'p updated_info \<Rightarrow> 'p sub_updater option \<Rightarrow> 'p updated_info" where
  "UpdatedObject inner updater oldObj =
     (case inner oldObj of
        Inl e \<Rightarrow> Inl e
      | Inr newObj \<Rightarrow>
          (case (oldObj, updater) of
             (Some old, Some u) \<Rightarrow> Inr (u newObj old)
           | _ \<Rightarrow> Inr newObj))"

record ('st, 'p) StatusREST =
  sr_mainStore :: "('st, 'p) rest_getter"
  sr_mainUpdater :: "('st, 'p) rest_updater"
  sr_statusUpdater :: "'p sub_updater option"

definition NewStatusREST ::
  "('st, 'p) rest_getter \<Rightarrow> ('st, 'p) rest_updater \<Rightarrow> 'p sub_updater option \<Rightarrow> ('st, 'p) StatusREST" where
  "NewStatusREST g u s = \<lparr>sr_mainStore = g, sr_mainUpdater = u, sr_statusUpdater = s\<rparr>"

definition StatusREST_Get :: "('st, 'p) StatusREST \<Rightarrow> ctx \<Rightarrow> string \<Rightarrow> 'st \<Rightarrow> 'p robj res \<times> 'st" where
  "StatusREST_Get s c name = sr_mainStore s c name"

definition StatusREST_Update :: "('st, 'p) StatusREST \<Rightarrow> ('st, 'p) rest_updater" where
  "StatusREST_Update s c name objInfo createValidation updateValidation forceAllowCreate =
     sr_mainUpdater s c name (UpdatedObject objInfo (sr_statusUpdater s)) createValidation
       updateValidation forceAllowCreate"

text \<open>
  \<open>SpecREST.Update\<close>: \<open>inner\<close> is \<open>None\<close> when the wrapped storage is no updater; the result is then
  \<open>(nil, false, nil)\<close>, the value \<open>None\<close>.
\<close>

definition SpecREST_Update ::
  "('st, 'p) rest_updater option \<Rightarrow> 'p sub_updater option \<Rightarrow> ctx \<Rightarrow> string \<Rightarrow> 'p updated_info \<Rightarrow>
   'p validate \<Rightarrow> 'p validate_update \<Rightarrow> bool \<Rightarrow> 'st \<Rightarrow> ('p robj \<times> bool) res option \<times> 'st" where
  "SpecREST_Update inner specUpdater c name objInfo createValidation updateValidation forceAllowCreate st =
     (case inner of
        None \<Rightarrow> (None, st)
      | Some upd \<Rightarrow>
          (case upd c name (UpdatedObject objInfo specUpdater) createValidation updateValidation
                  forceAllowCreate st of (res, st1) \<Rightarrow> (Some res, st1)))"

section \<open>What the wrapped update writes\<close>

text \<open>
  An update of an existing object through a wrapper reaches the backend with the wrapped
  updater's object.
\<close>

lemma wrapped_update_writes:
  assumes "be_writable B = Some W"
    and "be_get B (c_user c) name s = (Inr cur, s0)"
    and "Update B c name (UpdatedObject objInfo (Some upd)) cv uv f (s, r) = (Inr (st, cr), s1, r1)"
  shows "\<exists>new old st0. payload old = payload cur \<and>
           bw_update W (c_user c) name (upd new old) f s0 = (Inr (st0, cr), s1) \<and>
           payload st = payload st0"
  using assms
  by (auto simp: Update_def userFromCtx_def prepareUpdate_def UpdatedObject_def Let_def
        PublishAdded_def PublishModified_def NextResourceVersion_def occ_stampRV_def
      split: sum.splits option.splits prod.splits if_splits)
     (metis payload_stampRV)+

section \<open>Properties\<close>

text \<open>
  C26: A write through the status subresource never changes the spec: when the consumer's
  updater keeps the spec of the object it is given as old, whatever the client sent, the
  object handed to the backend has the spec of the object stored before.
\<close>

theorem status_update_keeps_spec:
  assumes "\<forall>n o'. spec (payload (U n o')) = spec (payload o')"
    and "be_writable B = Some W" and "be_get B (c_user c) name s = (Inr cur, s0)"
    and "StatusREST_Update (NewStatusREST (Get B) (Update B) (Some U)) c name objInfo cv uv f (s, r) =
           (Inr (st, cr), s1, r1)"
  shows "\<exists>u st0. spec (payload u) = spec (payload cur) \<and>
           bw_update W (c_user c) name u f s0 = (Inr (st0, cr), s1) \<and> payload st = payload st0"
proof -
  have "Update B c name (UpdatedObject objInfo (Some U)) cv uv f (s, r) = (Inr (st, cr), s1, r1)"
    using assms(4) by (simp add: StatusREST_Update_def NewStatusREST_def)
  from wrapped_update_writes [OF assms(2,3) this] show ?thesis
    using assms(1) by metis
qed

definition test_status_updater :: "testPayload sub_updater" where
  "test_status_updater n o' =
     (case (n, o') of
        (Obj m p, Obj m0 q) \<Rightarrow> Obj m (q\<lparr>tp_phase := tp_phase p\<rparr>)
      | (Bare p, Obj m0 q) \<Rightarrow> Obj m0 q
      | (_, Bare q) \<Rightarrow> Bare q)"

theorem status_update_keeps_spec_witness:
  "let s = [(''a'', empty_meta\<lparr>om_name := ''a''\<rparr>, empty_payload\<lparr>tp_color := ''red''\<rparr>)];
       upd = (\<lambda>_. Inr (test_obj ''a'' [] ''blue''));
       S = NewStatusREST (Get memBackend) (Update memBackend) (Some test_status_updater);
       (out, s1, r1) = StatusREST_Update S default_ctx ''a'' upd None None False (s, New (test_opts\<lparr>op_occ := False\<rparr>))
   in \<exists>u st0. tp_color (payload u) = ''red'' \<and> bw_update memWritable None ''a'' u False s = (Inr st0, s1)"
proof -
  let ?s = "[(''a'', empty_meta\<lparr>om_name := ''a''\<rparr>, empty_payload\<lparr>tp_color := ''red''\<rparr>)]"
  let ?upd = "\<lambda>_. Inr (test_obj ''a'' [] ''blue'')"
  let ?S = "NewStatusREST (Get memBackend) (Update memBackend) (Some test_status_updater)"
  let ?r = "New (test_opts\<lparr>op_occ := False\<rparr>)"
  have keep: "\<forall>n o'. tp_color (payload (test_status_updater n o')) = tp_color (payload o')"
    by (auto simp: test_status_updater_def split: robj.splits)
  have g: "be_get memBackend (c_user default_ctx) ''a'' ?s =
      (Inr (Obj (empty_meta\<lparr>om_name := ''a''\<rparr>) (empty_payload\<lparr>tp_color := ''red''\<rparr>)), ?s)"
    by (simp add: mem_defs)
  obtain out s1 r1 where u: "StatusREST_Update ?S default_ctx ''a'' ?upd None None False (?s, ?r) = (out, s1, r1)"
    by (cases "StatusREST_Update ?S default_ctx ''a'' ?upd None None False (?s, ?r)")
  have "\<exists>st cr. out = Inr (st, cr)"
    using u
    by (auto simp: StatusREST_Update_def NewStatusREST_def Update_def mem_defs userFromCtx_def
        default_ctx_def prepareUpdate_def Let_def UpdatedObject_def New_def test_opts_def
        run_validate_update_def test_status_updater_def test_obj_def split: prod.splits)
  then obtain st cr where "out = Inr (st, cr)" by blast
  with status_update_keeps_spec [OF keep mem.writable g, of ?upd None None False ?r st cr s1 r1] u
  show ?thesis by (auto simp: default_ctx_def)
qed

end
