(* ===== verification/LeaseLocker.thy ===== *)
theory LeaseLocker
  imports MemBackend
begin

text \<open>
  \<open>runtime/library/locker.go\<close>: a writable backend behind a \<open>coordination.k8s.io\<close> Lease.  The
  lease client is the record \<open>lease_api\<close> over the cluster's state \<open>'k\<close>; what Kubernetes documents
  of it (create fails when the lease exists, update is compare-and-swap on the resource
  version) is the predicate \<open>lease_api_ok\<close>, a hypothesis of the properties that need it.
  The clock is part of the cluster's state.  The conversion of the lease duration to
  \<open>int32\<close> seconds is exact below 2^31 seconds, the range the model covers.
\<close>

section \<open>Configuration and lock names\<close>

datatype LockMode = LockPerObject | LockPerResource

definition DefaultLeaseDuration :: int where
  "DefaultLeaseDuration = 15 * ns_per_s"

record LockedBackend =
  lb_mode :: LockMode
  lb_identity :: string
  lb_gr :: group_resource
  lb_leaseDuration :: int
  lb_lockNamespace :: string

definition NewLockedBackend :: "LockMode \<Rightarrow> string \<Rightarrow> group_resource \<Rightarrow> int \<Rightarrow> string \<Rightarrow> string \<Rightarrow> LockedBackend" where
  "NewLockedBackend mode identity gr duration namespace env_identity =
     \<lparr>lb_mode = mode,
      lb_identity = (if identity = [] then env_identity else identity),
      lb_gr = gr,
      lb_leaseDuration = (if duration = 0 then DefaultLeaseDuration else duration),
      lb_lockNamespace = (if namespace = [] then ''aggexp-locks'' else namespace)\<rparr>"

definition rawLockName :: "LockedBackend \<Rightarrow> string \<Rightarrow> string \<Rightarrow> string" where
  "rawLockName lb ns name =
     gr_group (lb_gr lb) @ ''.'' @ gr_resource (lb_gr lb) @ ''.'' @ ns @ ''.'' @ name"

definition lockName :: "LockedBackend \<Rightarrow> string \<Rightarrow> string \<Rightarrow> string" where
  "lockName lb ns name =
     (case lb_mode lb of
        LockPerResource \<Rightarrow> gr_group (lb_gr lb) @ ''.'' @ gr_resource (lb_gr lb)
      | LockPerObject \<Rightarrow>
          (let raw = rawLockName lb ns name in
           if length raw \<le> 63 then raw
           else take 40 raw @ ''-'' @ hex_bytes (take 11 (sha256 raw))))"

section \<open>The lease API\<close>

record lease =
  le_holder :: "string option"
  le_duration :: "int option"
  le_acquire :: "gotime option"
  le_renew :: "gotime option"
  le_rv :: string

record 'k lease_api =
  la_now :: "'k \<Rightarrow> gotime \<times> 'k"
  la_create :: "string \<Rightarrow> lease \<Rightarrow> 'k \<Rightarrow> api_err option \<times> 'k"
  la_get :: "string \<Rightarrow> 'k \<Rightarrow> lease res \<times> 'k"
  la_update :: "string \<Rightarrow> lease \<Rightarrow> 'k \<Rightarrow> api_err option \<times> 'k"
  la_delete :: "string \<Rightarrow> 'k \<Rightarrow> api_err option \<times> 'k"

section \<open>acquire, release\<close>

definition leaseSeconds :: "LockedBackend \<Rightarrow> int" where
  "leaseSeconds lb = lb_leaseDuration lb div ns_per_s"

definition newLease :: "LockedBackend \<Rightarrow> gotime \<Rightarrow> lease" where
  "newLease lb now = \<lparr>le_holder = Some (lb_identity lb), le_duration = Some (leaseSeconds lb),
     le_acquire = Some now, le_renew = Some now, le_rv = []\<rparr>"

definition leaseHolder :: "lease \<Rightarrow> string" where
  "leaseHolder l = (case le_holder l of None \<Rightarrow> [] | Some h \<Rightarrow> h)"

definition leaseExpiry :: "lease \<Rightarrow> gotime option" where
  "leaseExpiry l =
     (case (le_renew l, le_duration l) of
        (Some t, Some d) \<Rightarrow> Some (t + d * ns_per_s)
      | _ \<Rightarrow> None)"

text \<open>
  The clock is read before the retry loop (for the times written into the lease) and again
  at each expiry check, which the code skips for a lease without times.
\<close>

fun acquireLoop ::
  "'k lease_api \<Rightarrow> LockedBackend \<Rightarrow> string \<Rightarrow> gotime \<Rightarrow> nat \<Rightarrow> 'k \<Rightarrow> api_err option \<times> 'k" where
  "acquireLoop A lb name now 0 k = (Some (Conflict name ''lock acquisition failed after retries''), k)"
| "acquireLoop A lb name now (Suc n) k =
     (case la_create A name (newLease lb now) k of
        (None, k1) \<Rightarrow> (None, k1)
      | (Some e, k1) \<Rightarrow>
          (if \<not> is_already_exists e then (Some (Wrapped ''lock create failed'' e), k1)
           else case la_get A name k1 of
             (Inl e, k2) \<Rightarrow>
               (if is_not_found e then acquireLoop A lb name now n k2
                else (Some (Wrapped ''lock get failed'' e), k2))
           | (Inr existing, k2) \<Rightarrow>
               (if leaseHolder existing = lb_identity lb then (None, k2)
                else
                  (let (live, k3) = (case leaseExpiry existing of
                                       None \<Rightarrow> (False, k2)
                                     | Some expiry \<Rightarrow>
                                         (let (t, k') = la_now A k2 in (t < expiry, k')))
                   in if live then (Some (Conflict name (''lock held by '' @ leaseHolder existing)), k3)
                      else
                        (case la_update A name ((newLease lb now)\<lparr>le_rv := le_rv existing\<rparr>) k3 of
                           (None, k4) \<Rightarrow> (None, k4)
                         | (Some e, k4) \<Rightarrow>
                             (if is_conflict e \<or> is_not_found e then acquireLoop A lb name now n k4
                              else (Some (Wrapped ''lock update failed'' e), k4)))))))"

definition acquire :: "'k lease_api \<Rightarrow> LockedBackend \<Rightarrow> string \<Rightarrow> 'k \<Rightarrow> api_err option \<times> 'k" where
  "acquire A lb name k = (let (now, k1) = la_now A k in acquireLoop A lb name now 3 k1)"

definition release :: "'k lease_api \<Rightarrow> string \<Rightarrow> 'k \<Rightarrow> 'k" where
  "release A name k = snd (la_delete A name k)"

section \<open>The locked operations\<close>

text \<open>Lock, run, release: the deferred release runs whatever the inner call returned.\<close>

definition withLock ::
  "'k lease_api \<Rightarrow> LockedBackend \<Rightarrow> string \<Rightarrow> ('s \<Rightarrow> 'a res \<times> 's) \<Rightarrow> 's \<times> 'k \<Rightarrow> 'a res \<times> 's \<times> 'k" where
  "withLock A lb name f = (\<lambda>(s, k).
     case acquire A lb name k of
       (Some e, k1) \<Rightarrow> (Inl e, s, k1)
     | (None, k1) \<Rightarrow> (let (out, s1) = f s in (out, s1, release A name k1)))"

definition lb_Create ::
  "'k lease_api \<Rightarrow> LockedBackend \<Rightarrow> ('s, 'p) WritableBackend \<Rightarrow> user option \<Rightarrow> 'p robj \<Rightarrow>
   's \<times> 'k \<Rightarrow> 'p robj res \<times> 's \<times> 'k" where
  "lb_Create A lb W u obj =
     withLock A lb (lockName lb (objectNamespaceFromObj obj) (objectNameFromObj obj)) (bw_create W u obj)"

definition lb_Update ::
  "'k lease_api \<Rightarrow> LockedBackend \<Rightarrow> ('s, 'p) WritableBackend \<Rightarrow> user option \<Rightarrow> string \<Rightarrow> 'p robj \<Rightarrow> bool \<Rightarrow>
   's \<times> 'k \<Rightarrow> ('p robj \<times> bool) res \<times> 's \<times> 'k" where
  "lb_Update A lb W u name obj forceAllowCreate =
     withLock A lb (lockName lb (objectNamespaceFromObj obj) name) (bw_update W u name obj forceAllowCreate)"

definition lb_Delete ::
  "'k lease_api \<Rightarrow> LockedBackend \<Rightarrow> ('s, 'p) WritableBackend \<Rightarrow> user option \<Rightarrow> string \<Rightarrow>
   's \<times> 'k \<Rightarrow> ('p robj \<times> bool) res \<times> 's \<times> 'k" where
  "lb_Delete A lb W u name = withLock A lb (lockName lb [] name) (bw_delete W u name)"

text \<open>The wrapped backend, as the adapter of \<open>LibAdapter\<close> takes it; reads pass through.\<close>

definition lockedWritable ::
  "'k lease_api \<Rightarrow> LockedBackend \<Rightarrow> ('s, 'p) WritableBackend \<Rightarrow> ('s \<times> 'k, 'p) WritableBackend" where
  "lockedWritable A lb W = \<lparr>bw_create = lb_Create A lb W, bw_update = lb_Update A lb W,
     bw_delete = lb_Delete A lb W\<rparr>"

definition lockedBackend ::
  "'k lease_api \<Rightarrow> LockedBackend \<Rightarrow> ('s, 'p) Backend \<Rightarrow> ('s, 'p) WritableBackend \<Rightarrow> ('s \<times> 'k, 'p) Backend" where
  "lockedBackend A lb B W =
     \<lparr>be_new = be_new B,
      be_get = (\<lambda>u n (s, k). case be_get B u n s of (out, s1) \<Rightarrow> (out, s1, k)),
      be_list = (\<lambda>u sel (s, k). case be_list B u sel s of (out, s1) \<Rightarrow> (out, s1, k)),
      be_columns = be_columns B, be_rows = be_rows B,
      be_writable = Some (lockedWritable A lb W)\<rparr>"

section \<open>What Kubernetes documents of leases\<close>

definition lease_api_ok :: "'k lease_api \<Rightarrow> ('k \<Rightarrow> string \<rightharpoonup> lease) \<Rightarrow> bool" where
  "lease_api_ok A view \<longleftrightarrow>
     (\<forall>k. view (snd (la_now A k)) = view k) \<and>
     (\<forall>n l k. view k n = None \<longrightarrow> fst (la_create A n l k) = None \<and>
        (\<exists>rv. view (snd (la_create A n l k)) = (view k)(n \<mapsto> l\<lparr>le_rv := rv\<rparr>))) \<and>
     (\<forall>n l k. view k n \<noteq> None \<longrightarrow> view (snd (la_create A n l k)) = view k \<and>
        (\<exists>e. fst (la_create A n l k) = Some e \<and> is_already_exists e)) \<and>
     (\<forall>n k. view (snd (la_get A n k)) = view k \<and>
        (case view k n of None \<Rightarrow> \<exists>e. fst (la_get A n k) = Inl e \<and> is_not_found e
         | Some l \<Rightarrow> fst (la_get A n k) = Inr l)) \<and>
     (\<forall>n l k cur. view k n = Some cur \<longrightarrow> le_rv l = le_rv cur \<longrightarrow> fst (la_update A n l k) = None \<and>
        (\<exists>rv. view (snd (la_update A n l k)) = (view k)(n \<mapsto> l\<lparr>le_rv := rv\<rparr>))) \<and>
     (\<forall>n k. view (snd (la_delete A n k)) = (view k)(n := None))"

lemma lease_laws:
  assumes "lease_api_ok A view"
  shows "view (snd (la_now A k)) = view k"
    and "view k n = None \<Longrightarrow> fst (la_create A n l k) = None \<and>
        (\<exists>rv. view (snd (la_create A n l k)) = (view k)(n \<mapsto> l\<lparr>le_rv := rv\<rparr>))"
    and "view k n = Some cur \<Longrightarrow> view (snd (la_create A n l k)) = view k \<and>
        (\<exists>e. fst (la_create A n l k) = Some e \<and> is_already_exists e)"
    and "view (snd (la_get A n k)) = view k"
    and "view k n = Some cur \<Longrightarrow> fst (la_get A n k) = Inr cur"
    and "view k n = Some cur \<Longrightarrow> le_rv l = le_rv cur \<Longrightarrow> fst (la_update A n l k) = None \<and>
        (\<exists>rv. view (snd (la_update A n l k)) = (view k)(n \<mapsto> l\<lparr>le_rv := rv\<rparr>))"
    and "view (snd (la_delete A n k)) = (view k)(n := None)"
proof -
  have get: "case view k n of None \<Rightarrow> \<exists>e. fst (la_get A n k) = Inl e \<and> is_not_found e
         | Some l \<Rightarrow> fst (la_get A n k) = Inr l"
    using assms unfolding lease_api_ok_def by blast
  show "view k n = Some cur \<Longrightarrow> fst (la_get A n k) = Inr cur" using get by simp
qed (use assms in \<open>simp_all add: lease_api_ok_def\<close>)

section \<open>Lemmas\<close>

text \<open>A lease that is live for another holder, at the moment the expiry check reads the clock.\<close>

definition held_by_other :: "'k lease_api \<Rightarrow> ('k \<Rightarrow> string \<rightharpoonup> lease) \<Rightarrow> LockedBackend \<Rightarrow> string \<Rightarrow> 'k \<Rightarrow> bool" where
  "held_by_other A view lb name k =
     (case view k name of
        None \<Rightarrow> False
      | Some l \<Rightarrow> leaseHolder l \<noteq> lb_identity lb \<and>
          (let k1 = snd (la_now A k); k2 = snd (la_create A name (newLease lb (fst (la_now A k))) k1);
               k3 = snd (la_get A name k2)
           in case leaseExpiry l of None \<Rightarrow> False | Some x \<Rightarrow> fst (la_now A k3) < x))"

lemma holder_newLease [simp]: "leaseHolder ((newLease lb now)\<lparr>le_rv := rv\<rparr>) = lb_identity lb"
  by (simp add: leaseHolder_def newLease_def)

lemma acquire_cases:
  assumes ok: "lease_api_ok A view"
  shows "(if held_by_other A view lb name k
          then (\<exists>m. fst (acquire A lb name k) = Some (Conflict name m)) \<and>
               view (snd (acquire A lb name k)) = view k
          else fst (acquire A lb name k) = None \<and>
               (\<exists>l. view (snd (acquire A lb name k)) = (view k)(name \<mapsto> l) \<and>
                    leaseHolder l = lb_identity lb))"
proof -
  obtain now k1 where n: "la_now A k = (now, k1)" by (cases "la_now A k")
  have v1: "view k1 = view k" using lease_laws(1) [OF ok, of k] n by simp
  obtain ce k2 where c: "la_create A name (newLease lb now) k1 = (ce, k2)"
    by (cases "la_create A name (newLease lb now) k1")
  obtain m :: nat where "3 = Suc m" by (metis numeral_3_eq_3)
  then have three: "acquire A lb name k = acquireLoop A lb name now (Suc m) k1"
    by (simp add: acquire_def n)
  show ?thesis
  proof (cases "view k name")
    case None
    with lease_laws(2) [OF ok, of k1 name "newLease lb now"] v1 c
    obtain rv where "ce = None" "view k2 = (view k)(name \<mapsto> (newLease lb now)\<lparr>le_rv := rv\<rparr>)" by auto
    then show ?thesis
      using None c by (auto simp: three held_by_other_def)
  next
    case (Some l)
    with lease_laws(3) [OF ok, of k1 name l "newLease lb now"] v1 c
    obtain e where e: "ce = Some e" "is_already_exists e" and v2: "view k2 = view k" by auto
    obtain g k3 where g: "la_get A name k2 = (g, k3)" by (cases "la_get A name k2")
    with lease_laws(4) [OF ok, where n = name and k = k2] lease_laws(5) [OF ok, where n = name and k = k2] Some v2 have g': "g = Inr l" "view k3 = view k" by auto
    obtain t k4 where t: "la_now A k3 = (t, k4)" by (cases "la_now A k3")
    with lease_laws(1) [OF ok, of k3] g' have v4: "view k4 = view k" by simp
    have upd: "fst (la_update A name ((newLease lb now)\<lparr>le_rv := le_rv l\<rparr>) k') = None \<and>
        (\<exists>rv. view (snd (la_update A name ((newLease lb now)\<lparr>le_rv := le_rv l\<rparr>) k')) =
          (view k)(name \<mapsto> (newLease lb now)\<lparr>le_rv := rv\<rparr>))" if "view k' = view k" for k'
      using lease_laws(6) [OF ok, of k' name l "(newLease lb now)\<lparr>le_rv := le_rv l\<rparr>"] Some that by simp
    have own: "\<exists>l'. view k = (view k)(name \<mapsto> l') \<and> leaseHolder l' = lb_identity lb"
      if "leaseHolder l = lb_identity lb"
      using Some that by (metis fun_upd_triv)
    show ?thesis
      using upd [OF g'(2)] upd [OF v4] Some c e g g' t v4
      by (auto simp: three held_by_other_def n Let_def dest!: own
          split: option.splits prod.splits)
  qed
qed

lemma lockName_short:
  assumes "lb_mode lb = LockPerObject" and "length (rawLockName lb ns name) \<le> 63"
  shows "lockName lb ns name = rawLockName lb ns name"
  using assms by (simp add: lockName_def)

section \<open>Properties\<close>

text \<open>
  The name of a per-object lock is never longer than a DNS label (63 bytes): it is the
  dotted name of the object, or when that is longer its first 40 bytes with 88 bits of its
  SHA-256.
\<close>

theorem lockName_fits:
  assumes "lb_mode lb = LockPerObject"
  shows "length (lockName lb ns name) = min 63 (length (rawLockName lb ns name)) \<and>
         (length (rawLockName lb ns name) \<le> 63 \<longrightarrow> lockName lb ns name = rawLockName lb ns name)"
  using assms by (auto simp: lockName_def Let_def)

theorem lockName_fits_witness:
  "length (lockName (NewLockedBackend LockPerObject ''r'' \<lparr>gr_group = ''test.io'', gr_resource = ''objs''\<rparr> 0 [] [])
     ''default'' (replicate 100 (CHR ''x''))) = 63"
  using lockName_fits [of "NewLockedBackend LockPerObject ''r'' \<lparr>gr_group = ''test.io'', gr_resource = ''objs''\<rparr> 0 [] []"
      "''default''" "replicate 100 (CHR ''x'')"]
  by (simp add: NewLockedBackend_def rawLockName_def)

text \<open>
  C24: Lease-based exclusion: a create, update or delete on a resource whose lease another
  replica holds unexpired is refused with a Conflict, changes no lease and never reaches the
  inner backend; when the lease is free, expired or its own, the write runs while the lease
  names this replica, and the lease is gone afterwards whether or not the write succeeded.
\<close>

theorem locked_write_exclusion:
  assumes "lease_api_ok A view"
  shows "if held_by_other A view lb name k
    then (\<exists>m. fst (withLock A lb name f (s, k)) = Inl (Conflict name m)) \<and>
         fst (snd (withLock A lb name f (s, k))) = s \<and>
         view (snd (snd (withLock A lb name f (s, k)))) = view k
    else (\<exists>l. view (snd (acquire A lb name k)) = (view k)(name \<mapsto> l) \<and> leaseHolder l = lb_identity lb) \<and>
         fst (withLock A lb name f (s, k)) = fst (f s) \<and> fst (snd (withLock A lb name f (s, k))) = snd (f s) \<and>
         view (snd (snd (withLock A lb name f (s, k)))) = (view k)(name := None)"
proof -
  obtain e k1 where a: "acquire A lb name k = (e, k1)" by (cases "acquire A lb name k")
  show ?thesis
    using acquire_cases [OF assms, of lb name k] lease_laws(7) [OF assms, of name k1]
    by (auto simp: withLock_def a release_def split_beta split: option.splits)
qed

text \<open>A cluster: the clock ticks a second per reading, leases carry a global counter as version.\<close>

type_synonym lease_cluster = "gotime \<times> nat \<times> (string \<rightharpoonup> lease)"

definition cluster_api :: "lease_cluster lease_api" where
  "cluster_api =
     \<lparr>la_now = (\<lambda>(t, v, m). (t, t + ns_per_s, v, m)),
      la_create = (\<lambda>n l (t, v, m). if m n = None then (None, t, v + 1, m(n \<mapsto> l\<lparr>le_rv := dec_nat v\<rparr>))
                                    else (Some (AlreadyExists n), t, v, m)),
      la_get = (\<lambda>n (t, v, m). (case m n of None \<Rightarrow> Inl (NotFound n) | Some l \<Rightarrow> Inr l, t, v, m)),
      la_update = (\<lambda>n l (t, v, m). case m n of None \<Rightarrow> (Some (NotFound n), t, v, m)
         | Some cur \<Rightarrow> (if le_rv l = le_rv cur then (None, t, v + 1, m(n \<mapsto> l\<lparr>le_rv := dec_nat v\<rparr>))
                         else (Some (Conflict n ''modified''), t, v, m))),
      la_delete = (\<lambda>n (t, v, m). if m n = None then (Some (NotFound n), t, v, m)
                                  else (None, t, v, m(n := None)))\<rparr>"

lemma cluster_api_ok: "lease_api_ok cluster_api (\<lambda>(t, v, m). m)"
  by (auto simp: lease_api_ok_def cluster_api_def split: option.splits)

theorem locked_write_exclusion_witness:
  "let lb = NewLockedBackend LockPerObject ''b'' \<lparr>gr_group = ''g'', gr_resource = ''r''\<rparr> 0 [] [];
       other = \<lparr>le_holder = Some ''a'', le_duration = Some 15, le_acquire = Some 0, le_renew = Some 0, le_rv = ''1''\<rparr>
   in fst (snd (withLock cluster_api lb ''n'' (\<lambda>s. (Inr (), s + 1)) (7 :: nat, (0, 0, [''n'' \<mapsto> other])))) = 7 \<and>
      fst (snd (withLock cluster_api lb ''n'' (\<lambda>s. (Inr (), s + 1)) (7 :: nat, (20 * ns_per_s, 0, [''n'' \<mapsto> other])))) = 8"
proof -
  let ?lb = "NewLockedBackend LockPerObject ''b'' \<lparr>gr_group = ''g'', gr_resource = ''r''\<rparr> 0 [] []"
  let ?l = "\<lparr>le_holder = Some ''a'', le_duration = Some 15, le_acquire = Some 0, le_renew = Some 0, le_rv = ''1''\<rparr>"
  have "held_by_other cluster_api (\<lambda>(t, v, m). m) ?lb ''n'' (0, 0, [''n'' \<mapsto> ?l])"
    "\<not> held_by_other cluster_api (\<lambda>(t, v, m). m) ?lb ''n'' (20 * ns_per_s, 0, [''n'' \<mapsto> ?l])"
    by (simp_all add: held_by_other_def cluster_api_def NewLockedBackend_def leaseHolder_def
        leaseExpiry_def ns_per_s_def)
  then show ?thesis
    using locked_write_exclusion [OF cluster_api_ok, of ?lb "''n''" "(0, 0, [''n'' \<mapsto> ?l])"
        "\<lambda>s. (Inr (), s + 1)" "7 :: nat"]
      locked_write_exclusion [OF cluster_api_ok, of ?lb "''n''" "(20 * ns_per_s, 0, [''n'' \<mapsto> ?l])"
        "\<lambda>s. (Inr (), s + 1)" "7 :: nat"]
    by (simp add: Let_def)
qed

text \<open>
  A delete does not exclude an update of the same namespaced object: \<open>Delete\<close> locks the name
  with an empty namespace, \<open>Create\<close> and \<open>Update\<close> the name with the object's namespace, and for
  names that need no hashing these are different leases.
\<close>

theorem delete_locks_other_lease:
  assumes "lb_mode lb = LockPerObject" and "ns \<noteq> []"
    and "length (rawLockName lb ns name) \<le> 63"
  shows "lockName lb [] name \<noteq> lockName lb ns name"
proof -
  have "length (rawLockName lb [] name) < length (rawLockName lb ns name)"
    using assms(2) by (simp add: rawLockName_def)
  then show ?thesis using assms(1,3) by (auto simp: lockName_def)
qed

theorem delete_locks_other_lease_witness:
  "let lb = NewLockedBackend LockPerObject ''b'' \<lparr>gr_group = ''g'', gr_resource = ''r''\<rparr> 0 [] []
   in lockName lb [] ''n'' \<noteq> lockName lb ''default'' ''n''"
  using delete_locks_other_lease [of "NewLockedBackend LockPerObject ''b'' \<lparr>gr_group = ''g'', gr_resource = ''r''\<rparr> 0 [] []"
      "''default''" "''n''"]
  by (simp add: NewLockedBackend_def rawLockName_def)

end
