(* ===== verification/Unstructured.thy ===== *)
theory Unstructured
  imports LibHelpers
begin

text \<open>
  The untyped objects the multi-host stores read and write: JSON trees and the
  \<open>unstructured.Unstructured\<close> wrapper around them.  Objects are association lists without
  repeated keys; the metadata and type fields the code only reaches through accessors are
  record fields, the rest is the tree \<open>un_obj\<close>.  A JSON number is an integer or, when decoded
  from text as a float, a \<open>JFloat\<close> with its printed text and its truncation to an integer.
\<close>

datatype json =
    JNull
  | JBool bool
  | JInt int
  | JFloat string int
  | JStr string
  | JArr "json list"
  | JObj "(string \<times> json) list"

type_synonym jmap = "(string \<times> json) list"

record gvr =
  gv_group :: string
  gv_version :: string
  gv_resource :: string

record unstr =
  un_group :: string
  un_version :: string
  un_kind :: string
  un_name :: string
  un_uid :: string
  un_rv :: string
  un_obj :: jmap

text \<open>\<open>&unstructured.Unstructured{}\<close> after \<open>SetGroupVersionKind\<close>.\<close>

definition new_unstr :: "gvr \<Rightarrow> string \<Rightarrow> unstr" where
  "new_unstr g kind = \<lparr>un_group = gv_group g, un_version = gv_version g, un_kind = kind,
     un_name = [], un_uid = [], un_rv = [], un_obj = []\<rparr>"

section \<open>Nested fields\<close>

datatype 'a nested = Found 'a | Missing | BadType

fun nested_map :: "('a \<Rightarrow> 'b nested) \<Rightarrow> 'a nested \<Rightarrow> 'b nested" where
  "nested_map f (Found x) = f x"
| "nested_map f Missing = Missing"
| "nested_map f BadType = BadType"

fun nestedField :: "json \<Rightarrow> string list \<Rightarrow> json nested" where
  "nestedField v [] = Found v"
| "nestedField JNull (k # ks) = Missing"
| "nestedField (JObj m) (k # ks) =
     (case map_of m k of None \<Rightarrow> Missing | Some v \<Rightarrow> nestedField v ks)"
| "nestedField _ (k # ks) = BadType"

definition nestedString :: "jmap \<Rightarrow> string list \<Rightarrow> string nested" where
  "nestedString m ks = nested_map (\<lambda>v. case v of JStr s \<Rightarrow> Found s | _ \<Rightarrow> BadType) (nestedField (JObj m) ks)"

definition nestedMap :: "jmap \<Rightarrow> string list \<Rightarrow> jmap nested" where
  "nestedMap m ks = nested_map (\<lambda>v. case v of JObj m' \<Rightarrow> Found m' | _ \<Rightarrow> BadType) (nestedField (JObj m) ks)"

text \<open>\<open>s, _, _ := NestedString(...)\<close>: the empty string unless found.\<close>

definition stringAt :: "jmap \<Rightarrow> string list \<Rightarrow> string" where
  "stringAt m ks = (case nestedString m ks of Found s \<Rightarrow> s | _ \<Rightarrow> [])"

definition mapAt :: "jmap \<Rightarrow> string list \<Rightarrow> jmap option" where
  "mapAt m ks = (case nestedMap m ks of Found m' \<Rightarrow> Some m' | _ \<Rightarrow> None)"

text \<open>\<open>SetNestedField\<close> with an error on a non-map on the way (the tree is then unchanged).\<close>

fun setNested :: "jmap \<Rightarrow> string list \<Rightarrow> json \<Rightarrow> jmap option" where
  "setNested m [] v = None"
| "setNested m [k] v = Some (aput k v m)"
| "setNested m (k # k' # ks) v =
     (case map_of m k of
        None \<Rightarrow> map_option (\<lambda>m'. aput k (JObj m') m) (setNested [] (k' # ks) v)
      | Some (JObj sub) \<Rightarrow> map_option (\<lambda>m'. aput k (JObj m') m) (setNested sub (k' # ks) v)
      | Some _ \<Rightarrow> None)"

fun removeNested :: "jmap \<Rightarrow> string list \<Rightarrow> jmap" where
  "removeNested m [] = m"
| "removeNested m [k] = adel k m"
| "removeNested m (k # k' # ks) =
     (case map_of m k of
        Some (JObj sub) \<Rightarrow> aput k (JObj (removeNested sub (k' # ks))) m
      | _ \<Rightarrow> m)"

section \<open>Type switches on values\<close>

definition asStr :: "json option \<Rightarrow> string option" where
  "asStr v = (case v of Some (JStr s) \<Rightarrow> Some s | _ \<Rightarrow> None)"

definition asMap :: "json option \<Rightarrow> jmap option" where
  "asMap v = (case v of Some (JObj m) \<Rightarrow> Some m | _ \<Rightarrow> None)"

definition asArr :: "json option \<Rightarrow> json list option" where
  "asArr v = (case v of Some (JArr xs) \<Rightarrow> Some xs | _ \<Rightarrow> None)"

text \<open>The string entries of a map, the string elements of an array.\<close>

definition strEntries :: "jmap \<Rightarrow> smap" where
  "strEntries m = List.map_filter (\<lambda>(k, v). case v of JStr s \<Rightarrow> Some (k, s) | _ \<Rightarrow> None) m"

definition strElems :: "json list \<Rightarrow> string list" where
  "strElems xs = List.map_filter (\<lambda>v. case v of JStr s \<Rightarrow> Some s | _ \<Rightarrow> None) xs"

definition jsmap :: "smap \<Rightarrow> json" where
  "jsmap m = JObj (map (\<lambda>(k, v). (k, JStr v)) m)"

lemma strEntries_jsmap [simp]: "strEntries (map (\<lambda>(k, v). (k, JStr v)) m) = m"
  by (induction m) (auto simp: strEntries_def map_filter_simps)

lemma strElems_JStr [simp]: "strElems (map JStr xs) = xs"
  by (induction xs) (auto simp: strElems_def map_filter_simps)

lemma as_simps [simp]:
  "asStr (Some (JStr s)) = Some s" "asStr None = None" "asStr (Some (JObj m)) = None"
  "asMap (Some (JObj m)) = Some m" "asMap None = None" "asMap (Some (JStr s)) = None"
  "asArr (Some (JArr xs)) = Some xs" "asArr None = None" "asArr (Some (JStr s)) = None"
  "asStr (Some (JArr xs)) = None" "asStr (Some (JInt i)) = None"
  by (simp_all add: asStr_def asMap_def asArr_def)

lemma nestedField_obj_None: "map_of m k = None \<Longrightarrow> nestedField (JObj m) (k # ks) = Missing"
  and nestedField_obj_Some: "map_of m k = Some v \<Longrightarrow> nestedField (JObj m) (k # ks) = nestedField v ks"
  by simp_all

section \<open>Printing of values\<close>

text \<open>\<open>fmt.Sprintf("%v", v)\<close> on JSON values; maps print their keys in order.\<close>

fun show_json :: "json \<Rightarrow> string" where
  "show_json JNull = ''<nil>''"
| "show_json (JBool b) = (if b then ''true'' else ''false'')"
| "show_json (JInt i) = dec_int i"
| "show_json (JFloat t i) = t"
| "show_json (JStr s) = s"
| "show_json (JArr xs) = ''['' @ join '' '' (map show_json xs) @ '']''"
| "show_json (JObj m) =
     ''map['' @ join '' '' (map (\<lambda>(k, t). k @ '':'' @ t) (sort_key fst (map (\<lambda>(k, v). (k, show_json v)) m))) @ '']''"

end
