(* ===== verification/MhRef.thy ===== *)
theory MhRef
  imports Unstructured
begin

text \<open>
  \<open>runtime/library/multihost/ref.go\<close>: references to served objects, the lock state, the metadata
  record and the names of the host objects that back them.  \<open>mh_rvLess\<close> is the package's own
  copy of the resource-version order.
\<close>

record ResourceRef =
  rf_group :: string
  rf_resource :: string
  rf_namespace :: string
  rf_name :: string

definition orCluster :: "string \<Rightarrow> string" where
  "orCluster ns = (if ns = [] then ''cluster'' else ns)"

definition ref_String :: "ResourceRef \<Rightarrow> string" where
  "ref_String r = rf_group r @ ''/'' @ rf_resource r @ ''/'' @ orCluster (rf_namespace r) @ ''/'' @ rf_name r"

record LockState =
  lk_holder :: string
  lk_acquired :: "gotime option"
  lk_renewed :: "gotime option"
  lk_lease :: int

definition Held :: "LockState option \<Rightarrow> bool" where
  "Held l = (case l of None \<Rightarrow> False | Some ls \<Rightarrow> lk_holder ls \<noteq> [])"

record Record =
  rc_ref :: ResourceRef
  rc_recordUID :: string
  rc_recordRV :: string
  rc_uid :: string
  rc_created :: gotime
  rc_deleted :: "gotime option"
  rc_labels :: smap
  rc_anns :: smap
  rc_fins :: "string list"
  rc_managed :: string
  rc_owners :: string
  rc_lock :: "LockState option"
  rc_hash :: string

definition empty_record :: "ResourceRef \<Rightarrow> Record" where
  "empty_record ref = \<lparr>rc_ref = ref, rc_recordUID = [], rc_recordRV = [], rc_uid = [], rc_created = 0,
     rc_deleted = None, rc_labels = [], rc_anns = [], rc_fins = [], rc_managed = [], rc_owners = [],
     rc_lock = None, rc_hash = []\<rparr>"

section \<open>DNS-1123 subdomains\<close>

text \<open>
  The regular expression as a scan: nonempty labels of lower-case alphanumerics and dashes,
  separated by dots, that neither start nor end with a dash.
\<close>

definition alnum :: "char \<Rightarrow> bool" where
  "alnum c \<longleftrightarrow> c \<in> set ''abcdefghijklmnopqrstuvwxyz0123456789''"

definition dns_label :: "string \<Rightarrow> bool" where
  "dns_label s \<longleftrightarrow> s \<noteq> [] \<and> alnum (hd s) \<and> alnum (last s) \<and> list_all (\<lambda>c. alnum c \<or> c = CHR ''-'') s"

fun labels_of :: "string \<Rightarrow> string list" where
  "labels_of [] = [[]]"
| "labels_of (c # s) =
     (if c = CHR ''.'' then [] # labels_of s
      else (case labels_of s of [] \<Rightarrow> [[c]] | l # ls \<Rightarrow> (c # l) # ls))"

definition isDNS1123Subdomain :: "string \<Rightarrow> bool" where
  "isDNS1123Subdomain s \<longleftrightarrow> s \<noteq> [] \<and> length s \<le> 253 \<and> list_all dns_label (labels_of s)"

section \<open>Names of host objects\<close>

definition recordCandidate :: "ResourceRef \<Rightarrow> string" where
  "recordCandidate ref = replace_char (CHR ''.'') (CHR ''-'') (rf_group ref) @ ''.'' @ rf_resource ref @ ''.'' @
     orCluster (rf_namespace ref) @ ''.'' @ rf_name ref"

definition RecordName :: "ResourceRef \<Rightarrow> string" where
  "RecordName ref =
     (let candidate = recordCandidate ref in
      if length candidate \<le> 253 \<and> isDNS1123Subdomain candidate then candidate
      else ''rmeta-'' @ take 24 (hex_bytes (sha256 candidate)))"

definition BodyName :: "string \<Rightarrow> string \<Rightarrow> string" where
  "BodyName namespace name =
     (let candidate = ''body.'' @ orCluster namespace @ ''.'' @ name in
      if length candidate \<le> 253 \<and> isDNS1123Subdomain candidate then candidate
      else ''wbody-'' @ take 24 (hex_bytes (sha256 candidate)))"

definition mh_rvLess :: "string \<Rightarrow> string \<Rightarrow> bool" where
  "mh_rvLess a b =
     (if a = [] then b \<noteq> []
      else if b = [] then False
      else (case (parse_uint64 a, parse_uint64 b) of
              (Some an, Some bn) \<Rightarrow> an < bn
            | _ \<Rightarrow> a < b))"

section \<open>Lemmas\<close>

lemma mh_rvLess_eq: "mh_rvLess = rvLess"
  by (simp add: fun_eq_iff mh_rvLess_def rvLess_def)

lemma labels_of_nonempty [simp]: "labels_of s \<noteq> []"
  by (cases s) (auto split: list.splits)

lemma labels_of_nodot: "CHR ''.'' \<notin> set s \<Longrightarrow> labels_of s = [s]"
  by (induction s) auto

lemma labels_of_append:
  "CHR ''.'' \<notin> set a \<Longrightarrow> labels_of (a @ CHR ''.'' # b) = a # labels_of b"
  by (induction a) (auto split: list.splits)

lemma labels_of_join: "join ''.'' (labels_of s) = s"
proof (induction s)
  case (Cons c s)
  then show ?case
    by (cases "labels_of s"; cases "tl (labels_of s)") (auto simp: neq_Nil_conv)
qed simp

lemma hex_bytes_dns: "set (hex_bytes bs) \<subseteq> Collect alnum" if "\<forall>b \<in> set bs. b < 256" for bs
proof -
  have "is_hex c \<Longrightarrow> alnum c" for c by (auto simp: is_hex_def alnum_def)
  then show ?thesis using hex_bytes_is_hex [OF that] by blast
qed

text \<open>A prefix of letters, a dash, and hexadecimal digits: one valid label.\<close>

lemma prefixed_hex_valid:
  assumes "alnum p" and "set ps \<subseteq> Collect alnum" and "length ps < 20"
    and "h \<noteq> []" and "set h \<subseteq> Collect alnum" and "length h = 24"
  shows "isDNS1123Subdomain (p # ps @ CHR ''-'' # h)"
proof -
  let ?s = "p # ps @ CHR ''-'' # h"
  have chars: "list_all (\<lambda>c. alnum c \<or> c = CHR ''-'') ?s"
    using assms by (auto simp: list_all_iff)
  have "last h \<in> Collect alnum" using assms(4,5) last_in_set by blast
  then have "alnum (last ?s)" using assms(4) by simp
  with chars have "dns_label ?s" using assms(1) by (simp add: dns_label_def)
  moreover have "\<not> alnum (CHR ''.'')" by (simp add: alnum_def)
  then have "CHR ''.'' \<notin> set ?s" using chars by (auto simp: list_all_iff)
  ultimately have "list_all dns_label (labels_of ?s)" by (simp only: labels_of_nodot list.pred_inject simp_thms)
  then show ?thesis using assms(3,6) unfolding isDNS1123Subdomain_def by simp
qed

lemma hashed_name_valid:
  assumes "alnum p" and "set ps \<subseteq> Collect alnum" and "length ps < 20"
  shows "isDNS1123Subdomain (p # ps @ CHR ''-'' # take 24 (hex_bytes (sha256 c)))"
proof (rule prefixed_hex_valid [OF assms])
  show len: "length (take 24 (hex_bytes (sha256 c))) = 24" by simp
  then show "take 24 (hex_bytes (sha256 c)) \<noteq> []" by (metis list.size(3) zero_neq_numeral)
  have "set (take 24 (hex_bytes (sha256 c))) \<subseteq> set (hex_bytes (sha256 c))" by (rule set_take_subset)
  then show "set (take 24 (hex_bytes (sha256 c))) \<subseteq> Collect alnum"
    using hex_bytes_dns [of "sha256 c"] sha256_bytes by blast
qed

section \<open>Properties\<close>

text \<open>
  The names of metadata and body objects are always valid DNS-1123 subdomains, whatever
  bytes the reference is made of, so the host API server accepts them.
\<close>

theorem host_names_valid:
  "isDNS1123Subdomain (RecordName ref) \<and> isDNS1123Subdomain (BodyName namespace name)"
proof -
  have "isDNS1123Subdomain (''rmeta-'' @ take 24 (hex_bytes (sha256 c)))" for c
    using hashed_name_valid [of "CHR ''r''" "''meta''" c] by (simp add: alnum_def)
  moreover have "isDNS1123Subdomain (''wbody-'' @ take 24 (hex_bytes (sha256 c)))" for c
    using hashed_name_valid [of "CHR ''w''" "''body''" c] by (simp add: alnum_def)
  ultimately show ?thesis by (simp add: RecordName_def BodyName_def Let_def)
qed

text \<open>
  Within one served resource the record name identifies the object: two references that
  need no hashing, with dot-free namespaces that are not the literal \<open>cluster\<close>, have the same
  record name only if they are equal.
\<close>

theorem RecordName_identifies:
  assumes "rf_group a = rf_group b" and "rf_resource a = rf_resource b"
    and "CHR ''.'' \<notin> set (rf_namespace a)" and "CHR ''.'' \<notin> set (rf_namespace b)"
    and "rf_namespace a \<noteq> ''cluster''" and "rf_namespace b \<noteq> ''cluster''"
    and "isDNS1123Subdomain (recordCandidate a)" and "isDNS1123Subdomain (recordCandidate b)"
    and "RecordName a = RecordName b"
  shows "a = b"
proof -
  have "recordCandidate a = recordCandidate b"
    using assms(7-9) by (simp add: RecordName_def isDNS1123Subdomain_def)
  then have "orCluster (rf_namespace a) @ CHR ''.'' # rf_name a = orCluster (rf_namespace b) @ CHR ''.'' # rf_name b"
    using assms(1,2) by (simp add: recordCandidate_def)
  then have "labels_of (orCluster (rf_namespace a) @ CHR ''.'' # rf_name a) =
      labels_of (orCluster (rf_namespace b) @ CHR ''.'' # rf_name b)" by simp
  then have "orCluster (rf_namespace a) = orCluster (rf_namespace b) \<and> labels_of (rf_name a) = labels_of (rf_name b)"
    using assms(3,4) by (subst (asm) (1 2) labels_of_append) (simp_all add: orCluster_def)
  then have o: "orCluster (rf_namespace a) = orCluster (rf_namespace b)"
    and "join ''.'' (labels_of (rf_name a)) = join ''.'' (labels_of (rf_name b))" by simp_all
  then have "rf_name a = rf_name b" by (simp only: labels_of_join)
  moreover have "rf_namespace a = rf_namespace b"
    using o assms(5,6) by (auto simp: orCluster_def split: if_splits)
  ultimately show ?thesis using assms(1,2) by simp
qed

theorem RecordName_identifies_witness:
  "RecordName \<lparr>rf_group = ''g'', rf_resource = ''r'', rf_namespace = ''n'', rf_name = ''a''\<rparr> \<noteq>
   RecordName \<lparr>rf_group = ''g'', rf_resource = ''r'', rf_namespace = ''n'', rf_name = ''b''\<rparr>"
proof
  let ?a = "\<lparr>rf_group = ''g'', rf_resource = ''r'', rf_namespace = ''n'', rf_name = ''a''\<rparr>"
  let ?b = "\<lparr>rf_group = ''g'', rf_resource = ''r'', rf_namespace = ''n'', rf_name = ''b''\<rparr>"
  assume "RecordName ?a = RecordName ?b"
  moreover have c: "recordCandidate ?a = ''g.r.n.a''" "recordCandidate ?b = ''g.r.n.b''"
    by (simp_all add: recordCandidate_def orCluster_def replace_char_def)
  have "isDNS1123Subdomain ''g.r.n.a''" "isDNS1123Subdomain ''g.r.n.b''"
    by (simp_all add: isDNS1123Subdomain_def dns_label_def alnum_def)
  with c have v: "isDNS1123Subdomain (recordCandidate ?a)" "isDNS1123Subdomain (recordCandidate ?b)"
    by simp_all
  ultimately have "?a = ?b" by (intro RecordName_identifies [OF _ _ _ _ _ _ v]) simp_all
  then show False by simp
qed

text \<open>
  Record names collide across namespace spellings: a cluster-scoped object and an object of
  the same name in a namespace called \<open>cluster\<close> share one metadata record and one body.
\<close>

theorem cluster_namespace_collides:
  "RecordName \<lparr>rf_group = g, rf_resource = r, rf_namespace = [], rf_name = n\<rparr> =
   RecordName \<lparr>rf_group = g, rf_resource = r, rf_namespace = ''cluster'', rf_name = n\<rparr> \<and>
   BodyName [] n = BodyName ''cluster'' n"
  by (simp add: RecordName_def recordCandidate_def BodyName_def orCluster_def)

end
