(* ===== verification/MhRecord.thy ===== *)
theory MhRecord
  imports MhRef
begin

text \<open>
  The encodings of \<open>runtime/library/multihost\<close>: metadata records and embedded locks on the
  metadata object (\<open>metastore.go\<close>), bodies on the body object (\<open>bodystore.go\<close>), the signature
  the emission filter compares and the body hash.  Whether the stored managed fields and
  owner references parse as JSON is a parameter (\<open>json_checks\<close>).
\<close>

section \<open>The embedded lock\<close>

text \<open>A map literal built entry by entry: the entry is present when its condition holds.\<close>

definition entry :: "bool \<Rightarrow> string \<Rightarrow> json \<Rightarrow> jmap" where
  "entry c k v = (if c then [(k, v)] else [])"

declare map_of_append [simp del]

lemma map_of_entry [simp]: "map_of (entry c k v @ m) k' = (if c \<and> k = k' then Some v else map_of m k')"
  by (simp add: entry_def)

lemma map_of_entry_last [simp]: "map_of (entry c k v) k' = (if c \<and> k = k' then Some v else None)"
  by (simp add: entry_def)

definition isSet :: "gotime option \<Rightarrow> bool" where
  "isSet t = (case t of None \<Rightarrow> False | Some x \<Rightarrow> x \<noteq> 0)"

definition timeText :: "gotime option \<Rightarrow> json" where
  "timeText t = JStr (case t of None \<Rightarrow> [] | Some x \<Rightarrow> rfc3339 x)"

definition lockMap :: "LockState \<Rightarrow> jmap" where
  "lockMap ls =
     [(''holderIdentity'', JStr (lk_holder ls))] @
     entry (isSet (lk_acquired ls)) ''acquiredAt'' (timeText (lk_acquired ls)) @
     entry (isSet (lk_renewed ls)) ''renewedAt'' (timeText (lk_renewed ls)) @
     entry (0 < lk_lease ls) ''leaseDurationSeconds'' (JInt (lk_lease ls))"

definition setLockOn :: "unstr \<Rightarrow> LockState option \<Rightarrow> unstr" where
  "setLockOn u ls =
     (case ls of
        None \<Rightarrow> u\<lparr>un_obj := removeNested (un_obj u) [''spec'', ''lock'']\<rparr>
      | Some l \<Rightarrow>
          (if lk_holder l = [] then u\<lparr>un_obj := removeNested (un_obj u) [''spec'', ''lock'']\<rparr>
           else (case setNested (un_obj u) [''spec'', ''lock''] (JObj (lockMap l)) of
                   None \<Rightarrow> u
                 | Some m \<Rightarrow> u\<lparr>un_obj := m\<rparr>)))"

definition parsedTime :: "json option \<Rightarrow> gotime option" where
  "parsedTime v = (case asStr v of None \<Rightarrow> None | Some s \<Rightarrow> (if s = [] then None else parse_rfc3339 s))"

definition int32 :: "int \<Rightarrow> int" where
  "int32 i = (i + 2 ^ 31) mod 2 ^ 32 - 2 ^ 31"

definition lockStateFromMap :: "jmap \<Rightarrow> LockState option" where
  "lockStateFromMap m =
     (let holder = (case asStr (map_of m ''holderIdentity'') of None \<Rightarrow> [] | Some s \<Rightarrow> s) in
      if holder = [] then None
      else Some \<lparr>lk_holder = holder,
                 lk_acquired = parsedTime (map_of m ''acquiredAt''),
                 lk_renewed = parsedTime (map_of m ''renewedAt''),
                 lk_lease = (case map_of m ''leaseDurationSeconds'' of
                               Some (JInt v) \<Rightarrow> int32 v
                             | Some (JFloat t v) \<Rightarrow> int32 v
                             | _ \<Rightarrow> 0)\<rparr>)"

definition lockFromRaw :: "unstr \<Rightarrow> LockState option" where
  "lockFromRaw u =
     (case mapAt (un_obj u) [''spec'', ''lock''] of None \<Rightarrow> None | Some m \<Rightarrow> lockStateFromMap m)"

section \<open>Records\<close>

record json_checks =
  jc_managed :: "string \<Rightarrow> bool"
  jc_owners :: "string \<Rightarrow> bool"

definition refFromUnstructured :: "unstr \<Rightarrow> ResourceRef" where
  "refFromUnstructured u =
     \<lparr>rf_group = stringAt (un_obj u) [''spec'', ''resourceRef'', ''group''],
      rf_resource = stringAt (un_obj u) [''spec'', ''resourceRef'', ''resource''],
      rf_namespace = stringAt (un_obj u) [''spec'', ''resourceRef'', ''namespace''],
      rf_name = stringAt (un_obj u) [''spec'', ''resourceRef'', ''name'']\<rparr>"

definition refMap :: "ResourceRef \<Rightarrow> jmap" where
  "refMap ref =
     [(''group'', JStr (rf_group ref)), (''resource'', JStr (rf_resource ref)), (''name'', JStr (rf_name ref))] @
     entry (rf_namespace ref \<noteq> []) ''namespace'' (JStr (rf_namespace ref))"

definition metaMap :: "Record \<Rightarrow> jmap" where
  "metaMap rec =
     entry (rc_uid rec \<noteq> []) ''uid'' (JStr (rc_uid rec)) @
     entry (rc_created rec \<noteq> 0) ''creationTimestamp'' (JStr (rfc3339 (rc_created rec))) @
     entry (isSet (rc_deleted rec)) ''deletionTimestamp'' (timeText (rc_deleted rec)) @
     entry (rc_labels rec \<noteq> []) ''labels'' (jsmap (rc_labels rec)) @
     entry (rc_anns rec \<noteq> []) ''annotations'' (jsmap (rc_anns rec)) @
     entry (rc_fins rec \<noteq> []) ''finalizers'' (JArr (map JStr (rc_fins rec))) @
     entry (rc_managed rec \<noteq> []) ''managedFields'' (JStr (rc_managed rec)) @
     entry (rc_owners rec \<noteq> []) ''ownerReferences'' (JStr (rc_owners rec))"

definition encodeRecord :: "Record \<Rightarrow> gvr \<Rightarrow> string \<Rightarrow> unstr" where
  "encodeRecord rec g kind =
     (let u = new_unstr g kind;
          spec = [(''resourceRef'', JObj (refMap (rc_ref rec))), (''metadata'', JObj (metaMap rec))] @
                 entry (rc_hash rec \<noteq> []) ''observed'' (JObj [(''bodyHash'', JStr (rc_hash rec))]);
          lock = (if Held (rc_lock rec)
                  then mapAt (un_obj (setLockOn u (rc_lock rec))) [''spec'', ''lock''] else None);
          spec' = spec @ (case lock of None \<Rightarrow> [] | Some l \<Rightarrow> [(''lock'', JObj l)])
      in u\<lparr>un_obj := [(''spec'', JObj spec')]\<rparr>)"

definition decodeMeta :: "json_checks \<Rightarrow> Record \<Rightarrow> jmap \<Rightarrow> Record res" where
  "decodeMeta J rec m =
     (let r1 = rec\<lparr>rc_uid := (case asStr (map_of m ''uid'') of None \<Rightarrow> rc_uid rec | Some s \<Rightarrow> s),
                   rc_created := (case parsedTime (map_of m ''creationTimestamp'') of
                                    None \<Rightarrow> rc_created rec | Some t \<Rightarrow> t),
                   rc_deleted := (case parsedTime (map_of m ''deletionTimestamp'') of
                                    None \<Rightarrow> rc_deleted rec | Some t \<Rightarrow> Some t),
                   rc_labels := (case asMap (map_of m ''labels'') of
                                   None \<Rightarrow> rc_labels rec | Some l \<Rightarrow> strEntries l),
                   rc_anns := (case asMap (map_of m ''annotations'') of
                                 None \<Rightarrow> rc_anns rec | Some l \<Rightarrow> strEntries l),
                   rc_fins := (case asArr (map_of m ''finalizers'') of
                                 None \<Rightarrow> rc_fins rec | Some xs \<Rightarrow> strElems xs)\<rparr>;
          mf = (case asStr (map_of m ''managedFields'') of None \<Rightarrow> [] | Some s \<Rightarrow> s);
          ors = (case asStr (map_of m ''ownerReferences'') of None \<Rightarrow> [] | Some s \<Rightarrow> s)
      in if mf \<noteq> [] \<and> \<not> jc_managed J mf then Inl (Plain ''managedFields not valid JSON'')
         else let r2 = (if mf \<noteq> [] then r1\<lparr>rc_managed := mf\<rparr> else r1)
              in if ors \<noteq> [] \<and> \<not> jc_owners J ors then Inl (Plain ''ownerReferences not valid JSON'')
                 else Inr (if ors \<noteq> [] then r2\<lparr>rc_owners := ors\<rparr> else r2))"

definition decodeRecord :: "json_checks \<Rightarrow> unstr \<Rightarrow> ResourceRef \<Rightarrow> Record res" where
  "decodeRecord J u fallback =
     (let ref0 = refFromUnstructured u;
          ref = (if rf_group ref0 = [] then fallback else ref0);
          rec = (empty_record ref)\<lparr>rc_recordUID := un_uid u, rc_recordRV := un_rv u\<rparr>
      in case (case nestedMap (un_obj u) [''spec'', ''metadata''] of
                 BadType \<Rightarrow> Inl (Plain ''accessor error'')
               | Missing \<Rightarrow> Inr rec
               | Found m \<Rightarrow> decodeMeta J rec m) of
           Inl e \<Rightarrow> Inl e
         | Inr r1 \<Rightarrow>
             (let r2 = r1\<lparr>rc_hash := stringAt (un_obj u) [''spec'', ''observed'', ''bodyHash'']\<rparr>
              in Inr (r2\<lparr>rc_lock := lockFromRaw u\<rparr>)))"

section \<open>Signatures\<close>

definition stableMap :: "smap \<Rightarrow> string" where
  "stableMap m = concat (map (\<lambda>(k, v). k @ ''='' @ v @ '','') (sort_key fst m))"

definition VisibleSignature :: "Record \<Rightarrow> string" where
  "VisibleSignature rec =
     ''bh='' @ rc_hash rec @ '';uid='' @ rc_uid rec @
     (case rc_deleted rec of None \<Rightarrow> [] | Some t \<Rightarrow> '';del='' @ rfc3339 t) @
     '';labels='' @ stableMap (rc_labels rec) @ '';anns='' @ stableMap (rc_anns rec) @
     '';fin='' @ join '','' (sort (rc_fins rec)) @
     (if rc_owners rec \<noteq> [] then '';owners='' @ rc_owners rec else [])"

section \<open>Bodies\<close>

record Body =
  bd_owner :: string
  bd_fields :: jmap

definition no_body :: Body where
  "no_body = \<lparr>bd_owner = [], bd_fields = []\<rparr>"

definition bodyRefOf :: "unstr \<Rightarrow> string \<times> string" where
  "bodyRefOf u = (stringAt (un_obj u) [''spec'', ''resourceRef'', ''namespace''],
                  stringAt (un_obj u) [''spec'', ''resourceRef'', ''name''])"

definition encodeBody :: "string \<Rightarrow> string \<Rightarrow> Body \<Rightarrow> gvr \<Rightarrow> string \<Rightarrow> unstr" where
  "encodeBody namespace name b g kind =
     (let body = foldl (\<lambda>m (k, v). aput k v m) [(''owner'', JStr (bd_owner b))] (bd_fields b)
      in (new_unstr g kind)\<lparr>un_obj :=
           [(''spec'', JObj
               [(''resourceRef'', JObj [(''namespace'', JStr namespace), (''name'', JStr name)]),
                (''body'', JObj body)])]\<rparr>)"

definition bodyFromUnstructured :: "unstr \<Rightarrow> Body" where
  "bodyFromUnstructured u =
     \<lparr>bd_owner = stringAt (un_obj u) [''spec'', ''body'', ''owner''],
      bd_fields = (case mapAt (un_obj u) [''spec'', ''body''] of
                     None \<Rightarrow> []
                   | Some m \<Rightarrow> filter (\<lambda>(k, v). k \<noteq> ''owner'') m)\<rparr>"

definition HashBody :: "Body \<Rightarrow> string" where
  "HashBody b = hex_bytes (sha256 (''owner='' @ bd_owner b @
     concat (map (\<lambda>(k, v). '';'' @ k @ ''='' @ show_json v) (sort_key fst (bd_fields b)))))"

section \<open>Lemmas\<close>

lemmas path_defs = stringAt_def mapAt_def nestedString_def nestedMap_def

text \<open>What survives storage: times are kept to the second.\<close>

definition trunc_opt :: "gotime option \<Rightarrow> gotime option" where
  "trunc_opt t = (case t of None \<Rightarrow> None | Some x \<Rightarrow> (if x = 0 then None else Some (trunc_s x)))"

definition norm_lock :: "LockState option \<Rightarrow> LockState option" where
  "norm_lock l =
     (case l of
        None \<Rightarrow> None
      | Some ls \<Rightarrow> (if lk_holder ls = [] then None
                   else Some (ls\<lparr>lk_acquired := trunc_opt (lk_acquired ls),
                                 lk_renewed := trunc_opt (lk_renewed ls)\<rparr>)))"

definition stored_record :: "string \<Rightarrow> string \<Rightarrow> Record \<Rightarrow> Record" where
  "stored_record uid rv rec = rec\<lparr>rc_recordUID := uid, rc_recordRV := rv,
     rc_created := trunc_s (rc_created rec), rc_deleted := trunc_opt (rc_deleted rec),
     rc_lock := norm_lock (rc_lock rec)\<rparr>"

definition time_ok :: "gotime option \<Rightarrow> bool" where
  "time_ok t = (case t of None \<Rightarrow> True | Some x \<Rightarrow> 0 \<le> x \<and> x < max_time)"

definition lock_ok :: "LockState option \<Rightarrow> bool" where
  "lock_ok l = (case l of None \<Rightarrow> True
     | Some ls \<Rightarrow> time_ok (lk_acquired ls) \<and> time_ok (lk_renewed ls) \<and> 0 \<le> lk_lease ls \<and> lk_lease ls < 2 ^ 31)"

definition record_ok :: "json_checks \<Rightarrow> Record \<Rightarrow> bool" where
  "record_ok J rec \<longleftrightarrow> rf_group (rc_ref rec) \<noteq> [] \<and>
     0 \<le> rc_created rec \<and> rc_created rec < max_time \<and> time_ok (rc_deleted rec) \<and> lock_ok (rc_lock rec) \<and>
     (rc_managed rec \<noteq> [] \<longrightarrow> jc_managed J (rc_managed rec)) \<and>
     (rc_owners rec \<noteq> [] \<longrightarrow> jc_owners J (rc_owners rec))"

lemma rfc3339_nonempty [simp]: "rfc3339 t \<noteq> []"
  by (simp add: rfc3339_def Let_def split: prod.splits)

lemma rfc3339_parses: "0 \<le> t \<Longrightarrow> t < max_time \<Longrightarrow> parsedTime (Some (JStr (rfc3339 t))) = Some (trunc_s t)"
  by (simp add: parsedTime_def rfc3339_roundtrip)

lemma parsedTime_None [simp]: "parsedTime None = None"
  by (simp add: parsedTime_def)

lemma parsedTime_entry:
  "time_ok t \<Longrightarrow> parsedTime (if isSet t then Some (timeText t) else None) = trunc_opt t"
  by (cases t) (auto simp: time_ok_def isSet_def timeText_def trunc_opt_def rfc3339_parses)

lemma parsedTime_created:
  "0 \<le> t \<Longrightarrow> t < max_time \<Longrightarrow>
   (case parsedTime (if t \<noteq> 0 then Some (JStr (rfc3339 t)) else None) of None \<Rightarrow> 0 | Some x \<Rightarrow> x) = trunc_s t"
  by (auto simp: rfc3339_parses trunc_s_def)

lemma int32_small: "0 \<le> i \<Longrightarrow> i < 2 ^ 31 \<Longrightarrow> int32 i = i"
  by (simp add: int32_def)

lemma lockState_lockMap:
  assumes "lock_ok (Some ls)" and "lk_holder ls \<noteq> []"
  shows "lockStateFromMap (lockMap ls) = norm_lock (Some ls)"
proof -
  have t: "time_ok (lk_acquired ls)" "time_ok (lk_renewed ls)" and l: "0 \<le> lk_lease ls" "lk_lease ls < 2 ^ 31"
    using assms(1) by (simp_all add: lock_ok_def)
  have a: "map_of (lockMap ls) ''acquiredAt'' = (if isSet (lk_acquired ls) then Some (timeText (lk_acquired ls)) else None)"
    "map_of (lockMap ls) ''renewedAt'' = (if isSet (lk_renewed ls) then Some (timeText (lk_renewed ls)) else None)"
    "map_of (lockMap ls) ''leaseDurationSeconds'' = (if 0 < lk_lease ls then Some (JInt (lk_lease ls)) else None)"
    "map_of (lockMap ls) ''holderIdentity'' = Some (JStr (lk_holder ls))"
    by (simp_all add: lockMap_def)
  have "norm_lock (Some ls) = Some \<lparr>lk_holder = lk_holder ls, lk_acquired = trunc_opt (lk_acquired ls),
      lk_renewed = trunc_opt (lk_renewed ls), lk_lease = lk_lease ls\<rparr>"
    using assms(2) by (cases ls) (simp add: norm_lock_def)
  then show ?thesis
    using assms(2) l
    unfolding lockStateFromMap_def Let_def a parsedTime_entry [OF t(1)] parsedTime_entry [OF t(2)]
    by (auto simp: int32_small)
qed

lemma lock_on_empty:
  "Held l \<Longrightarrow> mapAt (un_obj (setLockOn (new_unstr g kind) l)) [''spec'', ''lock''] = map_option lockMap l"
  by (cases l) (auto simp: Held_def setLockOn_def new_unstr_def path_defs)

definition specMap :: "Record \<Rightarrow> jmap" where
  "specMap rec = [(''resourceRef'', JObj (refMap (rc_ref rec))), (''metadata'', JObj (metaMap rec))] @
     entry (rc_hash rec \<noteq> []) ''observed'' (JObj [(''bodyHash'', JStr (rc_hash rec))]) @
     (case rc_lock rec of None \<Rightarrow> [] | Some l \<Rightarrow> entry (lk_holder l \<noteq> []) ''lock'' (JObj (lockMap l)))"

lemma encodeRecord_obj: "un_obj (encodeRecord rec g kind) = [(''spec'', JObj (specMap rec))]"
  using lock_on_empty [of "rc_lock rec" g kind]
  by (auto simp: encodeRecord_def Let_def specMap_def Held_def entry_def split: option.splits)

lemma refMap_lookup:
  "map_of (refMap r) ''group'' = Some (JStr (rf_group r))" "map_of (refMap r) ''resource'' = Some (JStr (rf_resource r))"
  "map_of (refMap r) ''name'' = Some (JStr (rf_name r))"
  "map_of (refMap r) ''namespace'' = (if rf_namespace r \<noteq> [] then Some (JStr (rf_namespace r)) else None)"
  by (simp_all add: refMap_def)

lemma metaMap_lookup:
  "map_of (metaMap rec) ''uid'' = (if rc_uid rec \<noteq> [] then Some (JStr (rc_uid rec)) else None)"
  "map_of (metaMap rec) ''creationTimestamp'' = (if rc_created rec \<noteq> 0 then Some (JStr (rfc3339 (rc_created rec))) else None)"
  "map_of (metaMap rec) ''deletionTimestamp'' = (if isSet (rc_deleted rec) then Some (timeText (rc_deleted rec)) else None)"
  "map_of (metaMap rec) ''labels'' = (if rc_labels rec \<noteq> [] then Some (jsmap (rc_labels rec)) else None)"
  "map_of (metaMap rec) ''annotations'' = (if rc_anns rec \<noteq> [] then Some (jsmap (rc_anns rec)) else None)"
  "map_of (metaMap rec) ''finalizers'' = (if rc_fins rec \<noteq> [] then Some (JArr (map JStr (rc_fins rec))) else None)"
  "map_of (metaMap rec) ''managedFields'' = (if rc_managed rec \<noteq> [] then Some (JStr (rc_managed rec)) else None)"
  "map_of (metaMap rec) ''ownerReferences'' = (if rc_owners rec \<noteq> [] then Some (JStr (rc_owners rec)) else None)"
  by (simp_all add: metaMap_def)

lemma specMap_lookup:
  "map_of (specMap rec) ''resourceRef'' = Some (JObj (refMap (rc_ref rec)))"
  "map_of (specMap rec) ''metadata'' = Some (JObj (metaMap rec))"
  "map_of (specMap rec) ''observed'' = (if rc_hash rec \<noteq> [] then Some (JObj [(''bodyHash'', JStr (rc_hash rec))]) else None)"
  "map_of (specMap rec) ''lock'' = (case rc_lock rec of None \<Rightarrow> None
      | Some l \<Rightarrow> (if lk_holder l \<noteq> [] then Some (JObj (lockMap l)) else None))"
  by (simp_all add: specMap_def split: option.splits)

lemma asMap_if [simp]: "asMap (if c then Some (jsmap m) else None) = (if c then Some (map (\<lambda>(k, v). (k, JStr v)) m) else None)"
  by (simp add: jsmap_def)

lemma decodeMeta_metaMap:
  assumes "record_ok J rec" and "rc_created r0 = 0" "rc_deleted r0 = None" "rc_uid r0 = []" "rc_labels r0 = []"
    "rc_anns r0 = []" "rc_fins r0 = []" "rc_managed r0 = []" "rc_owners r0 = []"
  shows "decodeMeta J r0 (metaMap rec) = Inr (r0\<lparr>rc_uid := rc_uid rec, rc_created := trunc_s (rc_created rec),
     rc_deleted := trunc_opt (rc_deleted rec), rc_labels := rc_labels rec, rc_anns := rc_anns rec,
     rc_fins := rc_fins rec, rc_managed := rc_managed rec, rc_owners := rc_owners rec\<rparr>)"
proof -
  have c: "(case parsedTime (map_of (metaMap rec) ''creationTimestamp'') of None \<Rightarrow> 0 | Some t \<Rightarrow> t) = trunc_s (rc_created rec)"
    using assms(1) by (subst metaMap_lookup, intro parsedTime_created) (simp_all add: record_ok_def)
  have d: "parsedTime (map_of (metaMap rec) ''deletionTimestamp'') = trunc_opt (rc_deleted rec)"
    using assms(1) by (subst metaMap_lookup, intro parsedTime_entry) (simp add: record_ok_def)
  have d': "(case trunc_opt t of None \<Rightarrow> None | Some x \<Rightarrow> Some x) = trunc_opt t" for t
    by (simp split: option.splits)
  have s: "(case asStr (if c then Some (JStr x) else None) of None \<Rightarrow> [] | Some y \<Rightarrow> y) = (if c then x else [])" for c x
    by simp
  have l: "(case asMap (if c then Some (jsmap m) else None) of None \<Rightarrow> [] | Some l \<Rightarrow> strEntries l) = (if c then m else [])" for c m
    by simp
  have f: "(case asArr (if c then Some (JArr (map JStr xs)) else None) of None \<Rightarrow> [] | Some l \<Rightarrow> strElems l) = (if c then xs else [])" for c xs
    by simp
  have mo: "rc_managed rec \<noteq> [] \<Longrightarrow> jc_managed J (rc_managed rec)" "rc_owners rec \<noteq> [] \<Longrightarrow> jc_owners J (rc_owners rec)"
    using assms(1) by (simp_all add: record_ok_def)
  have e: "(if x \<noteq> [] then x else []) = x" for x :: "'z list" by simp
  show ?thesis
    unfolding decodeMeta_def assms(2-9) c d d' metaMap_lookup(1,4-8) s l f e Let_def
    using mo assms(8,9) by (cases "rc_managed rec = []"; cases "rc_owners rec = []") simp_all
qed

lemma decode_spec:
  assumes "record_ok J rec" and s: "map_of (un_obj u) ''spec'' = Some (JObj (specMap rec))"
  shows "decodeRecord J u fb = Inr (stored_record (un_uid u) (un_rv u) rec)"
proof -
  have r: "refFromUnstructured u = rc_ref rec"
    by (cases "rc_ref rec") (simp add: refFromUnstructured_def path_defs s specMap_lookup refMap_lookup)
  have m: "nestedMap (un_obj u) [''spec'', ''metadata''] = Found (metaMap rec)"
    by (simp add: nestedMap_def s specMap_lookup)
  have h: "stringAt (un_obj u) [''spec'', ''observed'', ''bodyHash''] = rc_hash rec"
    by (simp add: path_defs s specMap_lookup)
  have l: "lockFromRaw u = norm_lock (rc_lock rec)"
    using assms(1) lockState_lockMap
    by (auto simp: lockFromRaw_def path_defs s specMap_lookup record_ok_def norm_lock_def split: option.splits)
  have g: "rf_group (rc_ref rec) \<noteq> []" using assms(1) by (simp add: record_ok_def)
  show ?thesis
    unfolding decodeRecord_def Let_def r m h l
    using g by (simp add: decodeMeta_metaMap [OF assms(1)] empty_record_def stored_record_def)
qed

lemma decode_encode:
  assumes "record_ok J rec"
  shows "decodeRecord J ((encodeRecord rec g kind)\<lparr>un_name := n, un_uid := uid, un_rv := rv\<rparr>) fb =
         Inr (stored_record uid rv rec)"
  by (subst decode_spec [OF assms]) (simp_all add: encodeRecord_obj)

text \<open>Overlaying fresh keys appends them in order.\<close>

lemma foldl_aput_fresh:
  "distinct (akeys m @ akeys fs) \<Longrightarrow> foldl (\<lambda>m (k, v). aput k v m) m fs = m @ fs"
proof (induction fs arbitrary: m)
  case (Cons f fs)
  obtain k v where f: "f = (k, v)" by (cases f)
  have "aput k v m = m @ [(k, v)]" if "k \<notin> set (akeys m)" for m :: "('a \<times> 'b) list"
    using that by (induction m) auto
  then have "aput k v m = m @ [(k, v)]" using Cons.prems by (simp add: f)
  then show ?case using Cons.IH [of "m @ [(k, v)]"] Cons.prems by (simp add: f)
qed simp

lemma foldl_aput_lookup:
  "map_of (foldl (\<lambda>m (k, v). aput k v m) m fs) k =
   (case map_of (rev fs) k of None \<Rightarrow> map_of m k | Some v \<Rightarrow> Some v)"
  by (induction fs arbitrary: m) (auto simp: map_of_append map_add_def split: option.splits)

definition body_ok :: "Body \<Rightarrow> bool" where
  "body_ok b \<longleftrightarrow> distinct (akeys (bd_fields b)) \<and> ''owner'' \<notin> set (akeys (bd_fields b))"

lemma decode_encode_body:
  assumes "body_ok b"
  shows "bodyFromUnstructured ((encodeBody ns n b g kind)\<lparr>un_name := x, un_uid := uid, un_rv := rv\<rparr>) = b \<and>
         bodyRefOf ((encodeBody ns n b g kind)\<lparr>un_name := x, un_uid := uid, un_rv := rv\<rparr>) = (ns, n)"
proof -
  have f: "foldl (\<lambda>m (k, v). aput k v m) [(''owner'', JStr (bd_owner b))] (bd_fields b) =
      (''owner'', JStr (bd_owner b)) # bd_fields b"
    using foldl_aput_fresh [of "[(''owner'', JStr (bd_owner b))]" "bd_fields b"] assms
    by (simp add: body_ok_def)
  have keep: "filter (\<lambda>(k, v). k \<noteq> ''owner'') (bd_fields b) = bd_fields b"
    using assms by (auto simp: body_ok_def image_iff intro!: filter_True)
  show ?thesis
    unfolding bodyFromUnstructured_def bodyRefOf_def encodeBody_def f Let_def
    by (simp add: path_defs keep)
qed

section \<open>Properties\<close>

text \<open>
  C29: A metadata record survives storage: what \<open>decodeRecord\<close> reads from an encoded record, once
  the host has given it a name, a UID and a resource version, is the record itself, times cut
  to the second and a lock without holder dropped.
\<close>

theorem record_roundtrip:
  assumes "record_ok J rec"
  shows "decodeRecord J ((encodeRecord rec g kind)\<lparr>un_name := n, un_uid := uid, un_rv := rv\<rparr>) fb =
         Inr (stored_record uid rv rec)"
  by (rule decode_encode [OF assms])

theorem record_roundtrip_witness:
  "let rec = (empty_record \<lparr>rf_group = ''g'', rf_resource = ''r'', rf_namespace = ''n'', rf_name = ''a''\<rparr>)
         \<lparr>rc_created := 5 * ns_per_s + 3, rc_labels := [(''x'', ''1'')], rc_fins := [''f''],
          rc_lock := Some \<lparr>lk_holder = ''h'', lk_acquired = None, lk_renewed = Some ns_per_s, lk_lease = 15\<rparr>\<rparr>
   in \<exists>r. decodeRecord \<lparr>jc_managed = (\<lambda>_. True), jc_owners = (\<lambda>_. True)\<rparr>
            ((encodeRecord rec \<lparr>gv_group = [], gv_version = [], gv_resource = []\<rparr> [])\<lparr>un_name := [], un_uid := ''u'', un_rv := ''7''\<rparr>)
            (rc_ref rec) = Inr r \<and> rc_recordRV r = ''7'' \<and> rc_created r = 5 * ns_per_s \<and> rc_labels r = [(''x'', ''1'')]"
proof -
  let ?J = "\<lparr>jc_managed = (\<lambda>_. True), jc_owners = (\<lambda>_. True)\<rparr>"
  let ?rec = "(empty_record \<lparr>rf_group = ''g'', rf_resource = ''r'', rf_namespace = ''n'', rf_name = ''a''\<rparr>)
         \<lparr>rc_created := 5 * ns_per_s + 3, rc_labels := [(''x'', ''1'')], rc_fins := [''f''],
          rc_lock := Some \<lparr>lk_holder = ''h'', lk_acquired = None, lk_renewed = Some ns_per_s, lk_lease = 15\<rparr>\<rparr>"
  have ok: "record_ok ?J ?rec"
    by (simp add: record_ok_def empty_record_def lock_ok_def time_ok_def ns_per_s_def max_time_def)
  have t: "trunc_s (5 * ns_per_s + 3) = 5 * ns_per_s" by (simp add: trunc_s_def ns_per_s_def)
  show ?thesis
    unfolding Let_def record_roundtrip [OF ok] by (simp add: stored_record_def t empty_record_def)
qed

text \<open>
  A body survives storage: what is read back from an encoded body is the body and its
  namespace and name, provided no field is called \<open>owner\<close>.
\<close>

theorem body_roundtrip:
  assumes "body_ok b"
  shows "bodyFromUnstructured ((encodeBody ns n b g kind)\<lparr>un_name := x, un_uid := uid, un_rv := rv\<rparr>) = b \<and>
         bodyRefOf ((encodeBody ns n b g kind)\<lparr>un_name := x, un_uid := uid, un_rv := rv\<rparr>) = (ns, n)"
  by (rule decode_encode_body [OF assms])

theorem body_roundtrip_witness:
  "bodyFromUnstructured ((encodeBody ''n'' ''a'' \<lparr>bd_owner = ''alice'', bd_fields = [(''color'', JStr ''red'')]\<rparr>
      \<lparr>gv_group = [], gv_version = [], gv_resource = []\<rparr> [])\<lparr>un_name := [], un_uid := ''u'', un_rv := ''7''\<rparr>) =
   \<lparr>bd_owner = ''alice'', bd_fields = [(''color'', JStr ''red'')]\<rparr>"
  by (rule body_roundtrip [THEN conjunct1]) (simp add: body_ok_def)

text \<open>
  The owner tag is not protected from the payload: a body field called \<open>owner\<close> replaces the
  owner the server stamped, so the object read back belongs to whoever the field names.
\<close>

theorem owner_field_overrides:
  assumes "distinct (akeys fs)" and "map_of fs ''owner'' = Some (JStr mallory)"
  shows "bd_owner (bodyFromUnstructured (encodeBody ns n \<lparr>bd_owner = alice, bd_fields = fs\<rparr> g kind)) = mallory"
proof -
  have "map_of (rev fs) ''owner'' = Some (JStr mallory)"
    using assms by (simp add: map_of_eq_Some_iff rev_map [symmetric])
  then show ?thesis
    by (simp add: bodyFromUnstructured_def encodeBody_def path_defs foldl_aput_lookup)
qed

theorem owner_field_overrides_witness:
  "bd_owner (bodyFromUnstructured (encodeBody ''n'' ''a'' \<lparr>bd_owner = ''alice'', bd_fields = [(''owner'', JStr ''bob'')]\<rparr>
      \<lparr>gv_group = [], gv_version = [], gv_resource = []\<rparr> [])) = ''bob''"
  by (rule owner_field_overrides) simp_all

text \<open>
  The emission signature is blind to lock churn and to nothing a watcher sees: storing a
  record again under any resource version with any lock leaves it unchanged, while a new body
  hash changes it when uid, labels and the other parts stay.
\<close>

theorem signature_ignores_lock_churn:
  "VisibleSignature (rec\<lparr>rc_recordRV := rv, rc_recordUID := u, rc_lock := l\<rparr>) = VisibleSignature rec \<and>
   (VisibleSignature (rec\<lparr>rc_hash := h\<rparr>) = VisibleSignature (rec\<lparr>rc_hash := h'\<rparr>) \<longleftrightarrow> h = h')"
  by (simp add: VisibleSignature_def)

text \<open>
  The signature is not injective: two different annotation maps (commas and equal signs are
  legal in annotation values) print the same, so a change from one to the other is taken for
  lock churn.
\<close>

theorem signature_collides:
  "\<exists>l1 l2. l1 \<noteq> l2 \<and> distinct (akeys l1) \<and> distinct (akeys l2) \<and>
     VisibleSignature (rec\<lparr>rc_anns := l1\<rparr>) = VisibleSignature (rec\<lparr>rc_anns := l2\<rparr>)"
  by (rule exI [where x = "[(''a'', ''1,b=2'')]"], rule exI [where x = "[(''a'', ''1''), (''b'', ''2'')]"])
     (simp add: VisibleSignature_def stableMap_def less_char_def)

end
