(* ===== verification/HostApi.thy ===== *)
theory HostApi
  imports MhRecord
begin

text \<open>
  The world outside the multi-host runtime: the host API server reached through the dynamic
  client, the informer caches in front of it, the clock and the UUID generator, as one record
  of operations over the world's state \<open>'h\<close>.  What the code relies on is the locale
  \<open>host_api\<close>; the etcd simulation of the repository's tests (\<open>installEtcdSim\<close> in
  \<open>multihost_test.go\<close>) provides it.
\<close>

record 'h host =
  h_get :: "gvr \<Rightarrow> string \<Rightarrow> 'h \<Rightarrow> unstr res \<times> 'h"
  h_create :: "gvr \<Rightarrow> unstr \<Rightarrow> 'h \<Rightarrow> unstr res \<times> 'h"
  h_update :: "gvr \<Rightarrow> unstr \<Rightarrow> 'h \<Rightarrow> unstr res \<times> 'h"
  h_delete :: "gvr \<Rightarrow> string \<Rightarrow> 'h \<Rightarrow> api_err option \<times> 'h"
  h_list :: "gvr \<Rightarrow> 'h \<Rightarrow> unstr list res \<times> 'h"
  h_cache_get :: "gvr \<Rightarrow> string \<Rightarrow> 'h \<Rightarrow> unstr res"
  h_cache_list :: "gvr \<Rightarrow> 'h \<Rightarrow> unstr list res"
  h_now :: "'h \<Rightarrow> gotime \<times> 'h"
  h_sleep :: "int \<Rightarrow> 'h \<Rightarrow> 'h"
  h_uuid :: "'h \<Rightarrow> string \<times> 'h"

section \<open>The contract\<close>

text \<open>
  \<open>objs h r n\<close> is the object of resource \<open>r\<close> stored under a name.  Writes are compare-and-swap on
  the resource version and mint a greater one, in the order \<open>ver\<close> of versions; reading, the clock and sleeping change no object.
\<close>

locale host_api =
  fixes H :: "'h host" and ok :: "'h \<Rightarrow> bool" and objs :: "'h \<Rightarrow> string \<Rightarrow> string \<Rightarrow> unstr option"
    and ver :: "string \<Rightarrow> nat"
  assumes get: "ok h \<Longrightarrow> ok (snd (h_get H g n h)) \<and> objs (snd (h_get H g n h)) = objs h"
    and get_none: "ok h \<Longrightarrow> objs h (gv_resource g) n = None \<Longrightarrow> \<exists>e. fst (h_get H g n h) = Inl e \<and> is_not_found e"
    and get_some: "ok h \<Longrightarrow> objs h (gv_resource g) n = Some u \<Longrightarrow> fst (h_get H g n h) = Inr u"
    and create: "ok h \<Longrightarrow> objs h (gv_resource g) (un_name u) = None \<Longrightarrow>
      \<exists>rv uid. fst (h_create H g u h) = Inr (u\<lparr>un_rv := rv, un_uid := uid\<rparr>) \<and> rv \<noteq> [] \<and>
        ok (snd (h_create H g u h)) \<and>
        objs (snd (h_create H g u h)) = (objs h)(gv_resource g := (objs h (gv_resource g))(un_name u \<mapsto> u\<lparr>un_rv := rv, un_uid := uid\<rparr>))"
    and update: "ok h \<Longrightarrow> objs h (gv_resource g) (un_name u) = Some cur \<Longrightarrow> un_rv u = un_rv cur \<Longrightarrow>
      \<exists>rv uid. fst (h_update H g u h) = Inr (u\<lparr>un_rv := rv, un_uid := uid\<rparr>) \<and> rv \<noteq> [] \<and> ver (un_rv cur) < ver rv \<and>
        ok (snd (h_update H g u h)) \<and>
        objs (snd (h_update H g u h)) = (objs h)(gv_resource g := (objs h (gv_resource g))(un_name u \<mapsto> u\<lparr>un_rv := rv, un_uid := uid\<rparr>))"
    and update_stale: "ok h \<Longrightarrow> objs h (gv_resource g) (un_name u) = Some cur \<Longrightarrow> un_rv u \<noteq> [] \<Longrightarrow> un_rv u \<noteq> un_rv cur \<Longrightarrow>
      \<exists>e. fst (h_update H g u h) = Inl e \<and> is_conflict e \<and> ok (snd (h_update H g u h)) \<and>
        objs (snd (h_update H g u h)) = objs h"
    and delete: "ok h \<Longrightarrow> ok (snd (h_delete H g n h)) \<and>
        objs (snd (h_delete H g n h)) = (objs h)(gv_resource g := (objs h (gv_resource g))(n := None))"
    and delete_result: "ok h \<Longrightarrow> objs h (gv_resource g) n \<noteq> None \<Longrightarrow> fst (h_delete H g n h) = None"
    and clock: "ok h \<Longrightarrow> ok (snd (h_now H h)) \<and> objs (snd (h_now H h)) = objs h"
    and clock_range: "ok h \<Longrightarrow> 0 < fst (h_now H h)"
    and sleep: "ok h \<Longrightarrow> ok (h_sleep H d h) \<and> objs (h_sleep H d h) = objs h"
    and uuid: "ok h \<Longrightarrow> ok (snd (h_uuid H h)) \<and> objs (snd (h_uuid H h)) = objs h \<and> fst (h_uuid H h) \<noteq> []"
    and named: "ok h \<Longrightarrow> objs h r n = Some u \<Longrightarrow> un_name u = n \<and> un_rv u \<noteq> []"

text \<open>Listing a resource: every object stored under it, each once.\<close>

locale host_lister = host_api H ok objs ver
  for H :: "'h host" and ok :: "'h \<Rightarrow> bool" and objs :: "'h \<Rightarrow> string \<Rightarrow> string \<Rightarrow> unstr option" and ver :: "string \<Rightarrow> nat" +
  assumes list: "ok h \<Longrightarrow> \<exists>us. fst (h_list H g h) = Inr us \<and> distinct us \<and>
        (\<forall>u. u \<in> set us \<longleftrightarrow> (\<exists>n. objs h (gv_resource g) n = Some u)) \<and>
        ok (snd (h_list H g h)) \<and> objs (snd (h_list H g h)) = objs h"

section \<open>The etcd simulation of the tests\<close>

type_synonym res_key = "string \<times> string"

record etcd =
  es_counter :: nat
  es_current :: "(res_key \<times> string) list"
  es_objs :: "(res_key \<times> unstr) list"
  es_clock :: nat

definition es_key :: "gvr \<Rightarrow> string \<Rightarrow> res_key" where
  "es_key g n = (gv_resource g, n)"

text \<open>\<open>stamp\<close>: the CAS check (on updates), a fresh resource version, a UID if there is none.\<close>

definition es_stamp :: "gvr \<Rightarrow> unstr \<Rightarrow> bool \<Rightarrow> etcd \<Rightarrow> unstr res \<times> etcd" where
  "es_stamp g u isCreate s =
     (let k = es_key g (un_name u);
          stale = (\<not> isCreate \<and> (case map_of (es_current s) k of
                     None \<Rightarrow> False
                   | Some stored \<Rightarrow> stored \<noteq> [] \<and> un_rv u \<noteq> [] \<and> un_rv u \<noteq> stored))
      in if stale then (Inl (Conflict (un_name u) ''object was modified''), s)
         else (let c = es_counter s + 1; rv = dec_nat c in
           (Inr (u\<lparr>un_rv := rv, un_uid := (if un_uid u = [] then ''uid-'' @ rv else un_uid u)\<rparr>),
            s\<lparr>es_counter := c, es_current := aput k rv (es_current s)\<rparr>)))"

definition es_create :: "gvr \<Rightarrow> unstr \<Rightarrow> etcd \<Rightarrow> unstr res \<times> etcd" where
  "es_create g u s =
     (case es_stamp g u True s of
        (Inl e, s1) \<Rightarrow> (Inl e, s1)
      | (Inr u1, s1) \<Rightarrow>
          (let k = es_key g (un_name u) in
           case map_of (es_objs s1) k of
             Some _ \<Rightarrow> (Inl (AlreadyExists (un_name u)), s1)
           | None \<Rightarrow> (Inr u1, s1\<lparr>es_objs := aput k u1 (es_objs s1)\<rparr>)))"

definition es_update :: "gvr \<Rightarrow> unstr \<Rightarrow> etcd \<Rightarrow> unstr res \<times> etcd" where
  "es_update g u s =
     (case es_stamp g u False s of
        (Inl e, s1) \<Rightarrow> (Inl e, s1)
      | (Inr u1, s1) \<Rightarrow>
          (let k = es_key g (un_name u) in
           case map_of (es_objs s1) k of
             None \<Rightarrow> (Inl (NotFound (un_name u)), s1)
           | Some _ \<Rightarrow> (Inr u1, s1\<lparr>es_objs := aput k u1 (es_objs s1)\<rparr>)))"

definition es_delete :: "gvr \<Rightarrow> string \<Rightarrow> etcd \<Rightarrow> api_err option \<times> etcd" where
  "es_delete g n s =
     (let k = es_key g n; s1 = s\<lparr>es_current := adel k (es_current s)\<rparr> in
      case map_of (es_objs s1) k of
        None \<Rightarrow> (Some (NotFound n), s1)
      | Some _ \<Rightarrow> (None, s1\<lparr>es_objs := adel k (es_objs s1)\<rparr>))"

definition es_get :: "gvr \<Rightarrow> string \<Rightarrow> etcd \<Rightarrow> unstr res" where
  "es_get g n s = (case map_of (es_objs s) (es_key g n) of None \<Rightarrow> Inl (NotFound n) | Some u \<Rightarrow> Inr u)"

definition es_list :: "gvr \<Rightarrow> etcd \<Rightarrow> unstr list" where
  "es_list g s = map snd (filter (\<lambda>(k, u). fst k = gv_resource g) (es_objs s))"

text \<open>
  The informers of the simulation are always up to date; a reading of the clock takes a
  microsecond, and UUIDs are numbered by the clock.
\<close>

definition etcd_host :: "etcd host" where
  "etcd_host =
     \<lparr>h_get = (\<lambda>g n s. (es_get g n s, s)), h_create = es_create, h_update = es_update, h_delete = es_delete,
      h_list = (\<lambda>g s. (Inr (es_list g s), s)),
      h_cache_get = es_get, h_cache_list = (\<lambda>g s. Inr (es_list g s)),
      h_now = (\<lambda>s. (int (es_clock s) + 1, s\<lparr>es_clock := es_clock s + 1000\<rparr>)),
      h_sleep = (\<lambda>d s. s\<lparr>es_clock := es_clock s + nat d\<rparr>),
      h_uuid = (\<lambda>s. (''uuid-'' @ dec_nat (es_clock s), s\<lparr>es_clock := es_clock s + 1\<rparr>))\<rparr>"

definition es_empty :: etcd where
  "es_empty = \<lparr>es_counter = 0, es_current = [], es_objs = [], es_clock = 10000000000\<rparr>"

definition es_lookup :: "etcd \<Rightarrow> string \<Rightarrow> string \<Rightarrow> unstr option" where
  "es_lookup s r n = map_of (es_objs s) (r, n)"

text \<open>What the simulation keeps unless a create hits an existing name.\<close>

definition es_ok :: "etcd \<Rightarrow> bool" where
  "es_ok s \<longleftrightarrow> distinct (akeys (es_objs s)) \<and> (\<forall>k u. map_of (es_objs s) k = Some u \<longrightarrow> un_name u = snd k \<and>
     (\<exists>i \<le> es_counter s. un_rv u = dec_nat i) \<and> map_of (es_current s) k = Some (un_rv u))"

lemma es_ok_put:
  assumes "es_ok s" and "un_name u = snd k"
  shows "es_ok (s\<lparr>es_counter := es_counter s + 1,
     es_current := aput k (dec_nat (es_counter s + 1)) (es_current s),
     es_objs := aput k (u\<lparr>un_rv := dec_nat (es_counter s + 1), un_uid := uid\<rparr>) (es_objs s)\<rparr>)"
proof -
  have rv: "\<exists>i \<le> Suc (es_counter s). un_rv v = dec_nat i" if "map_of (es_objs s) k' = Some v" for k' v
    using assms(1) that unfolding es_ok_def by (meson le_SucI)
  show ?thesis
    using assms rv unfolding es_ok_def by (cases k) (auto simp: fun_upd_apply)
qed

lemma es_ok_current: "es_ok s \<Longrightarrow> map_of (es_objs s) k = Some u \<Longrightarrow> map_of (es_current s) k = Some (un_rv u)"
  and es_ok_rv: "es_ok s \<Longrightarrow> map_of (es_objs s) k = Some u \<Longrightarrow> \<exists>i \<le> es_counter s. un_rv u = dec_nat i"
  and es_ok_name: "es_ok s \<Longrightarrow> map_of (es_objs s) k = Some u \<Longrightarrow> un_name u = snd k"
  unfolding es_ok_def by blast+

lemma es_ok_clock: "es_ok (s\<lparr>es_clock := t\<rparr>) = es_ok s"
  by (simp add: es_ok_def)

lemma dec_nat_nonempty: "dec_nat n \<noteq> []"
  by (induction n rule: dec_nat.induct) auto

lemma es_lookup_put: "es_objs s' = aput (r, n) u (es_objs s) \<Longrightarrow>
    es_lookup s' = (es_lookup s)(r := (es_lookup s r)(n \<mapsto> u))"
  and es_lookup_del: "es_objs s' = adel (r, n) (es_objs s) \<Longrightarrow>
    es_lookup s' = (es_lookup s)(r := (es_lookup s r)(n := None))"
  and es_lookup_same: "es_objs s' = es_objs s \<Longrightarrow> es_lookup s' = es_lookup s"
  by (auto simp: fun_eq_iff es_lookup_def)

definition es_written :: "gvr \<Rightarrow> unstr \<Rightarrow> etcd \<Rightarrow> unstr" where
  "es_written g u s = (let rv = dec_nat (es_counter s + 1)
     in u\<lparr>un_rv := rv, un_uid := (if un_uid u = [] then ''uid-'' @ rv else un_uid u)\<rparr>)"

definition es_after :: "gvr \<Rightarrow> unstr \<Rightarrow> etcd \<Rightarrow> etcd" where
  "es_after g u s = s\<lparr>es_counter := es_counter s + 1,
     es_current := aput (gv_resource g, un_name u) (dec_nat (es_counter s + 1)) (es_current s),
     es_objs := aput (gv_resource g, un_name u) (es_written g u s) (es_objs s)\<rparr>"

lemma es_create_fresh:
  "map_of (es_objs s) (gv_resource g, un_name u) = None \<Longrightarrow> es_create g u s = (Inr (es_written g u s), es_after g u s)"
  by (simp add: es_create_def es_stamp_def es_key_def es_written_def es_after_def Let_def)

lemma es_update_current:
  "map_of (es_objs s) (gv_resource g, un_name u) = Some cur \<Longrightarrow>
   map_of (es_current s) (gv_resource g, un_name u) = Some (un_rv u) \<Longrightarrow>
   es_update g u s = (Inr (es_written g u s), es_after g u s)"
  by (simp add: es_update_def es_stamp_def es_key_def es_written_def es_after_def Let_def)

lemma es_after_ok: "es_ok s \<Longrightarrow> es_ok (es_after g u s)"
  unfolding es_after_def es_written_def Let_def by (rule es_ok_put) simp_all

lemma es_after_lookup:
  "es_lookup (es_after g u s) = (es_lookup s)(gv_resource g := (es_lookup s (gv_resource g))(un_name u \<mapsto> es_written g u s))"
  by (rule es_lookup_put) (simp add: es_after_def)

text \<open>Both successful writes end the same way.\<close>

lemma es_write_law:
  assumes "es_ok s" and "op = (Inr (es_written g u s), es_after g u s)"
  shows "\<exists>rv uid. fst op = Inr (u\<lparr>un_rv := rv, un_uid := uid\<rparr>) \<and> rv \<noteq> [] \<and> rv = dec_nat (es_counter s + 1) \<and>
    es_ok (snd op) \<and> es_lookup (snd op) =
      (es_lookup s)(gv_resource g := (es_lookup s (gv_resource g))(un_name u \<mapsto> u\<lparr>un_rv := rv, un_uid := uid\<rparr>))"
proof -
  obtain uid where "es_written g u s = u\<lparr>un_rv := dec_nat (es_counter s + 1), un_uid := uid\<rparr>"
    by (simp add: es_written_def Let_def)
  then show ?thesis
    using es_after_ok [OF assms(1), of g u] es_after_lookup [of g u s] unfolding assms(2) fst_conv snd_conv
    by (metis dec_nat_nonempty)
qed

lemmas es_defs = etcd_host_def es_create_def es_update_def es_delete_def es_get_def es_stamp_def
  es_key_def Let_def

definition es_ver :: "string \<Rightarrow> nat" where
  "es_ver s = (case digits_val 0 s of None \<Rightarrow> 0 | Some n \<Rightarrow> n)"

lemma es_ver_dec_nat [simp]: "es_ver (dec_nat n) = n"
  by (simp add: es_ver_def digits_val_dec_nat)

interpretation etcd: host_api etcd_host es_ok es_lookup es_ver
proof
  fix h :: etcd and g :: gvr and n :: string and u cur :: unstr and r d
  assume ok: "es_ok h"
  let ?r = "gv_resource g"
  show "es_ok (snd (h_get etcd_host g n h)) \<and> es_lookup (snd (h_get etcd_host g n h)) = es_lookup h"
    using ok by (simp add: etcd_host_def)
  show "es_lookup h ?r n = None \<Longrightarrow> \<exists>e. fst (h_get etcd_host g n h) = Inl e \<and> is_not_found e"
    by (simp add: es_defs es_lookup_def)
  show "es_lookup h ?r n = Some u \<Longrightarrow> fst (h_get etcd_host g n h) = Inr u"
    by (simp add: es_defs es_lookup_def)
  show "\<exists>rv uid. fst (h_create etcd_host g u h) = Inr (u\<lparr>un_rv := rv, un_uid := uid\<rparr>) \<and> rv \<noteq> [] \<and>
      es_ok (snd (h_create etcd_host g u h)) \<and>
      es_lookup (snd (h_create etcd_host g u h)) =
        (es_lookup h)(?r := (es_lookup h ?r)(un_name u \<mapsto> u\<lparr>un_rv := rv, un_uid := uid\<rparr>))"
    if "es_lookup h ?r (un_name u) = None"
  proof -
    have m: "map_of (es_objs h) (?r, un_name u) = None" using that by (simp add: es_lookup_def)
    have "h_create etcd_host = es_create" by (simp add: etcd_host_def)
    then show ?thesis using es_write_law [OF ok es_create_fresh [OF m]] by metis
  qed
  show "\<exists>rv uid. fst (h_update etcd_host g u h) = Inr (u\<lparr>un_rv := rv, un_uid := uid\<rparr>) \<and> rv \<noteq> [] \<and>
      es_ver (un_rv cur) < es_ver rv \<and> es_ok (snd (h_update etcd_host g u h)) \<and>
      es_lookup (snd (h_update etcd_host g u h)) =
        (es_lookup h)(?r := (es_lookup h ?r)(un_name u \<mapsto> u\<lparr>un_rv := rv, un_uid := uid\<rparr>))"
    if "es_lookup h ?r (un_name u) = Some cur" "un_rv u = un_rv cur"
  proof -
    have m: "map_of (es_objs h) (?r, un_name u) = Some cur" using that(1) by (simp add: es_lookup_def)
    have "es_ver (un_rv cur) < es_ver (dec_nat (es_counter h + 1))" using es_ok_rv [OF ok m] by auto
    moreover have "h_update etcd_host = es_update" by (simp add: etcd_host_def)
    moreover have "map_of (es_current h) (?r, un_name u) = Some (un_rv u)"
      using es_ok_current [OF ok m] that(2) by simp
    ultimately show ?thesis using es_write_law [OF ok es_update_current [OF m]] by metis
  qed
  show "\<exists>e. fst (h_update etcd_host g u h) = Inl e \<and> is_conflict e \<and> es_ok (snd (h_update etcd_host g u h)) \<and>
      es_lookup (snd (h_update etcd_host g u h)) = es_lookup h"
    if "es_lookup h ?r (un_name u) = Some cur" "un_rv u \<noteq> []" "un_rv u \<noteq> un_rv cur"
  proof -
    have m: "map_of (es_objs h) (?r, un_name u) = Some cur" using that(1) by (simp add: es_lookup_def)
    have "un_rv cur \<noteq> []" using es_ok_rv [OF ok m] dec_nat_nonempty by metis
    then show ?thesis using m that(2,3) es_ok_current [OF ok m] ok by (simp add: es_defs)
  qed
  show "es_ok (snd (h_delete etcd_host g n h)) \<and>
      es_lookup (snd (h_delete etcd_host g n h)) = (es_lookup h)(?r := (es_lookup h ?r)(n := None))"
  proof (cases "map_of (es_objs h) (?r, n)")
    case None
    then have "es_lookup h = (es_lookup h)(?r := (es_lookup h ?r)(n := None))"
      by (auto simp: fun_eq_iff es_lookup_def)
    moreover have "es_lookup (snd (h_delete etcd_host g n h)) = es_lookup h"
      using None by (intro es_lookup_same) (simp add: es_defs)
    moreover have "es_ok (snd (h_delete etcd_host g n h))"
      using None ok by (auto simp: es_defs es_ok_def)
    ultimately show ?thesis by simp
  next
    case (Some v)
    moreover have "es_lookup (snd (h_delete etcd_host g n h)) = (es_lookup h)(?r := (es_lookup h ?r)(n := None))"
      using Some by (intro es_lookup_del) (simp add: es_defs)
    ultimately show ?thesis using ok by (auto simp: es_defs es_ok_def)
  qed
  show "es_lookup h ?r n \<noteq> None \<Longrightarrow> fst (h_delete etcd_host g n h) = None"
    by (auto simp: es_defs es_lookup_def)
  show "es_ok (snd (h_now etcd_host h)) \<and> es_lookup (snd (h_now etcd_host h)) = es_lookup h"
    using ok by (simp add: es_defs es_ok_clock es_lookup_def [abs_def])
  show "0 < fst (h_now etcd_host h)" by (simp add: etcd_host_def)
  show "es_ok (h_sleep etcd_host d h) \<and> es_lookup (h_sleep etcd_host d h) = es_lookup h"
    using ok by (simp add: es_defs es_ok_clock es_lookup_def [abs_def])
  show "es_ok (snd (h_uuid etcd_host h)) \<and> es_lookup (snd (h_uuid etcd_host h)) = es_lookup h \<and>
      fst (h_uuid etcd_host h) \<noteq> []"
    using ok by (simp add: es_defs es_ok_clock es_lookup_def [abs_def])
  show "es_lookup h r n = Some u \<Longrightarrow> un_name u = n \<and> un_rv u \<noteq> []"
    using es_ok_name [OF ok, of "(r, n)" u] es_ok_rv [OF ok, of "(r, n)" u] dec_nat_nonempty [THEN not_sym]
    by (auto simp: es_lookup_def)
qed

lemma es_list_set:
  assumes "es_ok s"
  shows "u \<in> set (es_list g s) \<longleftrightarrow> (\<exists>n. es_lookup s (gv_resource g) n = Some u)"
proof -
  have "((r, n), u) \<in> set (es_objs s) \<longleftrightarrow> es_lookup s r n = Some u" for r n
    using assms by (simp add: es_ok_def es_lookup_def)
  then have "(\<exists>n. es_lookup s (gv_resource g) n = Some u) \<longleftrightarrow> (\<exists>n. ((gv_resource g, n), u) \<in> set (es_objs s))" by simp
  then show ?thesis by (auto simp: es_list_def) force
qed

lemma es_list_distinct:
  assumes "es_ok s"
  shows "distinct (es_list g s)"
proof -
  let ?l = "filter (\<lambda>(k, u). fst k = gv_resource g) (es_objs s)"
  have d: "distinct (akeys ?l)" using assms by (simp add: es_ok_def filter_map_fst_distinct)
  have key: "fst p = (gv_resource g, un_name (snd p))" if "p \<in> set ?l" for p
  proof -
    obtain k u where p: "p = (k, u)" by fastforce
    have "map_of (es_objs s) k = Some u" using that assms p by (simp add: es_ok_def)
    then show ?thesis using that p es_ok_name [OF assms] by (auto simp: prod_eq_iff)
  qed
  have "inj_on snd (set ?l)"
  proof (rule inj_onI)
    fix p q assume pq: "p \<in> set ?l" "q \<in> set ?l" "snd p = snd q"
    then have "fst p = fst q" using key [OF pq(1)] key [OF pq(2)] by simp
    then show "p = q" using pq(3) by (simp add: prod_eq_iff)
  qed
  then show ?thesis
    using d by (simp add: es_list_def distinct_map)
qed

interpretation etcd_list: host_lister etcd_host es_ok es_lookup es_ver
proof
  fix h :: etcd and g :: gvr
  assume ok: "es_ok h"
  show "\<exists>us. fst (h_list etcd_host g h) = Inr us \<and> distinct us \<and>
      (\<forall>u. (u \<in> set us) = (\<exists>n. es_lookup h (gv_resource g) n = Some u)) \<and>
      es_ok (snd (h_list etcd_host g h)) \<and> es_lookup (snd (h_list etcd_host g h)) = es_lookup h"
    using ok es_list_set [OF ok] es_list_distinct [OF ok] by (intro exI [of _ "es_list g h"]) (simp add: etcd_host_def)
qed

end
