(* ===== verification/MetaStore.thy ===== *)
theory MetaStore
  imports HostApi
begin

text \<open>
  \<open>runtime/library/multihost/metastore.go\<close>: the store of metadata records on the host API
  server.  The store's configuration is a record; its only mutable field, the highest
  resource version seen, is passed explicitly.  The host's state is passed through every call.
\<close>

record MetaStore =
  ms_gvr :: gvr
  ms_kind :: string
  ms_group :: string
  ms_resource :: string
  ms_started :: bool
  ms_checks :: json_checks

section \<open>Informer events\<close>

record raw_event =
  re_type :: event_type
  re_ref :: ResourceRef
  re_rec :: "Record option"
  re_rv :: string

definition mine :: "MetaStore \<Rightarrow> ResourceRef \<Rightarrow> bool" where
  "mine S ref \<longleftrightarrow> rf_group ref = ms_group S \<and> rf_resource ref = ms_resource S"

text \<open>
  \<open>handle\<close> and \<open>handleDelete\<close>: the new high-water mark and what is forwarded to the sink; the
  object is \<open>None\<close> when it is not an unstructured object.
\<close>

definition ms_handle :: "MetaStore \<Rightarrow> event_type \<Rightarrow> unstr option \<Rightarrow> string \<Rightarrow> raw_event option \<times> string" where
  "ms_handle S et obj curRV =
     (case obj of
        None \<Rightarrow> (None, curRV)
      | Some u \<Rightarrow>
          (let ref = refFromUnstructured u in
           if \<not> mine S ref then (None, curRV)
           else (let rv = un_rv u; cur' = (if mh_rvLess curRV rv then rv else curRV)
                 in case decodeRecord (ms_checks S) u ref of
                      Inl e \<Rightarrow> (None, cur')
                    | Inr rec \<Rightarrow> (Some \<lparr>re_type = et, re_ref = ref, re_rec = Some rec, re_rv = rv\<rparr>, cur'))))"

definition ms_handleDelete :: "MetaStore \<Rightarrow> unstr option \<Rightarrow> raw_event option" where
  "ms_handleDelete S obj =
     (case obj of
        None \<Rightarrow> None
      | Some u \<Rightarrow>
          (let ref = refFromUnstructured u in
           if \<not> mine S ref then None
           else Some \<lparr>re_type = Deleted, re_ref = ref,
                      re_rec = (case decodeRecord (ms_checks S) u ref of Inl e \<Rightarrow> None | Inr rec \<Rightarrow> Some rec),
                      re_rv = un_rv u\<rparr>))"

section \<open>Reads\<close>

definition maxRV :: "string \<Rightarrow> string \<Rightarrow> string" where
  "maxRV m rv = (if mh_rvLess m rv then rv else m)"

definition HighWaterRV :: "'h host \<Rightarrow> MetaStore \<Rightarrow> string \<Rightarrow> 'h \<Rightarrow> string" where
  "HighWaterRV H S curRV h =
     (if curRV \<noteq> [] then curRV
      else if \<not> ms_started S then []
      else (case h_cache_list H (ms_gvr S) h of
              Inl e \<Rightarrow> []
            | Inr us \<Rightarrow> foldl (\<lambda>m u. maxRV m (un_rv u)) [] us))"

definition GetFromCache :: "'h host \<Rightarrow> MetaStore \<Rightarrow> ResourceRef \<Rightarrow> 'h \<Rightarrow> Record option res" where
  "GetFromCache H S ref h =
     (if \<not> ms_started S then Inr None
      else (case h_cache_get H (ms_gvr S) (RecordName ref) h of
              Inl e \<Rightarrow> (if is_not_found e then Inr None else Inl e)
            | Inr u \<Rightarrow> (case decodeRecord (ms_checks S) u ref of Inl e \<Rightarrow> Inl e | Inr rec \<Rightarrow> Inr (Some rec))))"

text \<open>
  The records of this resource in the cache, sorted by name (\<open>sort.Slice\<close> may order equal names
  of different namespaces either way, the model keeps their order), and the highest version.
\<close>

definition ownRecords :: "MetaStore \<Rightarrow> unstr list \<Rightarrow> Record list" where
  "ownRecords S us = List.map_filter (\<lambda>u.
     let ref = refFromUnstructured u in
     if \<not> mine S ref then None
     else (case decodeRecord (ms_checks S) u ref of Inl e \<Rightarrow> None | Inr rec \<Rightarrow> Some rec)) us"

definition ListFromCache :: "'h host \<Rightarrow> MetaStore \<Rightarrow> 'h \<Rightarrow> (Record list \<times> string) res" where
  "ListFromCache H S h =
     (if \<not> ms_started S then Inr ([], [])
      else (case h_cache_list H (ms_gvr S) h of
              Inl e \<Rightarrow> Inl e
            | Inr us \<Rightarrow>
                (let recs = ownRecords S us
                 in Inr (sort_key (\<lambda>r. rf_name (rc_ref r)) recs, foldl (\<lambda>m r. maxRV m (rc_recordRV r)) [] recs))))"

definition GetRawDirect :: "'h host \<Rightarrow> MetaStore \<Rightarrow> ResourceRef \<Rightarrow> 'h \<Rightarrow> unstr option res \<times> 'h" where
  "GetRawDirect H S ref h =
     (case h_get H (ms_gvr S) (RecordName ref) h of
        (Inl e, h1) \<Rightarrow> ((if is_not_found e then Inr None else Inl e), h1)
      | (Inr u, h1) \<Rightarrow> (Inr (Some u), h1))"

definition GetDirect :: "'h host \<Rightarrow> MetaStore \<Rightarrow> ResourceRef \<Rightarrow> 'h \<Rightarrow> Record option res \<times> 'h" where
  "GetDirect H S ref h =
     (case h_get H (ms_gvr S) (RecordName ref) h of
        (Inl e, h1) \<Rightarrow> ((if is_not_found e then Inr None else Inl e), h1)
      | (Inr u, h1) \<Rightarrow>
          ((case decodeRecord (ms_checks S) u ref of Inl e \<Rightarrow> Inl e | Inr rec \<Rightarrow> Inr (Some rec)), h1))"

section \<open>Writes\<close>

definition decoded :: "MetaStore \<Rightarrow> ResourceRef \<Rightarrow> unstr res \<Rightarrow> Record res" where
  "decoded S ref r = (case r of Inl e \<Rightarrow> Inl e | Inr u \<Rightarrow> decodeRecord (ms_checks S) u ref)"

definition ms_Put :: "'h host \<Rightarrow> MetaStore \<Rightarrow> Record \<Rightarrow> 'h \<Rightarrow> Record res \<times> 'h" where
  "ms_Put H S rec h =
     (let name = RecordName (rc_ref rec);
          u = (encodeRecord rec (ms_gvr S) (ms_kind S))\<lparr>un_name := name\<rparr>
      in case h_get H (ms_gvr S) name h of
           (Inl e, h1) \<Rightarrow>
             (if \<not> is_not_found e then (Inl (Wrapped ''metastore: get for put'' e), h1)
              else (case h_create H (ms_gvr S) (u\<lparr>un_rv := []\<rparr>) h1 of
                      (Inl ce, h2) \<Rightarrow> (Inl (Wrapped ''metastore: create'' ce), h2)
                    | (Inr created, h2) \<Rightarrow> (decodeRecord (ms_checks S) created (rc_ref rec), h2)))
         | (Inr existing, h1) \<Rightarrow>
             (case h_update H (ms_gvr S) (u\<lparr>un_rv := un_rv existing, un_uid := un_uid existing\<rparr>) h1 of
                (Inl ue, h2) \<Rightarrow> (Inl (Wrapped ''metastore: update'' ue), h2)
              | (Inr updated, h2) \<Rightarrow> (decodeRecord (ms_checks S) updated (rc_ref rec), h2)))"

definition ms_Delete :: "'h host \<Rightarrow> MetaStore \<Rightarrow> ResourceRef \<Rightarrow> 'h \<Rightarrow> api_err option \<times> 'h" where
  "ms_Delete H S ref h =
     (case h_delete H (ms_gvr S) (RecordName ref) h of
        (Some e, h1) \<Rightarrow> ((if is_not_found e then None else Some (Wrapped ''metastore: delete'' e)), h1)
      | (None, h1) \<Rightarrow> (None, h1))"

definition CreateRawWithLock ::
  "'h host \<Rightarrow> MetaStore \<Rightarrow> ResourceRef \<Rightarrow> LockState \<Rightarrow> 'h \<Rightarrow> unstr res \<times> 'h" where
  "CreateRawWithLock H S ref ls h =
     (let u = (new_unstr (ms_gvr S) (ms_kind S))
                \<lparr>un_name := RecordName ref, un_obj := [(''spec'', JObj [(''resourceRef'', JObj (refMap ref))])]\<rparr>
      in h_create H (ms_gvr S) (setLockOn u (Some ls)) h)"

definition UpdateRaw :: "'h host \<Rightarrow> MetaStore \<Rightarrow> unstr \<Rightarrow> 'h \<Rightarrow> unstr res \<times> 'h" where
  "UpdateRaw H S u h = h_update H (ms_gvr S) u h"

definition CommitBodyHashAndMeta ::
  "'h host \<Rightarrow> MetaStore \<Rightarrow> unstr \<Rightarrow> Record \<Rightarrow> 'h \<Rightarrow> Record res \<times> 'h" where
  "CommitBodyHashAndMeta H S u rec h =
     (let enc = encodeRecord rec (ms_gvr S) (ms_kind S);
          spec = (case mapAt (un_obj enc) [''spec''] of None \<Rightarrow> [] | Some m \<Rightarrow> m);
          u1 = u\<lparr>un_obj := aput ''spec'' (JObj (adel ''lock'' spec)) (un_obj u)\<rparr>
      in case h_update H (ms_gvr S) u1 h of
           (Inl e, h1) \<Rightarrow> (Inl e, h1)
         | (Inr updated, h1) \<Rightarrow> (decodeRecord (ms_checks S) updated (rc_ref rec), h1))"

section \<open>Lemmas\<close>

lemma lock_of_setLockOn:
  assumes "mapAt (un_obj u) [''spec''] \<noteq> None" and "lk_holder l \<noteq> []" and "lock_ok (Some l)"
  shows "lockFromRaw (setLockOn u (Some l)) = norm_lock (Some l)"
proof -
  obtain m where m: "map_of (un_obj u) ''spec'' = Some (JObj m)"
    using assms(1) by (auto simp: path_defs split: option.splits json.splits)
  then show ?thesis
    using lockState_lockMap [OF assms(3,2)] assms(2)
    by (simp add: setLockOn_def lockFromRaw_def path_defs)
qed

lemma setLockOn_frame [simp]:
  "un_name (setLockOn u l) = un_name u" "un_rv (setLockOn u l) = un_rv u" "un_uid (setLockOn u l) = un_uid u"
  by (auto simp: setLockOn_def split: option.splits)

text \<open>What a commit stores: the encoded record without its lock.\<close>

definition unlocked :: "Record \<Rightarrow> Record" where
  "unlocked rec = rec\<lparr>rc_lock := None\<rparr>"

lemma adel_append: "adel k (a @ b) = adel k a @ adel k b"
  by (induction a) (auto)

lemma metaMap_unlocked [simp]: "metaMap (rec\<lparr>rc_lock := l\<rparr>) = metaMap rec"
  by (simp add: metaMap_def)

lemma commit_spec: "adel ''lock'' (specMap rec) = specMap (unlocked rec)"
  by (auto simp: specMap_def unlocked_def entry_def adel_append split: option.splits)

lemma record_ok_unlocked: "record_ok J rec \<Longrightarrow> record_ok J (unlocked rec)"
  by (simp add: record_ok_def unlocked_def lock_ok_def)

context host_api
begin

lemma GetRawDirect_spec:
  assumes "ok h"
  shows "fst (GetRawDirect H S ref h) = Inr (objs h (gv_resource (ms_gvr S)) (RecordName ref)) \<and>
         ok (snd (GetRawDirect H S ref h)) \<and> objs (snd (GetRawDirect H S ref h)) = objs h"
  using get [OF assms, of "ms_gvr S" "RecordName ref"] get_none [OF assms, of "ms_gvr S" "RecordName ref"]
    get_some [OF assms, of "ms_gvr S" "RecordName ref"]
  by (cases "objs h (gv_resource (ms_gvr S)) (RecordName ref)";
      cases "h_get H (ms_gvr S) (RecordName ref) h") (auto simp: GetRawDirect_def)

text \<open>A commit over the current version of a record stores it and frees the lock.\<close>

lemma Commit_spec:
  assumes ok: "ok h" and cur: "objs h (gv_resource (ms_gvr S)) (un_name u) = Some c" and rv: "un_rv u = un_rv c"
    and rec: "record_ok (ms_checks S) rec"
  shows "\<exists>rv' uid u'. fst (CommitBodyHashAndMeta H S u rec h) = Inr (stored_record uid rv' (unlocked rec)) \<and>
     rv' \<noteq> [] \<and> ver (un_rv c) < ver rv' \<and> ok (snd (CommitBodyHashAndMeta H S u rec h)) \<and>
     objs (snd (CommitBodyHashAndMeta H S u rec h)) =
       (objs h)(gv_resource (ms_gvr S) := (objs h (gv_resource (ms_gvr S)))(un_name u \<mapsto> u')) \<and>
     un_name u' = un_name u \<and> un_rv u' = rv' \<and> un_uid u' = uid \<and>
     map_of (un_obj u') ''spec'' = Some (JObj (specMap (unlocked rec)))"
proof -
  let ?u = "u\<lparr>un_obj := aput ''spec'' (JObj (specMap (unlocked rec))) (un_obj u)\<rparr>"
  have c: "CommitBodyHashAndMeta H S u rec h =
      (case h_update H (ms_gvr S) ?u h of (Inl e, h1) \<Rightarrow> (Inl e, h1)
       | (Inr updated, h1) \<Rightarrow> (decodeRecord (ms_checks S) updated (rc_ref rec), h1))"
    by (simp add: CommitBodyHashAndMeta_def encodeRecord_obj path_defs commit_spec)
  obtain rv' uid where w: "fst (h_update H (ms_gvr S) ?u h) = Inr (?u\<lparr>un_rv := rv', un_uid := uid\<rparr>)"
    "rv' \<noteq> []" "ver (un_rv c) < ver rv'" "ok (snd (h_update H (ms_gvr S) ?u h))"
    "objs (snd (h_update H (ms_gvr S) ?u h)) = (objs h)(gv_resource (ms_gvr S) :=
       (objs h (gv_resource (ms_gvr S)))(un_name u \<mapsto> ?u\<lparr>un_rv := rv', un_uid := uid\<rparr>))"
    using update [OF ok, of "ms_gvr S" ?u c] cur rv by auto
  have d: "decodeRecord (ms_checks S) (?u\<lparr>un_rv := rv', un_uid := uid\<rparr>) (rc_ref rec) =
      Inr (stored_record uid rv' (unlocked rec))"
    using decode_spec [OF record_ok_unlocked [OF rec], of "?u\<lparr>un_rv := rv', un_uid := uid\<rparr>"] by simp
  show ?thesis
    using w d unfolding c
    by (intro exI [of _ rv'] exI [of _ uid] exI [of _ "?u\<lparr>un_rv := rv', un_uid := uid\<rparr>"])
       (cases "h_update H (ms_gvr S) ?u h", auto)
qed

end

end
