(* ===== verification/MhLock.thy ===== *)
theory MhLock
  imports MetaStore
begin

text \<open>
  \<open>runtime/library/multihost/lock.go\<close>: the per-object lock embedded in the metadata record and
  the locked-write transaction.  A held lock is a \<open>Handle\<close> with the raw record the next CAS is
  made against.  The heartbeat goroutine is the function \<open>renew\<close>; how often it fires during an
  attempt, before and after the body is written, is a parameter of the transaction.
  Durations are nanoseconds; the conversion of a lease to \<open>int32\<close> seconds truncates.
\<close>

definition lockRetryAttempts :: nat where
  "lockRetryAttempts = 3"

definition lockRetryBackoff :: int where
  "lockRetryBackoff = 25 * 1000000"

record Locker =
  lo_store :: MetaStore
  lo_gr :: group_resource
  lo_identity :: string
  lo_lease :: int
  lo_renew :: bool
  lo_txn :: bool
  lo_attempts :: nat

definition NewLocker ::
  "MetaStore \<Rightarrow> group_resource \<Rightarrow> string \<Rightarrow> int \<Rightarrow> bool \<Rightarrow> bool \<Rightarrow> int \<Rightarrow> Locker" where
  "NewLocker store gr identity lease renewEnabled txn attempts =
     \<lparr>lo_store = store, lo_gr = gr, lo_identity = identity,
      lo_lease = (if lease = 0 then 15 * ns_per_s else lease),
      lo_renew = renewEnabled, lo_txn = txn,
      lo_attempts = (if attempts \<le> 0 then 5 else nat attempts)\<rparr>"

definition mh_leaseSeconds :: "Locker \<Rightarrow> int" where
  "mh_leaseSeconds L = int32 (lo_lease L div ns_per_s)"

definition lockExpired :: "'h host \<Rightarrow> LockState option \<Rightarrow> 'h \<Rightarrow> bool \<times> 'h" where
  "lockExpired H l h =
     (case l of
        None \<Rightarrow> (True, h)
      | Some ls \<Rightarrow>
          (case lk_renewed ls of
             None \<Rightarrow> (True, h)
           | Some t \<Rightarrow>
               (if lk_lease ls \<le> 0 then (True, h)
                else (let (now, h1) = h_now H h in (t + lk_lease ls * ns_per_s < now, h1)))))"

record Handle =
  hd_ref :: ResourceRef
  hd_raw :: "unstr option"
  hd_preRV :: string

definition newHandle :: "ResourceRef \<Rightarrow> unstr \<Rightarrow> string \<Rightarrow> Handle" where
  "newHandle ref raw preRV = \<lparr>hd_ref = ref, hd_raw = Some raw, hd_preRV = preRV\<rparr>"

section \<open>Acquire\<close>

definition desiredLock :: "Locker \<Rightarrow> gotime \<Rightarrow> LockState" where
  "desiredLock L now = \<lparr>lk_holder = lo_identity L, lk_acquired = Some now, lk_renewed = Some now,
     lk_lease = mh_leaseSeconds L\<rparr>"

text \<open>
  What a pass of the retry loop decided: a final answer, or another pass with the error to
  report if the budget is spent.
\<close>

datatype ('a, 'h) pass = Done "'a res" 'h | Again api_err 'h

definition acquirePass :: "'h host \<Rightarrow> Locker \<Rightarrow> ResourceRef \<Rightarrow> 'h \<Rightarrow> (Handle, 'h) pass" where
  "acquirePass H L ref h =
     (case GetRawDirect H (lo_store L) ref h of
        (Inl e, h1) \<Rightarrow> Again (Wrapped ''lock get'' e) h1
      | (Inr got, h1) \<Rightarrow>
          (let (now, h2) = h_now H h1; desired = desiredLock L now in
           case got of
             None \<Rightarrow>
               (case CreateRawWithLock H (lo_store L) ref desired h2 of
                  (Inl ce, h3) \<Rightarrow> (if is_already_exists ce then Again ce h3
                                   else Done (Inl (Internal (Wrapped ''lock create'' ce))) h3)
                | (Inr created, h3) \<Rightarrow> Done (Inr (newHandle ref created [])) h3)
           | Some raw \<Rightarrow>
               (let preRV = un_rv raw; existing = lockFromRaw raw;
                    own = (case existing of None \<Rightarrow> False | Some ls \<Rightarrow> lk_holder ls = lo_identity L);
                    take = (\<lambda>what h'. case UpdateRaw H (lo_store L) (setLockOn raw (Some desired)) h' of
                              (Inl ue, h4) \<Rightarrow> (if is_conflict ue then Again ue h4
                                               else Done (Inl (Internal (Wrapped what ue))) h4)
                            | (Inr updated, h4) \<Rightarrow> Done (Inr (newHandle ref updated preRV)) h4)
                in if own then take ''lock re-stamp'' h2
                   else if Held existing
                   then (let (expired, h3) = lockExpired H existing h2
                         in if \<not> expired
                            then Done (Inl (Conflict (rf_name ref) (''object is locked by '' @
                                   (case existing of None \<Rightarrow> [] | Some ls \<Rightarrow> lk_holder ls)))) h3
                            else take ''lock acquire update'' h3)
                   else take ''lock acquire update'' h2)))"

fun mh_acquireLoop ::
  "'h host \<Rightarrow> Locker \<Rightarrow> ResourceRef \<Rightarrow> nat \<Rightarrow> nat \<Rightarrow> api_err \<Rightarrow> 'h \<Rightarrow> Handle res \<times> 'h" where
  "mh_acquireLoop H L ref attempt 0 lastErr h =
     (if is_conflict lastErr
      then (Inl (Conflict (rf_name ref) ''lock acquisition failed''), h)
      else (Inl (Internal (Wrapped ''lock acquisition failed'' lastErr)), h))"
| "mh_acquireLoop H L ref attempt (Suc n) lastErr h =
     (let h0 = (if 0 < attempt then h_sleep H (lockRetryBackoff * 2 ^ (attempt - 1)) h else h) in
      case acquirePass H L ref h0 of
        Done r h1 \<Rightarrow> (r, h1)
      | Again e h1 \<Rightarrow> mh_acquireLoop H L ref (attempt + 1) n e h1)"

definition Acquire :: "'h host \<Rightarrow> Locker \<Rightarrow> ResourceRef \<Rightarrow> 'h \<Rightarrow> Handle res \<times> 'h" where
  "Acquire H L ref h = mh_acquireLoop H L ref 0 lockRetryAttempts (Plain ''nil'') h"

section \<open>The heartbeat, commit and release\<close>

definition lockAcquiredAt :: "'h host \<Rightarrow> unstr \<Rightarrow> 'h \<Rightarrow> gotime option \<times> 'h" where
  "lockAcquiredAt H u h =
     (case lockFromRaw u of
        Some ls \<Rightarrow> (case lk_acquired ls of
                      Some t \<Rightarrow> (Some t, h)
                    | None \<Rightarrow> (let (now, h1) = h_now H h in (Some now, h1)))
      | None \<Rightarrow> (let (now, h1) = h_now H h in (Some now, h1)))"

definition renew :: "'h host \<Rightarrow> Locker \<Rightarrow> Handle \<times> 'h \<Rightarrow> Handle \<times> 'h" where
  "renew H L = (\<lambda>(hnd, h).
     case hd_raw hnd of
       None \<Rightarrow> (hnd, h)
     | Some raw \<Rightarrow>
         (let (now, h1) = h_now H h;
              (acq, h2) = lockAcquiredAt H raw h1;
              ls = \<lparr>lk_holder = lo_identity L, lk_acquired = acq, lk_renewed = Some now,
                    lk_lease = mh_leaseSeconds L\<rparr>;
              raw1 = setLockOn raw (Some ls)
          in case UpdateRaw H (lo_store L) raw1 h2 of
               (Inr updated, h3) \<Rightarrow> (hnd\<lparr>hd_raw := Some updated\<rparr>, h3)
             | (Inl e, h3) \<Rightarrow>
                 (if is_conflict e
                  then (case GetRawDirect H (lo_store L) (hd_ref hnd) h3 of
                          (Inr (Some fresh), h4) \<Rightarrow> (hnd\<lparr>hd_raw := Some fresh\<rparr>, h4)
                        | (_, h4) \<Rightarrow> (hnd\<lparr>hd_raw := Some raw1\<rparr>, h4))
                  else (hnd\<lparr>hd_raw := Some raw1\<rparr>, h3))))"

definition renewals :: "'h host \<Rightarrow> Locker \<Rightarrow> nat \<Rightarrow> Handle \<times> 'h \<Rightarrow> Handle \<times> 'h" where
  "renewals H L n x = (if lo_renew L then (renew H L ^^ n) x else x)"

text \<open>\<open>Commit\<close> on a handle whose raw record is gone does not occur: the transaction commits once.\<close>

definition Commit :: "'h host \<Rightarrow> Locker \<Rightarrow> Handle \<Rightarrow> Record \<Rightarrow> 'h \<Rightarrow> Record res \<times> 'h" where
  "Commit H L hnd rec h =
     (case hd_raw hnd of
        None \<Rightarrow> (Inl (Plain ''nil record''), h)
      | Some raw \<Rightarrow> CommitBodyHashAndMeta H (lo_store L) raw rec h)"

definition Release :: "'h host \<Rightarrow> Locker \<Rightarrow> Handle \<Rightarrow> 'h \<Rightarrow> 'h" where
  "Release H L hnd h =
     (case hd_raw hnd of
        None \<Rightarrow> h
      | Some raw \<Rightarrow> snd (UpdateRaw H (lo_store L) (setLockOn raw None) h))"

section \<open>The locked-write transaction\<close>

record 'h WriteOp =
  op_WriteBody :: "'h \<Rightarrow> api_err option \<times> 'h"
  op_BuildRecord :: "nat \<Rightarrow> 'h \<Rightarrow> Record res \<times> 'h"
  op_OnConflictRetry :: "nat \<Rightarrow> 'h \<Rightarrow> 'h"

record TxnResult =
  tx_record :: Record
  tx_depth :: nat

record beats =
  bt_before :: "nat \<Rightarrow> nat"
  bt_after :: "nat \<Rightarrow> nat"

definition no_beats :: beats where
  "no_beats = \<lparr>bt_before = (\<lambda>_. 0), bt_after = (\<lambda>_. 0)\<rparr>"

type_synonym occ_check = "(string \<Rightarrow> api_err option) option"

definition currentRV :: "'h host \<Rightarrow> Locker \<Rightarrow> ResourceRef \<Rightarrow> 'h \<Rightarrow> string \<times> 'h" where
  "currentRV H L ref h =
     (case GetDirect H (lo_store L) ref h of
        (Inr (Some rec), h1) \<Rightarrow> (rc_recordRV rec, h1)
      | (_, h1) \<Rightarrow> ([], h1))"

definition occCheck :: "'h host \<Rightarrow> Locker \<Rightarrow> ResourceRef \<Rightarrow> occ_check \<Rightarrow> 'h \<Rightarrow> api_err option \<times> 'h" where
  "occCheck H L ref pre h =
     (case pre of
        None \<Rightarrow> (None, h)
      | Some check \<Rightarrow> (let (cur, h1) = currentRV H L ref h in (check cur, h1)))"

text \<open>The critical section of one attempt, the lock being held.\<close>

definition lockedWrite ::
  "'h host \<Rightarrow> Locker \<Rightarrow> 'h WriteOp \<Rightarrow> beats \<Rightarrow> nat \<Rightarrow> Handle \<times> 'h \<Rightarrow> (TxnResult, 'h) pass" where
  "lockedWrite H L op bt attempt x =
     (let (hd1, h1) = renewals H L (bt_before bt attempt) x in
      case op_WriteBody op h1 of
        (Some berr, h2) \<Rightarrow>
          (let (hd2, h3) = renewals H L (bt_after bt attempt) (hd1, h2); h4 = Release H L hd2 h3
           in if lo_txn L \<and> is_conflict berr then Again berr h4
              else Done (Inl (Internal (Wrapped ''backend.Put'' berr))) h4)
      | (None, h2) \<Rightarrow>
          (case op_BuildRecord op attempt h2 of
             (Inl rerr, h3) \<Rightarrow>
               (let (hd2, h4) = renewals H L (bt_after bt attempt) (hd1, h3)
                in Done (Inl rerr) (Release H L hd2 h4))
           | (Inr rec, h3) \<Rightarrow>
               (let (hd2, h4) = renewals H L (bt_after bt attempt) (hd1, h3) in
                case Commit H L hd2 rec h4 of
                  (Inl perr, h5) \<Rightarrow>
                    (if lo_txn L \<and> is_conflict perr then Again perr h5
                     else if is_conflict perr then Done (Inl perr) h5
                     else Done (Inl (Internal (Wrapped ''metastore.Commit'' perr))) h5)
                | (Inr committed, h5) \<Rightarrow> Done (Inr \<lparr>tx_record = committed, tx_depth = attempt\<rparr>) h5)))"

definition txnPass ::
  "'h host \<Rightarrow> Locker \<Rightarrow> ResourceRef \<Rightarrow> 'h WriteOp \<Rightarrow> occ_check \<Rightarrow> beats \<Rightarrow> nat \<Rightarrow> 'h \<Rightarrow> (TxnResult, 'h) pass" where
  "txnPass H L ref op pre bt attempt h =
     (let h1 = (if 0 < attempt
                then h_sleep H (lockRetryBackoff * 2 ^ (min (attempt - 1) 4)) (op_OnConflictRetry op attempt h)
                else h);
          (occ, h2) = occCheck H L ref pre h1
      in case occ of
           Some e \<Rightarrow> Done (Inl e) h2
         | None \<Rightarrow>
             (case Acquire H L ref h2 of
                (Inl lerr, h3) \<Rightarrow> (if lo_txn L \<and> is_conflict lerr then Again lerr h3 else Done (Inl lerr) h3)
              | (Inr hnd, h3) \<Rightarrow> lockedWrite H L op bt attempt (hnd, h3)))"

fun txnLoop ::
  "'h host \<Rightarrow> Locker \<Rightarrow> ResourceRef \<Rightarrow> 'h WriteOp \<Rightarrow> occ_check \<Rightarrow> beats \<Rightarrow> nat \<Rightarrow> nat \<Rightarrow> 'h \<Rightarrow>
   TxnResult res \<times> 'h" where
  "txnLoop H L ref op pre bt attempt 0 h =
     (Inl (Conflict (rf_name ref) ''locked write failed after all transaction attempts''), h)"
| "txnLoop H L ref op pre bt attempt (Suc n) h =
     (case txnPass H L ref op pre bt attempt h of
        Done r h1 \<Rightarrow> (r, h1)
      | Again e h1 \<Rightarrow> txnLoop H L ref op pre bt (attempt + 1) n h1)"

definition WriteTxn ::
  "'h host \<Rightarrow> Locker \<Rightarrow> ResourceRef \<Rightarrow> 'h WriteOp \<Rightarrow> occ_check \<Rightarrow> beats \<Rightarrow> 'h \<Rightarrow> TxnResult res \<times> 'h" where
  "WriteTxn H L ref op pre bt h = txnLoop H L ref op pre bt 0 (if lo_txn L then lo_attempts L else 1) h"

section \<open>Conflicts only\<close>

text \<open>
  A host whose only failures are the ones of concurrent writers: a read finds nothing, an
  update is out of date.
\<close>

definition cas_host :: "'h host \<Rightarrow> bool" where
  "cas_host H \<longleftrightarrow>
     (\<forall>g n h e. fst (h_get H g n h) = Inl e \<longrightarrow> is_not_found e) \<and>
     (\<forall>g u h. \<exists>u'. fst (h_create H g u h) = Inr u') \<and>
     (\<forall>g u h e. fst (h_update H g u h) = Inl e \<longrightarrow> is_conflict e) \<and>
     (\<forall>g u h u'. fst (h_update H g u h) = Inr u' \<longrightarrow> un_obj u' = un_obj u)"

definition conflicts_only :: "('a, 'h) pass \<Rightarrow> bool" where
  "conflicts_only p = (case p of Again e h \<Rightarrow> is_conflict e | Done (Inl e) h \<Rightarrow> is_conflict e | _ \<Rightarrow> True)"

lemma GetRawDirect_cas: "cas_host H \<Longrightarrow> \<exists>got h1. GetRawDirect H S ref h = (Inr got, h1)"
  unfolding cas_host_def GetRawDirect_def
  by (cases "h_get H (ms_gvr S) (RecordName ref) h"; cases "fst (h_get H (ms_gvr S) (RecordName ref) h)")
     (auto, metis fst_conv)

lemma UpdateRaw_cas: "cas_host H \<Longrightarrow> UpdateRaw H S u h = (Inl e, h1) \<Longrightarrow> is_conflict e"
  unfolding cas_host_def UpdateRaw_def by (metis fst_conv)

lemma CreateRaw_cas: "cas_host H \<Longrightarrow> \<exists>u h1. CreateRawWithLock H S ref ls h = (Inr u, h1)"
  unfolding cas_host_def CreateRawWithLock_def Let_def by (metis prod.collapse)

lemma acquirePass_cas:
  assumes "cas_host H"
  shows "conflicts_only (acquirePass H L ref h)"
proof -
  obtain got h1 where g: "GetRawDirect H (lo_store L) ref h = (Inr got, h1)"
    using GetRawDirect_cas [OF assms] by blast
  obtain now h2 where n: "h_now H h1 = (now, h2)" by (cases "h_now H h1")
  have up: "is_conflict e" if "UpdateRaw H (lo_store L) u h' = (Inl e, h'')" for u h' e h''
    using UpdateRaw_cas [OF assms that] .
  show ?thesis
  proof (cases got)
    case None
    obtain u h3 where "CreateRawWithLock H (lo_store L) ref (desiredLock L now) h2 = (Inr u, h3)"
      using CreateRaw_cas [OF assms] by blast
    then show ?thesis by (simp add: acquirePass_def g n None conflicts_only_def)
  next
    case (Some raw)
    show ?thesis
      by (auto simp: acquirePass_def g n Some conflicts_only_def Let_def dest: up
          split: option.splits prod.splits sum.splits)
  qed
qed

lemma acquireLoop_cas:
  assumes "cas_host H" and "0 < n \<or> is_conflict le"
    and "fst (mh_acquireLoop H L ref attempt n le h) = Inl e"
  shows "is_conflict e"
  using assms(2,3)
proof (induction n arbitrary: attempt le h)
  case (Suc n)
  let ?h = "if 0 < attempt then h_sleep H (lockRetryBackoff * 2 ^ (attempt - 1)) h else h"
  from acquirePass_cas [OF assms(1), of L ref ?h] Suc show ?case
    by (cases "acquirePass H L ref ?h") (auto simp: conflicts_only_def Let_def)
qed auto

lemma Acquire_cas: "cas_host H \<Longrightarrow> fst (Acquire H L ref h) = Inl e \<Longrightarrow> is_conflict e"
  unfolding Acquire_def lockRetryAttempts_def by (rule acquireLoop_cas) auto

text \<open>A handle whose record exists keeps one through renewals.\<close>

lemma renew_raw: "hd_raw (fst (renew H L (hnd, h))) = None \<longleftrightarrow> hd_raw hnd = None"
  by (auto simp: renew_def Let_def split: option.splits prod.splits sum.splits)

lemma renewals_raw: "hd_raw (fst (renewals H L n x)) = None \<longleftrightarrow> hd_raw (fst x) = None"
proof -
  have "hd_raw (fst ((renew H L ^^ n) x)) = None \<longleftrightarrow> hd_raw (fst x) = None"
    by (induction n) (simp_all, metis renew_raw prod.collapse)
  then show ?thesis by (simp add: renewals_def)
qed

text \<open>The write operation fails on conflicts only and builds storable records.\<close>

definition cas_op :: "Locker \<Rightarrow> 'h WriteOp \<Rightarrow> bool" where
  "cas_op L op \<longleftrightarrow>
     (\<forall>h e. fst (op_WriteBody op h) = Some e \<longrightarrow> is_conflict e) \<and>
     (\<forall>a h. \<exists>rec. fst (op_BuildRecord op a h) = Inr rec \<and> record_ok (ms_checks (lo_store L)) rec)"

lemma Commit_cas:
  assumes "cas_host H" and "record_ok (ms_checks S) rec" and "CommitBodyHashAndMeta H S u rec h = (Inl e, h1)"
  shows "is_conflict e"
proof -
  let ?u = "u\<lparr>un_obj := aput ''spec'' (JObj (specMap (unlocked rec))) (un_obj u)\<rparr>"
  have c: "CommitBodyHashAndMeta H S u rec h =
      (case h_update H (ms_gvr S) ?u h of (Inl e, h1) \<Rightarrow> (Inl e, h1)
       | (Inr updated, h1) \<Rightarrow> (decodeRecord (ms_checks S) updated (rc_ref rec), h1))"
    by (simp add: CommitBodyHashAndMeta_def encodeRecord_obj path_defs commit_spec)
  show ?thesis
  proof (cases "fst (h_update H (ms_gvr S) ?u h)")
    case (Inl e')
    then have "is_conflict e'" using assms(1) unfolding cas_host_def by blast
    then show ?thesis using assms(3) Inl c by (cases "h_update H (ms_gvr S) ?u h") auto
  next
    case (Inr v)
    then have "un_obj v = un_obj ?u" using assms(1) unfolding cas_host_def by blast
    then have "map_of (un_obj v) ''spec'' = Some (JObj (specMap (unlocked rec)))" by simp
    from decode_spec [OF record_ok_unlocked [OF assms(2)] this]
    show ?thesis using assms(3) Inr c by (cases "h_update H (ms_gvr S) ?u h") auto
  qed
qed

lemma lockedWrite_cas:
  assumes "cas_host H" and "cas_op L op" and "lo_txn L" and "hd_raw (fst x) \<noteq> None"
  shows "conflicts_only (lockedWrite H L op bt attempt x)"
proof -
  obtain hd1 h1 where r1: "renewals H L (bt_before bt attempt) x = (hd1, h1)"
    by (cases "renewals H L (bt_before bt attempt) x")
  have raw1: "hd_raw hd1 \<noteq> None"
    using renewals_raw [of H L "bt_before bt attempt" x] assms(4) r1 by simp
  obtain be h2 where wb: "op_WriteBody op h1 = (be, h2)" by (cases "op_WriteBody op h1")
  show ?thesis
  proof (cases be)
    case (Some e)
    then have "is_conflict e" using assms(2) wb unfolding cas_op_def by (metis fst_conv)
    then show ?thesis
      using r1 wb Some assms(3) by (simp add: lockedWrite_def conflicts_only_def split_beta)
  next
    case None
    obtain rec h3 where b: "op_BuildRecord op attempt h2 = (Inr rec, h3)"
      and ok: "record_ok (ms_checks (lo_store L)) rec"
      using assms(2) unfolding cas_op_def by (metis prod.collapse)
    obtain hd2 h4 where r2: "renewals H L (bt_after bt attempt) (hd1, h3) = (hd2, h4)"
      by (cases "renewals H L (bt_after bt attempt) (hd1, h3)")
    then obtain raw where "hd_raw hd2 = Some raw"
      using renewals_raw [of H L "bt_after bt attempt" "(hd1, h3)"] raw1 by auto
    then have "Commit H L hd2 rec h4 = (Inl e, h5) \<Longrightarrow> is_conflict e" for e h5
      using Commit_cas [OF assms(1) ok] by (auto simp: Commit_def)
    then show ?thesis
      using r1 wb None b r2 assms(3)
      by (auto simp: lockedWrite_def conflicts_only_def split: prod.splits sum.splits)
  qed
qed

lemma Acquire_raw: "fst (Acquire H L ref h) = Inr hnd \<Longrightarrow> hd_raw hnd \<noteq> None"
proof -
  have "fst (mh_acquireLoop H L ref attempt n le h) = Inr hnd \<Longrightarrow> hd_raw hnd \<noteq> None" for attempt n le
  proof (induction n arbitrary: attempt le h)
    case (Suc n)
    let ?h = "if 0 < attempt then h_sleep H (lockRetryBackoff * 2 ^ (attempt - 1)) h else h"
    have "acquirePass H L ref ?h = Done (Inr k) h' \<Longrightarrow> hd_raw k \<noteq> None" for k h'
      by (auto simp: acquirePass_def newHandle_def Let_def
          split: option.splits prod.splits sum.splits if_splits)
    with Suc show ?case by (cases "acquirePass H L ref ?h") (auto simp: Let_def)
  qed (auto split: if_splits)
  then show "fst (Acquire H L ref h) = Inr hnd \<Longrightarrow> hd_raw hnd \<noteq> None" by (simp add: Acquire_def)
qed

lemma txnPass_cas:
  assumes "cas_host H" and "cas_op L op" and "lo_txn L"
    and "\<forall>check rv e. pre = Some check \<longrightarrow> check rv = Some e \<longrightarrow> is_conflict e"
  shows "conflicts_only (txnPass H L ref op pre bt attempt h)"
proof -
  define h1 where "h1 = (if 0 < attempt
      then h_sleep H (lockRetryBackoff * 2 ^ (min (attempt - 1) 4)) (op_OnConflictRetry op attempt h) else h)"
  obtain occ h2 where o: "occCheck H L ref pre h1 = (occ, h2)" by (cases "occCheck H L ref pre h1")
  have p: "txnPass H L ref op pre bt attempt h =
      (case occ of Some e \<Rightarrow> Done (Inl e) h2
       | None \<Rightarrow> (case Acquire H L ref h2 of
              (Inl lerr, h3) \<Rightarrow> (if lo_txn L \<and> is_conflict lerr then Again lerr h3 else Done (Inl lerr) h3)
            | (Inr hnd, h3) \<Rightarrow> lockedWrite H L op bt attempt (hnd, h3)))"
    by (simp add: txnPass_def h1_def [symmetric] o)
  show ?thesis
  proof (cases occ)
    case (Some e)
    then have "is_conflict e" using o assms(4) by (auto simp: occCheck_def split: option.splits prod.splits)
    then show ?thesis by (simp add: p Some conflicts_only_def)
  next
    case None
    obtain r h3 where a: "Acquire H L ref h2 = (r, h3)" by (cases "Acquire H L ref h2")
    show ?thesis
      using None a Acquire_cas [OF assms(1), of L ref h2] Acquire_raw [of H L ref h2]
        lockedWrite_cas [OF assms(1-3), of "(_, h3)" bt attempt]
      by (cases r) (auto simp: p conflicts_only_def)
  qed
qed

lemma txnLoop_cas:
  assumes "\<And>a h. conflicts_only (txnPass H L ref op pre bt a h)"
    and "fst (txnLoop H L ref op pre bt attempt n h) = Inl e"
  shows "is_conflict e"
  using assms(2)
proof (induction n arbitrary: attempt h)
  case (Suc n)
  from assms(1) [of attempt h] Suc show ?case
    by (cases "txnPass H L ref op pre bt attempt h") (auto simp: conflicts_only_def split: sum.splits)
qed auto

section \<open>Running alone on a lawful host\<close>

text \<open>The lock a raw record carries names this replica.\<close>

definition own_lock :: "Locker \<Rightarrow> unstr \<Rightarrow> bool" where
  "own_lock L u \<longleftrightarrow> (case lockFromRaw u of None \<Rightarrow> False | Some ls \<Rightarrow> lk_holder ls = lo_identity L)"

definition has_spec :: "unstr \<Rightarrow> bool" where
  "has_spec u \<longleftrightarrow> (\<exists>m. map_of (un_obj u) ''spec'' = Some (JObj m))"

text \<open>A raw record \<open>decodeRecord\<close> accepts.\<close>

definition meta_ok :: "json_checks \<Rightarrow> jmap \<Rightarrow> bool" where
  "meta_ok J m \<longleftrightarrow>
     (\<forall>s. asStr (map_of m ''managedFields'') = Some s \<longrightarrow> s \<noteq> [] \<longrightarrow> jc_managed J s) \<and>
     (\<forall>s. asStr (map_of m ''ownerReferences'') = Some s \<longrightarrow> s \<noteq> [] \<longrightarrow> jc_owners J s)"

definition readable :: "json_checks \<Rightarrow> unstr \<Rightarrow> bool" where
  "readable J u \<longleftrightarrow> has_spec u \<and>
     (case nestedMap (un_obj u) [''spec'', ''metadata''] of
        BadType \<Rightarrow> False | Missing \<Rightarrow> True | Found m \<Rightarrow> meta_ok J m)"

lemma readable_decodes: "readable J u \<Longrightarrow> \<exists>r. decodeRecord J u fb = Inr r \<and> rc_recordRV r = un_rv u"
  by (auto simp: readable_def meta_ok_def decodeRecord_def decodeMeta_def empty_record_def Let_def
      split: nested.splits option.splits)

lemma decoded_rv: "decodeRecord J u fb = Inr r \<Longrightarrow> rc_recordRV r = un_rv u"
  by (auto simp: decodeRecord_def decodeMeta_def empty_record_def Let_def
      split: nested.splits sum.splits if_splits)

lemma holder_lockMap: "lk_holder l \<noteq> [] \<Longrightarrow> \<exists>ls. lockStateFromMap (lockMap l) = Some ls \<and> lk_holder ls = lk_holder l"
  by (simp add: lockStateFromMap_def lockMap_def)

lemma setLockOn_spec:
  "readable J u \<Longrightarrow> readable J (setLockOn u l)"
  by (auto simp: readable_def has_spec_def setLockOn_def nestedMap_def split: option.splits)

lemma own_setLockOn:
  assumes "readable J u" and "lo_identity L \<noteq> []" and "lk_holder l = lo_identity L"
  shows "own_lock L (setLockOn u (Some l))"
proof -
  obtain m where m: "map_of (un_obj u) ''spec'' = Some (JObj m)"
    using assms(1) by (auto simp: has_spec_def readable_def)
  obtain ls where "lockStateFromMap (lockMap l) = Some ls" "lk_holder ls = lo_identity L"
    using holder_lockMap [of l] assms(2,3) by auto
  then show ?thesis
    using assms(2,3) m by (simp add: own_lock_def setLockOn_def lockFromRaw_def path_defs)
qed

lemma unlock_setLockOn:
  "readable J u \<Longrightarrow> lockFromRaw (setLockOn u None) = None"
  by (auto simp: readable_def has_spec_def setLockOn_def lockFromRaw_def path_defs)

lemma stamped_sel [simp]:
  "own_lock L (u\<lparr>un_rv := a, un_uid := b\<rparr>) = own_lock L u"
  "readable J (u\<lparr>un_rv := a, un_uid := b\<rparr>) = readable J u"
  "lockFromRaw (u\<lparr>un_rv := a, un_uid := b\<rparr>) = lockFromRaw u"
  by (simp_all add: own_lock_def readable_def has_spec_def lockFromRaw_def)

text \<open>A record that is absent, unlocked, or locked by this replica.\<close>

definition free_for :: "Locker \<Rightarrow> unstr option \<Rightarrow> bool" where
  "free_for L got = (case got of None \<Rightarrow> True
     | Some u \<Rightarrow> readable (ms_checks (lo_store L)) u \<and> (own_lock L u \<or> lockFromRaw u = None))"

text \<open>The objects of a host apart from one.\<close>

definition besides :: "string \<Rightarrow> string \<Rightarrow> (string \<Rightarrow> string \<Rightarrow> unstr option) \<Rightarrow> string \<Rightarrow> string \<Rightarrow> unstr option" where
  "besides r nm objs = objs(r := (objs r)(nm := None))"

lemma besides_put [simp]: "besides r nm (objs(r := (objs r)(nm := x))) = besides r nm objs"
  by (simp add: besides_def)

context host_api
begin

text \<open>The record of \<open>ref\<close> in the host's state.\<close>

definition rec_at :: "Locker \<Rightarrow> ResourceRef \<Rightarrow> 'h \<Rightarrow> unstr option" where
  "rec_at L ref h = objs h (gv_resource (ms_gvr (lo_store L))) (RecordName ref)"

text \<open>Everything else on the host.\<close>

definition others :: "Locker \<Rightarrow> ResourceRef \<Rightarrow> 'h \<Rightarrow> string \<Rightarrow> string \<Rightarrow> unstr option" where
  "others L ref h = besides (gv_resource (ms_gvr (lo_store L))) (RecordName ref) (objs h)"

lemma others_eq: "objs h1 = objs h \<Longrightarrow> others L ref h1 = others L ref h"
  by (simp add: others_def)

lemma rec_at_eq: "objs h1 = objs h \<Longrightarrow> rec_at L ref h1 = rec_at L ref h"
  by (simp add: rec_at_def)

text \<open>
  The handle's raw record is the stored one: the next CAS on it succeeds.  \<open>v\<close> is a
  lower bound of its version, \<open>b\<close> the rest of the host.
\<close>

definition in_sync :: "Locker \<Rightarrow> ResourceRef \<Rightarrow> nat \<Rightarrow> (string \<Rightarrow> string \<Rightarrow> unstr option) \<Rightarrow> Handle \<times> 'h \<Rightarrow> bool" where
  "in_sync L ref v b x \<longleftrightarrow> ok (snd x) \<and> others L ref (snd x) = b \<and>
     (\<exists>u. hd_raw (fst x) = Some u \<and> rec_at L ref (snd x) = Some u \<and> v \<le> ver (un_rv u) \<and> own_lock L u \<and> readable (ms_checks (lo_store L)) u)"

lemma now_sync: "ok h \<Longrightarrow> h_now H h = (t, h1) \<Longrightarrow> ok h1 \<and> objs h1 = objs h"
  using clock [of h] by simp

text \<open>A CAS on the stored record writes it, under a greater version.\<close>

lemma update_rec:
  assumes "ok h" and "rec_at L ref h = Some c" and "un_name u = un_name c" and "un_rv u = un_rv c"
  shows "\<exists>rv uid h1. UpdateRaw H (lo_store L) u h = (Inr (u\<lparr>un_rv := rv, un_uid := uid\<rparr>), h1) \<and> rv \<noteq> [] \<and>
     ver (un_rv c) < ver rv \<and> ok h1 \<and> rec_at L ref h1 = Some (u\<lparr>un_rv := rv, un_uid := uid\<rparr>) \<and>
     others L ref h1 = others L ref h"
proof -
  have n: "un_name c = RecordName ref" using named [OF assms(1)] assms(2) by (auto simp: rec_at_def)
  have "objs h (gv_resource (ms_gvr (lo_store L))) (un_name u) = Some c"
    using assms(2,3) n by (simp add: rec_at_def)
  from update [OF assms(1) this assms(4)]
  obtain rv uid where w: "fst (h_update H (ms_gvr (lo_store L)) u h) = Inr (u\<lparr>un_rv := rv, un_uid := uid\<rparr>)"
    "rv \<noteq> []" "ver (un_rv c) < ver rv" "ok (snd (h_update H (ms_gvr (lo_store L)) u h))"
    "objs (snd (h_update H (ms_gvr (lo_store L)) u h)) = (objs h)(gv_resource (ms_gvr (lo_store L)) :=
       (objs h (gv_resource (ms_gvr (lo_store L))))(un_name u \<mapsto> u\<lparr>un_rv := rv, un_uid := uid\<rparr>))"
    by blast
  then show ?thesis
    using assms(3) n
    by (cases "h_update H (ms_gvr (lo_store L)) u h") (auto simp: UpdateRaw_def rec_at_def others_def)
qed

lemma renew_sync:
  assumes "in_sync L ref v b x" and "lo_identity L \<noteq> []"
  shows "in_sync L ref v b (renew H L x)"
proof -
  obtain hnd h where x: "x = (hnd, h)" by (cases x)
  obtain u where u: "ok h" "hd_raw hnd = Some u" "rec_at L ref h = Some u" "v \<le> ver (un_rv u)" "readable (ms_checks (lo_store L)) u"
    "others L ref h = b"
    using assms(1) by (auto simp: in_sync_def x)
  obtain now h1 where n: "h_now H h = (now, h1)" by (cases "h_now H h")
  obtain acq h2 where a: "lockAcquiredAt H u h1 = (acq, h2)" by (cases "lockAcquiredAt H u h1")
  have h1: "ok h1" "objs h1 = objs h" using now_sync [OF u(1) n] by auto
  have "ok h2 \<and> objs h2 = objs h1"
    using a clock [OF h1(1)] h1 by (auto simp: lockAcquiredAt_def split: option.splits prod.splits)
  then have h2: "ok h2" "rec_at L ref h2 = Some u" "others L ref h2 = b"
    using h1 u(3,6) by (simp_all add: rec_at_def others_def)
  let ?l = "\<lparr>lk_holder = lo_identity L, lk_acquired = acq, lk_renewed = Some now, lk_lease = mh_leaseSeconds L\<rparr>"
  from update_rec [OF h2(1,2), of "setLockOn u (Some ?l)"]
  obtain rv uid h3 where w: "UpdateRaw H (lo_store L) (setLockOn u (Some ?l)) h2 =
      (Inr ((setLockOn u (Some ?l))\<lparr>un_rv := rv, un_uid := uid\<rparr>), h3)"
    "ver (un_rv u) < ver rv" "ok h3" "rec_at L ref h3 = Some ((setLockOn u (Some ?l))\<lparr>un_rv := rv, un_uid := uid\<rparr>)"
    "others L ref h3 = b"
    using h2(3) by auto
  show ?thesis
    using w u own_setLockOn [OF u(5) assms(2), of ?l] setLockOn_spec [OF u(5), of "Some ?l"]
    by (simp add: renew_def x n a Let_def in_sync_def)
qed

lemma renewals_sync:
  assumes "in_sync L ref v b x" and "lo_identity L \<noteq> []"
  shows "in_sync L ref v b (renewals H L n x)"
proof -
  have "in_sync L ref v b ((renew H L ^^ n) x)"
    using assms by (induction n) (simp_all add: renew_sync)
  then show ?thesis using assms(1) by (simp add: renewals_def)
qed

lemma release_sync:
  assumes "in_sync L ref v b (hnd, h)"
  shows "\<exists>u. ok (Release H L hnd h) \<and> rec_at L ref (Release H L hnd h) = Some u \<and> v \<le> ver (un_rv u) \<and>
     un_rv u \<noteq> [] \<and> lockFromRaw u = None"
proof -
  obtain u where u: "ok h" "hd_raw hnd = Some u" "rec_at L ref h = Some u" "v \<le> ver (un_rv u)" "readable (ms_checks (lo_store L)) u"
    using assms by (auto simp: in_sync_def)
  from update_rec [OF u(1,3), of "setLockOn u None"]
  obtain rv uid h1 where "UpdateRaw H (lo_store L) (setLockOn u None) h =
      (Inr ((setLockOn u None)\<lparr>un_rv := rv, un_uid := uid\<rparr>), h1)" "rv \<noteq> []"
    "ver (un_rv u) < ver rv" "ok h1" "rec_at L ref h1 = Some ((setLockOn u None)\<lparr>un_rv := rv, un_uid := uid\<rparr>)"
    by auto
  then show ?thesis using u unlock_setLockOn [OF u(5)] by (simp add: Release_def)
qed

lemma Commit_sync:
  assumes "in_sync L ref v b (hnd, h)" and "record_ok (ms_checks (lo_store L)) rec"
  shows "\<exists>u h1. Commit H L hnd rec h = (Inr (stored_record (un_uid u) (un_rv u) (unlocked rec)), h1) \<and> ok h1 \<and>
     rec_at L ref h1 = Some u \<and> v \<le> ver (un_rv u) \<and> un_rv u \<noteq> [] \<and>
     map_of (un_obj u) ''spec'' = Some (JObj (specMap (unlocked rec))) \<and> others L ref h1 = b"
proof -
  obtain c where c: "ok h" "hd_raw hnd = Some c" "rec_at L ref h = Some c" "v \<le> ver (un_rv c)" "others L ref h = b"
    using assms by (auto simp: in_sync_def)
  have n: "un_name c = RecordName ref" using named [OF c(1)] c(3) by (auto simp: rec_at_def)
  have "objs h (gv_resource (ms_gvr (lo_store L))) (un_name c) = Some c"
    using c(3) n by (simp add: rec_at_def)
  from Commit_spec [OF c(1) this refl assms(2)]
  obtain rv' uid u where "fst (CommitBodyHashAndMeta H (lo_store L) c rec h) = Inr (stored_record uid rv' (unlocked rec))"
    "rv' \<noteq> []" "ver (un_rv c) < ver rv'" "ok (snd (CommitBodyHashAndMeta H (lo_store L) c rec h))"
    "objs (snd (CommitBodyHashAndMeta H (lo_store L) c rec h)) = (objs h)(gv_resource (ms_gvr (lo_store L)) :=
       (objs h (gv_resource (ms_gvr (lo_store L))))(un_name c \<mapsto> u))"
    "un_rv u = rv'" "un_uid u = uid" "map_of (un_obj u) ''spec'' = Some (JObj (specMap (unlocked rec)))"
    by blast
  then show ?thesis
    using c n
    by (cases "CommitBodyHashAndMeta H (lo_store L) c rec h")
       (auto simp: Commit_def rec_at_def others_def intro!: exI [of _ u])
qed

lemma Acquire_free:
  assumes ok: "ok h" and id: "lo_identity L \<noteq> []" and free: "free_for L (rec_at L ref h)"
  shows "\<exists>hnd h1. Acquire H L ref h = (Inr hnd, h1) \<and>
     in_sync L ref (case rec_at L ref h of None \<Rightarrow> 0 | Some u \<Rightarrow> Suc (ver (un_rv u))) (others L ref h) (hnd, h1)"
proof -
  obtain h1 where g: "GetRawDirect H (lo_store L) ref h = (Inr (rec_at L ref h), h1)" "ok h1" "objs h1 = objs h"
    using GetRawDirect_spec [OF ok, of "lo_store L" ref]
    by (cases "GetRawDirect H (lo_store L) ref h") (auto simp: rec_at_def)
  obtain now h2 where n: "h_now H h1 = (now, h2)" by (cases "h_now H h1")
  have h2: "ok h2" "objs h2 = objs h" using now_sync [OF g(2) n] g(3) by auto
  note oth = others_eq [OF h2(2), of L ref]
  obtain m :: nat where m: "lockRetryAttempts = Suc m" by (simp add: lockRetryAttempts_def numeral_3_eq_3)
  let ?d = "desiredLock L now"
  have hold: "lk_holder ?d = lo_identity L" by (simp add: desiredLock_def)
  show ?thesis
  proof (cases "rec_at L ref h")
    case None
    let ?u0 = "(new_unstr (ms_gvr (lo_store L)) (ms_kind (lo_store L)))
        \<lparr>un_name := RecordName ref, un_obj := [(''spec'', JObj [(''resourceRef'', JObj (refMap ref))])]\<rparr>"
    have s0: "readable (ms_checks (lo_store L)) ?u0" by (simp add: readable_def has_spec_def nestedMap_def)
    have "objs h2 (gv_resource (ms_gvr (lo_store L))) (un_name (setLockOn ?u0 (Some ?d))) = None"
      using None h2 by (simp add: rec_at_def)
    from create [OF h2(1) this]
    obtain rv uid h3 where "h_create H (ms_gvr (lo_store L)) (setLockOn ?u0 (Some ?d)) h2 =
        (Inr ((setLockOn ?u0 (Some ?d))\<lparr>un_rv := rv, un_uid := uid\<rparr>), h3)" "ok h3"
      "rec_at L ref h3 = Some ((setLockOn ?u0 (Some ?d))\<lparr>un_rv := rv, un_uid := uid\<rparr>)" "others L ref h3 = others L ref h"
      using oth by (cases "h_create H (ms_gvr (lo_store L)) (setLockOn ?u0 (Some ?d)) h2") (auto simp: rec_at_def others_def)
    then show ?thesis
      using None g n own_setLockOn [OF s0 id hold] setLockOn_spec [OF s0, of "Some ?d"]
      by (simp add: Acquire_def m acquirePass_def CreateRawWithLock_def newHandle_def Let_def in_sync_def)
  next
    case (Some c)
    then have sp: "readable (ms_checks (lo_store L)) c" and fr: "own_lock L c \<or> lockFromRaw c = None"
      using free by (simp_all add: free_for_def)
    have r2: "rec_at L ref h2 = Some c" using Some h2 by (simp add: rec_at_def)
    from update_rec [OF h2(1) r2, of "setLockOn c (Some ?d)"]
    obtain rv uid h3 where w: "UpdateRaw H (lo_store L) (setLockOn c (Some ?d)) h2 =
        (Inr ((setLockOn c (Some ?d))\<lparr>un_rv := rv, un_uid := uid\<rparr>), h3)"
      "ver (un_rv c) < ver rv" "ok h3" "rec_at L ref h3 = Some ((setLockOn c (Some ?d))\<lparr>un_rv := rv, un_uid := uid\<rparr>)"
      "others L ref h3 = others L ref h"
      using oth by auto
    then have a: "acquirePass H L ref h =
        Done (Inr (newHandle ref ((setLockOn c (Some ?d))\<lparr>un_rv := rv, un_uid := uid\<rparr>) (un_rv c))) h3"
      using fr g n Some by (auto simp: acquirePass_def own_lock_def Held_def split: option.splits)
    have "Acquire H L ref h = (Inr (newHandle ref ((setLockOn c (Some ?d))\<lparr>un_rv := rv, un_uid := uid\<rparr>) (un_rv c)), h3)"
      by (simp add: Acquire_def m a)
    moreover have "in_sync L ref (Suc (ver (un_rv c))) (others L ref h)
        (newHandle ref ((setLockOn c (Some ?d))\<lparr>un_rv := rv, un_uid := uid\<rparr>) (un_rv c), h3)"
      using w own_setLockOn [OF sp id hold] setLockOn_spec [OF sp, of "Some ?d"]
      by (simp add: in_sync_def newHandle_def)
    ultimately show ?thesis using Some by auto
  qed
qed

text \<open>
  A well-behaved write operation: it leaves the record alone, and its results do not depend
  on more than that.
\<close>

definition lawful_op :: "Locker \<Rightarrow> ResourceRef \<Rightarrow> 'h WriteOp \<Rightarrow> bool" where
  "lawful_op L ref op \<longleftrightarrow>
     (\<forall>h. ok h \<longrightarrow> ok (snd (op_WriteBody op h)) \<and> rec_at L ref (snd (op_WriteBody op h)) = rec_at L ref h) \<and>
     (\<forall>a h. ok h \<longrightarrow> ok (snd (op_BuildRecord op a h)) \<and> rec_at L ref (snd (op_BuildRecord op a h)) = rec_at L ref h) \<and>
     (\<forall>a h. ok h \<longrightarrow> ok (op_OnConflictRetry op a h) \<and> rec_at L ref (op_OnConflictRetry op a h) = rec_at L ref h)"

lemma in_sync_move: "in_sync L ref v b (hnd, h) \<Longrightarrow> ok h' \<Longrightarrow> rec_at L ref h' = rec_at L ref h \<Longrightarrow>
    in_sync L ref v (others L ref h') (hnd, h')"
  by (simp add: in_sync_def)

text \<open>
  What an attempt needs of the operation: the body is written, a storable record is built
  (\<open>good\<close> says what more is known of it), and \<open>Q\<close> holds of the rest of the host afterwards.
\<close>

definition productive :: "Locker \<Rightarrow> ResourceRef \<Rightarrow> 'h WriteOp \<Rightarrow> nat \<Rightarrow> (string \<Rightarrow> string \<Rightarrow> unstr option) \<Rightarrow>
    (Record \<Rightarrow> bool) \<Rightarrow> ((string \<Rightarrow> string \<Rightarrow> unstr option) \<Rightarrow> bool) \<Rightarrow> bool" where
  "productive L ref op attempt b good Q \<longleftrightarrow>
     (\<forall>h. ok h \<longrightarrow> others L ref h = b \<longrightarrow> fst (op_WriteBody op h) = None \<and> Q (others L ref (snd (op_WriteBody op h)))) \<and>
     (\<forall>h. ok h \<longrightarrow> Q (others L ref h) \<longrightarrow>
        (\<exists>rec. fst (op_BuildRecord op attempt h) = Inr rec \<and> good rec \<and> record_ok (ms_checks (lo_store L)) rec) \<and>
        Q (others L ref (snd (op_BuildRecord op attempt h))))"

text \<open>The critical section commits when the operation is productive.\<close>

lemma lockedWrite_commits:
  assumes sync: "in_sync L ref v b x" and id: "lo_identity L \<noteq> []" and op: "lawful_op L ref op"
    and pr: "productive L ref op attempt b good Q"
  shows "\<exists>rec u h1. lockedWrite H L op bt attempt x =
      Done (Inr \<lparr>tx_record = stored_record (un_uid u) (un_rv u) (unlocked rec), tx_depth = attempt\<rparr>) h1 \<and>
    good rec \<and> record_ok (ms_checks (lo_store L)) rec \<and> Q (others L ref h1) \<and>
    ok h1 \<and> rec_at L ref h1 = Some u \<and> v \<le> ver (un_rv u) \<and> un_rv u \<noteq> [] \<and>
    map_of (un_obj u) ''spec'' = Some (JObj (specMap (unlocked rec)))"
proof -
  obtain hd1 h1 where r1: "renewals H L (bt_before bt attempt) x = (hd1, h1)"
    by (cases "renewals H L (bt_before bt attempt) x")
  then have s1: "in_sync L ref v b (hd1, h1)" using renewals_sync [OF sync id, of "bt_before bt attempt"] by simp
  then have ok1: "ok h1" "others L ref h1 = b" by (simp_all add: in_sync_def)
  obtain h2 where w: "op_WriteBody op h1 = (None, h2)" "Q (others L ref h2)"
    using pr ok1 unfolding productive_def by (cases "op_WriteBody op h1") (metis fst_conv snd_conv)
  have s2: "in_sync L ref v (others L ref h2) (hd1, h2)" and ok2: "ok h2"
    using in_sync_move [OF s1, of h2] op ok1 w unfolding lawful_op_def by (metis snd_conv)+
  obtain rec h3 where b: "op_BuildRecord op attempt h2 = (Inr rec, h3)" "good rec"
    "record_ok (ms_checks (lo_store L)) rec" "Q (others L ref h3)"
    using pr ok2 w(2) unfolding productive_def by (cases "op_BuildRecord op attempt h2") (metis fst_conv snd_conv)
  have s3: "in_sync L ref v (others L ref h3) (hd1, h3)"
    using in_sync_move [OF s2, of h3] op ok2 b unfolding lawful_op_def by (metis snd_conv)
  obtain hd2 h4 where r2: "renewals H L (bt_after bt attempt) (hd1, h3) = (hd2, h4)"
    by (cases "renewals H L (bt_after bt attempt) (hd1, h3)")
  then have "in_sync L ref v (others L ref h3) (hd2, h4)" using renewals_sync [OF s3 id, of "bt_after bt attempt"] by simp
  from Commit_sync [OF this b(3)] obtain u h5 where
    "Commit H L hd2 rec h4 = (Inr (stored_record (un_uid u) (un_rv u) (unlocked rec)), h5)" "ok h5"
    "rec_at L ref h5 = Some u" "v \<le> ver (un_rv u)" "un_rv u \<noteq> []"
    "map_of (un_obj u) ''spec'' = Some (JObj (specMap (unlocked rec)))" "others L ref h5 = others L ref h3"
    by blast
  moreover from this(1) have "lockedWrite H L op bt attempt x =
      Done (Inr \<lparr>tx_record = stored_record (un_uid u) (un_rv u) (unlocked rec), tx_depth = attempt\<rparr>) h5"
    using r1 w(1) b(1) r2 by (simp add: lockedWrite_def)
  ultimately show ?thesis using b(2,3,4) by metis
qed

lemma currentRV_spec:
  assumes "ok h"
  shows "ok (snd (currentRV H L ref h)) \<and> objs (snd (currentRV H L ref h)) = objs h \<and>
     (\<forall>u rec. rec_at L ref h = Some u \<longrightarrow> decodeRecord (ms_checks (lo_store L)) u ref = Inr rec \<longrightarrow>
        fst (currentRV H L ref h) = rc_recordRV rec) \<and>
     (rec_at L ref h = None \<longrightarrow> fst (currentRV H L ref h) = [])"
proof -
  let ?g = "ms_gvr (lo_store L)" and ?n = "RecordName ref"
  have g: "ok (snd (h_get H ?g ?n h))" "objs (snd (h_get H ?g ?n h)) = objs h"
    using get [OF assms, of ?g ?n] by auto
  show ?thesis
  proof (cases "objs h (gv_resource ?g) ?n")
    case None
    then obtain e where "fst (h_get H ?g ?n h) = Inl e" "is_not_found e"
      using get_none [OF assms, of ?g ?n] by auto
    then show ?thesis using g None
      by (cases "h_get H ?g ?n h") (auto simp: currentRV_def GetDirect_def rec_at_def)
  next
    case (Some u)
    then have "fst (h_get H ?g ?n h) = Inr u" using get_some [OF assms, of ?g ?n] by auto
    then show ?thesis using g Some
      by (cases "h_get H ?g ?n h")
         (auto simp: currentRV_def GetDirect_def rec_at_def split: sum.splits option.splits prod.splits)
  qed
qed

lemma occCheck_spec:
  assumes "ok h"
  shows "ok (snd (occCheck H L ref pre h)) \<and> objs (snd (occCheck H L ref pre h)) = objs h \<and>
     (\<forall>check u rec. pre = Some check \<longrightarrow> rec_at L ref h = Some u \<longrightarrow>
        decodeRecord (ms_checks (lo_store L)) u ref = Inr rec \<longrightarrow>
        fst (occCheck H L ref pre h) = check (rc_recordRV rec)) \<and>
     (\<forall>check. pre = Some check \<longrightarrow> rec_at L ref h = None \<longrightarrow> fst (occCheck H L ref pre h) = check [])"
  using currentRV_spec [OF assms, of L ref] assms
  by (cases "currentRV H L ref h") (auto simp: occCheck_def split: option.splits)

text \<open>The fast path: nobody else holds the lock, the OCC check passes, the body is written.\<close>

lemma WriteTxn_fast:
  assumes ok: "ok h" and id: "lo_identity L \<noteq> []" and free: "free_for L (rec_at L ref h)"
    and budget: "lo_txn L \<longrightarrow> 0 < lo_attempts L"
    and occ: "fst (occCheck H L ref pre h) = None" and op: "lawful_op L ref op"
    and pr: "productive L ref op 0 (others L ref h) good Q"
  shows "\<exists>rec u h1. WriteTxn H L ref op pre bt h =
      (Inr \<lparr>tx_record = stored_record (un_uid u) (un_rv u) (unlocked rec), tx_depth = 0\<rparr>, h1) \<and>
    good rec \<and> record_ok (ms_checks (lo_store L)) rec \<and> Q (others L ref h1) \<and>
    ok h1 \<and> rec_at L ref h1 = Some u \<and> un_rv u \<noteq> [] \<and>
    (\<forall>c. rec_at L ref h = Some c \<longrightarrow> ver (un_rv c) < ver (un_rv u)) \<and>
    map_of (un_obj u) ''spec'' = Some (JObj (specMap (unlocked rec)))"
proof -
  obtain h1 where o: "occCheck H L ref pre h = (None, h1)"
    using occ by (cases "occCheck H L ref pre h") auto
  then have h1: "ok h1" "objs h1 = objs h" using occCheck_spec [OF ok, of L ref pre] by auto
  obtain hnd h2 where a: "Acquire H L ref h1 = (Inr hnd, h2)"
    "in_sync L ref (case rec_at L ref h of None \<Rightarrow> 0 | Some u \<Rightarrow> Suc (ver (un_rv u))) (others L ref h) (hnd, h2)"
    using Acquire_free [OF h1(1) id, of ref] free rec_at_eq [OF h1(2)] others_eq [OF h1(2)] by auto
  from lockedWrite_commits [OF a(2) id op pr, of bt]
  obtain rec u h3 where w: "lockedWrite H L op bt 0 (hnd, h2) =
      Done (Inr \<lparr>tx_record = stored_record (un_uid u) (un_rv u) (unlocked rec), tx_depth = 0\<rparr>) h3"
    "good rec" "record_ok (ms_checks (lo_store L)) rec" "Q (others L ref h3)"
    "ok h3" "rec_at L ref h3 = Some u" "un_rv u \<noteq> []"
    "(case rec_at L ref h of None \<Rightarrow> 0 | Some u \<Rightarrow> Suc (ver (un_rv u))) \<le> ver (un_rv u)"
    "map_of (un_obj u) ''spec'' = Some (JObj (specMap (unlocked rec)))" by blast
  have "txnPass H L ref op pre bt 0 h =
      Done (Inr \<lparr>tx_record = stored_record (un_uid u) (un_rv u) (unlocked rec), tx_depth = 0\<rparr>) h3"
    by (simp add: txnPass_def o a w(1))
  moreover obtain m where "(if lo_txn L then lo_attempts L else 1) = Suc m"
    using budget by (cases "lo_txn L"; cases "lo_attempts L") auto
  ultimately have e: "WriteTxn H L ref op pre bt h =
      (Inr \<lparr>tx_record = stored_record (un_uid u) (un_rv u) (unlocked rec), tx_depth = 0\<rparr>, h3)"
    by (simp add: WriteTxn_def)
  have "\<forall>c. rec_at L ref h = Some c \<longrightarrow> ver (un_rv c) < ver (un_rv u)" using w(8) by auto
  with e w show ?thesis by blast
qed

text \<open>
  The lock's own writes defeat the OCC check of a retry: an update made from the current
  version whose first body write meets a conflict is refused as out of date, although nobody
  else changed the record.
\<close>

lemma WriteTxn_false_conflict:
  assumes ok: "ok h" and id: "lo_identity L \<noteq> []" and txn: "lo_txn L" "1 < lo_attempts L"
    and at: "rec_at L ref h = Some c" "readable (ms_checks (lo_store L)) c" "lockFromRaw c = None"
    and pre: "pre = Some check" "check (un_rv c) = None" "\<forall>rv. rv \<noteq> un_rv c \<longrightarrow> rv \<noteq> [] \<longrightarrow> check rv = Some e"
    and op: "lawful_op L ref op" and wb: "\<forall>h. ok h \<longrightarrow> fst (op_WriteBody op h) = Some be" "is_conflict be"
  shows "fst (WriteTxn H L ref op pre bt h) = Inl e"
proof -
  obtain occ h1 where o: "occCheck H L ref pre h = (occ, h1)" by (cases "occCheck H L ref pre h")
  obtain r0 where "decodeRecord (ms_checks (lo_store L)) c ref = Inr r0" using readable_decodes [OF at(2)] by blast
  then have "occ = None" and h1: "ok h1" "rec_at L ref h1 = Some c"
    using occCheck_spec [OF ok, of L ref pre] pre(1,2) at(1) decoded_rv o rec_at_eq [of h1 h L ref] by auto
  obtain hnd h2 where a: "Acquire H L ref h1 = (Inr hnd, h2)" "in_sync L ref (Suc (ver (un_rv c))) (others L ref h1) (hnd, h2)"
    using Acquire_free [OF h1(1) id, of ref] at h1(2) by (auto simp: free_for_def)
  obtain hd1 h3 where r1: "renewals H L (bt_before bt 0) (hnd, h2) = (hd1, h3)"
    "in_sync L ref (Suc (ver (un_rv c))) (others L ref h1) (hd1, h3)"
    using renewals_sync [OF a(2) id, of "bt_before bt 0"] by (cases "renewals H L (bt_before bt 0) (hnd, h2)") auto
  then have "ok h3" by (simp add: in_sync_def)
  then obtain h4 where w: "op_WriteBody op h3 = (Some be, h4)"
    using wb(1) by (cases "op_WriteBody op h3") auto
  have s4: "in_sync L ref (Suc (ver (un_rv c))) (others L ref h4) (hd1, h4)"
    using in_sync_move [OF r1(2), of h4] op \<open>ok h3\<close> w unfolding lawful_op_def by (metis snd_conv)
  obtain hd2 h5 where r2: "renewals H L (bt_after bt 0) (hd1, h4) = (hd2, h5)"
    "in_sync L ref (Suc (ver (un_rv c))) (others L ref h4) (hd2, h5)"
    using renewals_sync [OF s4 id, of "bt_after bt 0"] by (cases "renewals H L (bt_after bt 0) (hd1, h4)") auto
  obtain u where u: "ok (Release H L hd2 h5)" "rec_at L ref (Release H L hd2 h5) = Some u"
    "ver (un_rv c) < ver (un_rv u)" "un_rv u \<noteq> []"
    using release_sync [OF r2(2)] by auto
  have "readable (ms_checks (lo_store L)) u"
  proof -
    obtain raw where raw: "hd_raw hd2 = Some raw" "rec_at L ref h5 = Some raw" "readable (ms_checks (lo_store L)) raw" "ok h5"
      using r2(2) by (auto simp: in_sync_def)
    from update_rec [OF raw(4,2), of "setLockOn raw None"] show ?thesis
      using u(2) raw(1) setLockOn_spec [OF raw(3), of None] by (auto simp: Release_def)
  qed
  let ?h6 = "h_sleep H (lockRetryBackoff * 2 ^ (min (1 - 1) 4)) (op_OnConflictRetry op 1 (Release H L hd2 h5))"
  have p0: "txnPass H L ref op pre bt 0 h = Again be (Release H L hd2 h5)"
    using o \<open>occ = None\<close> a r1 w r2 txn(1) wb(2) by (simp add: txnPass_def lockedWrite_def)
  have "ok (op_OnConflictRetry op 1 (Release H L hd2 h5))"
    "rec_at L ref (op_OnConflictRetry op 1 (Release H L hd2 h5)) = Some u"
    using op u(1,2) unfolding lawful_op_def by auto
  then have h6: "ok ?h6" "rec_at L ref ?h6 = Some u" using sleep by (simp_all add: rec_at_def)
  obtain r6 where "decodeRecord (ms_checks (lo_store L)) u ref = Inr r6" using readable_decodes [OF \<open>readable (ms_checks (lo_store L)) u\<close>] by blast
  then have "fst (occCheck H L ref pre ?h6) = check (un_rv u)"
    using occCheck_spec [OF h6(1), of L ref pre] h6(2) pre(1) decoded_rv by auto
  then have "fst (occCheck H L ref pre ?h6) = Some e" using pre(3) [rule_format, of "un_rv u"] u(3,4) by fastforce
  then obtain h7 where "occCheck H L ref pre ?h6 = (Some e, h7)"
    by (cases "occCheck H L ref pre ?h6") auto
  then have p1: "txnPass H L ref op pre bt 1 (Release H L hd2 h5) = Done (Inl e) h7"
    by (simp add: txnPass_def)
  obtain m where "lo_attempts L = Suc (Suc m)" using txn(2) by (cases "lo_attempts L"; cases "lo_attempts L - 1") auto
  then show ?thesis using txn(1) p0 p1 by (simp add: WriteTxn_def)
qed

text \<open>A lock another replica holds unexpired is respected: the pass fails fast and writes nothing.\<close>

lemma Acquire_refused:
  assumes ok: "ok h" and at: "rec_at L ref h = Some c" "lockFromRaw c = Some ls"
    and other: "lk_holder ls \<noteq> lo_identity L" "lk_holder ls \<noteq> []"
    and live: "lk_renewed ls = Some t" "0 < lk_lease ls"
      "fst (h_now H (snd (h_now H (snd (GetRawDirect H (lo_store L) ref h))))) \<le> t + lk_lease ls * ns_per_s"
  shows "\<exists>m h1. Acquire H L ref h = (Inl (Conflict (rf_name ref) m), h1) \<and> ok h1 \<and> objs h1 = objs h"
proof -
  obtain h1 where g: "GetRawDirect H (lo_store L) ref h = (Inr (Some c), h1)" "ok h1" "objs h1 = objs h"
    using GetRawDirect_spec [OF ok, of "lo_store L" ref] at(1)
    by (cases "GetRawDirect H (lo_store L) ref h") (auto simp: rec_at_def)
  obtain now h2 where n: "h_now H h1 = (now, h2)" by (cases "h_now H h1")
  obtain t2 h3 where n2: "h_now H h2 = (t2, h3)" by (cases "h_now H h2")
  have h3: "ok h3" "objs h3 = objs h"
    using now_sync [OF g(2) n] now_sync [of h2 t2 h3] n2 g(3) by auto
  obtain m :: nat where m: "lockRetryAttempts = Suc m" by (simp add: lockRetryAttempts_def numeral_3_eq_3)
  have "lockExpired H (Some ls) h2 = (False, h3)"
    using live n2 g n by (simp add: lockExpired_def)
  then show ?thesis
    using g n at(2) other h3 by (simp add: Acquire_def m acquirePass_def Held_def Let_def)
qed

end

section \<open>Properties\<close>

text \<open>The same over explicit \<open>ok\<close> and \<open>objs\<close>.\<close>

definition meta_at :: "('h \<Rightarrow> string \<Rightarrow> string \<Rightarrow> unstr option) \<Rightarrow> Locker \<Rightarrow> ResourceRef \<Rightarrow> 'h \<Rightarrow> unstr option" where
  "meta_at objs L ref h = objs h (gv_resource (ms_gvr (lo_store L))) (RecordName ref)"

definition leaves_record ::
  "('h \<Rightarrow> bool) \<Rightarrow> ('h \<Rightarrow> string \<Rightarrow> string \<Rightarrow> unstr option) \<Rightarrow> Locker \<Rightarrow> ResourceRef \<Rightarrow> 'h WriteOp \<Rightarrow> bool" where
  "leaves_record ok objs L ref op \<longleftrightarrow>
     (\<forall>h. ok h \<longrightarrow> ok (snd (op_WriteBody op h)) \<and> meta_at objs L ref (snd (op_WriteBody op h)) = meta_at objs L ref h) \<and>
     (\<forall>a h. ok h \<longrightarrow> ok (snd (op_BuildRecord op a h)) \<and> meta_at objs L ref (snd (op_BuildRecord op a h)) = meta_at objs L ref h) \<and>
     (\<forall>a h. ok h \<longrightarrow> ok (op_OnConflictRetry op a h) \<and> meta_at objs L ref (op_OnConflictRetry op a h) = meta_at objs L ref h)"

lemma meta_at_rec_at: "host_api H ok objs ver \<Longrightarrow> host_api.rec_at objs = meta_at objs"
  by (simp add: fun_eq_iff host_api.rec_at_def meta_at_def)

lemma leaves_record_lawful:
  "host_api H ok objs ver \<Longrightarrow> host_api.lawful_op ok objs = leaves_record ok objs"
  by (simp add: fun_eq_iff host_api.lawful_op_def leaves_record_def meta_at_rec_at)

text \<open>
  The locked-write transaction never answers 500 to contention: on a host where the only
  failures are lost races (an object not found by a read, a stale compare-and-swap), with a
  body write that fails on conflicts only and buildable records, it returns a committed
  record or a Conflict, whatever the interleaving of other writers and of the heartbeat.
\<close>

theorem txn_contention_is_409:
  assumes "cas_host H" and "cas_op L op" and "lo_txn L"
    and "\<forall>check rv e. pre = Some check \<longrightarrow> check rv = Some e \<longrightarrow> is_conflict e"
  shows "case fst (WriteTxn H L ref op pre bt h) of Inr tx \<Rightarrow> True | Inl e \<Rightarrow> is_conflict e"
proof (cases "fst (WriteTxn H L ref op pre bt h)")
  case (Inl e)
  then have "fst (txnLoop H L ref op pre bt 0 (lo_attempts L) h) = Inl e"
    using assms(3) by (simp add: WriteTxn_def)
  from txnLoop_cas [OF txnPass_cas [OF assms] this] Inl show ?thesis by simp
qed simp

definition test_store :: MetaStore where
  "test_store = \<lparr>ms_gvr = \<lparr>gv_group = ''widgetmeta.example.io'', gv_version = ''v1'', gv_resource = ''resourcemetadatas''\<rparr>,
     ms_kind = ''ResourceMetadata'', ms_group = ''example.io'', ms_resource = ''widgets'', ms_started = True,
     ms_checks = \<lparr>jc_managed = (\<lambda>_. True), jc_owners = (\<lambda>_. True)\<rparr>\<rparr>"

definition test_locker :: Locker where
  "test_locker = NewLocker test_store \<lparr>gr_group = ''example.io'', gr_resource = ''widgets''\<rparr> ''replica-test'' 0 False True 0"

definition test_ref :: ResourceRef where
  "test_ref = \<lparr>rf_group = ''example.io'', rf_resource = ''widgets'', rf_namespace = ''default'', rf_name = ''a''\<rparr>"

definition test_op :: "api_err option \<Rightarrow> etcd WriteOp" where
  "test_op e = \<lparr>op_WriteBody = (\<lambda>h. (e, h)), op_BuildRecord = (\<lambda>a h. (Inr (empty_record test_ref), h)),
     op_OnConflictRetry = (\<lambda>a h. h)\<rparr>"

text \<open>A host on which every compare-and-swap loses.\<close>

definition losing_host :: "etcd host" where
  "losing_host = etcd_host\<lparr>h_create := (\<lambda>g u h. (Inr u, h)), h_update := (\<lambda>g u h. (Inl (Conflict (un_name u) ''lost''), h))\<rparr>"

lemma test_locker_sel [simp]:
  "lo_txn test_locker" "lo_attempts test_locker = 5" "lo_identity test_locker = ''replica-test''"
  "lo_store test_locker = test_store" "lo_renew test_locker = False" "lo_gr test_locker = \<lparr>gr_group = ''example.io'', gr_resource = ''widgets''\<rparr>"
  by (simp_all add: test_locker_def NewLocker_def)

lemma test_record_ok: "record_ok (ms_checks test_store) (empty_record test_ref)"
  by (simp add: record_ok_def empty_record_def test_ref_def lock_ok_def time_ok_def max_time_def ns_per_s_def)

lemma losing_cas: "cas_host losing_host"
  by (auto simp: cas_host_def losing_host_def etcd_host_def es_get_def split: option.splits)

lemma test_op_cas: "e \<in> {None, Some (Conflict n m)} \<Longrightarrow> cas_op test_locker (test_op e)"
  using test_record_ok by (auto simp: cas_op_def test_op_def)

theorem txn_contention_is_409_witness:
  "case fst (WriteTxn losing_host test_locker test_ref (test_op (Some (Conflict ''a'' ''lost''))) None no_beats es_empty) of
     Inr tx \<Rightarrow> True | Inl e \<Rightarrow> is_conflict e"
  by (rule txn_contention_is_409 [OF losing_cas test_op_cas]) simp_all

text \<open>
  An uncontended write goes through at the first attempt: on a lawful host, when the record
  is absent, unlocked or locked by this replica and the version check passes, the transaction
  commits the built record with depth 0, under a version greater than the one it replaced, and
  leaves the lock free.
\<close>

theorem txn_fast_path:
  assumes "host_api H ok objs ver" and "ok h" and "lo_identity L \<noteq> []"
    and "free_for L (meta_at objs L ref h)" and "lo_txn L \<longrightarrow> 0 < lo_attempts L"
    and "fst (occCheck H L ref pre h) = None" and "leaves_record ok objs L ref op"
    and "\<forall>h. ok h \<longrightarrow> fst (op_WriteBody op h) = None"
    and "\<forall>h. ok h \<longrightarrow> fst (op_BuildRecord op 0 h) = Inr rec" and "record_ok (ms_checks (lo_store L)) rec"
  shows "\<exists>u h1. WriteTxn H L ref op pre bt h =
      (Inr \<lparr>tx_record = stored_record (un_uid u) (un_rv u) (unlocked rec), tx_depth = 0\<rparr>, h1) \<and>
    ok h1 \<and> meta_at objs L ref h1 = Some u \<and> un_rv u \<noteq> [] \<and>
    (\<forall>c. meta_at objs L ref h = Some c \<longrightarrow> ver (un_rv c) < ver (un_rv u)) \<and>
    decodeRecord (ms_checks (lo_store L)) u ref = Inr (stored_record (un_uid u) (un_rv u) (unlocked rec)) \<and>
    lockFromRaw u = None"
proof -
  note eqs = meta_at_rec_at [OF assms(1)] leaves_record_lawful [OF assms(1)]
  have pr: "host_api.productive ok objs L ref op 0 (host_api.others objs L ref h) (\<lambda>rec'. rec' = rec) (\<lambda>_. True)"
    using assms(8-10) by (simp add: host_api.productive_def [OF assms(1)])
  from host_api.WriteTxn_fast [OF assms(1-3), unfolded eqs, OF assms(4-7) pr, of bt]
  obtain u h1 where w: "WriteTxn H L ref op pre bt h =
      (Inr \<lparr>tx_record = stored_record (un_uid u) (un_rv u) (unlocked rec), tx_depth = 0\<rparr>, h1)"
    "ok h1" "meta_at objs L ref h1 = Some u" "un_rv u \<noteq> []"
    "\<forall>c. meta_at objs L ref h = Some c \<longrightarrow> ver (un_rv c) < ver (un_rv u)"
    "map_of (un_obj u) ''spec'' = Some (JObj (specMap (unlocked rec)))"
    by blast
  moreover have "decodeRecord (ms_checks (lo_store L)) u ref = Inr (stored_record (un_uid u) (un_rv u) (unlocked rec))"
    by (rule decode_spec [OF record_ok_unlocked [OF assms(10)] w(6)])
  moreover have "lockFromRaw u = None"
    by (simp add: lockFromRaw_def path_defs w(6) specMap_lookup unlocked_def)
  ultimately show ?thesis by blast
qed

lemma test_op_leaves: "leaves_record es_ok es_lookup test_locker test_ref (test_op e)"
  by (simp add: leaves_record_def test_op_def)

lemma es_ok_empty: "es_ok es_empty"
  by (simp add: es_ok_def es_empty_def)

theorem txn_fast_path_witness:
  "\<exists>tx h1. WriteTxn etcd_host test_locker test_ref (test_op None) None no_beats es_empty = (Inr tx, h1) \<and>
     tx_depth tx = 0 \<and> meta_at es_lookup test_locker test_ref h1 \<noteq> None"
proof -
  have none: "meta_at es_lookup test_locker test_ref es_empty = None"
    by (simp add: meta_at_def es_lookup_def es_empty_def)
  obtain u h1 where "WriteTxn etcd_host test_locker test_ref (test_op None) None no_beats es_empty =
      (Inr \<lparr>tx_record = stored_record (un_uid u) (un_rv u) (unlocked (empty_record test_ref)), tx_depth = 0\<rparr>, h1)"
    "meta_at es_lookup test_locker test_ref h1 = Some u"
    using txn_fast_path [OF etcd.host_api_axioms es_ok_empty, where L = test_locker and ref = test_ref
        and pre = None and op = "test_op None" and rec = "empty_record test_ref" and bt = no_beats] none test_op_leaves [of None] test_record_ok
    by (auto simp: free_for_def occCheck_def test_op_def)
  then show ?thesis by (intro exI conjI) auto
qed

text \<open>
  Lock churn does produce a false 409: an update that carries the current version, whose
  first body write meets a conflict and whose check refuses every other version, is refused
  on the retry although no other writer touched the record, because acquiring and releasing
  the lock advanced the version it is compared with.
\<close>

theorem txn_retry_false_conflict:
  assumes "host_api H ok objs ver" and "ok h" and "lo_identity L \<noteq> []" and "lo_txn L" and "1 < lo_attempts L"
    and "meta_at objs L ref h = Some c" and "readable (ms_checks (lo_store L)) c" and "lockFromRaw c = None"
    and "check (un_rv c) = None" and "\<forall>rv. rv \<noteq> un_rv c \<longrightarrow> rv \<noteq> [] \<longrightarrow> check rv = Some e"
    and "leaves_record ok objs L ref op" and "\<forall>h. ok h \<longrightarrow> fst (op_WriteBody op h) = Some be"
    and "is_conflict be"
  shows "fst (WriteTxn H L ref op (Some check) bt h) = Inl e"
  by (rule host_api.WriteTxn_false_conflict [OF assms(1-5)])
     (use assms(6-) in \<open>simp_all add: meta_at_rec_at [OF assms(1)] leaves_record_lawful [OF assms(1)]\<close>)

text \<open>A host state that holds one metadata record at version 1.\<close>

definition one_record :: "jmap \<Rightarrow> etcd" where
  "one_record spec =
     (let k = (''resourcemetadatas'', RecordName test_ref);
          u = \<lparr>un_group = [], un_version = [], un_kind = [], un_name = RecordName test_ref, un_uid = ''u'',
               un_rv = dec_nat 1, un_obj = [(''spec'', JObj spec)]\<rparr>
      in \<lparr>es_counter = 1, es_current = [(k, dec_nat 1)], es_objs = [(k, u)], es_clock = 10000000000\<rparr>)"

lemma es_ok_one: "es_ok (one_record spec)"
  by (auto simp: es_ok_def one_record_def Let_def)

lemma one_record_at:
  "meta_at es_lookup test_locker test_ref (one_record spec) =
     Some \<lparr>un_group = [], un_version = [], un_kind = [], un_name = RecordName test_ref, un_uid = ''u'',
           un_rv = dec_nat 1, un_obj = [(''spec'', JObj spec)]\<rparr>"
  by (simp add: meta_at_def es_lookup_def one_record_def test_store_def Let_def)

theorem txn_retry_false_conflict_witness:
  "fst (WriteTxn etcd_host test_locker test_ref (test_op (Some (Conflict ''a'' ''body'')))
      (Some (\<lambda>rv. if rv = dec_nat 1 then None else Some (Conflict ''a'' ''modified''))) no_beats (one_record [])) =
   Inl (Conflict ''a'' ''modified'')"
  by (rule txn_retry_false_conflict [where be = "Conflict ''a'' ''body''",
        OF etcd.host_api_axioms es_ok_one _ _ _ one_record_at _ _ _ _ test_op_leaves])
     (simp_all add: readable_def has_spec_def nestedMap_def lockFromRaw_def path_defs test_op_def)

text \<open>
  A live foreign lock is respected: when the stored record is locked by another replica
  whose lease has not run out at the moment of the check, acquiring fails at once with a
  Conflict and nothing on the host is changed.
\<close>

theorem foreign_lock_fails_fast:
  assumes "host_api H ok objs ver" and "ok h" and "meta_at objs L ref h = Some c" and "lockFromRaw c = Some ls"
    and "lk_holder ls \<noteq> lo_identity L" and "lk_holder ls \<noteq> []" and "lk_renewed ls = Some t" and "0 < lk_lease ls"
    and "fst (h_now H (snd (h_now H (snd (GetRawDirect H (lo_store L) ref h))))) \<le> t + lk_lease ls * ns_per_s"
  shows "\<exists>m h1. Acquire H L ref h = (Inl (Conflict (rf_name ref) m), h1) \<and> ok h1 \<and> objs h1 = objs h"
  by (rule host_api.Acquire_refused [OF assms(1,2)])
     (use assms(3-) in \<open>simp_all add: meta_at_rec_at [OF assms(1)]\<close>)

theorem foreign_lock_fails_fast_witness:
  "\<exists>m h1. Acquire etcd_host test_locker test_ref (one_record [(''lock'',
       JObj [(''holderIdentity'', JStr ''other''), (''renewedAt'', JStr (rfc3339 (10 * ns_per_s))), (''leaseDurationSeconds'', JInt 15)])]) =
     (Inl (Conflict ''a'' m), h1)"
proof -
  let ?spec = "[(''lock'', JObj [(''holderIdentity'', JStr ''other''), (''renewedAt'', JStr (rfc3339 (10 * ns_per_s))),
      (''leaseDurationSeconds'', JInt 15)])]"
  let ?ls = "\<lparr>lk_holder = ''other'', lk_acquired = None, lk_renewed = Some (trunc_s (10 * ns_per_s)), lk_lease = 15\<rparr>"
  have p: "parsedTime (Some (JStr (rfc3339 (10 * ns_per_s)))) = Some (trunc_s (10 * ns_per_s))"
    by (rule rfc3339_parses) (simp_all add: ns_per_s_def max_time_def)
  have l: "lockFromRaw \<lparr>un_group = [], un_version = [], un_kind = [], un_name = RecordName test_ref, un_uid = ''u'',
           un_rv = dec_nat 1, un_obj = [(''spec'', JObj ?spec)]\<rparr> = Some ?ls"
    by (simp add: lockFromRaw_def path_defs lockStateFromMap_def p int32_def)
  have "es_clock (one_record ?spec) = 10000000000" by (simp add: one_record_def Let_def)
  moreover have "snd (GetRawDirect etcd_host test_store test_ref (one_record ?spec)) = one_record ?spec"
    by (simp add: GetRawDirect_def etcd_host_def split: sum.splits)
  ultimately have "fst (h_now etcd_host (snd (h_now etcd_host (snd (GetRawDirect etcd_host (lo_store test_locker) test_ref
      (one_record ?spec)))))) \<le> trunc_s (10 * ns_per_s) + lk_lease ?ls * ns_per_s"
    by (simp add: etcd_host_def trunc_s_def ns_per_s_def)
  from foreign_lock_fails_fast [OF etcd.host_api_axioms es_ok_one one_record_at l _ _ _ _ this]
  show ?thesis by (auto simp: test_ref_def)
qed

end
