(* ===== verification/BodyStore.thy ===== *)
theory BodyStore
  imports MhLock
begin

text \<open>
  \<open>runtime/library/multihost/bodystore.go\<close> and \<open>metrics.go\<close>: the shared bodies of served objects on
  the host API server, the identity gate in front of them, the negative-existence cache, the
  push subscriptions, and the counters.  The state of one replica (\<open>node\<close>) holds the host's
  state and everything the replica's components mutate.
\<close>

section \<open>metrics.go\<close>

record Counters =
  ct_BackendGet :: nat
  ct_BackendList :: nat
  ct_ServedGet :: nat
  ct_ServedList :: nat
  ct_AdoptInline :: nat
  ct_AdoptSweep :: nat
  ct_CollectInline :: nat
  ct_CollectSweep :: nat
  ct_CollectSkippedAge :: nat
  ct_NegCacheHit :: nat
  ct_NegCacheMiss :: nat
  ct_WriteRetry :: nat
  ct_WriteOK :: nat
  ct_WriteConflict :: nat
  ct_MaxWriteDepth :: nat

definition ct_Reset :: Counters where
  "ct_Reset = \<lparr>ct_BackendGet = 0, ct_BackendList = 0, ct_ServedGet = 0, ct_ServedList = 0,
     ct_AdoptInline = 0, ct_AdoptSweep = 0, ct_CollectInline = 0, ct_CollectSweep = 0,
     ct_CollectSkippedAge = 0, ct_NegCacheHit = 0, ct_NegCacheMiss = 0, ct_WriteRetry = 0,
     ct_WriteOK = 0, ct_WriteConflict = 0, ct_MaxWriteDepth = 0\<rparr>"

text \<open>The amplification is the fraction \<open>BackendGet / ServedGet\<close>, absent when nothing was served.\<close>

definition ct_Snapshot :: "Counters \<Rightarrow> Counters \<times> (nat \<times> nat) option" where
  "ct_Snapshot c = (c, if 0 < ct_ServedGet c then Some (ct_BackendGet c, ct_ServedGet c) else None)"

record BodyCounters =
  bc_WatchOpened :: int
  bc_WatchRejected :: int
  bc_ListCalls :: int
  bc_GetCalls :: int
  bc_ActiveWatches :: int

section \<open>State\<close>

datatype BodyChangeType = BodyAdded | BodyModified | BodyDeleted

record BodyChange =
  bch_type :: BodyChangeType
  bch_ns :: string
  bch_name :: string
  bch_body :: Body

record BodyRef =
  br_ns :: string
  br_name :: string
  br_body :: Body

record subscriber =
  sb_user :: string
  sb_all :: bool
  sb_cap :: nat
  sb_ch :: "BodyChange list"

type_synonym IdentityGate = "user option \<Rightarrow> string \<Rightarrow> bool"

record BodyStore =
  bs_gvr :: gvr
  bs_kind :: string
  bs_gate :: IdentityGate
  bs_started :: bool
  bs_budget :: int
  bs_negTTL :: int

record 'h node =
  nd_host :: 'h
  nd_storeRV :: string
  nd_hubRV :: string
  nd_cnt :: Counters
  nd_bc :: BodyCounters
  nd_negEnabled :: bool
  nd_neg :: "(string \<times> gotime) list"
  nd_subs :: "(nat \<times> subscriber) list"
  nd_nextSub :: nat

definition bump :: "(Counters \<Rightarrow> Counters) \<Rightarrow> 'h node \<Rightarrow> 'h node" where
  "bump f n = n\<lparr>nd_cnt := f (nd_cnt n)\<rparr>"

definition onHost :: "('h \<Rightarrow> 'a \<times> 'h) \<Rightarrow> 'h node \<Rightarrow> 'a \<times> 'h node" where
  "onHost f n = (case f (nd_host n) of (x, h) \<Rightarrow> (x, n\<lparr>nd_host := h\<rparr>))"

text \<open>The host as the components of a replica reach it.\<close>

definition node_host :: "'h host \<Rightarrow> 'h node host" where
  "node_host H =
     \<lparr>h_get = (\<lambda>g n. onHost (h_get H g n)), h_create = (\<lambda>g u. onHost (h_create H g u)),
      h_update = (\<lambda>g u. onHost (h_update H g u)), h_delete = (\<lambda>g n. onHost (h_delete H g n)),
      h_list = (\<lambda>g. onHost (h_list H g)),
      h_cache_get = (\<lambda>g n nd. h_cache_get H g n (nd_host nd)),
      h_cache_list = (\<lambda>g nd. h_cache_list H g (nd_host nd)),
      h_now = onHost (h_now H), h_sleep = (\<lambda>d nd. nd\<lparr>nd_host := h_sleep H d (nd_host nd)\<rparr>),
      h_uuid = onHost (h_uuid H)\<rparr>"

section \<open>Identity\<close>

definition hasPrefix :: "string \<Rightarrow> string \<Rightarrow> bool" where
  "hasPrefix s p = (length p \<le> length s \<and> take (length p) s = p)"

definition DefaultIdentityGate :: IdentityGate where
  "DefaultIdentityGate u owner =
     (case u of
        None \<Rightarrow> True
      | Some us \<Rightarrow>
          (if ''system:masters'' \<in> set (u_groups us) then True
           else (let n = u_name us in
             if n = ''system:kube-aggregator'' \<or> n = ''system:apiserver'' \<or>
                hasPrefix n ''system:node:'' \<or> hasPrefix n ''system:serviceaccount:''
             then True else owner = n)))"

definition allProbe :: string where
  "allProbe = CHR 0x00 # ''multihost-all-probe''"

definition maySee :: "BodyStore \<Rightarrow> user option \<Rightarrow> Body \<Rightarrow> bool" where
  "maySee B u b = bs_gate B u (bd_owner b)"

definition ownerOf :: "BodyStore \<Rightarrow> user option \<Rightarrow> string \<times> bool" where
  "ownerOf B u = (case u of None \<Rightarrow> ([], True) | Some us \<Rightarrow> (u_name us, bs_gate B u allProbe))"

section \<open>Push subscriptions\<close>

definition mayReceive :: "subscriber \<Rightarrow> BodyChange \<Rightarrow> bool" where
  "mayReceive sub c = (sb_all sub \<or> bd_owner (bch_body c) = sb_user sub)"

definition deliver :: "BodyChange \<Rightarrow> 'h node \<Rightarrow> 'h node" where
  "deliver c n = n\<lparr>nd_subs := map (\<lambda>(i, sub).
     (i, if \<not> mayReceive sub c then sub
         else if length (sb_ch sub) < sb_cap sub then sub\<lparr>sb_ch := sb_ch sub @ [c]\<rparr>
         else sub)) (nd_subs n)\<rparr>"

definition fanout :: "BodyChangeType \<Rightarrow> unstr option \<Rightarrow> 'h node \<Rightarrow> 'h node" where
  "fanout ct obj n =
     (case obj of
        None \<Rightarrow> n
      | Some u \<Rightarrow>
          (let (ns, nm) = bodyRefOf u
           in deliver \<lparr>bch_type = ct, bch_ns = ns, bch_name = nm, bch_body = bodyFromUnstructured u\<rparr> n))"

definition fanoutDelete :: "unstr option \<Rightarrow> 'h node \<Rightarrow> 'h node" where
  "fanoutDelete obj n = fanout BodyDeleted obj n"

definition WatchFor :: "BodyStore \<Rightarrow> user option \<Rightarrow> int \<Rightarrow> 'h node \<Rightarrow> nat option \<times> 'h node" where
  "WatchFor B u bufferSize n =
     (let (owner, all) = ownerOf B u in
      if 0 < bs_budget B \<and> bs_budget B \<le> int (length (nd_subs n))
      then (None, n\<lparr>nd_bc := (nd_bc n)\<lparr>bc_WatchRejected := bc_WatchRejected (nd_bc n) + 1\<rparr>\<rparr>)
      else (let i = nd_nextSub n + 1;
                cap = (if bufferSize \<le> 0 then 100 else nat bufferSize);
                sub = \<lparr>sb_user = owner, sb_all = all, sb_cap = cap, sb_ch = []\<rparr>
            in (Some i, n\<lparr>nd_nextSub := i, nd_subs := aput i sub (nd_subs n),
                 nd_bc := (nd_bc n)\<lparr>bc_WatchOpened := bc_WatchOpened (nd_bc n) + 1,
                                    bc_ActiveWatches := bc_ActiveWatches (nd_bc n) + 1\<rparr>\<rparr>)))"

text \<open>\<open>Close\<close>, once per subscription.\<close>

definition closeSub :: "nat \<Rightarrow> 'h node \<Rightarrow> 'h node" where
  "closeSub i n =
     (if map_of (nd_subs n) i = None then n
      else n\<lparr>nd_subs := adel i (nd_subs n),
             nd_bc := (nd_bc n)\<lparr>bc_ActiveWatches := bc_ActiveWatches (nd_bc n) - 1\<rparr>\<rparr>)"

section \<open>Cache reads\<close>

definition cacheGet :: "'h host \<Rightarrow> BodyStore \<Rightarrow> string \<Rightarrow> string \<Rightarrow> 'h node \<Rightarrow> Body option" where
  "cacheGet H B ns name n =
     (if \<not> bs_started B then None
      else (case h_cache_get H (bs_gvr B) (BodyName ns name) (nd_host n) of
              Inl e \<Rightarrow> None
            | Inr u \<Rightarrow> Some (bodyFromUnstructured u)))"

definition GetFor :: "'h host \<Rightarrow> BodyStore \<Rightarrow> user option \<Rightarrow> string \<Rightarrow> string \<Rightarrow> 'h node \<Rightarrow> Body option \<times> 'h node" where
  "GetFor H B u ns name n =
     (let n1 = n\<lparr>nd_bc := (nd_bc n)\<lparr>bc_GetCalls := bc_GetCalls (nd_bc n) + 1\<rparr>\<rparr> in
      case cacheGet H B ns name n1 of
        None \<Rightarrow> (None, n1)
      | Some b \<Rightarrow> (if \<not> maySee B u b then (None, n1) else (Some b, n1)))"

definition bs_Get :: "'h host \<Rightarrow> BodyStore \<Rightarrow> string \<Rightarrow> string \<Rightarrow> 'h node \<Rightarrow> Body option" where
  "bs_Get H B ns name n = cacheGet H B ns name n"

text \<open>
  The references of a list of body objects, in a namespace (all when empty), filtered; sorted
  by namespace and name.
\<close>

definition sortBodyRefs :: "BodyRef list \<Rightarrow> BodyRef list" where
  "sortBodyRefs rs = sort_key br_ns (sort_key br_name rs)"

definition bodyRefs :: "string \<Rightarrow> (Body \<Rightarrow> bool) option \<Rightarrow> unstr list \<Rightarrow> BodyRef list" where
  "bodyRefs namespace keep us = List.map_filter (\<lambda>u.
     let (ns, nm) = bodyRefOf u; b = bodyFromUnstructured u in
     if namespace \<noteq> [] \<and> ns \<noteq> namespace then None
     else if (case keep of None \<Rightarrow> False | Some k \<Rightarrow> \<not> k b) then None
     else Some \<lparr>br_ns = ns, br_name = nm, br_body = b\<rparr>) us"

definition cacheList :: "'h host \<Rightarrow> BodyStore \<Rightarrow> string \<Rightarrow> (Body \<Rightarrow> bool) option \<Rightarrow> 'h node \<Rightarrow> BodyRef list" where
  "cacheList H B namespace keep n =
     (if \<not> bs_started B then []
      else (case h_cache_list H (bs_gvr B) (nd_host n) of
              Inl e \<Rightarrow> []
            | Inr us \<Rightarrow> sortBodyRefs (bodyRefs namespace keep us)))"

definition ListFor :: "'h host \<Rightarrow> BodyStore \<Rightarrow> user option \<Rightarrow> string \<Rightarrow> 'h node \<Rightarrow> BodyRef list \<times> 'h node" where
  "ListFor H B u namespace n =
     (let n1 = n\<lparr>nd_bc := (nd_bc n)\<lparr>bc_ListCalls := bc_ListCalls (nd_bc n) + 1\<rparr>\<rparr>
      in (cacheList H B namespace (Some (maySee B u)) n1, n1))"

definition bs_List :: "'h host \<Rightarrow> BodyStore \<Rightarrow> string \<Rightarrow> 'h node \<Rightarrow> BodyRef list" where
  "bs_List H B namespace n = cacheList H B namespace None n"

section \<open>Authoritative reads and the negative cache\<close>

definition SetNegCache :: "bool \<Rightarrow> 'h node \<Rightarrow> 'h node" where
  "SetNegCache enabled n = n\<lparr>nd_negEnabled := enabled, nd_neg := []\<rparr>"

definition negKey :: "string \<Rightarrow> string \<Rightarrow> string" where
  "negKey ns name = ns @ ''/'' @ name"

text \<open>The lookup in the negative cache: a hit, or a miss (an expired entry is dropped).\<close>

definition negLookup :: "'h host \<Rightarrow> string \<Rightarrow> 'h node \<Rightarrow> bool \<times> 'h node" where
  "negLookup H key n =
     (if \<not> nd_negEnabled n then (False, n)
      else (case map_of (nd_neg n) key of
              None \<Rightarrow> (False, bump (\<lambda>c. c\<lparr>ct_NegCacheMiss := ct_NegCacheMiss c + 1\<rparr>) n)
            | Some until \<Rightarrow>
                (let (now, n1) = onHost (h_now H) n in
                 if now < until then (True, bump (\<lambda>c. c\<lparr>ct_NegCacheHit := ct_NegCacheHit c + 1\<rparr>) n1)
                 else (False, bump (\<lambda>c. c\<lparr>ct_NegCacheMiss := ct_NegCacheMiss c + 1\<rparr>)
                                (n1\<lparr>nd_neg := adel key (nd_neg n1)\<rparr>)))))"

definition GetAuthoritative :: "'h host \<Rightarrow> BodyStore \<Rightarrow> string \<Rightarrow> string \<Rightarrow> 'h node \<Rightarrow> Body option \<times> 'h node" where
  "GetAuthoritative H B ns name n =
     (let key = negKey ns name; (hit, n1) = negLookup H key n in
      if hit then (None, n1)
      else (case onHost (h_get H (bs_gvr B) (BodyName ns name)) (bump (\<lambda>c. c\<lparr>ct_BackendGet := ct_BackendGet c + 1\<rparr>) n1) of
              (Inl e, n2) \<Rightarrow>
                (if is_not_found e \<and> nd_negEnabled n2
                 then (let (now, n3) = onHost (h_now H) n2
                       in (None, n3\<lparr>nd_neg := aput key (now + bs_negTTL B) (nd_neg n3)\<rparr>))
                 else (None, n2))
            | (Inr u, n2) \<Rightarrow>
                (Some (bodyFromUnstructured u),
                 if nd_negEnabled n2 then n2\<lparr>nd_neg := adel key (nd_neg n2)\<rparr> else n2)))"

definition ListAuthoritative :: "'h host \<Rightarrow> BodyStore \<Rightarrow> string \<Rightarrow> 'h node \<Rightarrow> BodyRef list res \<times> 'h node" where
  "ListAuthoritative H B namespace n =
     (case onHost (h_list H (bs_gvr B)) (bump (\<lambda>c. c\<lparr>ct_BackendList := ct_BackendList c + 1\<rparr>) n) of
        (Inl e, n1) \<Rightarrow> (Inl e, n1)
      | (Inr us, n1) \<Rightarrow> (Inr (sortBodyRefs (bodyRefs namespace None us)), n1))"

definition bs_GetDirect :: "'h host \<Rightarrow> BodyStore \<Rightarrow> string \<Rightarrow> string \<Rightarrow> 'h node \<Rightarrow> Body option \<times> 'h node" where
  "bs_GetDirect H B ns name n =
     (case onHost (h_get H (bs_gvr B) (BodyName ns name)) n of
        (Inl e, n1) \<Rightarrow> (None, n1)
      | (Inr u, n1) \<Rightarrow> (Some (bodyFromUnstructured u), n1))"

section \<open>Writes\<close>

definition invalidateNeg :: "string \<Rightarrow> string \<Rightarrow> 'h node \<Rightarrow> 'h node" where
  "invalidateNeg ns name n =
     (if \<not> nd_negEnabled n then n else n\<lparr>nd_neg := adel (negKey ns name) (nd_neg n)\<rparr>)"

definition bs_Put :: "'h host \<Rightarrow> BodyStore \<Rightarrow> string \<Rightarrow> string \<Rightarrow> Body \<Rightarrow> 'h node \<Rightarrow> api_err option \<times> 'h node" where
  "bs_Put H B ns name b n =
     (let cn = BodyName ns name;
          u = (encodeBody ns name b (bs_gvr B) (bs_kind B))\<lparr>un_name := cn\<rparr>
      in case onHost (h_get H (bs_gvr B) cn) n of
           (Inl e, n1) \<Rightarrow>
             (if \<not> is_not_found e then (Some (Wrapped ''bodystore: get for put'' e), n1)
              else (case onHost (h_create H (bs_gvr B) (u\<lparr>un_rv := []\<rparr>)) n1 of
                      (Inl ce, n2) \<Rightarrow> (Some ce, n2)
                    | (Inr created, n2) \<Rightarrow> (None, invalidateNeg ns name n2)))
         | (Inr existing, n1) \<Rightarrow>
             (case onHost (h_update H (bs_gvr B) (u\<lparr>un_rv := un_rv existing, un_uid := un_uid existing\<rparr>)) n1 of
                (Inl ue, n2) \<Rightarrow> (Some ue, n2)
              | (Inr updated, n2) \<Rightarrow> (None, invalidateNeg ns name n2)))"

definition bs_Delete :: "'h host \<Rightarrow> BodyStore \<Rightarrow> string \<Rightarrow> string \<Rightarrow> 'h node \<Rightarrow> api_err option \<times> 'h node" where
  "bs_Delete H B ns name n =
     (case onHost (h_delete H (bs_gvr B) (BodyName ns name)) n of
        (Some e, n1) \<Rightarrow> ((if is_not_found e then None else Some (Wrapped ''bodystore: delete'' e)), n1)
      | (None, n1) \<Rightarrow> (None, n1))"

section \<open>Lemmas\<close>

lemma onHost_frame [simp]:
  "onHost f n = (x, n') \<Longrightarrow> nd_neg n' = nd_neg n \<and> nd_negEnabled n' = nd_negEnabled n \<and> nd_subs n' = nd_subs n"
  by (auto simp: onHost_def split: prod.splits)

lemma bump_sel [simp]:
  "nd_host (bump f n) = nd_host n" "nd_negEnabled (bump f n) = nd_negEnabled n" "nd_neg (bump f n) = nd_neg n"
  "nd_subs (bump f n) = nd_subs n" "nd_storeRV (bump f n) = nd_storeRV n" "nd_hubRV (bump f n) = nd_hubRV n"
  by (simp_all add: bump_def)

lemma invalidateNeg_host [simp]: "nd_host (invalidateNeg ns name n) = nd_host n"
  "nd_negEnabled (invalidateNeg ns name n) = nd_negEnabled n"
  by (simp_all add: invalidateNeg_def)

lemma invalidateNeg_lookup: "nd_negEnabled n \<Longrightarrow> map_of (nd_neg (invalidateNeg ns name n)) (negKey ns name) = None"
  by (simp add: invalidateNeg_def)

lemma map_filter_set: "x \<in> set (List.map_filter f xs) \<longleftrightarrow> (\<exists>y\<in>set xs. f y = Some x)"
  by (induction xs) (auto simp: map_filter_simps split: option.splits)

lemma sortBodyRefs_set [simp]: "set (sortBodyRefs rs) = set rs"
  by (simp add: sortBodyRefs_def)

lemma bodyRefs_kept: "r \<in> set (bodyRefs namespace (Some k) us) \<Longrightarrow> k (br_body r)"
  and bodyRefs_ns: "r \<in> set (bodyRefs namespace keep us) \<Longrightarrow> namespace \<noteq> [] \<Longrightarrow> br_ns r = namespace"
  by (auto simp: bodyRefs_def map_filter_set Let_def split_beta split: if_splits)

lemma bodyRefs_in: "r \<in> set (bodyRefs namespace keep us) \<Longrightarrow>
    \<exists>u\<in>set us. br_body r = bodyFromUnstructured u \<and> (br_ns r, br_name r) = bodyRefOf u"
  by (fastforce simp: bodyRefs_def map_filter_set Let_def split_beta split: if_splits)

lemma ListFor_gated:
  assumes "r \<in> set (fst (ListFor H B u ns n))"
  shows "bs_gate B u (bd_owner (br_body r)) \<and> (ns \<noteq> [] \<longrightarrow> br_ns r = ns)"
  using assms bodyRefs_kept [of r ns "maySee B u", unfolded maySee_def [of B u "br_body r"]] bodyRefs_ns [of r ns "Some (maySee B u)"]
  by (auto simp: ListFor_def cacheList_def Let_def split: if_splits sum.splits)

text \<open>The default gate, for a caller that is not a system identity, is ownership.\<close>

definition system_user :: "user \<Rightarrow> bool" where
  "system_user us \<longleftrightarrow> ''system:masters'' \<in> set (u_groups us) \<or> u_name us = ''system:kube-aggregator'' \<or>
     u_name us = ''system:apiserver'' \<or> hasPrefix (u_name us) ''system:node:'' \<or>
     hasPrefix (u_name us) ''system:serviceaccount:''"

lemma DefaultIdentityGate_iff: "DefaultIdentityGate (Some us) owner \<longleftrightarrow> system_user us \<or> owner = u_name us"
  by (auto simp: DefaultIdentityGate_def system_user_def Let_def)

lemma negLookup_hit: "fst (negLookup H key n) = (nd_negEnabled n \<and> (case map_of (nd_neg n) key of
      None \<Rightarrow> False | Some until \<Rightarrow> fst (h_now H (nd_host n)) < until))"
  unfolding negLookup_def onHost_def by (cases "h_now H (nd_host n)"; cases "map_of (nd_neg n) key") (simp_all add: Let_def)

lemma negLookup_host_eq: "nd_host (snd (negLookup H key n)) = nd_host n \<or>
    nd_host (snd (negLookup H key n)) = snd (h_now H (nd_host n))"
  unfolding negLookup_def onHost_def by (cases "h_now H (nd_host n)"; cases "map_of (nd_neg n) key") (simp_all add: Let_def)

lemma un_swap: "u\<lparr>un_uid := i, un_rv := r\<rparr> = (u :: unstr)\<lparr>un_rv := r, un_uid := i\<rparr>"
  by (cases u) simp

context host_api
begin

lemma negLookup_host:
  assumes "ok (nd_host n)"
  shows "ok (nd_host (snd (negLookup H key n))) \<and> objs (nd_host (snd (negLookup H key n))) = objs (nd_host n)"
  using negLookup_host_eq [of H key n] clock [OF assms] assms by presburger

lemma node_host_api: "host_api (node_host H) (\<lambda>n. ok (nd_host n)) (\<lambda>n. objs (nd_host n)) ver"
proof
  fix n :: "'h node" and g :: gvr and nm r :: string and u cur :: unstr and d
  assume k: "ok (nd_host n)"
  show "ok (nd_host (snd (h_get (node_host H) g nm n))) \<and>
      objs (nd_host (snd (h_get (node_host H) g nm n))) = objs (nd_host n)"
    using get [OF k] by (simp add: node_host_def onHost_def split_beta)
  show "objs (nd_host n) (gv_resource g) nm = None \<Longrightarrow> \<exists>e. fst (h_get (node_host H) g nm n) = Inl e \<and> is_not_found e"
    using get_none [OF k] by (simp add: node_host_def onHost_def split_beta)
  show "objs (nd_host n) (gv_resource g) nm = Some u \<Longrightarrow> fst (h_get (node_host H) g nm n) = Inr u"
    using get_some [OF k] by (simp add: node_host_def onHost_def split_beta)
  show "objs (nd_host n) (gv_resource g) (un_name u) = None \<Longrightarrow>
      \<exists>rv uid. fst (h_create (node_host H) g u n) = Inr (u\<lparr>un_rv := rv, un_uid := uid\<rparr>) \<and> rv \<noteq> [] \<and>
        ok (nd_host (snd (h_create (node_host H) g u n))) \<and>
        objs (nd_host (snd (h_create (node_host H) g u n))) =
          (objs (nd_host n))(gv_resource g := (objs (nd_host n) (gv_resource g))(un_name u \<mapsto> u\<lparr>un_rv := rv, un_uid := uid\<rparr>))"
    using create [OF k, of g u] by (simp add: node_host_def onHost_def split_beta)
  show "objs (nd_host n) (gv_resource g) (un_name u) = Some cur \<Longrightarrow> un_rv u = un_rv cur \<Longrightarrow>
      \<exists>rv uid. fst (h_update (node_host H) g u n) = Inr (u\<lparr>un_rv := rv, un_uid := uid\<rparr>) \<and> rv \<noteq> [] \<and>
        ver (un_rv cur) < ver rv \<and> ok (nd_host (snd (h_update (node_host H) g u n))) \<and>
        objs (nd_host (snd (h_update (node_host H) g u n))) =
          (objs (nd_host n))(gv_resource g := (objs (nd_host n) (gv_resource g))(un_name u \<mapsto> u\<lparr>un_rv := rv, un_uid := uid\<rparr>))"
    using update [OF k, of g u cur] by (simp add: node_host_def onHost_def split_beta)
  show "objs (nd_host n) (gv_resource g) (un_name u) = Some cur \<Longrightarrow> un_rv u \<noteq> [] \<Longrightarrow> un_rv u \<noteq> un_rv cur \<Longrightarrow>
      \<exists>e. fst (h_update (node_host H) g u n) = Inl e \<and> is_conflict e \<and>
        ok (nd_host (snd (h_update (node_host H) g u n))) \<and>
        objs (nd_host (snd (h_update (node_host H) g u n))) = objs (nd_host n)"
    using update_stale [OF k, of g u cur] by (simp add: node_host_def onHost_def split_beta)
  show "ok (nd_host (snd (h_delete (node_host H) g nm n))) \<and>
      objs (nd_host (snd (h_delete (node_host H) g nm n))) =
        (objs (nd_host n))(gv_resource g := (objs (nd_host n) (gv_resource g))(nm := None))"
    using delete [OF k, of g nm] by (simp add: node_host_def onHost_def split_beta)
  show "objs (nd_host n) (gv_resource g) nm \<noteq> None \<Longrightarrow> fst (h_delete (node_host H) g nm n) = None"
    using delete_result [OF k, of g nm] by (simp add: node_host_def onHost_def split_beta)
  show "ok (nd_host (snd (h_now (node_host H) n))) \<and> objs (nd_host (snd (h_now (node_host H) n))) = objs (nd_host n)"
    using clock [OF k] by (simp add: node_host_def onHost_def split_beta)
  show "0 < fst (h_now (node_host H) n)"
    using clock_range [OF k] by (simp add: node_host_def onHost_def split_beta)
  show "ok (nd_host (h_sleep (node_host H) d n)) \<and> objs (nd_host (h_sleep (node_host H) d n)) = objs (nd_host n)"
    using sleep [OF k] by (simp add: node_host_def)
  show "ok (nd_host (snd (h_uuid (node_host H) n))) \<and>
      objs (nd_host (snd (h_uuid (node_host H) n))) = objs (nd_host n) \<and> fst (h_uuid (node_host H) n) \<noteq> []"
    using uuid [OF k] by (simp add: node_host_def onHost_def split_beta)
  show "objs (nd_host n) r nm = Some u \<Longrightarrow> un_name u = nm \<and> un_rv u \<noteq> []"
    using named [OF k] by simp
qed

text \<open>What the host holds under a body's name.\<close>

lemma body_get:
  assumes "ok (nd_host n)"
  shows "(case objs (nd_host n) (gv_resource g) c of
       None \<Rightarrow> \<exists>e n1. onHost (h_get H g c) n = (Inl e, n1) \<and> is_not_found e \<and> ok (nd_host n1) \<and>
          objs (nd_host n1) = objs (nd_host n)
     | Some u \<Rightarrow> \<exists>n1. onHost (h_get H g c) n = (Inr u, n1) \<and> ok (nd_host n1) \<and> objs (nd_host n1) = objs (nd_host n))"
  using get [OF assms, of g c] get_none [OF assms, of g c] get_some [OF assms, of g c]
  by (cases "h_get H g c (nd_host n)") (auto simp: onHost_def split: option.splits)

text \<open>Writing a body succeeds, stores it and forgets that it was missing.\<close>

lemma Put_spec:
  assumes ok: "ok (nd_host n)" and b: "body_ok b"
  shows "\<exists>u n1. bs_Put H B ns name b n = (None, n1) \<and> ok (nd_host n1) \<and>
     objs (nd_host n1) = (objs (nd_host n))(gv_resource (bs_gvr B) :=
       (objs (nd_host n) (gv_resource (bs_gvr B)))(BodyName ns name \<mapsto> u)) \<and>
     bodyFromUnstructured u = b \<and> bodyRefOf u = (ns, name) \<and> nd_negEnabled n1 = nd_negEnabled n \<and>
     (nd_negEnabled n \<longrightarrow> map_of (nd_neg n1) (negKey ns name) = None)"
proof -
  let ?g = "bs_gvr B" and ?c = "BodyName ns name"
  let ?u = "(encodeBody ns name b ?g (bs_kind B))\<lparr>un_name := ?c\<rparr>"
  have dec: "bodyFromUnstructured (?u\<lparr>un_rv := x, un_uid := y\<rparr>) = b \<and> bodyRefOf (?u\<lparr>un_rv := x, un_uid := y\<rparr>) = (ns, name)" for x y
    using decode_encode_body [OF b, where ns = ns and n = name and g = ?g and kind = "bs_kind B" and x = ?c and uid = y and rv = x]
    by (simp only: un_swap)
  have fin: "\<exists>u n2. (None, invalidateNeg ns name (n1\<lparr>nd_host := h2\<rparr>)) = (None :: api_err option, n2) \<and> ok (nd_host n2) \<and>
      objs (nd_host n2) = (objs (nd_host n))(gv_resource ?g := (objs (nd_host n) (gv_resource ?g))(?c \<mapsto> u)) \<and>
      bodyFromUnstructured u = b \<and> bodyRefOf u = (ns, name) \<and> nd_negEnabled n2 = nd_negEnabled n \<and>
      (nd_negEnabled n \<longrightarrow> map_of (nd_neg n2) (negKey ns name) = None)"
    if "ok h2" and "objs h2 = (objs (nd_host n))(gv_resource ?g := (objs (nd_host n) (gv_resource ?g))(?c \<mapsto> ?u\<lparr>un_rv := rv, un_uid := uid\<rparr>))"
      and "nd_neg n1 = nd_neg n \<and> nd_negEnabled n1 = nd_negEnabled n \<and> nd_subs n1 = nd_subs n" for h2 n1 rv uid
  proof -
    have f1: "nd_negEnabled n \<longrightarrow> map_of (nd_neg (invalidateNeg ns name (n1\<lparr>nd_host := h2\<rparr>))) (negKey ns name) = None"
      using invalidateNeg_lookup [of "n1\<lparr>nd_host := h2\<rparr>"] that(3) by simp
    have f2: "ok (nd_host (invalidateNeg ns name (n1\<lparr>nd_host := h2\<rparr>)))"
      "objs (nd_host (invalidateNeg ns name (n1\<lparr>nd_host := h2\<rparr>))) =
         (objs (nd_host n))(gv_resource ?g := (objs (nd_host n) (gv_resource ?g))(?c \<mapsto> ?u\<lparr>un_rv := rv, un_uid := uid\<rparr>))"
      "nd_negEnabled (invalidateNeg ns name (n1\<lparr>nd_host := h2\<rparr>)) = nd_negEnabled n"
      using that by simp_all
    show ?thesis
      by (rule exI [where x = "?u\<lparr>un_rv := rv, un_uid := uid\<rparr>"], rule exI [where x = "invalidateNeg ns name (n1\<lparr>nd_host := h2\<rparr>)"])
        (intro conjI refl f1 f2 dec [THEN conjunct1] dec [THEN conjunct2])
  qed
  show ?thesis
  proof (cases "objs (nd_host n) (gv_resource ?g) ?c")
    case None
    then obtain e n1 where g: "onHost (h_get H ?g ?c) n = (Inl e, n1)" "is_not_found e" "ok (nd_host n1)"
      "objs (nd_host n1) = objs (nd_host n)" using body_get [OF ok, of ?g ?c] by auto
    have "objs (nd_host n1) (gv_resource ?g) (un_name (?u\<lparr>un_rv := []\<rparr>)) = None" using None g(4) by simp
    from create [OF g(3) this]
    obtain rv uid h2 where w: "h_create H ?g (?u\<lparr>un_rv := []\<rparr>) (nd_host n1) = (Inr (?u\<lparr>un_rv := rv, un_uid := uid\<rparr>), h2)"
      "ok h2" "objs h2 = (objs (nd_host n1))(gv_resource ?g := (objs (nd_host n1) (gv_resource ?g))(?c \<mapsto> ?u\<lparr>un_rv := rv, un_uid := uid\<rparr>))"
      by (cases "h_create H ?g (?u\<lparr>un_rv := []\<rparr>) (nd_host n1)") auto
    have "onHost (h_create H ?g (?u\<lparr>un_rv := []\<rparr>)) n1 = (Inr (?u\<lparr>un_rv := rv, un_uid := uid\<rparr>), n1\<lparr>nd_host := h2\<rparr>)"
      using w(1) by (simp add: onHost_def)
    then have "bs_Put H B ns name b n = (None, invalidateNeg ns name (n1\<lparr>nd_host := h2\<rparr>))"
      using g by (simp add: bs_Put_def Let_def)
    then show ?thesis
      using fin [OF w(2) _ onHost_frame [OF g(1)]] w(3) g(4) by metis
  next
    case (Some c)
    then obtain n1 where g: "onHost (h_get H ?g ?c) n = (Inr c, n1)" "ok (nd_host n1)"
      "objs (nd_host n1) = objs (nd_host n)" using body_get [OF ok, of ?g ?c] by auto
    let ?v = "?u\<lparr>un_rv := un_rv c, un_uid := un_uid c\<rparr>"
    have "objs (nd_host n1) (gv_resource ?g) (un_name ?v) = Some c" using Some g(3) by simp
    from update [OF g(2) this]
    obtain rv uid h2 where w: "h_update H ?g ?v (nd_host n1) = (Inr (?u\<lparr>un_rv := rv, un_uid := uid\<rparr>), h2)"
      "ok h2" "objs h2 = (objs (nd_host n1))(gv_resource ?g := (objs (nd_host n1) (gv_resource ?g))(?c \<mapsto> ?u\<lparr>un_rv := rv, un_uid := uid\<rparr>))"
      by (cases "h_update H ?g ?v (nd_host n1)") auto
    have "onHost (h_update H ?g ?v) n1 = (Inr (?u\<lparr>un_rv := rv, un_uid := uid\<rparr>), n1\<lparr>nd_host := h2\<rparr>)"
      using w(1) by (simp add: onHost_def)
    then have "bs_Put H B ns name b n = (None, invalidateNeg ns name (n1\<lparr>nd_host := h2\<rparr>))"
      using g by (simp add: bs_Put_def Let_def)
    then show ?thesis
      using fin [OF w(2) _ onHost_frame [OF g(1)]] w(3) g(3) by metis
  qed
qed

lemma GetAuthoritative_spec:
  assumes ok: "ok (nd_host n)"
  shows "fst (GetAuthoritative H B ns name n) =
     (if nd_negEnabled n \<and> (case map_of (nd_neg n) (negKey ns name) of
          None \<Rightarrow> False | Some until \<Rightarrow> fst (h_now H (nd_host n)) < until)
      then None
      else map_option bodyFromUnstructured (objs (nd_host n) (gv_resource (bs_gvr B)) (BodyName ns name))) \<and>
     ok (nd_host (snd (GetAuthoritative H B ns name n))) \<and>
     objs (nd_host (snd (GetAuthoritative H B ns name n))) = objs (nd_host n)"
proof -
  obtain hit n1 where l: "negLookup H (negKey ns name) n = (hit, n1)" by (cases "negLookup H (negKey ns name) n")
  have hit: "hit = (nd_negEnabled n \<and> (case map_of (nd_neg n) (negKey ns name) of
      None \<Rightarrow> False | Some until \<Rightarrow> fst (h_now H (nd_host n)) < until))"
    using arg_cong [OF l, of fst] by (simp only: negLookup_hit fst_conv)
  have n1: "ok (nd_host n1)" "objs (nd_host n1) = objs (nd_host n)"
    using negLookup_host [OF ok] l by (metis snd_conv)+
  show ?thesis
  proof (cases hit)
    case True
    then show ?thesis using l hit n1 by (simp add: GetAuthoritative_def)
  next
    case False
    let ?b = "bump (\<lambda>c. c\<lparr>ct_BackendGet := ct_BackendGet c + 1\<rparr>) n1"
    have b: "ok (nd_host ?b)" using n1 by simp
    show ?thesis
    proof (cases "objs (nd_host n) (gv_resource (bs_gvr B)) (BodyName ns name)")
      case None
      then obtain e n2 where "onHost (h_get H (bs_gvr B) (BodyName ns name)) ?b = (Inl e, n2)" "is_not_found e"
        "ok (nd_host n2)" "objs (nd_host n2) = objs (nd_host n)"
        using body_get [OF b, of "bs_gvr B" "BodyName ns name"] n1 by auto
      moreover obtain now n3 where "onHost (h_now H) n2 = (now, n3)" "ok (nd_host n3)" "objs (nd_host n3) = objs (nd_host n2)"
        using clock [OF \<open>ok (nd_host n2)\<close>] by (simp add: onHost_def split_beta)
      ultimately show ?thesis
        using None by (simp only: hit [symmetric]) (simp add: GetAuthoritative_def l False)
    next
      case (Some u)
      then obtain n2 where "onHost (h_get H (bs_gvr B) (BodyName ns name)) ?b = (Inr u, n2)"
        "ok (nd_host n2)" "objs (nd_host n2) = objs (nd_host n)"
        using body_get [OF b, of "bs_gvr B" "BodyName ns name"] n1 by auto
      then show ?thesis
        using Some by (simp only: hit [symmetric]) (simp add: GetAuthoritative_def l False Let_def)
    qed
  qed
qed

end

interpretation etcd_node: host_api "node_host etcd_host" "\<lambda>n. es_ok (nd_host n)" "\<lambda>n. es_lookup (nd_host n)" es_ver
  by (rule etcd.node_host_api)

section \<open>Properties\<close>

definition test_bodies :: BodyStore where
  "test_bodies = \<lparr>bs_gvr = \<lparr>gv_group = ''widgetbody.example.io'', gv_version = ''v1'', gv_resource = ''widgetbodies''\<rparr>,
     bs_kind = ''WidgetBody'', bs_gate = DefaultIdentityGate, bs_started = True, bs_budget = 2,
     bs_negTTL = 2 * ns_per_s\<rparr>"

definition new_node :: "'h \<Rightarrow> 'h node" where
  "new_node h = \<lparr>nd_host = h, nd_storeRV = [], nd_hubRV = [], nd_cnt = ct_Reset,
     nd_bc = \<lparr>bc_WatchOpened = 0, bc_WatchRejected = 0, bc_ListCalls = 0, bc_GetCalls = 0, bc_ActiveWatches = 0\<rparr>,
     nd_negEnabled = False, nd_neg = [], nd_subs = [], nd_nextSub = 0\<rparr>"

text \<open>
  A replica reads its own body writes: after a successful \<open>Put\<close> an authoritative read of the
  same object returns exactly the body written, whatever the negative cache held before.
\<close>

theorem body_read_your_write:
  assumes "host_api H ok objs ver" and "ok (nd_host n)" and "body_ok b"
  shows "fst (bs_Put H B ns name b n) = None \<and>
         fst (GetAuthoritative H B ns name (snd (bs_Put H B ns name b n))) = Some b \<and>
         fst (bs_GetDirect H B ns name (snd (bs_Put H B ns name b n))) = Some b"
proof -
  obtain u n1 where p: "bs_Put H B ns name b n = (None, n1)" "ok (nd_host n1)"
    "objs (nd_host n1) (gv_resource (bs_gvr B)) (BodyName ns name) = Some u" "bodyFromUnstructured u = b"
    "nd_negEnabled n1 = nd_negEnabled n" "nd_negEnabled n \<longrightarrow> map_of (nd_neg n1) (negKey ns name) = None"
    using host_api.Put_spec [OF assms, of B ns name] by (metis fun_upd_same)
  obtain n2 where "onHost (h_get H (bs_gvr B) (BodyName ns name)) n1 = (Inr u, n2)"
    using host_api.body_get [OF assms(1) p(2), of "bs_gvr B" "BodyName ns name"] p(3) by auto
  then have "fst (bs_GetDirect H B ns name n1) = Some b" using p(4) by (simp add: bs_GetDirect_def)
  then show ?thesis
    using p host_api.GetAuthoritative_spec [OF assms(1) p(2), of B ns name] by simp
qed

theorem body_read_your_write_witness:
  "fst (GetAuthoritative etcd_host test_bodies ''default'' ''a''
     (snd (bs_Put etcd_host test_bodies ''default'' ''a'' \<lparr>bd_owner = ''alice'', bd_fields = [(''color'', JStr ''red'')]\<rparr>
       ((new_node es_empty)\<lparr>nd_negEnabled := True, nd_neg := [(''default/a'', 999999999999)]\<rparr>)))) =
   Some \<lparr>bd_owner = ''alice'', bd_fields = [(''color'', JStr ''red'')]\<rparr>"
  by (rule body_read_your_write [OF etcd.host_api_axioms, THEN conjunct2, THEN conjunct1])
     (simp_all add: es_ok_empty new_node_def body_ok_def)

text \<open>
  The negative cache answers only while its entry is fresh: an authoritative read says absent
  from the cache exactly when an entry for the key has not expired at the clock's reading;
  otherwise it returns what the host holds at that moment.
\<close>

theorem negative_cache_spec:
  assumes "host_api H ok objs ver" and "ok (nd_host n)"
  shows "fst (GetAuthoritative H B ns name n) =
     (if nd_negEnabled n \<and> (case map_of (nd_neg n) (negKey ns name) of
          None \<Rightarrow> False | Some until \<Rightarrow> fst (h_now H (nd_host n)) < until)
      then None
      else map_option bodyFromUnstructured (objs (nd_host n) (gv_resource (bs_gvr B)) (BodyName ns name)))"
  using host_api.GetAuthoritative_spec [OF assms] by blast

theorem negative_cache_spec_witness:
  "fst (GetAuthoritative etcd_host test_bodies ''default'' ''a''
     ((new_node es_empty)\<lparr>nd_negEnabled := True, nd_neg := [(''default/a'', 1)]\<rparr>)) = None"
  using negative_cache_spec [OF etcd.host_api_axioms, of "(new_node es_empty)\<lparr>nd_negEnabled := True, nd_neg := [(''default/a'', 1)]\<rparr>"
      test_bodies "''default''" "''a''"]
  by (simp add: new_node_def es_ok_empty) (simp add: es_lookup_def es_empty_def)

text \<open>
  No read crosses the identity gate: every body \<open>ListFor\<close> and \<open>GetFor\<close> return to a caller is one
  the gate admits for that caller, and in the namespace asked for; and under the default gate
  the owner filter of the push subscriptions is the gate itself.
\<close>

theorem reads_respect_gate:
  "(\<forall>r \<in> set (fst (ListFor H B u ns n)). bs_gate B u (bd_owner (br_body r)) \<and> (ns \<noteq> [] \<longrightarrow> br_ns r = ns)) \<and>
   (\<forall>b. fst (GetFor H B u ns name n) = Some b \<longrightarrow> bs_gate B u (bd_owner b)) \<and>
   (bs_gate B = DefaultIdentityGate \<longrightarrow> u = Some us \<longrightarrow> u_name us \<noteq> allProbe \<longrightarrow>
      (mayReceive \<lparr>sb_user = fst (ownerOf B u), sb_all = snd (ownerOf B u), sb_cap = c, sb_ch = q\<rparr> ch \<longleftrightarrow>
       bs_gate B u (bd_owner (bch_body ch))))"
proof (intro conjI impI allI ballI)
  fix r assume r: "r \<in> set (fst (ListFor H B u ns n))"
  show "bs_gate B u (bd_owner (br_body r))" "ns \<noteq> [] \<Longrightarrow> br_ns r = ns" using ListFor_gated [OF r] by auto
next
  fix b assume "fst (GetFor H B u ns name n) = Some b"
  then show "bs_gate B u (bd_owner b)"
    by (auto simp: GetFor_def maySee_def Let_def split: option.splits if_splits)
next
  assume "bs_gate B = DefaultIdentityGate" "u = Some us" "u_name us \<noteq> allProbe"
  then show "mayReceive \<lparr>sb_user = fst (ownerOf B u), sb_all = snd (ownerOf B u), sb_cap = c, sb_ch = q\<rparr> ch \<longleftrightarrow>
      bs_gate B u (bd_owner (bch_body ch))"
    by (auto simp: mayReceive_def ownerOf_def DefaultIdentityGate_iff)
qed

theorem reads_respect_gate_witness:
  "let alice = \<lparr>u_name = ''alice'', u_groups = []\<rparr>;
       bobs = \<lparr>bch_type = BodyAdded, bch_ns = ''default'', bch_name = ''a'', bch_body = \<lparr>bd_owner = ''bob'', bd_fields = []\<rparr>\<rparr> in
   bs_gate test_bodies = DefaultIdentityGate \<and> u_name alice \<noteq> allProbe \<and>
   \<not> mayReceive \<lparr>sb_user = fst (ownerOf test_bodies (Some alice)), sb_all = snd (ownerOf test_bodies (Some alice)),
                  sb_cap = 1, sb_ch = []\<rparr> bobs"
proof -
  let ?u = "\<lparr>u_name = ''alice'', u_groups = []\<rparr>" and ?b = "\<lparr>bd_owner = ''bob'', bd_fields = []\<rparr> :: Body"
  let ?s = "\<lparr>sb_user = fst (ownerOf test_bodies (Some ?u)), sb_all = snd (ownerOf test_bodies (Some ?u)), sb_cap = 1, sb_ch = []\<rparr>"
  have g: "bs_gate test_bodies = DefaultIdentityGate" and p: "u_name ?u \<noteq> allProbe"
    by (simp_all add: test_bodies_def allProbe_def)
  have "mayReceive ?s ch \<longleftrightarrow> bs_gate test_bodies (Some ?u) (bd_owner (bch_body ch))" for ch
    by (rule reads_respect_gate [THEN conjunct2, THEN conjunct2, rule_format, OF g refl p])
  then show ?thesis
    using p by (simp only: Let_def g DefaultIdentityGate_iff) (simp add: system_user_def hasPrefix_def)
qed

text \<open>What happens to the subscriptions: opening, closing, events.\<close>

datatype sub_op = SubOpen "user option" int | SubClose nat | SubEvent BodyChange

fun sub_step :: "BodyStore \<Rightarrow> 'h node \<Rightarrow> sub_op \<Rightarrow> 'h node" where
  "sub_step B n (SubOpen u k) = snd (WatchFor B u k n)"
| "sub_step B n (SubClose i) = closeSub i n"
| "sub_step B n (SubEvent c) = deliver c n"

definition subs_inv :: "BodyStore \<Rightarrow> 'h node \<Rightarrow> bool" where
  "subs_inv B n \<longleftrightarrow> distinct (akeys (nd_subs n)) \<and> (\<forall>i\<in>set (akeys (nd_subs n)). i \<le> nd_nextSub n) \<and>
     bc_ActiveWatches (nd_bc n) = int (length (nd_subs n)) \<and>
     (0 < bs_budget B \<longrightarrow> int (length (nd_subs n)) \<le> bs_budget B) \<and>
     (\<forall>(i, sub)\<in>set (nd_subs n). length (sb_ch sub) \<le> sb_cap sub \<and> (\<forall>c\<in>set (sb_ch sub). mayReceive sub c))"

lemma length_aput_fresh: "k \<notin> set (akeys m) \<Longrightarrow> aput k v m = m @ [(k, v)]"
  by (induction m) auto

lemma length_adel: "distinct (akeys m) \<Longrightarrow> k \<in> set (akeys m) \<Longrightarrow> length m = Suc (length (adel k m))"
  by (induction m) (auto simp: adel_def delete_id image_iff)

lemma set_adel: "x \<in> set (adel k m) \<Longrightarrow> x \<in> set m"
  by (induction m) (auto split: if_splits)

lemma sub_step_inv:
  assumes "subs_inv B n"
  shows "subs_inv B (sub_step B n op)"
proof (cases op)
  case (SubOpen u k)
  let ?i = "nd_nextSub n + 1"
  have "?i \<notin> set (akeys (nd_subs n))" using assms unfolding subs_inv_def by (metis Suc_eq_plus1 not_less_eq_eq order_refl)
  then have new: "aput ?i sub (nd_subs n) = nd_subs n @ [(?i, sub)]" for sub by (rule length_aput_fresh)
  show ?thesis
  proof (cases "0 < bs_budget B \<and> bs_budget B \<le> int (length (nd_subs n))")
    case True
    then show ?thesis using assms SubOpen by (simp add: WatchFor_def subs_inv_def split_beta)
  next
    case False
    have le: "\<forall>i\<in>fst ` set (nd_subs n). i \<le> nd_nextSub n" using assms by (simp add: subs_inv_def)
    then have "Suc (nd_nextSub n) \<notin> fst ` set (nd_subs n)" "\<forall>i\<in>fst ` set (nd_subs n). i \<le> Suc (nd_nextSub n)"
      by (meson not_less_eq_eq order_refl, meson le_SucI)
    then show ?thesis
      using assms SubOpen new False by (simp add: WatchFor_def subs_inv_def split_beta Let_def) auto
  qed
next
  case (SubClose i)
  show ?thesis
  proof (cases "map_of (nd_subs n) i = None")
    case False
    then have i: "i \<in> set (akeys (nd_subs n))" by (simp add: map_of_eq_None_iff)
    have d: "distinct (akeys (nd_subs n))" using assms by (simp add: subs_inv_def)
    have k: "set (akeys (adel i (nd_subs n))) \<subseteq> set (akeys (nd_subs n))" using set_adel by force
    show ?thesis
      using assms SubClose False length_adel [OF d i] k
      by (auto simp: closeSub_def subs_inv_def dest!: set_adel)
  qed (use assms SubClose in \<open>simp add: closeSub_def\<close>)
next
  case (SubEvent c)
  let ?n = "deliver c n"
  have k: "akeys (nd_subs ?n) = akeys (nd_subs n)" "length (nd_subs ?n) = length (nd_subs n)"
    "nd_nextSub ?n = nd_nextSub n" "nd_bc ?n = nd_bc n"
    by (simp_all add: deliver_def split_beta comp_def)
  have "length (sb_ch sub) \<le> sb_cap sub \<and> (\<forall>c\<in>set (sb_ch sub). mayReceive sub c)"
    if new: "(i, sub) \<in> set (nd_subs ?n)" for i sub
  proof -
    obtain old where old: "(i, old) \<in> set (nd_subs n)"
      "sub = (if \<not> mayReceive old c then old
              else if length (sb_ch old) < sb_cap old then old\<lparr>sb_ch := sb_ch old @ [c]\<rparr> else old)"
      using new by (auto simp: deliver_def)
    have "length (sb_ch old) \<le> sb_cap old \<and> (\<forall>c\<in>set (sb_ch old). mayReceive old c)"
      using assms old(1) by (auto simp: subs_inv_def)
    then show ?thesis using old(2) by (auto simp: mayReceive_def)
  qed
  then have "\<forall>(i, sub)\<in>set (nd_subs ?n). length (sb_ch sub) \<le> sb_cap sub \<and> (\<forall>c\<in>set (sb_ch sub). mayReceive sub c)"
    by blast
  then show ?thesis
    using assms unfolding SubEvent sub_step.simps subs_inv_def k by blast
qed

text \<open>
  However watches are opened, closed and fed, a replica never holds more push subscriptions
  than its upstream budget, counts exactly the open ones, never overfills a buffer, and queues
  to a subscriber only bodies of its owner (or anything, for a subscriber admitted to all).
\<close>

theorem push_subscriptions_inv:
  "subs_inv B (foldl (sub_step B) (new_node h) ops)"
proof (induction ops rule: rev_induct)
  case Nil
  show ?case by (simp add: subs_inv_def new_node_def)
next
  case (snoc op ops)
  then show ?case by (simp add: sub_step_inv)
qed

end
