(* ===== verification/MhAdapter.thy ===== *)
theory MhAdapter
  imports BodyStore LibAdapter
begin

text \<open>
  \<open>runtime/library/multihost/adapter.go\<close> and \<open>options.go\<close>: the REST adapter of the multi-host
  runtime, over the metadata store, the body store and the locker.  All of them run on the state
  \<open>'h node\<close> of one replica; \<open>node_host H\<close> is the host as they reach it.  The order in which a Go
  \<open>range\<close> visits the map of records is the field \<open>mr_range\<close>.
\<close>

section \<open>Options and construction\<close>

record 'p Converter =
  cv_New :: "'p robj"
  cv_NewList :: "'p rlist"
  cv_BodyFromObject :: "'p robj \<Rightarrow> Body"
  cv_Stitch :: "ResourceRef \<Rightarrow> Body \<Rightarrow> Record option \<Rightarrow> 'p robj"
  cv_RecordFromObject :: "'p robj \<Rightarrow> ResourceRef \<Rightarrow> Record option"

datatype WatchMode = WatchPush | WatchPoll

record 'p MhOptions =
  mo_converter :: "'p Converter option"
  mo_gr :: group_resource
  mo_metaGVR :: gvr
  mo_metaKind :: string
  mo_bodyGVR :: gvr
  mo_bodyKind :: string
  mo_replicaID :: string
  mo_lock :: bool
  mo_lease :: int
  mo_lockRenew :: bool
  mo_disableLockRenew :: bool
  mo_txn :: bool
  mo_txnAttempts :: int
  mo_watch :: bool
  mo_watchMode :: WatchMode
  mo_sharedPoll :: bool
  mo_pollInterval :: int
  mo_buffer :: int
  mo_budget :: int
  mo_gate :: "IdentityGate option"
  mo_reconcile :: bool
  mo_adopt :: bool
  mo_gc :: bool
  mo_minAge :: int

definition defaultLeaseDuration :: int where
  "defaultLeaseDuration = 15 * ns_per_s"

definition defaultPollInterval :: int where
  "defaultPollInterval = 5 * ns_per_s"

definition defaultWatchBuffer :: int where
  "defaultWatchBuffer = 100"

definition defaultCollectMinAge :: int where
  "defaultCollectMinAge = 30 * ns_per_s"

definition NewMetaStore :: "json_checks \<Rightarrow> gvr \<Rightarrow> string \<Rightarrow> string \<Rightarrow> string \<Rightarrow> MetaStore" where
  "NewMetaStore J g kind grp resource =
     \<lparr>ms_gvr = g, ms_kind = kind, ms_group = grp, ms_resource = resource, ms_started = False, ms_checks = J\<rparr>"

definition NewBodyStore :: "gvr \<Rightarrow> string \<Rightarrow> IdentityGate option \<Rightarrow> int \<Rightarrow> int \<Rightarrow> BodyStore" where
  "NewBodyStore g kind gate budget negTTL =
     \<lparr>bs_gvr = g, bs_kind = kind,
      bs_gate = (case gate of None \<Rightarrow> DefaultIdentityGate | Some f \<Rightarrow> f), bs_started = False,
      bs_budget = budget, bs_negTTL = (if negTTL \<le> 0 then 2 * ns_per_s else negTTL)\<rparr>"

record HubConfig =
  hc_shared :: bool
  hc_interval :: int
  hc_buffer :: int

definition NewHub :: "bool \<Rightarrow> int \<Rightarrow> int \<Rightarrow> HubConfig" where
  "NewHub sharedPoll interval buffer =
     \<lparr>hc_shared = sharedPoll, hc_interval = (if interval \<le> 0 then defaultPollInterval else interval),
      hc_buffer = (if buffer \<le> 0 then defaultWatchBuffer else buffer)\<rparr>"

record 'p MhREST =
  mr_store :: MetaStore
  mr_bodies :: BodyStore
  mr_locker :: "Locker option"
  mr_hub :: HubConfig
  mr_conv :: "'p Converter"
  mr_gate :: IdentityGate
  mr_gr :: group_resource
  mr_replicaID :: string
  mr_mode :: WatchMode
  mr_reconcile :: bool
  mr_minAge :: int
  mr_adopt :: bool
  mr_gc :: bool
  mr_range :: "(string \<times> Record) list \<Rightarrow> (string \<times> Record) list"

text \<open>
  \<open>New\<close>: \<open>None\<close> is the panic on a missing converter.  The environment gives the pod name and the
  host name; the dynamic client is the host of the operations.
\<close>

definition mh_New ::
  "json_checks \<Rightarrow> ((string \<times> Record) list \<Rightarrow> (string \<times> Record) list) \<Rightarrow> string \<Rightarrow> string \<Rightarrow>
   'p MhOptions \<Rightarrow> 'p MhREST option" where
  "mh_New J visit podName hostname opts =
     (case mo_converter opts of
        None \<Rightarrow> None
      | Some conv \<Rightarrow>
          (let replicaID = (if mo_replicaID opts \<noteq> [] then mo_replicaID opts
                            else if podName \<noteq> [] then podName else hostname);
               gate = (case mo_gate opts of None \<Rightarrow> DefaultIdentityGate | Some g \<Rightarrow> g);
               metaKind = (if mo_metaKind opts = [] then ''ResourceMetadata'' else mo_metaKind opts);
               minAge = (if mo_minAge opts \<le> 0 then defaultCollectMinAge else mo_minAge opts);
               store = NewMetaStore J (mo_metaGVR opts) metaKind (gr_group (mo_gr opts)) (gr_resource (mo_gr opts));
               bodies = NewBodyStore (mo_bodyGVR opts) (mo_bodyKind opts) (Some gate) (mo_budget opts) 0;
               renew = (if mo_disableLockRenew opts then False
                        else if \<not> mo_lockRenew opts then True else mo_lockRenew opts);
               locker = (if mo_lock opts
                         then Some (NewLocker store (mo_gr opts) replicaID (mo_lease opts) renew
                                      (mo_txn opts) (mo_txnAttempts opts))
                         else None)
           in Some \<lparr>mr_store = store, mr_bodies = bodies, mr_locker = locker,
                    mr_hub = NewHub (mo_sharedPoll opts) (mo_pollInterval opts) (mo_buffer opts),
                    mr_conv = conv, mr_gate = gate, mr_gr = mo_gr opts, mr_replicaID = replicaID,
                    mr_mode = mo_watchMode opts, mr_reconcile = mo_reconcile opts, mr_minAge = minAge,
                    mr_adopt = mo_adopt opts, mr_gc = mo_gc opts, mr_range = visit\<rparr>))"

text \<open>
  \<open>Start\<close>: each store sets its lister, then waits for its cache, whose outcome is given; the
  locker works on the same store.
\<close>

definition mh_Start :: "bool \<Rightarrow> bool \<Rightarrow> 'p MhREST \<Rightarrow> api_err option \<times> 'p MhREST" where
  "mh_Start bodiesSynced storeSynced r =
     (let r1 = r\<lparr>mr_bodies := (mr_bodies r)\<lparr>bs_started := True\<rparr>\<rparr> in
      if \<not> bodiesSynced then (Some (Plain ''bodystore: informer cache sync failed''), r1)
      else (let s = (mr_store r1)\<lparr>ms_started := True\<rparr>;
                r2 = r1\<lparr>mr_store := s, mr_locker := map_option (\<lambda>l. l\<lparr>lo_store := s\<rparr>) (mr_locker r1)\<rparr>
            in if \<not> storeSynced then (Some (Plain ''metastore: informer cache sync failed''), r2)
               else (None, r2)))"

section \<open>Helpers\<close>

definition refFor :: "'p MhREST \<Rightarrow> string \<Rightarrow> string \<Rightarrow> ResourceRef" where
  "refFor r ns name = \<lparr>rf_group = gr_group (mr_gr r), rf_resource = gr_resource (mr_gr r),
     rf_namespace = ns, rf_name = name\<rparr>"

definition selectorFrom :: "list_options option \<Rightarrow> lsel" where
  "selectorFrom opts =
     (case opts of
        None \<Rightarrow> everything
      | Some o' \<Rightarrow> (case lo_label o' of None \<Rightarrow> everything | Some s \<Rightarrow> s))"

definition matchesSel :: "'p robj \<Rightarrow> lsel \<Rightarrow> bool" where
  "matchesSel obj sel =
     (if ls_empty sel then True
      else (case accessor obj of None \<Rightarrow> True | Some m \<Rightarrow> ls_matches sel (om_labels m)))"

definition mh_CurrentResourceVersion :: "'h host \<Rightarrow> 'p MhREST \<Rightarrow> 'h node \<Rightarrow> string" where
  "mh_CurrentResourceVersion H r n =
     (let rv = nd_hubRV n; hw = HighWaterRV H (mr_store r) (nd_storeRV n) (nd_host n)
      in if mh_rvLess rv hw then hw else rv)"

definition recOf :: "Record option res \<Rightarrow> Record option" where
  "recOf x = (case x of Inl e \<Rightarrow> None | Inr rec \<Rightarrow> rec)"

text \<open>The record as the reads look it up: the cache, then the host itself; errors are ignored.\<close>

definition lookupRecord :: "'h host \<Rightarrow> 'p MhREST \<Rightarrow> ResourceRef \<Rightarrow> 'h node \<Rightarrow> Record option \<times> 'h node" where
  "lookupRecord H r ref n =
     (case recOf (GetFromCache (node_host H) (mr_store r) ref n) of
        Some rec \<Rightarrow> (Some rec, n)
      | None \<Rightarrow> (let (x, n1) = GetDirect (node_host H) (mr_store r) ref n in (recOf x, n1)))"

section \<open>Stitching\<close>

text \<open>The metadata of a served object whose record is known.\<close>

definition overlay :: "json_checks \<Rightarrow> Record \<Rightarrow> ometa \<Rightarrow> ometa" where
  "overlay J rec m =
     m\<lparr>om_uid := rc_uid rec, om_rv := rc_recordRV rec,
       om_created := (if rc_created rec = 0 then om_created m else rc_created rec),
       om_deleted := rc_deleted rec, om_labels := rc_labels rec, om_anns := rc_anns rec,
       om_fins := rc_fins rec,
       om_managed := (if rc_managed rec \<noteq> [] \<and> jc_managed J (rc_managed rec) then rc_managed rec else om_managed m),
       om_owners := (if rc_owners rec \<noteq> [] \<and> jc_owners J (rc_owners rec) then rc_owners rec else om_owners m)\<rparr>"

text \<open>The metadata of one whose record is missing: a fresh UID, the high-water mark, the time.\<close>

definition synthesize :: "'h host \<Rightarrow> 'p MhREST \<Rightarrow> ometa \<Rightarrow> 'h node \<Rightarrow> ometa \<times> 'h node" where
  "synthesize H r m n =
     (let (m1, n1) = (if om_uid m = []
                      then (let (u, n') = onHost (h_uuid H) n in (m\<lparr>om_uid := ''synthetic-'' @ u\<rparr>, n'))
                      else (m, n));
          m2 = (if om_rv m1 = [] then m1\<lparr>om_rv := mh_CurrentResourceVersion H r n1\<rparr> else m1)
      in if om_created m2 = 0
         then (let (now, n2) = onHost (h_now H) n1 in (m2\<lparr>om_created := now\<rparr>, n2))
         else (m2, n1))"

definition stitch :: "'h host \<Rightarrow> 'p MhREST \<Rightarrow> ResourceRef \<Rightarrow> Body \<Rightarrow> Record option \<Rightarrow> 'h node \<Rightarrow> 'p robj \<times> 'h node" where
  "stitch H r ref body rec n =
     (case cv_Stitch (mr_conv r) ref body rec of
        Bare p \<Rightarrow> (Bare p, n)
      | Obj m0 p \<Rightarrow>
          (let m = m0\<lparr>om_name := (if om_name m0 = [] then rf_name ref else om_name m0),
                      om_ns := (if om_ns m0 = [] then rf_namespace ref else om_ns m0)\<rparr>
           in case rec of
                None \<Rightarrow> (let (m1, n1) = synthesize H r m n in (Obj m1 p, n1))
              | Some rc \<Rightarrow> (Obj (overlay (ms_checks (mr_store r)) rc m) p, n)))"

definition StitchFor :: "'h host \<Rightarrow> 'p MhREST \<Rightarrow> user option \<Rightarrow> string \<Rightarrow> string \<Rightarrow> 'h node \<Rightarrow> 'p robj option \<times> 'h node" where
  "StitchFor H r u ns name n =
     (case GetFor H (mr_bodies r) u ns name n of
        (None, n1) \<Rightarrow> (None, n1)
      | (Some body, n1) \<Rightarrow>
          (let ref = refFor r ns name; (rec, n2) = lookupRecord H r ref n1;
               (obj, n3) = stitch H r ref body rec n2
           in (Some obj, n3)))"

section \<open>Adopting and collecting\<close>

definition adoptedBy :: "bool \<Rightarrow> string" where
  "adoptedBy fromSweep = (if fromSweep then ''sweep'' else ''read'')"

definition adoptRecord :: "'h host \<Rightarrow> 'p MhREST \<Rightarrow> ResourceRef \<Rightarrow> bool \<Rightarrow> 'h node \<Rightarrow> Record option \<times> 'h node" where
  "adoptRecord H r ref fromSweep n =
     (if \<not> mr_adopt r then (None, n)
      else (let ref' = (if rf_namespace ref = [] then ref\<lparr>rf_namespace := ''default''\<rparr> else ref);
                (uid, n1) = onHost (h_uuid H) n; (now, n2) = onHost (h_now H) n1;
                rec = (empty_record ref')\<lparr>rc_uid := uid, rc_created := now,
                        rc_anns := [(''aggexp.io/adopted'', ''true''), (''aggexp.io/adopted-by'', adoptedBy fromSweep)]\<rparr>
            in case ms_Put (node_host H) (mr_store r) rec n2 of
                 (Inl e, n3) \<Rightarrow> (None, n3)
               | (Inr stored, n3) \<Rightarrow>
                   (Some stored,
                    bump (if fromSweep then (\<lambda>c. c\<lparr>ct_AdoptSweep := ct_AdoptSweep c + 1\<rparr>)
                          else (\<lambda>c. c\<lparr>ct_AdoptInline := ct_AdoptInline c + 1\<rparr>)) n3)))"

text \<open>Whether the record is still inside the grace window.\<close>

definition tooYoung :: "'h host \<Rightarrow> 'p MhREST \<Rightarrow> Record option \<Rightarrow> 'h node \<Rightarrow> bool \<times> 'h node" where
  "tooYoung H r rec n =
     (case rec of
        None \<Rightarrow> (False, n)
      | Some rc \<Rightarrow>
          (if rc_created rc = 0 then (False, n)
           else (let (now, n1) = onHost (h_now H) n in (now - rc_created rc < mr_minAge r, n1))))"

definition collect :: "'h host \<Rightarrow> 'p MhREST \<Rightarrow> ResourceRef \<Rightarrow> Record option \<Rightarrow> bool \<Rightarrow> 'h node \<Rightarrow> bool \<times> 'h node" where
  "collect H r ref rec fromSweep n =
     (if \<not> mr_gc r then (False, n)
      else (let (young, n1) = tooYoung H r rec n in
        if young then (False, bump (\<lambda>c. c\<lparr>ct_CollectSkippedAge := ct_CollectSkippedAge c + 1\<rparr>) n1)
        else (case ms_Delete (node_host H) (mr_store r) ref n1 of
                (Some e, n2) \<Rightarrow> (False, n2)
              | (None, n2) \<Rightarrow>
                  (True, bump (if fromSweep then (\<lambda>c. c\<lparr>ct_CollectSweep := ct_CollectSweep c + 1\<rparr>)
                               else (\<lambda>c. c\<lparr>ct_CollectInline := ct_CollectInline c + 1\<rparr>)) n2))))"

definition refKey :: "string \<Rightarrow> string \<Rightarrow> string" where
  "refKey ns name = ns @ ''/'' @ name"

definition brKey :: "BodyRef \<Rightarrow> string" where
  "brKey br = refKey (br_ns br) (br_name br)"

definition recKey :: "Record \<Rightarrow> string" where
  "recKey rec = refKey (rf_namespace (rc_ref rec)) (rf_name (rc_ref rec))"

text \<open>The records by key; a later record of the same key replaces an earlier one.\<close>

definition recsByKey :: "string \<Rightarrow> Record list \<Rightarrow> (string \<times> Record) list" where
  "recsByKey ns recs =
     foldl (\<lambda>m rec. if ns \<noteq> [] \<and> rf_namespace (rc_ref rec) \<noteq> ns then m else aput (recKey rec) rec m) [] recs"

definition cachedRecords :: "'h host \<Rightarrow> 'p MhREST \<Rightarrow> 'h node \<Rightarrow> Record list" where
  "cachedRecords H r n = (case ListFromCache (node_host H) (mr_store r) n of Inl e \<Rightarrow> [] | Inr (recs, rv) \<Rightarrow> recs)"

fun adoptLoop :: "'h host \<Rightarrow> 'p MhREST \<Rightarrow> bool \<Rightarrow> BodyRef list \<Rightarrow> (string \<times> Record) list \<Rightarrow> 'h node \<Rightarrow>
    (string \<times> Record) list \<times> 'h node" where
  "adoptLoop H r fromSweep [] recs n = (recs, n)"
| "adoptLoop H r fromSweep (br # brs) recs n =
     (if map_of recs (brKey br) \<noteq> None then adoptLoop H r fromSweep brs recs n
      else (case adoptRecord H r (refFor r (br_ns br) (br_name br)) fromSweep n of
              (None, n1) \<Rightarrow> adoptLoop H r fromSweep brs recs n1
            | (Some rec, n1) \<Rightarrow> adoptLoop H r fromSweep brs (aput (brKey br) rec recs) n1))"

fun gcLoop :: "'h host \<Rightarrow> 'p MhREST \<Rightarrow> bool \<Rightarrow> string list \<Rightarrow> (string \<times> Record) list \<Rightarrow>
    (string \<times> Record) list \<Rightarrow> 'h node \<Rightarrow> (string \<times> Record) list \<times> 'h node" where
  "gcLoop H r fromSweep present [] recs n = (recs, n)"
| "gcLoop H r fromSweep present ((key, rec) # todo) recs n =
     (if key \<in> set present then gcLoop H r fromSweep present todo recs n
      else (case collect H r (rc_ref rec) (Some rec) fromSweep n of
              (gone, n1) \<Rightarrow> gcLoop H r fromSweep present todo (if gone then adel key recs else recs) n1))"

definition ReconcileList :: "'h host \<Rightarrow> 'p MhREST \<Rightarrow> string \<Rightarrow> bool \<Rightarrow> 'h node \<Rightarrow>
    (BodyRef list \<times> (string \<times> Record) list) \<times> 'h node" where
  "ReconcileList H r ns fromSweep n =
     (let (x, n1) = ListAuthoritative H (mr_bodies r) ns n;
          backendRefs = (case x of Inl e \<Rightarrow> bs_List H (mr_bodies r) ns n1 | Inr brs \<Rightarrow> brs);
          recs0 = recsByKey ns (cachedRecords H r n1);
          (recs1, n2) = (if mr_adopt r then adoptLoop H r fromSweep backendRefs recs0 n1 else (recs0, n1));
          (recs2, n3) = (if mr_gc r then gcLoop H r fromSweep (map brKey backendRefs) (mr_range r recs1) recs1 n2
                         else (recs1, n2))
      in ((backendRefs, recs2), n3))"


section \<open>Getting and listing\<close>

definition serveBody :: "'h host \<Rightarrow> 'p MhREST \<Rightarrow> user option \<Rightarrow> ResourceRef \<Rightarrow> string \<Rightarrow> Body \<Rightarrow> 'h node \<Rightarrow> 'p robj res \<times> 'h node" where
  "serveBody H r u ref name body n =
     (if \<not> mr_gate r u (bd_owner body) then (Inl (NotFound name), n)
      else (let (rec, n1) = lookupRecord H r ref n in
        if rec = None \<and> mr_reconcile r \<and> \<not> mr_adopt r then (Inl (NotFound name), n1)
        else (let (rec', n2) = (if rec = None \<and> mr_reconcile r then adoptRecord H r ref False n1 else (rec, n1));
                  (obj, n3) = stitch H r ref body rec' n2
              in (Inr obj, n3))))"

definition mh_Get :: "'h host \<Rightarrow> 'p MhREST \<Rightarrow> ctx \<Rightarrow> string \<Rightarrow> 'h node \<Rightarrow> 'p robj res \<times> 'h node" where
  "mh_Get H r c name n =
     (let n0 = bump (\<lambda>k. k\<lparr>ct_ServedGet := ct_ServedGet k + 1\<rparr>) n; ns = c_ns c; ref = refFor r ns name in
      if mr_reconcile r
      then (case GetAuthoritative H (mr_bodies r) ns name n0 of
              (None, n1) \<Rightarrow>
                (let (rec, n2) = lookupRecord H r ref n1;
                     n3 = (case rec of None \<Rightarrow> n2 | Some rc \<Rightarrow> snd (collect H r ref (Some rc) False n2))
                 in (Inl (NotFound name), n3))
            | (Some body, n1) \<Rightarrow> serveBody H r (c_user c) ref name body n1)
      else (case bs_Get H (mr_bodies r) ns name n0 of
              None \<Rightarrow> (Inl (NotFound name), n0)
            | Some body \<Rightarrow> serveBody H r (c_user c) ref name body n0))"

text \<open>Stitch the bodies of a list in order, keeping the objects the selector admits.\<close>

fun stitchAll :: "'h host \<Rightarrow> 'p MhREST \<Rightarrow> lsel \<Rightarrow> (BodyRef \<times> Record option) list \<Rightarrow> 'h node \<Rightarrow> 'p robj list \<times> 'h node" where
  "stitchAll H r sel [] n = ([], n)"
| "stitchAll H r sel ((br, rec) # todo) n =
     (let (obj, n1) = stitch H r (refFor r (br_ns br) (br_name br)) (br_body br) rec n;
          (objs, n2) = stitchAll H r sel todo n1
      in (if matchesSel obj sel then obj # objs else objs, n2))"

text \<open>The bodies \<open>List\<close> serves, with their records.\<close>

definition listItemsOf :: "'h host \<Rightarrow> 'p MhREST \<Rightarrow> user option \<Rightarrow> string \<Rightarrow> 'h node \<Rightarrow> (BodyRef \<times> Record option) list \<times> 'h node" where
  "listItemsOf H r u ns n =
     (if mr_reconcile r
      then (let ((refs, recs), n1) = ReconcileList H r ns False n
            in (map (\<lambda>br. (br, map_of recs (brKey br)))
                  (filter (\<lambda>br. (map_of recs (brKey br) \<noteq> None \<or> mr_adopt r) \<and> mr_gate r u (bd_owner (br_body br))) refs), n1))
      else (let recs = recsByKey ns (cachedRecords H r n); (refs, n1) = ListFor H (mr_bodies r) u ns n
            in (map (\<lambda>br. (br, map_of recs (brKey br))) refs, n1)))"

definition mh_List :: "'h host \<Rightarrow> 'p MhREST \<Rightarrow> ctx \<Rightarrow> list_options option \<Rightarrow> 'h node \<Rightarrow> 'p rlist res \<times> 'h node" where
  "mh_List H r c opts n =
     (let n0 = bump (\<lambda>k. k\<lparr>ct_ServedList := ct_ServedList k + 1\<rparr>) n;
          (todo, n1) = listItemsOf H r (c_user c) (c_ns c) n0;
          (items, n2) = stitchAll H r (selectorFrom opts) todo n1;
          l = cv_NewList (mr_conv r)
      in if \<not> l_setlist l then (Inl (Internal (Plain ''set list items'')), n2)
         else (let l1 = l\<lparr>l_items := items\<rparr>
               in (Inr (if l_iface l1 then l1\<lparr>l_rv := mh_CurrentResourceVersion H r n2\<rparr> else l1), n2)))"

text \<open>The ADDED events a watch starts with.\<close>

definition initialReplay :: "'h host \<Rightarrow> 'p MhREST \<Rightarrow> user option \<Rightarrow> string \<Rightarrow> lsel \<Rightarrow> 'h node \<Rightarrow> 'p robj list \<times> 'h node" where
  "initialReplay H r u ns sel n =
     (let recs = recsByKey [] (cachedRecords H r n);
          (refs, n1) = (if hc_shared (mr_hub r) then (bs_List H (mr_bodies r) ns n, n)
                        else ListFor H (mr_bodies r) u ns n)
      in stitchAll H r sel (map (\<lambda>br. (br, map_of recs (brKey br))) refs) n1)"

section \<open>Tables\<close>

text \<open>\<open>time.Since\<close> saturates to 64 bits; \<open>Round\<close> to a second rounds half away from zero.\<close>

definition sat64 :: "int \<Rightarrow> int" where
  "sat64 d = max (- (2 ^ 63)) (min (2 ^ 63 - 1) d)"

definition roundSecond :: "int \<Rightarrow> int" where
  "roundSecond d = sat64 (sgn d * ((\<bar>d\<bar> + ns_per_s div 2) div ns_per_s * ns_per_s))"

text \<open>\<open>Duration.String\<close> of a whole number of seconds.\<close>

definition durString :: "int \<Rightarrow> string" where
  "durString d =
     (let s = nat (\<bar>d\<bar> div ns_per_s) in
      (if d < 0 then ''-'' else []) @
      (if 3600 \<le> s then dec_nat (s div 3600) @ ''h'' else []) @
      (if 60 \<le> s then dec_nat (s div 60 mod 60) @ ''m'' else []) @
      dec_nat (s mod 60) @ ''s'')"

definition mh_row :: "'h host \<Rightarrow> 'p robj \<Rightarrow> 'h node \<Rightarrow> 'p table_row res \<times> 'h node" where
  "mh_row H obj n =
     (case accessor obj of
        None \<Rightarrow> (Inl (Plain ''object does not implement the Object interfaces''), n)
      | Some m \<Rightarrow>
          (if om_created m = 0 then (Inr \<lparr>tr_cells = [om_name m, []], tr_object = Some obj\<rparr>, n)
           else (let (now, n1) = onHost (h_now H) n
                 in (Inr \<lparr>tr_cells = [om_name m, durString (roundSecond (sat64 (now - om_created m)))],
                          tr_object = Some obj\<rparr>, n1))))"

fun mh_rows :: "'h host \<Rightarrow> 'p robj list \<Rightarrow> 'h node \<Rightarrow> 'p table_row list res \<times> 'h node" where
  "mh_rows H [] n = (Inr [], n)"
| "mh_rows H (obj # objs) n =
     (case mh_row H obj n of
        (Inl e, n1) \<Rightarrow> (Inl e, n1)
      | (Inr row, n1) \<Rightarrow>
          (case mh_rows H objs n1 of (Inl e, n2) \<Rightarrow> (Inl e, n2) | (Inr rows, n2) \<Rightarrow> (Inr (row # rows), n2)))"

definition mh_ConvertToTable :: "'h host \<Rightarrow> 'p anyobj \<Rightarrow> 'h node \<Rightarrow> 'p table res \<times> 'h node" where
  "mh_ConvertToTable H object n =
     (let t = \<lparr>t_columns = [''Name'', ''Age''], t_rows = [], t_rv = [], t_continue = [], t_remaining = None\<rparr> in
      case object of
        AList l \<Rightarrow>
          (if \<not> l_extract l then (Inl (Plain ''extract list''), n)
           else (case mh_rows H (l_items l) n of
                   (Inl e, n1) \<Rightarrow> (Inl e, n1)
                 | (Inr rows, n1) \<Rightarrow>
                     (let t1 = t\<lparr>t_rows := rows\<rparr> in (Inr (if l_iface l then t1\<lparr>t_rv := l_rv l\<rparr> else t1), n1))))
      | AnObj obj \<Rightarrow>
          (case mh_row H obj n of (Inl e, n1) \<Rightarrow> (Inl e, n1) | (Inr row, n1) \<Rightarrow> (Inr (t\<lparr>t_rows := [row]\<rparr>), n1)))"

section \<open>Writing\<close>

text \<open>The record of a write: the converter's, completed from the cached one, a UID and a time minted if missing.\<close>

definition mergePrior :: "Record option \<Rightarrow> Record \<Rightarrow> Record" where
  "mergePrior prior rec =
     (case prior of
        None \<Rightarrow> rec
      | Some p \<Rightarrow> rec\<lparr>rc_uid := (if rc_uid rec = [] then rc_uid p else rc_uid rec),
                      rc_created := (if rc_created rec = 0 then rc_created p else rc_created rec),
                      rc_deleted := (if rc_deleted rec = None then rc_deleted p else rc_deleted rec)\<rparr>)"

definition mintUID :: "'h host \<Rightarrow> Record \<Rightarrow> 'h node \<Rightarrow> Record \<times> 'h node" where
  "mintUID H rec n =
     (if rc_uid rec = [] then (let (u, n1) = onHost (h_uuid H) n in (rec\<lparr>rc_uid := u\<rparr>, n1)) else (rec, n))"

definition mintTime :: "'h host \<Rightarrow> Record \<Rightarrow> 'h node \<Rightarrow> Record \<times> 'h node" where
  "mintTime H rec n =
     (if rc_created rec = 0 then (let (t, n1) = onHost (h_now H) n in (rec\<lparr>rc_created := t\<rparr>, n1)) else (rec, n))"

definition buildRecord :: "'h host \<Rightarrow> 'p MhREST \<Rightarrow> ResourceRef \<Rightarrow> 'p robj \<Rightarrow> Body \<Rightarrow> nat \<Rightarrow> 'h node \<Rightarrow> Record res \<times> 'h node" where
  "buildRecord H r ref obj body attempt n =
     (let rec0 = (case cv_RecordFromObject (mr_conv r) obj ref of None \<Rightarrow> empty_record ref | Some rec \<Rightarrow> rec);
          rec1 = mergePrior (recOf (GetFromCache (node_host H) (mr_store r) ref n)) rec0;
          (rec2, n1) = mintUID H rec1 n;
          (rec3, n2) = mintTime H rec2 n1
      in (Inr (rec3\<lparr>rc_hash := HashBody body\<rparr>), n2))"

definition occCond :: "string \<Rightarrow> string \<Rightarrow> string \<Rightarrow> api_err option" where
  "occCond name clientRV curRV =
     (if clientRV \<noteq> [] \<and> curRV \<noteq> [] \<and> clientRV \<noteq> curRV
      then Some (Conflict name ''the object has been modified'') else None)"

definition mhWriteOp :: "'h host \<Rightarrow> 'p MhREST \<Rightarrow> ResourceRef \<Rightarrow> string \<Rightarrow> string \<Rightarrow> 'p robj \<Rightarrow> Body \<Rightarrow> 'h node WriteOp" where
  "mhWriteOp H r ref ns name obj body =
     \<lparr>op_WriteBody = bs_Put H (mr_bodies r) ns name body, op_BuildRecord = buildRecord H r ref obj body,
      op_OnConflictRetry = (\<lambda>attempt. bump (\<lambda>c. c\<lparr>ct_WriteRetry := ct_WriteRetry c + 1\<rparr>))\<rparr>"

definition currentRVOf :: "'h host \<Rightarrow> 'p MhREST \<Rightarrow> ResourceRef \<Rightarrow> 'h node \<Rightarrow> string \<times> 'h node" where
  "currentRVOf H r ref n =
     (case GetDirect (node_host H) (mr_store r) ref n of
        (Inr (Some rec), n1) \<Rightarrow> (rc_recordRV rec, n1)
      | (_, n1) \<Rightarrow> ([], n1))"

definition mh_write :: "'h host \<Rightarrow> 'p MhREST \<Rightarrow> beats \<Rightarrow> ResourceRef \<Rightarrow> string \<Rightarrow> string \<Rightarrow> 'p robj \<Rightarrow> Body \<Rightarrow> string \<Rightarrow>
    'h node \<Rightarrow> TxnResult res \<times> 'h node" where
  "mh_write H r bt ref ns name obj body clientRV n =
     (case mr_locker r of
        Some L \<Rightarrow> WriteTxn (node_host H) L ref (mhWriteOp H r ref ns name obj body) (Some (occCond name clientRV)) bt n
      | None \<Rightarrow>
          (let (cur, n1) = currentRVOf H r ref n in
           case occCond name clientRV cur of
             Some e \<Rightarrow> (Inl e, n1)
           | None \<Rightarrow>
               (case bs_Put H (mr_bodies r) ns name body n1 of
                  (Some berr, n2) \<Rightarrow> (Inl (Internal (Wrapped ''backend.Put'' berr)), n2)
                | (None, n2) \<Rightarrow>
                    (case buildRecord H r ref obj body 0 n2 of
                       (Inl e, n3) \<Rightarrow> (Inl e, n3)
                     | (Inr rec, n3) \<Rightarrow>
                         (case ms_Put (node_host H) (mr_store r) rec n3 of
                            (Inl perr, n4) \<Rightarrow> (Inl (Internal (Wrapped ''metastore.Put'' perr)), n4)
                          | (Inr stored, n4) \<Rightarrow> (Inr \<lparr>tx_record = stored, tx_depth = 0\<rparr>, n4))))))"

definition countConflict :: "api_err \<Rightarrow> 'h node \<Rightarrow> 'h node" where
  "countConflict e n = (if is_conflict e then bump (\<lambda>c. c\<lparr>ct_WriteConflict := ct_WriteConflict c + 1\<rparr>) n else n)"

definition recordWriteOutcome :: "nat \<Rightarrow> 'h node \<Rightarrow> 'h node" where
  "recordWriteOutcome depth =
     bump (\<lambda>c. c\<lparr>ct_WriteOK := ct_WriteOK c + 1, ct_MaxWriteDepth := max depth (ct_MaxWriteDepth c)\<rparr>)"

definition callerName :: "user option \<Rightarrow> string" where
  "callerName u = (case u of None \<Rightarrow> [] | Some us \<Rightarrow> u_name us)"

text \<open>The write of a create, the object being valid and named.\<close>

definition createObject :: "'h host \<Rightarrow> 'p MhREST \<Rightarrow> beats \<Rightarrow> user option \<Rightarrow> ometa \<Rightarrow> 'p robj \<Rightarrow> 'h node \<Rightarrow> 'p robj res \<times> 'h node" where
  "createObject H r bt u m obj n =
     (let ns = om_ns m; name = om_name m; ref = refFor r ns name;
          body = (cv_BodyFromObject (mr_conv r) obj)\<lparr>bd_owner := callerName u\<rparr>
      in case mh_write H r bt ref ns name obj body [] n of
           (Inl terr, n1) \<Rightarrow>
             (Inl terr, countConflict terr (snd (bs_Delete H (mr_bodies r) ns name n1)))
         | (Inr tx, n1) \<Rightarrow>
             (let (out, n2) = stitch H r ref body (Some (tx_record tx)) (recordWriteOutcome (tx_depth tx) n1)
              in (Inr out, n2)))"

definition mh_Create :: "'h host \<Rightarrow> 'p MhREST \<Rightarrow> beats \<Rightarrow> ctx \<Rightarrow> 'p robj \<Rightarrow> 'p validate \<Rightarrow> 'h node \<Rightarrow> 'p robj res \<times> 'h node" where
  "mh_Create H r bt c obj createValidation n =
     (case run_validate createValidation obj of
        Some e \<Rightarrow> (Inl e, n)
      | None \<Rightarrow>
          (case obj of
             Bare p \<Rightarrow> (Inl (BadRequest ''cannot access object metadata''), n)
           | Obj m0 p \<Rightarrow>
               (let m = m0\<lparr>om_ns := (if om_ns m0 = [] then c_ns c else om_ns m0)\<rparr> in
                if om_name m = [] then (Inl (BadRequest ''metadata.name is required''), n)
                else (case bs_GetDirect H (mr_bodies r) (om_ns m) (om_name m) n of
                        (Some b, n1) \<Rightarrow> (Inl (AlreadyExists (om_name m)), n1)
                      | (None, n1) \<Rightarrow> createObject H r bt (c_user c) m (Obj m p) n1))))"

definition updateObject :: "'h host \<Rightarrow> 'p MhREST \<Rightarrow> beats \<Rightarrow> string \<Rightarrow> ometa \<Rightarrow> 'p robj \<Rightarrow> 'h node \<Rightarrow> ('p robj \<times> bool) res \<times> 'h node" where
  "updateObject H r bt name m obj n =
     (let ns = om_ns m; ref = refFor r ns name;
          (prior, n1) = bs_GetDirect H (mr_bodies r) ns name n;
          owner = (case prior of None \<Rightarrow> [] | Some b \<Rightarrow> bd_owner b);
          body = (cv_BodyFromObject (mr_conv r) obj)\<lparr>bd_owner := owner\<rparr>
      in case mh_write H r bt ref ns name obj body (om_rv m) n1 of
           (Inl terr, n2) \<Rightarrow> (Inl terr, countConflict terr n2)
         | (Inr tx, n2) \<Rightarrow>
             (let (out, n3) = stitch H r ref body (Some (tx_record tx)) (recordWriteOutcome (tx_depth tx) n2)
              in (Inr (out, False), n3)))"

definition mh_Update :: "'h host \<Rightarrow> 'p MhREST \<Rightarrow> beats \<Rightarrow> ctx \<Rightarrow> string \<Rightarrow> 'p updated_info \<Rightarrow> 'p validate \<Rightarrow> 'p validate_update \<Rightarrow>
    bool \<Rightarrow> 'h node \<Rightarrow> ('p robj \<times> bool) res \<times> 'h node" where
  "mh_Update H r bt c name objInfo createValidation updateValidation forceAllowCreate n =
     (let (got, n1) = mh_Get H r c name n in
      case (case got of Inl e \<Rightarrow> (if is_not_found e then Inr None else Inl e) | Inr obj \<Rightarrow> Inr (Some obj)) of
        Inl e \<Rightarrow> (Inl e, n1)
      | Inr current \<Rightarrow>
          (case objInfo current of
             Inl e \<Rightarrow> (Inl e, n1)
           | Inr (Bare p) \<Rightarrow> (Inl (BadRequest ''cannot access updated object metadata''), n1)
           | Inr (Obj m0 p) \<Rightarrow>
               (let m = m0\<lparr>om_ns := (if om_ns m0 = [] then c_ns c else om_ns m0),
                           om_name := (if om_name m0 = [] then name else om_name m0)\<rparr>
                in case current of
                     None \<Rightarrow>
                       (if \<not> forceAllowCreate then (Inl (NotFound name), n1)
                        else (case run_validate createValidation (Obj m p) of
                                Some e \<Rightarrow> (Inl e, n1)
                              | None \<Rightarrow>
                                  (case mh_Create H r bt c (Obj m p) None n1 of
                                     (Inl e, n2) \<Rightarrow> (Inl e, n2)
                                   | (Inr created, n2) \<Rightarrow> (Inr (created, True), n2))))
                   | Some cur \<Rightarrow>
                       (case run_validate_update updateValidation (Obj m p) cur of
                          Some e \<Rightarrow> (Inl e, n1)
                        | None \<Rightarrow> updateObject H r bt name m (Obj m p) n1))))"

definition mh_Delete :: "'h host \<Rightarrow> 'p MhREST \<Rightarrow> ctx \<Rightarrow> string \<Rightarrow> 'p validate \<Rightarrow> 'h node \<Rightarrow> ('p robj \<times> bool) res \<times> 'h node" where
  "mh_Delete H r c name deleteValidation n =
     (case mh_Get H r c name n of
        (Inl e, n1) \<Rightarrow> (Inl e, n1)
      | (Inr prior, n1) \<Rightarrow>
          (case run_validate deleteValidation prior of
             Some e \<Rightarrow> (Inl e, n1)
           | None \<Rightarrow>
               (case ms_Delete (node_host H) (mr_store r) (refFor r (c_ns c) name) n1 of
                  (Some derr, n2) \<Rightarrow> (Inl (Internal derr), n2)
                | (None, n2) \<Rightarrow> (Inr (prior, True), snd (bs_Delete H (mr_bodies r) (c_ns c) name n2)))))"

end
