(* ===== verification/MhWatch.thy ===== *)
theory MhWatch
  imports MhAdapter
begin

text \<open>
  Watching in the multihost package (\<open>watch.go\<close>): the hub with its registry of watchers, the
  emission filter, the per-event cache of stitched objects, and the pipeline of one watcher: replay,
  bookmark, then a push subscription or a poll loop.  The goroutine of a watcher is a stage of its
  record; \<open>pipelineStep\<close> runs it to its next blocking point.  A result channel is the list of
  the events it ever accepted with the number already read; \<open>pw_drops\<close> counts the log lines of
  dropped events.  Each operation is atomic, and \<open>Stop\<close> with respect to all of them.
\<close>

section \<open>State\<close>

record ('h, 'p) WatchStitcher =
  ws_StitchFor :: "user option \<Rightarrow> string \<Rightarrow> string \<Rightarrow> 'h node \<Rightarrow> 'p robj option \<times> 'h node"
  ws_NewBookmark :: "'p robj"

record HubCounters =
  hk_hit :: int
  hk_miss :: int
  hk_watchers :: int
  hk_fanout :: int

text \<open>Where the goroutine of a watcher is.\<close>

datatype 'p stage = Replaying "'p robj list" | Opening | Pushing nat | Polling "(string \<times> string) list" | Finished

record 'p PerWatcher =
  pw_identity :: "user option"
  pw_ns :: string
  pw_sel :: "lsel option"
  pw_cap :: nat
  pw_sent :: "'p event list"
  pw_taken :: nat
  pw_drops :: nat
  pw_closed :: bool
  pw_emitted :: "(string \<times> string) list"
  pw_sub :: "nat option"
  pw_mode :: WatchMode
  pw_bookmarkRV :: string
  pw_stage :: "'p stage"

text \<open>What a hub is made of, and what changes; \<open>hu_visit\<close> and \<open>hu_keys\<close> are the iteration orders of its maps.\<close>

record ('h, 'p) Hub =
  hu_host :: "'h host"
  hu_backend :: BodyStore
  hu_stitcher :: "('h, 'p) WatchStitcher"
  hu_cfg :: HubConfig
  hu_visit :: "nat list \<Rightarrow> nat list"
  hu_keys :: "string list \<Rightarrow> string list"

record ('h, 'p) hub =
  hb_node :: "'h node"
  hb_made :: "(nat \<times> 'p PerWatcher) list"
  hb_registry :: "nat list"
  hb_nextID :: nat
  hb_lastSig :: "(string \<times> string) list"
  hb_sharedSeen :: "(string \<times> string) list"
  hb_cnt :: HubCounters

definition newHubState :: "'h node \<Rightarrow> ('h, 'p) hub" where
  "newHubState n = \<lparr>hb_node = n, hb_made = [], hb_registry = [], hb_nextID = 0, hb_lastSig = [],
     hb_sharedSeen = [], hb_cnt = \<lparr>hk_hit = 0, hk_miss = 0, hk_watchers = 0, hk_fanout = 0\<rparr>\<rparr>"

text \<open>\<open>HubCounters.Snapshot\<close>.\<close>

definition hk_Snapshot :: "HubCounters \<Rightarrow> (string \<times> int) list" where
  "hk_Snapshot c = [(''getCacheHit'', hk_hit c), (''getCacheMiss'', hk_miss c), (''watchers'', hk_watchers c), (''fanoutEvents'', hk_fanout c)]"

definition onWatcher :: "nat \<Rightarrow> ('p PerWatcher \<Rightarrow> 'p PerWatcher) \<Rightarrow> ('h, 'p) hub \<Rightarrow> ('h, 'p) hub" where
  "onWatcher i f s = (case map_of (hb_made s) i of None \<Rightarrow> s | Some w \<Rightarrow> s\<lparr>hb_made := aput i (f w) (hb_made s)\<rparr>)"

definition SetCurrentResourceVersion :: "string \<Rightarrow> 'h node \<Rightarrow> 'h node" where
  "SetCurrentResourceVersion rv n = (if mh_rvLess (nd_hubRV n) rv then n\<lparr>nd_hubRV := rv\<rparr> else n)"

definition identityKey :: "user option \<Rightarrow> string" where
  "identityKey u = (case u of None \<Rightarrow> ''<nil>'' | Some us \<Rightarrow> u_name us)"

section \<open>Emitting to one watcher\<close>

definition emit :: "'p event \<Rightarrow> 'p PerWatcher \<Rightarrow> 'p PerWatcher" where
  "emit ev w =
     (if pw_closed w then w
      else if length (pw_sent w) - pw_taken w < pw_cap w then w\<lparr>pw_sent := pw_sent w @ [ev]\<rparr>
      else w\<lparr>pw_drops := pw_drops w + 1\<rparr>)"

definition dedupEmit :: "event_type \<Rightarrow> 'p robj \<Rightarrow> 'p PerWatcher \<Rightarrow> 'p PerWatcher" where
  "dedupEmit et obj w =
     (let ev = \<lparr>ev_type = et, ev_obj = obj\<rparr> in
      case accessor obj of
        None \<Rightarrow> emit ev w
      | Some m \<Rightarrow>
          (let key = refKey (om_ns m) (om_name m); rv = om_rv m in
           if et = Deleted then emit ev (w\<lparr>pw_emitted := adel key (pw_emitted w)\<rparr>)
           else (case map_of (pw_emitted w) key of
                   Some prev \<Rightarrow> (if \<not> mh_rvLess prev rv then w
                                else emit ev (w\<lparr>pw_emitted := aput key rv (pw_emitted w)\<rparr>))
                 | None \<Rightarrow> emit ev (w\<lparr>pw_emitted := aput key rv (pw_emitted w)\<rparr>))))"

definition pw_matches :: "'p PerWatcher \<Rightarrow> 'p robj \<Rightarrow> bool" where
  "pw_matches w obj =
     (let trivial = (case pw_sel w of None \<Rightarrow> True | Some sel \<Rightarrow> ls_empty sel) in
      if trivial \<and> pw_ns w = [] then True
      else (case accessor obj of
              None \<Rightarrow> True
            | Some m \<Rightarrow>
                (if pw_ns w \<noteq> [] \<and> om_ns m \<noteq> pw_ns w then False
                 else (case pw_sel w of
                         None \<Rightarrow> True
                       | Some sel \<Rightarrow> ls_empty sel \<or> ls_matches sel (om_labels m)))))"

definition bookmarkEvent :: "'p robj \<Rightarrow> string \<Rightarrow> 'p event" where
  "bookmarkEvent obj rv =
     \<lparr>ev_type = Bookmark, ev_obj = with_meta (\<lambda>m. m\<lparr>om_rv := rv, om_anns := [(''k8s.io/initial-events-end'', ''true'')]\<rparr>) obj\<rparr>"

section \<open>Metadata events\<close>

text \<open>The emission filter: \<open>None\<close> when the event is suppressed, else the new signatures.\<close>

definition emissionFilter :: "event_type \<Rightarrow> ResourceRef \<Rightarrow> Record \<Rightarrow> (string \<times> string) list \<Rightarrow> (string \<times> string) list option" where
  "emissionFilter et ref rec sigs =
     (let name = RecordName ref in
      case et of
        Modified \<Rightarrow> (let sig = VisibleSignature rec in
                     if map_of sigs name = Some sig then None else Some (aput name sig sigs))
      | Added \<Rightarrow> Some (aput name (VisibleSignature rec) sigs)
      | Deleted \<Rightarrow> Some (adel name sigs)
      | Bookmark \<Rightarrow> Some sigs)"

type_synonym 'p getCache = "(string \<times> 'p robj option) list"

definition cacheKey :: "user option \<Rightarrow> string \<Rightarrow> string \<Rightarrow> string" where
  "cacheKey u ns name = identityKey u @ [CHR 0x00] @ ns @ [CHR 0x00] @ name"

definition getCache_get :: "('h, 'p) Hub \<Rightarrow> user option \<Rightarrow> string \<Rightarrow> string \<Rightarrow> 'p getCache \<Rightarrow> ('h, 'p) hub \<Rightarrow>
    'p robj option \<times> 'p getCache \<times> ('h, 'p) hub" where
  "getCache_get U u ns name c s =
     (case map_of c (cacheKey u ns name) of
        Some v \<Rightarrow> (v, c, s\<lparr>hb_cnt := (hb_cnt s)\<lparr>hk_hit := hk_hit (hb_cnt s) + 1\<rparr>\<rparr>)
      | None \<Rightarrow>
          (let (obj, n1) = ws_StitchFor (hu_stitcher U) u ns name (hb_node s)
           in (obj, aput (cacheKey u ns name) obj c,
               s\<lparr>hb_node := n1, hb_cnt := (hb_cnt s)\<lparr>hk_miss := hk_miss (hb_cnt s) + 1\<rparr>\<rparr>)))"

text \<open>One watcher's share of an event.\<close>

definition fanoutTo :: "event_type \<Rightarrow> 'p robj option \<Rightarrow> 'p PerWatcher \<Rightarrow> 'p PerWatcher" where
  "fanoutTo et obj w =
     (case obj of
        None \<Rightarrow> w
      | Some x \<Rightarrow> if et = Deleted then dedupEmit Deleted x w
                 else if \<not> pw_matches w x then w else dedupEmit et x w)"

fun metaFanout :: "('h, 'p) Hub \<Rightarrow> event_type \<Rightarrow> ResourceRef \<Rightarrow> nat list \<Rightarrow> 'p getCache \<Rightarrow> ('h, 'p) hub \<Rightarrow> ('h, 'p) hub" where
  "metaFanout U et ref [] c s = s"
| "metaFanout U et ref (i # is) c s =
     (case map_of (hb_made s) i of
        None \<Rightarrow> metaFanout U et ref is c s
      | Some w \<Rightarrow>
          (if pw_ns w \<noteq> [] \<and> pw_ns w \<noteq> rf_namespace ref then metaFanout U et ref is c s
           else (case getCache_get U (pw_identity w) (rf_namespace ref) (rf_name ref) c s of
                   (obj, c1, s1) \<Rightarrow> metaFanout U et ref is c1 (onWatcher i (fanoutTo et obj) s1))))"

definition OnMetadataEvent :: "('h, 'p) Hub \<Rightarrow> event_type \<Rightarrow> ResourceRef \<Rightarrow> Record \<Rightarrow> string \<Rightarrow> ('h, 'p) hub \<Rightarrow> ('h, 'p) hub" where
  "OnMetadataEvent U et ref rec rv s =
     (let s0 = s\<lparr>hb_node := SetCurrentResourceVersion rv (hb_node s)\<rparr> in
      case emissionFilter et ref rec (hb_lastSig s0) of
        None \<Rightarrow> s0
      | Some sigs \<Rightarrow>
          (let s1 = s0\<lparr>hb_lastSig := sigs, hb_cnt := (hb_cnt s0)\<lparr>hk_fanout := hk_fanout (hb_cnt s0) + 1\<rparr>\<rparr>
           in metaFanout U et ref (hu_visit U (hb_registry s1)) [] s1))"

section \<open>The pipeline of a watcher\<close>

definition newWatcher :: "('h, 'p) Hub \<Rightarrow> user option \<Rightarrow> string \<Rightarrow> lsel option \<Rightarrow> WatchMode \<Rightarrow> 'p robj list \<Rightarrow> string \<Rightarrow> 'p PerWatcher" where
  "newWatcher U u ns sel mode initial rv =
     \<lparr>pw_identity = u, pw_ns = ns, pw_sel = sel, pw_cap = nat (hc_buffer (hu_cfg U)), pw_sent = [], pw_taken = 0,
      pw_drops = 0, pw_closed = False, pw_emitted = [], pw_sub = None, pw_mode = mode, pw_bookmarkRV = rv,
      pw_stage = Replaying initial\<rparr>"

definition NewWatch :: "('h, 'p) Hub \<Rightarrow> user option \<Rightarrow> string \<Rightarrow> lsel option \<Rightarrow> WatchMode \<Rightarrow> 'p robj list \<Rightarrow> ('h, 'p) hub \<Rightarrow>
    nat \<times> ('h, 'p) hub" where
  "NewWatch U u ns sel mode initial s =
     (let i = hb_nextID s + 1; w = newWatcher U u ns sel mode initial (nd_hubRV (hb_node s))
      in (i, s\<lparr>hb_nextID := i, hb_made := aput i w (hb_made s), hb_registry := hb_registry s @ [i],
               hb_cnt := (hb_cnt s)\<lparr>hk_watchers := hk_watchers (hb_cnt s) + 1\<rparr>\<rparr>))"

text \<open>\<open>Stop\<close>, once per watcher.\<close>

definition Stop :: "nat \<Rightarrow> ('h, 'p) hub \<Rightarrow> ('h, 'p) hub" where
  "Stop i s =
     (case map_of (hb_made s) i of
        None \<Rightarrow> s
      | Some w \<Rightarrow>
          (if pw_closed w then s
           else s\<lparr>hb_node := (case pw_sub w of None \<Rightarrow> hb_node s | Some j \<Rightarrow> closeSub j (hb_node s)),
                  hb_registry := removeAll i (hb_registry s),
                  hb_cnt := (hb_cnt s)\<lparr>hk_watchers := hk_watchers (hb_cnt s) - 1\<rparr>,
                  hb_made := aput i (w\<lparr>pw_closed := True\<rparr>) (hb_made s)\<rparr>))"

definition changeEvent :: "BodyChangeType \<Rightarrow> event_type" where
  "changeEvent ct = (case ct of BodyAdded \<Rightarrow> Added | BodyModified \<Rightarrow> Modified | BodyDeleted \<Rightarrow> Deleted)"

definition emitBackendChange :: "('h, 'p) Hub \<Rightarrow> nat \<Rightarrow> BodyChange \<Rightarrow> ('h, 'p) hub \<Rightarrow> ('h, 'p) hub" where
  "emitBackendChange U i c s =
     (case map_of (hb_made s) i of
        None \<Rightarrow> s
      | Some w \<Rightarrow>
          (if pw_ns w \<noteq> [] \<and> pw_ns w \<noteq> bch_ns c then s
           else (case ws_StitchFor (hu_stitcher U) (pw_identity w) (bch_ns c) (bch_name c) (hb_node s) of
                   (None, n1) \<Rightarrow> s\<lparr>hb_node := n1\<rparr>
                 | (Some obj, n1) \<Rightarrow>
                     (let s1 = s\<lparr>hb_node := n1\<rparr> in
                      if \<not> pw_matches w obj then s1
                      else onWatcher i (dedupEmit (changeEvent (bch_type c)) obj) s1))))"

text \<open>\<open>splitKey\<close>: at the first slash.\<close>

definition splitKey :: "string \<Rightarrow> string \<times> string" where
  "splitKey key =
     (let ns = takeWhile (\<lambda>c. c \<noteq> CHR ''/'') key in
      if length ns < length key then (ns, drop (length ns + 1) key) else ([], key))"

text \<open>
  One round of a poll loop over a listing: the changes against the snapshot, first those of the
  listed bodies, then the deletions in the iteration order of the map, and the new snapshot.
\<close>

fun listedChanges :: "BodyRef list \<Rightarrow> (string \<times> string) list \<Rightarrow> BodyChange list \<times> (string \<times> string) list" where
  "listedChanges [] snap = ([], snap)"
| "listedChanges (r # refs) snap =
     (let key = brKey r; hsh = HashBody (br_body r);
          change = (\<lambda>ct. \<lparr>bch_type = ct, bch_ns = br_ns r, bch_name = br_name r, bch_body = br_body r\<rparr>)
      in case map_of snap key of
           None \<Rightarrow> (let (cs, snap') = listedChanges refs (aput key hsh snap) in (change BodyAdded # cs, snap'))
         | Some prev \<Rightarrow>
             (if prev \<noteq> hsh
              then (let (cs, snap') = listedChanges refs (aput key hsh snap) in (change BodyModified # cs, snap'))
              else listedChanges refs snap))"

definition zeroBody :: Body where
  "zeroBody = \<lparr>bd_owner = [], bd_fields = []\<rparr>"

definition goneChange :: "string \<Rightarrow> BodyChange" where
  "goneChange key = \<lparr>bch_type = BodyDeleted, bch_ns = fst (splitKey key), bch_name = snd (splitKey key), bch_body = zeroBody\<rparr>"

definition roundChanges :: "(string list \<Rightarrow> string list) \<Rightarrow> BodyRef list \<Rightarrow> (string \<times> string) list \<Rightarrow>
    BodyChange list \<times> (string \<times> string) list" where
  "roundChanges visit refs snap =
     (let (cs, snap1) = listedChanges refs snap; seen = set (map brKey refs);
          gone = filter (\<lambda>k. k \<notin> seen) (visit (akeys snap1))
      in (cs @ map goneChange gone, foldl (\<lambda>m k. adel k m) snap1 gone))"

definition pollRound :: "('h, 'p) Hub \<Rightarrow> nat \<Rightarrow> 'p PerWatcher \<Rightarrow> (string \<times> string) list \<Rightarrow> ('h, 'p) hub \<Rightarrow> ('h, 'p) hub" where
  "pollRound U i w snap s =
     (let (refs, n1) = ListFor (hu_host U) (hu_backend U) (pw_identity w) (pw_ns w) (hb_node s);
          (cs, snap') = roundChanges (hu_keys U) refs snap
      in onWatcher i (\<lambda>w'. w'\<lparr>pw_stage := (if pw_closed w' then Finished else Polling snap')\<rparr>)
           (foldl (\<lambda>s c. emitBackendChange U i c s) (s\<lparr>hb_node := n1\<rparr>) cs))"

text \<open>One object of the replay: recorded without a comparison, then sent.\<close>

definition replayOne :: "'p robj \<Rightarrow> 'p PerWatcher \<Rightarrow> 'p PerWatcher" where
  "replayOne obj w =
     (if \<not> pw_matches w obj then w
      else emit \<lparr>ev_type = Added, ev_obj = obj\<rparr>
             (case accessor obj of
                None \<Rightarrow> w
              | Some m \<Rightarrow> w\<lparr>pw_emitted := aput (refKey (om_ns m) (om_name m)) (om_rv m) (pw_emitted w)\<rparr>))"

text \<open>The next element of the push subscription, if it is still open.\<close>

definition takeChange :: "nat \<Rightarrow> 'h node \<Rightarrow> (BodyChange \<times> 'h node) option" where
  "takeChange j n =
     (case map_of (nd_subs n) j of
        None \<Rightarrow> None
      | Some sub \<Rightarrow>
          (case sb_ch sub of
             [] \<Rightarrow> None
           | c # cs \<Rightarrow> Some (c, n\<lparr>nd_subs := aput j (sub\<lparr>sb_ch := cs\<rparr>) (nd_subs n)\<rparr>)))"

definition setStage :: "'p stage \<Rightarrow> 'p PerWatcher \<Rightarrow> 'p PerWatcher" where
  "setStage st w = w\<lparr>pw_stage := st\<rparr>"

definition runPush :: "('h, 'p) Hub \<Rightarrow> nat \<Rightarrow> 'p PerWatcher \<Rightarrow> ('h, 'p) hub \<Rightarrow> ('h, 'p) hub" where
  "runPush U i w s =
     (case WatchFor (hu_backend U) (pw_identity w) (hc_buffer (hu_cfg U)) (hb_node s) of
        (None, n1) \<Rightarrow> onWatcher i (setStage (Polling [])) (s\<lparr>hb_node := n1\<rparr>)
      | (Some j, n1) \<Rightarrow> onWatcher i (\<lambda>w. w\<lparr>pw_sub := Some j, pw_stage := Pushing j\<rparr>) (s\<lparr>hb_node := n1\<rparr>))"

definition pushOne :: "('h, 'p) Hub \<Rightarrow> nat \<Rightarrow> 'p PerWatcher \<Rightarrow> nat \<Rightarrow> ('h, 'p) hub \<Rightarrow> ('h, 'p) hub" where
  "pushOne U i w j s =
     (if pw_closed w then onWatcher i (setStage Finished) s
      else (case takeChange j (hb_node s) of
              None \<Rightarrow> s
            | Some (c, n1) \<Rightarrow> emitBackendChange U i c (s\<lparr>hb_node := n1\<rparr>)))"

text \<open>The stage after the bookmark.\<close>

definition liveStage :: "('h, 'p) Hub \<Rightarrow> WatchMode \<Rightarrow> 'p stage" where
  "liveStage U mode =
     (if hc_shared (hu_cfg U) then Finished
      else (case mode of WatchPush \<Rightarrow> Opening | WatchPoll \<Rightarrow> Polling []))"

definition pipelineStep :: "('h, 'p) Hub \<Rightarrow> nat \<Rightarrow> ('h, 'p) hub \<Rightarrow> ('h, 'p) hub" where
  "pipelineStep U i s =
     (case map_of (hb_made s) i of
        None \<Rightarrow> s
      | Some w \<Rightarrow>
          (case pw_stage w of
             Replaying (x # xs) \<Rightarrow> onWatcher i (setStage (Replaying xs) \<circ> replayOne x) s
           | Replaying [] \<Rightarrow>
               onWatcher i (setStage (liveStage U (pw_mode w)) \<circ>
                 emit (bookmarkEvent (ws_NewBookmark (hu_stitcher U)) (pw_bookmarkRV w))) s
           | Opening \<Rightarrow> runPush U i w s
           | Pushing j \<Rightarrow> pushOne U i w j s
           | Polling snap \<Rightarrow> pollRound U i w snap s
           | Finished \<Rightarrow> s))"

text \<open>The context of the request ends: the live loops return.\<close>

definition cancelWatch :: "nat \<Rightarrow> ('h, 'p) hub \<Rightarrow> ('h, 'p) hub" where
  "cancelWatch i s =
     onWatcher i (\<lambda>w. case pw_stage w of Pushing j \<Rightarrow> w\<lparr>pw_stage := Finished\<rparr> | Polling m \<Rightarrow> w\<lparr>pw_stage := Finished\<rparr> | _ \<Rightarrow> w) s"

text \<open>The client reads an event.\<close>

definition recv :: "nat \<Rightarrow> ('h, 'p) hub \<Rightarrow> ('h, 'p) hub" where
  "recv i s = onWatcher i (\<lambda>w. if pw_taken w < length (pw_sent w) then w\<lparr>pw_taken := pw_taken w + 1\<rparr> else w) s"

section \<open>The shared poll loop\<close>

definition systemUser :: "user option" where
  "systemUser = Some \<lparr>u_name = ''system:masters'', u_groups = [''system:masters'']\<rparr>"

definition sharedFanout :: "('h, 'p) Hub \<Rightarrow> BodyChangeType \<Rightarrow> string \<Rightarrow> string \<Rightarrow> ('h, 'p) hub \<Rightarrow> ('h, 'p) hub" where
  "sharedFanout U ct ns name s =
     (case ws_StitchFor (hu_stitcher U) systemUser ns name (hb_node s) of
        (None, n1) \<Rightarrow> s\<lparr>hb_node := n1\<rparr>
      | (Some obj, n1) \<Rightarrow>
          foldl (\<lambda>s i. onWatcher i (\<lambda>w. if pw_matches w obj then emit \<lparr>ev_type = changeEvent ct, ev_obj = obj\<rparr> w else w) s)
            (s\<lparr>hb_node := n1\<rparr>) (hu_visit U (hb_registry s)))"

text \<open>One round of \<open>RunSharedPoll\<close>.\<close>

definition sharedRound :: "('h, 'p) Hub \<Rightarrow> ('h, 'p) hub \<Rightarrow> ('h, 'p) hub" where
  "sharedRound U s =
     (if \<not> hc_shared (hu_cfg U) then s
      else (let (refs, n1) = ListFor (hu_host U) (hu_backend U) systemUser [] (hb_node s);
                (cs, seen') = roundChanges (hu_keys U) refs (hb_sharedSeen s)
            in foldl (\<lambda>s c. sharedFanout U (bch_type c) (bch_ns c) (bch_name c) s)
                 (s\<lparr>hb_node := n1, hb_sharedSeen := seen'\<rparr>) cs))"

section \<open>The watch of the adapter\<close>

definition restHub :: "'h host \<Rightarrow> 'p MhREST \<Rightarrow> (nat list \<Rightarrow> nat list) \<Rightarrow> (string list \<Rightarrow> string list) \<Rightarrow> ('h, 'p) Hub" where
  "restHub H r visit keys =
     \<lparr>hu_host = H, hu_backend = mr_bodies r,
      hu_stitcher = \<lparr>ws_StitchFor = StitchFor H r, ws_NewBookmark = cv_New (mr_conv r)\<rparr>,
      hu_cfg = mr_hub r, hu_visit = visit, hu_keys = keys\<rparr>"

definition mh_Watch :: "'h host \<Rightarrow> 'p MhREST \<Rightarrow> (nat list \<Rightarrow> nat list) \<Rightarrow> (string list \<Rightarrow> string list) \<Rightarrow> ctx \<Rightarrow>
    list_options option \<Rightarrow> ('h, 'p) hub \<Rightarrow> nat \<times> ('h, 'p) hub" where
  "mh_Watch H r visit keys c opts s =
     (let sel = selectorFrom opts; (initial, n1) = initialReplay H r (c_user c) (c_ns c) sel (hb_node s)
      in NewWatch (restHub H r visit keys) (c_user c) (c_ns c) (Some sel) (mr_mode r) initial (s\<lparr>hb_node := n1\<rparr>))"

text \<open>What the informer of the metadata store hands to the hub.\<close>

definition sinkEvent :: "'h host \<Rightarrow> 'p MhREST \<Rightarrow> (nat list \<Rightarrow> nat list) \<Rightarrow> (string list \<Rightarrow> string list) \<Rightarrow> raw_event \<Rightarrow>
    ('h, 'p) hub \<Rightarrow> ('h, 'p) hub" where
  "sinkEvent H r visit keys ev s =
     OnMetadataEvent (restHub H r visit keys) (re_type ev) (re_ref ev)
       (case re_rec ev of None \<Rightarrow> empty_record (re_ref ev) | Some rec \<Rightarrow> rec) (re_rv ev) s"

section \<open>Runs\<close>

text \<open>One step of a hub and its surroundings: \<open>outside\<close> is anything else that happens to the replica.\<close>

inductive hub_step :: "('h, 'p) Hub \<Rightarrow> ('h, 'p) hub \<Rightarrow> ('h, 'p) hub \<Rightarrow> bool" for U where
  watch: "hub_step U s (snd (NewWatch U u ns sel mode initial s))"
| pipeline: "hub_step U s (pipelineStep U i s)"
| metadata: "hub_step U s (OnMetadataEvent U et ref rec rv s)"
| shared: "hub_step U s (sharedRound U s)"
| stop: "hub_step U s (Stop i s)"
| cancel: "hub_step U s (cancelWatch i s)"
| receive: "hub_step U s (recv i s)"
| outside: "hub_step U s (s\<lparr>hb_node := n\<rparr>)"

inductive_cases hub_stepE: "hub_step U s s'"

definition reachable :: "('h, 'p) Hub \<Rightarrow> ('h, 'p) hub \<Rightarrow> bool" where
  "reachable U s \<longleftrightarrow> (\<exists>n. (hub_step U)\<^sup>*\<^sup>* (newHubState n) s)"

end
