(* ===== verification/MhAdapterSpec.thy ===== *)
theory MhAdapterSpec
  imports MhAdapter
begin

text \<open>
  What the REST adapter of the multi-host runtime guarantees: gated reads, the whole path of a
  create, refused stale updates, preserved ownership, deletes, and the bounds of read-path
  reconciliation.  The locale lemmas compose the contracts of the stores and of the locked-write
  transaction; the properties state their results over the adapter's operations.
\<close>

section \<open>Construction\<close>

lemma mh_New_sel:
  assumes "mh_New J visit pod hostname opts = Some r"
  shows "bs_gate (mr_bodies r) = mr_gate r" and "mr_locker r = Some L \<Longrightarrow> lo_store L = mr_store r"
    and "mr_range r = visit" and "0 < mr_minAge r"
proof -
  obtain conv where "mo_converter opts = Some conv" using assms by (cases "mo_converter opts") (simp_all add: mh_New_def)
  note r = assms [unfolded mh_New_def this option.case Let_def option.inject, symmetric]
  show "bs_gate (mr_bodies r) = mr_gate r" "mr_range r = visit"
    by (simp_all add: r NewBodyStore_def)
  show "0 < mr_minAge r" by (simp add: r defaultCollectMinAge_def ns_per_s_def)
  show "mr_locker r = Some L \<Longrightarrow> lo_store L = mr_store r"
    by (cases "mo_lock opts") (auto simp: r NewLocker_def)
qed

lemma mh_Start_sel:
  "bs_gate (mr_bodies (snd (mh_Start a b r))) = bs_gate (mr_bodies r)" "mr_gate (snd (mh_Start a b r)) = mr_gate r"
  by (simp_all add: mh_Start_def Let_def)

section \<open>Vocabulary\<close>

text \<open>A body is stored: it is what the host holds under its name.\<close>

definition holds_body :: "BodyStore \<Rightarrow> string \<Rightarrow> string \<Rightarrow> Body \<Rightarrow> (string \<Rightarrow> string \<Rightarrow> unstr option) \<Rightarrow> bool" where
  "holds_body B ns name b os \<longleftrightarrow>
     (\<exists>u. os (gv_resource (bs_gvr B)) (BodyName ns name) = Some u \<and> bodyFromUnstructured u = b \<and> bodyRefOf u = (ns, name))"

lemma holds_besides:
  "r \<noteq> gv_resource (bs_gvr B) \<Longrightarrow> holds_body B ns name b (besides r nm os) \<longleftrightarrow> holds_body B ns name b os"
  by (simp add: holds_body_def besides_def)

text \<open>The reference under which a body without a record is adopted.\<close>

definition adoptionRef :: "ResourceRef \<Rightarrow> ResourceRef" where
  "adoptionRef ref = (if rf_namespace ref = [] then ref\<lparr>rf_namespace := ''default''\<rparr> else ref)"

text \<open>A record the grace window does not protect, by some reading of the clock.\<close>

definition out_of_grace :: "'h host \<Rightarrow> ('h \<Rightarrow> bool) \<Rightarrow> 'p MhREST \<Rightarrow> Record \<Rightarrow> bool" where
  "out_of_grace H ok r rec \<longleftrightarrow> rc_created rec = 0 \<or> (\<exists>h. ok h \<and> mr_minAge r \<le> fst (h_now H h) - rc_created rec)"

text \<open>
  What reconciliation may do to the host, for a set of backend keys and references and a list
  of records: nothing outside the records; a record appears for a backend body without one, or
  goes because it is orphaned and out of its grace window.
\<close>

definition reconciled :: "'h host \<Rightarrow> ('h \<Rightarrow> bool) \<Rightarrow> 'p MhREST \<Rightarrow> BodyRef list \<Rightarrow> Record set \<Rightarrow> (string \<Rightarrow> string \<Rightarrow> unstr option) \<Rightarrow>
    (string \<Rightarrow> string \<Rightarrow> unstr option) \<Rightarrow> bool" where
  "reconciled H ok r refs recs os os' \<longleftrightarrow>
     (\<forall>res nm. os' res nm \<noteq> os res nm \<longrightarrow> res = gv_resource (ms_gvr (mr_store r)) \<and>
        (mr_adopt r \<and> (\<exists>br\<in>set refs. nm = RecordName (adoptionRef (refFor r (br_ns br) (br_name br)))) \<or>
         mr_gc r \<and> (\<exists>rec\<in>recs. nm = RecordName (rc_ref rec) \<and> out_of_grace H ok r rec)))"

lemma reconciled_refl: "reconciled H ok r refs recs os os"
  by (simp add: reconciled_def)

lemma reconciled_trans: "reconciled H ok r refs recs a b \<Longrightarrow> reconciled H ok r refs recs b c \<Longrightarrow> reconciled H ok r refs recs a c"
  unfolding reconciled_def by metis

lemma reconciled_mono: "reconciled H ok r refs recs a b \<Longrightarrow> set refs \<subseteq> set refs' \<Longrightarrow> recs \<subseteq> recs' \<Longrightarrow> reconciled H ok r refs' recs' a b"
  unfolding reconciled_def by blast

lemma reconciled_remove: "mr_gc r \<Longrightarrow> out_of_grace H ok r rec \<Longrightarrow> rec \<in> recs \<Longrightarrow>
    reconciled H ok r refs recs os (os(gv_resource (ms_gvr (mr_store r)) :=
      (os (gv_resource (ms_gvr (mr_store r))))(RecordName (rc_ref rec) := None)))"
  unfolding reconciled_def by (metis fun_upd_apply)

lemma recsByKey_distinct: "distinct (akeys (recsByKey ns recs))"
proof -
  have "distinct (akeys m) \<Longrightarrow> distinct (akeys (foldl (\<lambda>m rec. if ns \<noteq> [] \<and> rf_namespace (rc_ref rec) \<noteq> ns then m else aput (recKey rec) rec m) m recs))" for m
    by (induction recs arbitrary: m) auto
  then show ?thesis by (simp add: recsByKey_def)
qed

lemma recsByKey_in: "map_of (recsByKey ns recs) k = Some rec \<Longrightarrow> rec \<in> set recs \<and> k = recKey rec \<and> (ns \<noteq> [] \<longrightarrow> rf_namespace (rc_ref rec) = ns)"
proof -
  have "map_of (foldl (\<lambda>m rec. if ns \<noteq> [] \<and> rf_namespace (rc_ref rec) \<noteq> ns then m else aput (recKey rec) rec m) m recs) k = Some rec \<Longrightarrow>
      map_of m k = Some rec \<or> rec \<in> set recs \<and> k = recKey rec \<and> (ns \<noteq> [] \<longrightarrow> rf_namespace (rc_ref rec) = ns)" for m
  proof (induction recs arbitrary: m)
    case (Cons a recs)
    then show ?case by (fastforce split: if_splits)
  qed simp
  then show "map_of (recsByKey ns recs) k = Some rec \<Longrightarrow> rec \<in> set recs \<and> k = recKey rec \<and> (ns \<noteq> [] \<longrightarrow> rf_namespace (rc_ref rec) = ns)"
    by (fastforce simp: recsByKey_def)
qed

lemma adoptLoop_distinct: "distinct (akeys recs) \<Longrightarrow> distinct (akeys (fst (adoptLoop H r s todo recs n)))"
proof (induction todo arbitrary: recs n)
  case (Cons br todo)
  then show ?case
    by (cases "adoptRecord H r (refFor r (br_ns br) (br_name br)) s n") (auto split: option.split)
qed simp

lemma serveBody_gated: "fst (serveBody H r u ref name body n) = Inr obj \<Longrightarrow>
    mr_gate r u (bd_owner body) \<and> (\<exists>rec n'. obj = fst (stitch H r ref body rec n'))"
  by (auto simp: serveBody_def Let_def split_beta split: if_splits)

text \<open>The body a \<open>Get\<close> finds, authoritatively when the reads reconcile, else in the informer cache.\<close>

definition foundBody :: "'h host \<Rightarrow> 'p MhREST \<Rightarrow> string \<Rightarrow> string \<Rightarrow> 'h node \<Rightarrow> Body option" where
  "foundBody H r ns name n =
     (if mr_reconcile r then fst (GetAuthoritative H (mr_bodies r) ns name n) else bs_Get H (mr_bodies r) ns name n)"

lemma mh_Get_served: "fst (mh_Get H r c name n) = Inr obj \<Longrightarrow>
    \<exists>body n'. foundBody H r (c_ns c) name (bump (\<lambda>k. k\<lparr>ct_ServedGet := ct_ServedGet k + 1\<rparr>) n) = Some body \<and>
      fst (serveBody H r (c_user c) (refFor r (c_ns c) name) name body n') = Inr obj"
  unfolding mh_Get_def Let_def foundBody_def by (auto split: if_splits option.splits prod.splits)

lemma stitchAll_items: "obj \<in> set (fst (stitchAll H r sel todo n)) \<Longrightarrow>
    \<exists>br rec n'. (br, rec) \<in> set todo \<and> matchesSel obj sel \<and>
      obj = fst (stitch H r (refFor r (br_ns br) (br_name br)) (br_body br) rec n')"
proof (induction todo arbitrary: n)
  case (Cons x todo)
  obtain br rec where x: "x = (br, rec)" by (cases x)
  obtain o1 n1 where s: "stitch H r (refFor r (br_ns br) (br_name br)) (br_body br) rec n = (o1, n1)"
    by (cases "stitch H r (refFor r (br_ns br) (br_name br)) (br_body br) rec n")
  show ?case
  proof (cases "obj \<in> set (fst (stitchAll H r sel todo n1))")
    case True
    from Cons.IH [OF this] show ?thesis by auto
  next
    case False
    then have "obj = o1" "matchesSel obj sel" using Cons.prems x s by (auto simp: split_beta split: if_splits)
    then show ?thesis using x s by (metis fst_conv list.set_intros(1))
  qed
qed simp

lemma listItemsOf_gated:
  assumes "listItemsOf H r u ns n = (todo, n1)" and "(br, rec) \<in> set todo"
  shows "bs_gate (mr_bodies r) = mr_gate r \<Longrightarrow> mr_gate r u (bd_owner (br_body br)) \<and>
     (\<not> mr_reconcile r \<longrightarrow> ns \<noteq> [] \<longrightarrow> br_ns br = ns)"
proof -
  assume g: "bs_gate (mr_bodies r) = mr_gate r"
  show ?thesis
  proof (cases "mr_reconcile r")
    case True
    then show ?thesis using assms by (auto simp: listItemsOf_def split_beta)
  next
    case False
    then have "br \<in> set (fst (ListFor H (mr_bodies r) u ns n))" using assms by (auto simp: listItemsOf_def split_beta)
    then show ?thesis
      using ListFor_gated g False by metis
  qed
qed

text \<open>Listing the host reads it.\<close>

definition list_reads :: "'h host \<Rightarrow> ('h \<Rightarrow> bool) \<Rightarrow> ('h \<Rightarrow> string \<Rightarrow> string \<Rightarrow> unstr option) \<Rightarrow> bool" where
  "list_reads H ok objs \<longleftrightarrow> (\<forall>h g. ok h \<longrightarrow> ok (snd (h_list H g h)) \<and> objs (snd (h_list H g h)) = objs h)"

section \<open>What the operations leave alone\<close>

context host_api
begin

lemma now_node: "ok (nd_host n) \<Longrightarrow> ok (nd_host (snd (onHost (h_now H) n))) \<and> objs (nd_host (snd (onHost (h_now H) n))) = objs (nd_host n)"
  using clock [of "nd_host n"] by (simp add: onHost_def split_beta)

lemma uuid_node: "ok (nd_host n) \<Longrightarrow> ok (nd_host (snd (onHost (h_uuid H) n))) \<and>
    objs (nd_host (snd (onHost (h_uuid H) n))) = objs (nd_host n) \<and> fst (onHost (h_uuid H) n) \<noteq> []"
  using uuid [of "nd_host n"] by (simp add: onHost_def split_beta)

lemma mint_frame:
  assumes "ok (nd_host n)"
  shows "ok (nd_host (snd (mintUID H rec n))) \<and> objs (nd_host (snd (mintUID H rec n))) = objs (nd_host n)"
    and "ok (nd_host (snd (mintTime H rec n))) \<and> objs (nd_host (snd (mintTime H rec n))) = objs (nd_host n)"
  using uuid_node [OF assms] now_node [OF assms] assms by (auto simp: mintUID_def mintTime_def split_beta)

lemma buildRecord_frame:
  assumes "ok (nd_host n)"
  shows "ok (nd_host (snd (buildRecord H r ref obj body a n))) \<and>
     objs (nd_host (snd (buildRecord H r ref obj body a n))) = objs (nd_host n) \<and>
     (\<exists>rec. fst (buildRecord H r ref obj body a n) = Inr rec \<and> rc_hash rec = HashBody body)"
  using mint_frame [OF assms] mint_frame [OF mint_frame(1) [OF assms, THEN conjunct1]]
  by (simp add: buildRecord_def Let_def split_beta)

lemma Put_holds:
  assumes "ok (nd_host n)" and "body_ok b"
  shows "fst (bs_Put H B ns name b n) = None \<and> ok (nd_host (snd (bs_Put H B ns name b n))) \<and>
     holds_body B ns name b (objs (nd_host (snd (bs_Put H B ns name b n)))) \<and>
     (r \<noteq> gv_resource (bs_gvr B) \<longrightarrow> objs (nd_host (snd (bs_Put H B ns name b n))) r nm = objs (nd_host n) r nm)"
proof -
  obtain u n1 where "bs_Put H B ns name b n = (None, n1)" "ok (nd_host n1)"
    "objs (nd_host n1) = (objs (nd_host n))(gv_resource (bs_gvr B) :=
       (objs (nd_host n) (gv_resource (bs_gvr B)))(BodyName ns name \<mapsto> u))"
    "bodyFromUnstructured u = b" "bodyRefOf u = (ns, name)"
    using Put_spec [OF assms, of B ns name] by blast
  then show ?thesis by (simp add: holds_body_def)
qed

lemma holds_get:
  assumes "ok (nd_host n)" and "holds_body B ns name b (objs (nd_host n))"
  shows "fst (bs_GetDirect H B ns name n) = Some b"
  using body_get [OF assms(1), of "bs_gvr B" "BodyName ns name"] assms(2)
  by (auto simp: holds_body_def bs_GetDirect_def)

text \<open>
  The write path over a free record: body, record and lock end up consistent.
\<close>

lemma write_commits:
  assumes ok: "ok (nd_host n)" and L: "mr_locker r = Some L" "lo_store L = mr_store r" "lo_identity L \<noteq> []"
      "lo_txn L \<longrightarrow> 0 < lo_attempts L"
    and diff: "gv_resource (ms_gvr (mr_store r)) \<noteq> gv_resource (bs_gvr (mr_bodies r))"
    and body: "body_ok body" and free: "free_for L (meta_at (\<lambda>n. objs (nd_host n)) L ref n)"
    and occ: "fst (occCheck (node_host H) L ref (Some (occCond name clientRV)) n) = None"
    and storable: "\<forall>n' rec. ok (nd_host n') \<longrightarrow> fst (buildRecord H r ref obj body 0 n') = Inr rec \<longrightarrow> record_ok (ms_checks (mr_store r)) rec"
  shows "\<exists>rec u n1. mh_write H r bt ref ns name obj body clientRV n =
      (Inr \<lparr>tx_record = stored_record (un_uid u) (un_rv u) (unlocked rec), tx_depth = 0\<rparr>, n1) \<and>
    ok (nd_host n1) \<and> meta_at (\<lambda>n. objs (nd_host n)) L ref n1 = Some u \<and> un_rv u \<noteq> [] \<and>
    decodeRecord (ms_checks (mr_store r)) u ref = Inr (stored_record (un_uid u) (un_rv u) (unlocked rec)) \<and>
    lockFromRaw u = None \<and> rc_hash rec = HashBody body \<and>
    (\<forall>c. meta_at (\<lambda>n. objs (nd_host n)) L ref n = Some c \<longrightarrow> ver (un_rv c) < ver (un_rv u)) \<and>
    holds_body (mr_bodies r) ns name body (objs (nd_host n1))"
proof -
  let ?objs = "\<lambda>n. objs (nd_host n)" and ?ok = "\<lambda>n. ok (nd_host n)" and ?op = "mhWriteOp H r ref ns name obj body"
  let ?Q = "\<lambda>os. holds_body (mr_bodies r) ns name body os" and ?good = "\<lambda>rec. rc_hash rec = HashBody body"
  note N = node_host_api
  note eqs = meta_at_rec_at [OF N] leaves_record_lawful [OF N]
  have put: "ok (nd_host n') \<Longrightarrow> fst (op_WriteBody ?op n') = None \<and> ok (nd_host (snd (op_WriteBody ?op n'))) \<and>
      ?Q (objs (nd_host (snd (op_WriteBody ?op n')))) \<and>
      objs (nd_host (snd (op_WriteBody ?op n'))) (gv_resource (ms_gvr (mr_store r))) (RecordName ref) =
      objs (nd_host n') (gv_resource (ms_gvr (mr_store r))) (RecordName ref)" for n'
    using Put_holds [OF _ body] diff by (simp add: mhWriteOp_def)
  have build: "ok (nd_host n') \<Longrightarrow> ok (nd_host (snd (op_BuildRecord ?op a n'))) \<and>
      objs (nd_host (snd (op_BuildRecord ?op a n'))) = objs (nd_host n') \<and>
      (\<exists>rec. fst (op_BuildRecord ?op a n') = Inr rec \<and> ?good rec)" for n' a
    using buildRecord_frame by (simp add: mhWriteOp_def)
  have "leaves_record ?ok ?objs L ref ?op"
    using put build by (simp add: leaves_record_def meta_at_def L mhWriteOp_def)
  then have lawful: "host_api.lawful_op ?ok ?objs L ref ?op" by (simp add: eqs)
  have pr: "host_api.productive ?ok ?objs L ref ?op 0 (host_api.others ?objs L ref n) ?good ?Q"
    unfolding host_api.productive_def [OF N] host_api.others_def [OF N]
    using put build storable diff by (simp add: holds_besides L mhWriteOp_def) metis
  obtain rec u n1 where w: "WriteTxn (node_host H) L ref ?op (Some (occCond name clientRV)) bt n =
      (Inr \<lparr>tx_record = stored_record (un_uid u) (un_rv u) (unlocked rec), tx_depth = 0\<rparr>, n1)"
    "?good rec" "record_ok (ms_checks (lo_store L)) rec" "?Q (host_api.others ?objs L ref n1)" "?ok n1"
    "meta_at ?objs L ref n1 = Some u" "un_rv u \<noteq> []"
    "\<forall>c. meta_at ?objs L ref n = Some c \<longrightarrow> ver (un_rv c) < ver (un_rv u)"
    "map_of (un_obj u) ''spec'' = Some (JObj (specMap (unlocked rec)))"
    using host_api.WriteTxn_fast [OF N ok L(3) _ L(4) occ lawful pr, of bt, unfolded eqs, OF free] by blast
  have "decodeRecord (ms_checks (mr_store r)) u ref = Inr (stored_record (un_uid u) (un_rv u) (unlocked rec))"
    using decode_spec [OF record_ok_unlocked [OF w(3)] w(9)] by (simp add: L)
  moreover have "lockFromRaw u = None"
    by (simp add: lockFromRaw_def path_defs w(9) specMap_lookup unlocked_def)
  moreover have "?Q (?objs n1)"
    using w(4) diff by (simp add: host_api.others_def [OF N] holds_besides L)
  ultimately show ?thesis
    using w L(1) by (simp add: mh_write_def) blast
qed

text \<open>Storing a record touches its own key only.\<close>

lemma ms_Put_frame:
  assumes ok: "ok h"
  shows "ok (snd (ms_Put H S rec h)) \<and>
     besides (gv_resource (ms_gvr S)) (RecordName (rc_ref rec)) (objs (snd (ms_Put H S rec h))) =
     besides (gv_resource (ms_gvr S)) (RecordName (rc_ref rec)) (objs h)"
proof -
  let ?g = "ms_gvr S" and ?n = "RecordName (rc_ref rec)"
  let ?u = "(encodeRecord rec ?g (ms_kind S))\<lparr>un_name := ?n\<rparr>"
  obtain x h1 where g: "h_get H ?g ?n h = (x, h1)" by (cases "h_get H ?g ?n h")
  have h1: "ok h1" "objs h1 = objs h" using get [OF ok, of ?g ?n] g by auto
  show ?thesis
  proof (cases "objs h (gv_resource ?g) ?n")
    case None
    then obtain e where e: "x = Inl e" "is_not_found e" using get_none [OF ok, of ?g ?n] g by auto
    from None h1 have "objs h1 (gv_resource ?g) (un_name (?u\<lparr>un_rv := []\<rparr>)) = None" by simp
    from create [OF h1(1) this] obtain rv uid h2 where
      "h_create H ?g (?u\<lparr>un_rv := []\<rparr>) h1 = (Inr (?u\<lparr>un_rv := rv, un_uid := uid\<rparr>), h2)" "ok h2"
      "objs h2 = (objs h1)(gv_resource ?g := (objs h1 (gv_resource ?g))(?n \<mapsto> ?u\<lparr>un_rv := rv, un_uid := uid\<rparr>))"
      by (cases "h_create H ?g (?u\<lparr>un_rv := []\<rparr>) h1") auto
    then show ?thesis using g e h1 by (simp add: ms_Put_def Let_def)
  next
    case (Some c)
    then have x: "x = Inr c" using get_some [OF ok, of ?g ?n] g by auto
    let ?v = "?u\<lparr>un_rv := un_rv c, un_uid := un_uid c\<rparr>"
    from Some h1 have "objs h1 (gv_resource ?g) (un_name ?v) = Some c" by simp
    from update [OF h1(1) this] obtain rv uid h2 where
      "h_update H ?g ?v h1 = (Inr (?v\<lparr>un_rv := rv, un_uid := uid\<rparr>), h2)" "ok h2"
      "objs h2 = (objs h1)(gv_resource ?g := (objs h1 (gv_resource ?g))(?n \<mapsto> ?v\<lparr>un_rv := rv, un_uid := uid\<rparr>))"
      by (cases "h_update H ?g ?v h1") auto
    then show ?thesis using g x h1 by (simp add: ms_Put_def Let_def)
  qed
qed

lemma ms_Delete_frame:
  assumes ok: "ok h"
  shows "ok (snd (ms_Delete H S ref h)) \<and>
     objs (snd (ms_Delete H S ref h)) = (objs h)(gv_resource (ms_gvr S) := (objs h (gv_resource (ms_gvr S)))(RecordName ref := None))"
  using delete [OF ok, of "ms_gvr S" "RecordName ref"]
  by (cases "h_delete H (ms_gvr S) (RecordName ref) h") (auto simp: ms_Delete_def split: option.splits)

lemma GetDirect_frame:
  assumes "ok h"
  shows "ok (snd (GetDirect H S ref h)) \<and> objs (snd (GetDirect H S ref h)) = objs h"
  using get [OF assms, of "ms_gvr S" "RecordName ref"]
  by (cases "h_get H (ms_gvr S) (RecordName ref) h") (auto simp: GetDirect_def split: sum.splits)

lemma bs_GetDirect_frame:
  assumes "ok (nd_host n)"
  shows "ok (nd_host (snd (bs_GetDirect H B ns name n))) \<and> objs (nd_host (snd (bs_GetDirect H B ns name n))) = objs (nd_host n) \<and>
     fst (bs_GetDirect H B ns name n) = map_option bodyFromUnstructured (objs (nd_host n) (gv_resource (bs_gvr B)) (BodyName ns name))"
  using body_get [OF assms, of "bs_gvr B" "BodyName ns name"] by (auto simp: bs_GetDirect_def split: option.splits)

lemma bs_Delete_frame:
  assumes "ok (nd_host n)"
  shows "ok (nd_host (snd (bs_Delete H B ns name n))) \<and> objs (nd_host (snd (bs_Delete H B ns name n))) =
     (objs (nd_host n))(gv_resource (bs_gvr B) := (objs (nd_host n) (gv_resource (bs_gvr B)))(BodyName ns name := None))"
  using delete [OF assms, of "bs_gvr B" "BodyName ns name"]
  by (cases "h_delete H (bs_gvr B) (BodyName ns name) (nd_host n)") (auto simp: bs_Delete_def onHost_def split: option.splits)

lemmas node_Put_frame = host_api.ms_Put_frame [OF node_host_api]
lemmas node_Delete_frame = host_api.ms_Delete_frame [OF node_host_api]
lemmas node_GetDirect_frame = host_api.GetDirect_frame [OF node_host_api]

lemma lookupRecord_frame:
  assumes "ok (nd_host n)"
  shows "ok (nd_host (snd (lookupRecord H r ref n))) \<and> objs (nd_host (snd (lookupRecord H r ref n))) = objs (nd_host n)"
  using node_GetDirect_frame [OF assms] assms by (simp add: lookupRecord_def split_beta split: option.split)

lemma synthesize_frame:
  assumes "ok (nd_host n)"
  shows "ok (nd_host (snd (synthesize H r m n))) \<and> objs (nd_host (snd (synthesize H r m n))) = objs (nd_host n)"
proof -
  let ?p = "if om_uid m = [] then (let (u, n') = onHost (h_uuid H) n in (m\<lparr>om_uid := ''synthetic-'' @ u\<rparr>, n')) else (m, n)"
  have "ok (nd_host (snd ?p)) \<and> objs (nd_host (snd ?p)) = objs (nd_host n)"
    using uuid_node [OF assms] assms by (simp add: split_beta)
  then show ?thesis using now_node [of "snd ?p"] by (simp add: synthesize_def Let_def split_beta)
qed

lemma stitch_frame:
  assumes "ok (nd_host n)"
  shows "ok (nd_host (snd (stitch H r ref body rec n))) \<and> objs (nd_host (snd (stitch H r ref body rec n))) = objs (nd_host n)"
  using assms
  by (simp add: stitch_def Let_def split_beta synthesize_frame [OF assms] split: robj.split option.split)

lemma adoptRecord_frame:
  assumes "ok (nd_host n)"
  shows "ok (nd_host (snd (adoptRecord H r ref s n))) \<and>
     besides (gv_resource (ms_gvr (mr_store r))) (RecordName (adoptionRef ref)) (objs (nd_host (snd (adoptRecord H r ref s n)))) =
     besides (gv_resource (ms_gvr (mr_store r))) (RecordName (adoptionRef ref)) (objs (nd_host n)) \<and>
     (\<not> mr_adopt r \<longrightarrow> adoptRecord H r ref s n = (None, n))"
proof (cases "mr_adopt r")
  case True
  obtain uid n1 where u: "onHost (h_uuid H) n = (uid, n1)" by (cases "onHost (h_uuid H) n")
  then have n1: "ok (nd_host n1)" "objs (nd_host n1) = objs (nd_host n)" using uuid_node [OF assms] by auto
  obtain now n2 where t: "onHost (h_now H) n1 = (now, n2)" by (cases "onHost (h_now H) n1")
  then have n2: "ok (nd_host n2)" "objs (nd_host n2) = objs (nd_host n)" using now_node [OF n1(1)] n1 by auto
  let ?rec = "(empty_record (adoptionRef ref))\<lparr>rc_uid := uid, rc_created := now,
      rc_anns := [(''aggexp.io/adopted'', ''true''), (''aggexp.io/adopted-by'', adoptedBy s)]\<rparr>"
  have r: "rc_ref ?rec = adoptionRef ref" by (simp add: empty_record_def)
  obtain x n3 where p: "ms_Put (node_host H) (mr_store r) ?rec n2 = (x, n3)" by (cases "ms_Put (node_host H) (mr_store r) ?rec n2")
  have "ok (nd_host n3)" "besides (gv_resource (ms_gvr (mr_store r))) (RecordName (adoptionRef ref)) (objs (nd_host n3)) =
      besides (gv_resource (ms_gvr (mr_store r))) (RecordName (adoptionRef ref)) (objs (nd_host n))"
    using node_Put_frame [OF n2(1), of "mr_store r" ?rec] p r n2(2) by auto
  moreover have "nd_host (snd (adoptRecord H r ref s n)) = nd_host n3"
    using True u t p by (simp add: adoptRecord_def adoptionRef_def Let_def split: sum.split)
  ultimately show ?thesis using True by simp
qed (use assms in \<open>simp add: adoptRecord_def\<close>)

lemma collect_frame:
  assumes "ok (nd_host n)"
  shows "ok (nd_host (snd (collect H r ref (Some rec) s n))) \<and>
     (objs (nd_host (snd (collect H r ref (Some rec) s n))) = objs (nd_host n) \<or>
      mr_gc r \<and> out_of_grace H ok r rec \<and>
      objs (nd_host (snd (collect H r ref (Some rec) s n))) = (objs (nd_host n))(gv_resource (ms_gvr (mr_store r)) :=
        (objs (nd_host n) (gv_resource (ms_gvr (mr_store r))))(RecordName ref := None)))"
proof (cases "mr_gc r")
  case gc: True
  obtain young n1 where y: "tooYoung H r (Some rec) n = (young, n1)" by (cases "tooYoung H r (Some rec) n")
  have n1: "ok (nd_host n1)" "objs (nd_host n1) = objs (nd_host n)"
    using y now_node [OF assms] assms by (auto simp: tooYoung_def split_beta split: if_splits)
  show ?thesis
  proof (cases young)
    case True
    then show ?thesis using y n1 gc by (simp add: collect_def)
  next
    case False
    then have g: "out_of_grace H ok r rec"
      using y assms by (auto simp: tooYoung_def out_of_grace_def split_beta onHost_def not_less split: if_splits)
    show ?thesis
      using gc False y g n1 node_Delete_frame [OF n1(1), of "mr_store r" ref]
      by (simp add: collect_def split_beta split: option.split)
  qed
qed (use assms in \<open>simp add: collect_def\<close>)

lemma adopt_reconciled:
  assumes "ok (nd_host n)" and "br \<in> set refs"
  shows "reconciled H ok r refs recs (objs (nd_host n)) (objs (nd_host (snd (adoptRecord H r (refFor r (br_ns br) (br_name br)) s n))))"
proof -
  have "mr_adopt r" if "adoptRecord H r (refFor r (br_ns br) (br_name br)) s n \<noteq> (None, n)"
    using adoptRecord_frame [OF assms(1)] that by blast
  with adoptRecord_frame [OF assms(1), of r "refFor r (br_ns br) (br_name br)" s] show ?thesis
    using assms(2) unfolding reconciled_def besides_def by (metis fun_upd_apply snd_conv)
qed

lemma adoptLoop_reconciled:
  assumes "ok (nd_host n)" and "set todo \<subseteq> set refs"
  shows "ok (nd_host (snd (adoptLoop H r s todo recs n))) \<and>
     reconciled H ok r refs R (objs (nd_host n)) (objs (nd_host (snd (adoptLoop H r s todo recs n)))) \<and>
     (\<forall>k rec. map_of (fst (adoptLoop H r s todo recs n)) k = Some rec \<longrightarrow> k \<notin> brKey ` set todo \<longrightarrow> map_of recs k = Some rec)"
  using assms
proof (induction todo arbitrary: recs n)
  case Nil
  then show ?case by (simp add: reconciled_refl)
next
  case (Cons br todo)
  then have sub: "set todo \<subseteq> set refs" "br \<in> set refs" by auto
  show ?case
  proof (cases "map_of recs (brKey br)")
    case (Some x)
    then show ?thesis using Cons.IH [OF Cons.prems(1) sub(1), of recs] by simp
  next
    case None
    obtain x n1 where a: "adoptRecord H r (refFor r (br_ns br) (br_name br)) s n = (x, n1)"
      by (cases "adoptRecord H r (refFor r (br_ns br) (br_name br)) s n")
    have n1: "ok (nd_host n1)" "reconciled H ok r refs R (objs (nd_host n)) (objs (nd_host n1))"
      using adoptRecord_frame [OF Cons.prems(1), of r "refFor r (br_ns br) (br_name br)" s] adopt_reconciled [OF Cons.prems(1) sub(2), of r R s] a
      by auto
    let ?recs = "case x of None \<Rightarrow> recs | Some rec \<Rightarrow> aput (brKey br) rec recs"
    have e: "adoptLoop H r s (br # todo) recs n = adoptLoop H r s todo ?recs n1"
      using None a by (simp split: option.split)
    have m: "k \<noteq> brKey br \<Longrightarrow> map_of ?recs k = map_of recs k" for k by (simp split: option.split)
    show ?thesis
      unfolding e using Cons.IH [OF n1(1) sub(1), of ?recs] reconciled_trans [OF n1(2)] m by (metis image_insert insertCI list.simps(15))
  qed
qed

lemma gcLoop_reconciled:
  assumes "ok (nd_host n)" and "mr_gc r" and "\<forall>(k, rec)\<in>set todo. k \<notin> set present \<longrightarrow> rec \<in> R"
  shows "ok (nd_host (snd (gcLoop H r s present todo recs n))) \<and>
     reconciled H ok r refs R (objs (nd_host n)) (objs (nd_host (snd (gcLoop H r s present todo recs n))))"
  using assms
proof (induction todo arbitrary: recs n)
  case Nil
  then show ?case by (simp add: reconciled_refl)
next
  case (Cons kr todo)
  obtain k rec where kr: "kr = (k, rec)" by (cases kr)
  show ?case
  proof (cases "k \<in> set present")
    case True
    then show ?thesis using Cons.IH [OF Cons.prems(1,2), of recs] Cons.prems(3) kr by simp
  next
    case False
    obtain gone n1 where c: "collect H r (rc_ref rec) (Some rec) s n = (gone, n1)"
      by (cases "collect H r (rc_ref rec) (Some rec) s n")
    have "rec \<in> R" using Cons.prems(3) False kr by auto
    then have n1: "ok (nd_host n1)" "reconciled H ok r refs R (objs (nd_host n)) (objs (nd_host n1))"
      using collect_frame [OF Cons.prems(1), of r "rc_ref rec" rec s] c by (auto simp: reconciled_refl intro: reconciled_remove)
    then show ?thesis
      using Cons.IH [OF n1(1) Cons.prems(2), of "if gone then adel k recs else recs"] Cons.prems(3) kr False c reconciled_trans [OF n1(2)]
      by auto
  qed
qed

lemma ListAuthoritative_frame:
  assumes "ok (nd_host n)" and "list_reads H ok objs"
  shows "ok (nd_host (snd (ListAuthoritative H B ns n))) \<and> objs (nd_host (snd (ListAuthoritative H B ns n))) = objs (nd_host n)"
  using assms(2) [unfolded list_reads_def, rule_format, OF assms(1), of "bs_gvr B"]
  by (auto simp: ListAuthoritative_def onHost_def split_beta split: sum.splits)

lemma ReconcileList_reconciled:
  assumes ok: "ok (nd_host n)" and reads: "list_reads H ok objs" and range: "\<forall>m. set (mr_range r m) \<subseteq> set m"
    and L: "ReconcileList H r ns s n = ((refs, recs), n3)"
  shows "ok (nd_host n3) \<and>
     reconciled H ok r refs {rec. (\<exists>n'. rec \<in> set (cachedRecords H r n')) \<and> recKey rec \<notin> brKey ` set refs} (objs (nd_host n)) (objs (nd_host n3))"
proof -
  obtain x n1 where l: "ListAuthoritative H (mr_bodies r) ns n = (x, n1)" by (cases "ListAuthoritative H (mr_bodies r) ns n")
  then have n1: "ok (nd_host n1)" "objs (nd_host n1) = objs (nd_host n)"
    using ListAuthoritative_frame [OF ok reads, of "mr_bodies r" ns] by auto
  let ?brs = "case x of Inl e \<Rightarrow> bs_List H (mr_bodies r) ns n1 | Inr brs \<Rightarrow> brs"
  let ?R = "{rec. (\<exists>n'. rec \<in> set (cachedRecords H r n')) \<and> recKey rec \<notin> brKey ` set ?brs}"
  let ?recs0 = "recsByKey ns (cachedRecords H r n1)"
  obtain recs1 n2 where a: "(if mr_adopt r then adoptLoop H r s ?brs ?recs0 n1 else (?recs0, n1)) = (recs1, n2)"
    by (cases "if mr_adopt r then adoptLoop H r s ?brs ?recs0 n1 else (?recs0, n1)")
  have n2: "ok (nd_host n2)" "reconciled H ok r ?brs ?R (objs (nd_host n)) (objs (nd_host n2))"
    "\<forall>k rec. map_of recs1 k = Some rec \<longrightarrow> k \<notin> brKey ` set ?brs \<longrightarrow> map_of ?recs0 k = Some rec"
    using adoptLoop_reconciled [OF n1(1), of ?brs ?brs r s ?recs0 ?R] n1 a by (auto simp: reconciled_refl split: if_splits)
  have d: "distinct (akeys recs1)"
    using a adoptLoop_distinct [of ?recs0 H r s ?brs n1] recsByKey_distinct by (auto split: if_splits)
  have "rec \<in> ?R" if kr: "(k, rec) \<in> set (mr_range r recs1)" "k \<notin> set (map brKey ?brs)" for k rec
  proof -
    have "(k, rec) \<in> set recs1" using range kr(1) by blast
    then have "map_of ?recs0 k = Some rec" using n2(3) d kr(2) by simp
    then have "rec \<in> set (cachedRecords H r n1)" "k = recKey rec" using recsByKey_in by blast+
    then show ?thesis using kr(2) by auto
  qed
  then have g: "\<forall>(k, rec)\<in>set (mr_range r recs1). k \<notin> set (map brKey ?brs) \<longrightarrow> rec \<in> ?R" by blast
  have e: "ReconcileList H r ns s n = (let (recs2, n3) = (if mr_gc r then gcLoop H r s (map brKey ?brs) (mr_range r recs1) recs1 n2
      else (recs1, n2)) in ((?brs, recs2), n3))"
    by (simp only: ReconcileList_def Let_def l a prod.case)
  then have refs: "refs = ?brs" using L by (auto simp: split_beta Let_def)
  show ?thesis
  proof (cases "mr_gc r")
    case True
    have "nd_host n3 = nd_host (snd (gcLoop H r s (map brKey ?brs) (mr_range r recs1) recs1 n2))"
      using L True unfolding e by (auto simp: split_beta)
    then show ?thesis
      unfolding refs using gcLoop_reconciled [OF n2(1) True g, of s recs1 ?brs] reconciled_trans [OF n2(2)] by simp
  next
    case False
    then have "n3 = n2" using L unfolding e by simp
    then show ?thesis unfolding refs using n2 by simp
  qed
qed

text \<open>What a read may change: records, and only when it reconciles.\<close>

definition read_only :: "'p MhREST \<Rightarrow> 'h node \<Rightarrow> 'h node \<Rightarrow> bool" where
  "read_only r n n' \<longleftrightarrow> ok (nd_host n') \<and>
     (\<forall>res. res \<noteq> gv_resource (ms_gvr (mr_store r)) \<longrightarrow> objs (nd_host n') res = objs (nd_host n) res) \<and>
     (\<not> mr_reconcile r \<longrightarrow> objs (nd_host n') = objs (nd_host n))"

lemma read_only_same: "ok (nd_host n') \<Longrightarrow> objs (nd_host n') = objs (nd_host n) \<Longrightarrow> read_only r n n'"
  by (simp add: read_only_def)

lemma read_only_trans: "read_only r a b \<Longrightarrow> read_only r b c \<Longrightarrow> read_only r a c"
  by (auto simp: read_only_def)

lemma read_only_ok: "read_only r n n' \<Longrightarrow> ok (nd_host n')"
  by (simp add: read_only_def)

lemma besides_res: "besides r nm os' = besides r nm os \<Longrightarrow> res \<noteq> r \<Longrightarrow> os' res = os res"
  unfolding besides_def by (metis fun_upd_apply)

lemma serveBody_read_only:
  assumes "ok (nd_host n)"
  shows "read_only r n (snd (serveBody H r u ref name body n))"
proof -
  obtain rec n1 where l: "lookupRecord H r ref n = (rec, n1)" by (cases "lookupRecord H r ref n")
  then have n1: "ok (nd_host n1)" "objs (nd_host n1) = objs (nd_host n)" using lookupRecord_frame [OF assms, of r ref] by auto
  obtain rec' n2 where a: "(if rec = None \<and> mr_reconcile r then adoptRecord H r ref False n1 else (rec, n1)) = (rec', n2)"
    by (cases "if rec = None \<and> mr_reconcile r then adoptRecord H r ref False n1 else (rec, n1)")
  have n2: "read_only r n n2"
  proof (cases "rec = None \<and> mr_reconcile r")
    case True
    then have "ok (nd_host n2)" "besides (gv_resource (ms_gvr (mr_store r))) (RecordName (adoptionRef ref)) (objs (nd_host n2)) =
        besides (gv_resource (ms_gvr (mr_store r))) (RecordName (adoptionRef ref)) (objs (nd_host n))"
      using a n1 adoptRecord_frame [OF n1(1), of r ref False] by auto
    then show ?thesis using True besides_res [of _ _ "objs (nd_host n2)" "objs (nd_host n)"] by (simp add: read_only_def)
  next
    case False
    then have "n2 = n1" using a by (auto split: if_splits)
    then show ?thesis using n1 by (simp add: read_only_same)
  qed
  have "read_only r n (snd (stitch H r ref body rec' n2))"
    using read_only_trans [OF n2 read_only_same] stitch_frame [OF read_only_ok [OF n2]] by blast
  then show ?thesis
    using n1 assms by (simp only: serveBody_def Let_def l a prod.case) (simp add: read_only_same split_beta)
qed

lemma mh_Get_read_only:
  assumes "ok (nd_host n)"
  shows "read_only r n (snd (mh_Get H r c name n))"
proof -
  let ?n0 = "bump (\<lambda>k. k\<lparr>ct_ServedGet := ct_ServedGet k + 1\<rparr>) n" and ?ref = "refFor r (c_ns c) name"
  have n0: "ok (nd_host ?n0)" "read_only r n ?n0" using assms by (simp_all add: read_only_same)
  show ?thesis
  proof (cases "mr_reconcile r")
    case rec: True
    obtain x n1 where g: "GetAuthoritative H (mr_bodies r) (c_ns c) name ?n0 = (x, n1)"
      by (cases "GetAuthoritative H (mr_bodies r) (c_ns c) name ?n0")
    then have n1: "ok (nd_host n1)" "objs (nd_host n1) = objs (nd_host n)"
      using GetAuthoritative_spec [OF n0(1), of "mr_bodies r" "c_ns c" name] by auto
    show ?thesis
    proof (cases x)
      case (Some body)
      have "read_only r n (snd (serveBody H r (c_user c) ?ref name body n1))"
        by (rule read_only_trans [OF read_only_same [OF n1] serveBody_read_only [OF n1(1)]])
      then show ?thesis using rec g Some by (simp add: mh_Get_def Let_def)
    next
      case None
      obtain y n2 where l: "lookupRecord H r ?ref n1 = (y, n2)" by (cases "lookupRecord H r ?ref n1")
      then have n2: "ok (nd_host n2)" "objs (nd_host n2) = objs (nd_host n)"
        using lookupRecord_frame [OF n1(1), of r ?ref] n1 by auto
      have "read_only r n (case y of None \<Rightarrow> n2 | Some rc \<Rightarrow> snd (collect H r ?ref (Some rc) False n2))"
      proof (cases y)
        case (Some rc)
        have "read_only r n2 (snd (collect H r ?ref (Some rc) False n2))"
          using collect_frame [OF n2(1), of r ?ref rc False] rec by (auto simp: read_only_def)
        then show ?thesis using Some read_only_trans [OF read_only_same [OF n2]] by simp
      qed (use n2 in \<open>simp add: read_only_same\<close>)
      then show ?thesis using rec g None l by (simp add: mh_Get_def Let_def)
    qed
  next
    case False
    have "read_only r n (snd (serveBody H r (c_user c) ?ref name body ?n0))" for body
      by (rule read_only_trans [OF n0(2) serveBody_read_only [OF n0(1)]])
    then show ?thesis using False n0(2) by (simp add: mh_Get_def Let_def split: option.split)
  qed
qed

end

section \<open>Properties\<close>

text \<open>
  C2: No unary read of the adapter crosses the identity gate, in either reading mode: an adapter
  made by \<open>New\<close> and started answers \<open>Get\<close> only with an object stitched from a body whose owner the gate
  admits for the caller, and every item of a \<open>List\<close> is such an object, in the namespace asked
  for when reconciliation is off, and admitted by the label selector.
\<close>

theorem mh_reads_gated:
  assumes "mh_New J visit pod hostname opts = Some r0" and "r = snd (mh_Start a b r0)"
  shows "(\<forall>obj. fst (mh_Get H r c name n) = Inr obj \<longrightarrow>
            (\<exists>body rec n'. foundBody H r (c_ns c) name (bump (\<lambda>k. k\<lparr>ct_ServedGet := ct_ServedGet k + 1\<rparr>) n) = Some body \<and>
               mr_gate r (c_user c) (bd_owner body) \<and> obj = fst (stitch H r (refFor r (c_ns c) name) body rec n'))) \<and>
         (\<forall>l. fst (mh_List H r c lopts n) = Inr l \<longrightarrow>
            (\<forall>obj\<in>set (l_items l). matchesSel obj (selectorFrom lopts) \<and>
               (\<exists>br rec n'. (br, rec) \<in> set (fst (listItemsOf H r (c_user c) (c_ns c) (bump (\<lambda>k. k\<lparr>ct_ServedList := ct_ServedList k + 1\<rparr>) n))) \<and>
                  mr_gate r (c_user c) (bd_owner (br_body br)) \<and>
                  (\<not> mr_reconcile r \<longrightarrow> c_ns c \<noteq> [] \<longrightarrow> br_ns br = c_ns c) \<and>
                  obj = fst (stitch H r (refFor r (br_ns br) (br_name br)) (br_body br) rec n'))))"
proof (intro conjI allI impI ballI)
  fix obj assume "fst (mh_Get H r c name n) = Inr obj"
  then show "\<exists>body rec n'. foundBody H r (c_ns c) name (bump (\<lambda>k. k\<lparr>ct_ServedGet := ct_ServedGet k + 1\<rparr>) n) = Some body \<and>
      mr_gate r (c_user c) (bd_owner body) \<and> obj = fst (stitch H r (refFor r (c_ns c) name) body rec n')"
    using mh_Get_served [of H r c name n obj] serveBody_gated [of H r "c_user c" "refFor r (c_ns c) name" name _ _ obj] by blast
next
  let ?n = "bump (\<lambda>k. k\<lparr>ct_ServedList := ct_ServedList k + 1\<rparr>) n"
  fix l obj assume l: "fst (mh_List H r c lopts n) = Inr l" and o: "obj \<in> set (l_items l)"
  obtain todo n1 where t: "listItemsOf H r (c_user c) (c_ns c) ?n = (todo, n1)" by (cases "listItemsOf H r (c_user c) (c_ns c) ?n")
  have "l_items l = fst (stitchAll H r (selectorFrom lopts) todo n1)"
    using l t by (auto simp: mh_List_def Let_def split_beta split: if_splits)
  with o obtain br rec n' where br: "(br, rec) \<in> set todo" "matchesSel obj (selectorFrom lopts)"
    "obj = fst (stitch H r (refFor r (br_ns br) (br_name br)) (br_body br) rec n')"
    using stitchAll_items by metis
  have "bs_gate (mr_bodies r) = mr_gate r" using mh_New_sel(1) [OF assms(1)] mh_Start_sel assms(2) by metis
  then have g: "mr_gate r (c_user c) (bd_owner (br_body br))" "\<not> mr_reconcile r \<longrightarrow> c_ns c \<noteq> [] \<longrightarrow> br_ns br = c_ns c"
    using listItemsOf_gated [OF t br(1)] by blast+
  have f: "(br, rec) \<in> set (fst (listItemsOf H r (c_user c) (c_ns c) ?n))" using br(1) t by simp
  show "matchesSel obj (selectorFrom lopts)" by (rule br(2))
  show "\<exists>br rec n'. (br, rec) \<in> set (fst (listItemsOf H r (c_user c) (c_ns c) ?n)) \<and>
       mr_gate r (c_user c) (bd_owner (br_body br)) \<and> (\<not> mr_reconcile r \<longrightarrow> c_ns c \<noteq> [] \<longrightarrow> br_ns br = c_ns c) \<and>
       obj = fst (stitch H r (refFor r (br_ns br) (br_name br)) (br_body br) rec n')"
    using f g br(3) by blast
qed

text \<open>The adapter and its locker as \<open>New\<close> wires them, over two different host resources.\<close>

definition wired :: "'p MhREST \<Rightarrow> Locker \<Rightarrow> bool" where
  "wired r L \<longleftrightarrow> mr_locker r = Some L \<and> lo_store L = mr_store r \<and> lo_identity L \<noteq> [] \<and> (lo_txn L \<longrightarrow> 0 < lo_attempts L) \<and>
     gv_resource (ms_gvr (mr_store r)) \<noteq> gv_resource (bs_gvr (mr_bodies r))"

text \<open>Every record the write may build can be stored: its times print with four-digit years.\<close>

definition storable :: "'h host \<Rightarrow> ('h \<Rightarrow> bool) \<Rightarrow> 'p MhREST \<Rightarrow> ResourceRef \<Rightarrow> 'p robj \<Rightarrow> Body \<Rightarrow> bool" where
  "storable H ok r ref obj body \<longleftrightarrow>
     (\<forall>n rec. ok (nd_host n) \<longrightarrow> fst (buildRecord H r ref obj body 0 n) = Inr rec \<longrightarrow> record_ok (ms_checks (mr_store r)) rec)"

text \<open>The record of a reference on the host of a replica.\<close>

definition record_at :: "('h \<Rightarrow> string \<Rightarrow> string \<Rightarrow> unstr option) \<Rightarrow> 'p MhREST \<Rightarrow> ResourceRef \<Rightarrow> 'h node \<Rightarrow> unstr option" where
  "record_at objs r ref n = objs (nd_host n) (gv_resource (ms_gvr (mr_store r))) (RecordName ref)"

lemma meta_at_record_at: "wired r L \<Longrightarrow> meta_at (\<lambda>n. objs (nd_host n)) L ref n = record_at objs r ref n"
  by (simp add: wired_def meta_at_def record_at_def)

lemma stitch_known: "snd (stitch H r ref body (Some rc) n) = n"
  "accessor (fst (stitch H r ref body (Some rc) n)) = Some m \<Longrightarrow> om_rv m = rc_recordRV rc \<and> om_uid m = rc_uid rc"
  by (auto simp: stitch_def Let_def overlay_def split: robj.splits)


text \<open>The fixture of the tests: widgets, their converter, \<open>newTestREST\<close>.\<close>

record widget =
  w_color :: string
  w_size :: int

definition widgetConverter :: "widget Converter" where
  "widgetConverter =
     \<lparr>cv_New = Obj empty_meta \<lparr>w_color = [], w_size = 0\<rparr>, cv_NewList = std_list [],
      cv_BodyFromObject = (\<lambda>obj. \<lparr>bd_owner = [],
        bd_fields = [(''color'', JStr (w_color (payload obj))), (''size'', JInt (w_size (payload obj)))]\<rparr>),
      cv_Stitch = (\<lambda>ref body rec.
        Obj (empty_meta\<lparr>om_name := rf_name ref, om_ns := rf_namespace ref\<rparr>)
          \<lparr>w_color = (case map_of (bd_fields body) ''color'' of Some (JStr s) \<Rightarrow> s | _ \<Rightarrow> []),
           w_size = (case map_of (bd_fields body) ''size'' of Some (JInt i) \<Rightarrow> i | _ \<Rightarrow> 0)\<rparr>),
      cv_RecordFromObject = (\<lambda>obj ref. (case accessor obj of
          None \<Rightarrow> None
        | Some m \<Rightarrow> Some ((empty_record ref)\<lparr>rc_uid := om_uid m, rc_created := om_created m,
                     rc_labels := om_labels m, rc_anns := om_anns m, rc_fins := om_fins m\<rparr>)))\<rparr>"

definition test_options :: "widget MhOptions" where
  "test_options =
     \<lparr>mo_converter = Some widgetConverter, mo_gr = \<lparr>gr_group = ''example.io'', gr_resource = ''widgets''\<rparr>,
      mo_metaGVR = ms_gvr test_store, mo_metaKind = ''ResourceMetadata'', mo_bodyGVR = bs_gvr test_bodies,
      mo_bodyKind = ''WidgetBody'', mo_replicaID = ''replica-test'', mo_lock = True, mo_lease = 0,
      mo_lockRenew = False, mo_disableLockRenew = True, mo_txn = True, mo_txnAttempts = 0, mo_watch = True,
      mo_watchMode = WatchPush, mo_sharedPoll = False, mo_pollInterval = 0, mo_buffer = 0, mo_budget = 0,
      mo_gate = None, mo_reconcile = False, mo_adopt = False, mo_gc = False, mo_minAge = 0\<rparr>"

definition newTestREST :: "(widget MhOptions \<Rightarrow> widget MhOptions) \<Rightarrow> widget MhREST" where
  "newTestREST mutate = snd (mh_Start True True (the (mh_New (ms_checks test_store) (\<lambda>m. m) [] [] (mutate test_options))))"

definition ctxFor :: "string \<Rightarrow> string list \<Rightarrow> ctx" where
  "ctxFor name groups = \<lparr>c_user = Some \<lparr>u_name = name, u_groups = groups\<rparr>, c_ns = ''default''\<rparr>"

definition widget_meta :: ometa where
  "widget_meta = empty_meta\<lparr>om_name := ''a'', om_ns := ''default''\<rparr>"

definition makeWidget :: "string \<Rightarrow> int \<Rightarrow> widget robj" where
  "makeWidget color sz = Obj widget_meta \<lparr>w_color = color, w_size = sz\<rparr>"

text \<open>A host whose clock stands still and whose record informer has seen nothing yet.\<close>

definition cold_host :: "etcd host" where
  "cold_host = etcd_host\<lparr>h_now := (\<lambda>s. (1, s)), 
     h_cache_get := (\<lambda>g n s. if gv_resource g = gv_resource (ms_gvr test_store) then Inl (NotFound n) else es_get g n s)\<rparr>"

lemma cold_api: "host_api cold_host es_ok es_lookup es_ver"
  using etcd.host_api_axioms by (auto simp: host_api_def cold_host_def)

lemma newTestREST_wired:
  assumes "newTestREST (\<lambda>x. x) = r"
  shows "wired r test_locker" and "ms_checks (mr_store r) = ms_checks test_store" and "mr_conv r = widgetConverter"
    and "refFor r ''default'' ''a'' = test_ref" and "mr_store r = test_store" and "bs_gvr (mr_bodies r) = bs_gvr test_bodies"
  using assms
  by (auto simp: wired_def newTestREST_def mh_New_def mh_Start_def test_options_def Let_def NewMetaStore_def NewBodyStore_def
      test_locker_def test_store_def NewLocker_def refFor_def test_ref_def test_bodies_def)

lemma cold_storable:
  "storable cold_host es_ok (newTestREST (\<lambda>x. x)) test_ref (makeWidget color sz) body"
proof -
  note r = newTestREST_wired [OF refl]
  have "recOf (GetFromCache (node_host cold_host) test_store ref n) = None" for ref and n :: "etcd node"
    by (simp add: recOf_def GetFromCache_def node_host_def cold_host_def)
  then show ?thesis
    by (auto simp: storable_def buildRecord_def r widgetConverter_def makeWidget_def widget_meta_def mergePrior_def
        mintUID_def mintTime_def onHost_def cold_host_def split_beta Let_def record_ok_def empty_record_def empty_meta_def
        test_ref_def time_ok_def lock_ok_def max_time_def ns_per_s_def split: if_splits)
qed

definition widget_body :: "string \<Rightarrow> string \<Rightarrow> int \<Rightarrow> Body" where
  "widget_body owner color sz = \<lparr>bd_owner = owner, bd_fields = [(''color'', JStr color), (''size'', JInt sz)]\<rparr>"



lemma one_record_of:
  "record_at es_lookup (newTestREST (\<lambda>x. x)) test_ref (new_node (one_record spec)) =
     Some \<lparr>un_group = [], un_version = [], un_kind = [], un_name = RecordName test_ref, un_uid = ''u'',
           un_rv = dec_nat 1, un_obj = [(''spec'', JObj spec)]\<rparr>"
  using one_record_at [of spec] by (simp add: record_at_def meta_at_def new_node_def newTestREST_wired [OF refl])

lemma one_readable: "readable J \<lparr>un_group = [], un_version = [], un_kind = [], un_name = nm, un_uid = ''u'',
           un_rv = rv, un_obj = [(''spec'', JObj [])]\<rparr>"
  by (simp add: readable_def has_spec_def nestedMap_def)



text \<open>A host that holds a widget of an owner: an unlocked record at version 1, a body at version 2.\<close>

definition stored_widget :: "string \<Rightarrow> etcd" where
  "stored_widget owner =
     (let k1 = (''resourcemetadatas'', RecordName test_ref); k2 = (''widgetbodies'', BodyName ''default'' ''a'');
          u1 = \<lparr>un_group = [], un_version = [], un_kind = [], un_name = RecordName test_ref, un_uid = ''u'',
                un_rv = dec_nat 1, un_obj = [(''spec'', JObj [])]\<rparr>;
          u2 = (encodeBody ''default'' ''a'' (widget_body owner ''red'' 3) (bs_gvr test_bodies) ''WidgetBody'')
                 \<lparr>un_name := BodyName ''default'' ''a'', un_uid := ''b'', un_rv := dec_nat 2\<rparr>
      in \<lparr>es_counter = 2, es_current = [(k1, dec_nat 1), (k2, dec_nat 2)], es_objs = [(k1, u1), (k2, u2)], es_clock = 1\<rparr>)"

lemma stored_widget_ok: "es_ok (stored_widget owner)"
proof -
  have "\<exists>i \<le> 2. dec_nat 1 = dec_nat i" "\<exists>i \<le> 2. dec_nat 2 = dec_nat i"
    by (rule exI [of _ 1], simp, rule exI [of _ 2], simp)
  then show ?thesis unfolding es_ok_def by (simp add: stored_widget_def Let_def)
qed

lemma widget_body_ok: "body_ok (widget_body owner color sz)"
  by (simp add: body_ok_def widget_body_def)

lemma stored_widget_at:
  "record_at es_lookup (newTestREST (\<lambda>x. x)) test_ref (new_node (stored_widget owner)) =
     Some \<lparr>un_group = [], un_version = [], un_kind = [], un_name = RecordName test_ref, un_uid = ''u'',
           un_rv = dec_nat 1, un_obj = [(''spec'', JObj [])]\<rparr>"
  "\<exists>u. es_lookup (stored_widget owner) ''widgetbodies'' (BodyName ''default'' ''a'') = Some u \<and>
     bodyFromUnstructured u = widget_body owner ''red'' 3"
  using decode_encode_body [OF widget_body_ok [of owner "''red''" 3]]
  by (simp_all add: record_at_def new_node_def newTestREST_wired [OF refl] es_lookup_def stored_widget_def Let_def test_store_def test_bodies_def)

lemma newTestREST_modes: "\<not> mr_reconcile (newTestREST (\<lambda>x. x))" "mr_gate (newTestREST (\<lambda>x. x)) = DefaultIdentityGate"
  "bs_started (mr_bodies (newTestREST (\<lambda>x. x)))"
  by (simp_all add: newTestREST_def mh_New_def mh_Start_def test_options_def Let_def NewBodyStore_def)

lemma serveBody_served: "mr_gate r u (bd_owner body) \<Longrightarrow> \<not> mr_reconcile r \<Longrightarrow> \<exists>obj n1. serveBody H r u ref name body n = (Inr obj, n1)"
  by (simp add: serveBody_def Let_def split_beta)

lemma get_stored:
  "\<exists>obj n1. mh_Get cold_host (newTestREST (\<lambda>x. x)) (ctxFor owner []) ''a'' (new_node (stored_widget owner)) = (Inr obj, n1)"
proof -
  let ?n0 = "bump (\<lambda>k. k\<lparr>ct_ServedGet := ct_ServedGet k + 1\<rparr>) (new_node (stored_widget owner))"
  obtain u where u: "es_lookup (stored_widget owner) ''widgetbodies'' (BodyName ''default'' ''a'') = Some u"
    "bodyFromUnstructured u = widget_body owner ''red'' 3" using stored_widget_at(2) by blast
  then have "es_get (bs_gvr test_bodies) (BodyName ''default'' ''a'') (stored_widget owner) = Inr u"
    by (simp add: es_get_def es_key_def es_lookup_def test_bodies_def split: option.splits)
  then have "bs_Get cold_host (mr_bodies (newTestREST (\<lambda>x. x))) ''default'' ''a'' ?n0 = Some (widget_body owner ''red'' 3)"
    by (simp add: bs_Get_def cacheGet_def newTestREST_modes newTestREST_wired [OF refl] cold_host_def new_node_def test_store_def test_bodies_def u(2))
  moreover have "mr_gate (newTestREST (\<lambda>x. x)) (c_user (ctxFor owner [])) (bd_owner (widget_body owner ''red'' 3))"
    by (simp add: newTestREST_modes ctxFor_def DefaultIdentityGate_iff widget_body_def)
  ultimately show ?thesis
    using serveBody_served newTestREST_modes(1)
    by (simp add: mh_Get_def Let_def ctxFor_def)
qed

theorem mh_reads_gated_witness:
  "\<exists>obj body. fst (mh_Get cold_host (newTestREST (\<lambda>x. x)) (ctxFor ''alice'' []) ''a'' (new_node (stored_widget ''alice''))) = Inr obj \<and>
     mr_gate (newTestREST (\<lambda>x. x)) (c_user (ctxFor ''alice'' [])) (bd_owner body) \<and>
     (\<exists>rec n'. obj = fst (stitch cold_host (newTestREST (\<lambda>x. x)) (refFor (newTestREST (\<lambda>x. x)) ''default'' ''a'') body rec n'))"
proof -
  obtain r0 where r0: "mh_New (ms_checks test_store) (\<lambda>m. m) [] [] test_options = Some r0"
    by (simp add: mh_New_def test_options_def Let_def)
  have r: "newTestREST (\<lambda>x. x) = snd (mh_Start True True r0)" by (simp add: newTestREST_def r0)
  have ns: "c_ns (ctxFor ''alice'' []) = ''default''" by (simp add: ctxFor_def)
  obtain obj n1 where g: "mh_Get cold_host (newTestREST (\<lambda>x. x)) (ctxFor ''alice'' []) ''a'' (new_node (stored_widget ''alice'')) = (Inr obj, n1)"
    using get_stored by blast
  show ?thesis
    using mh_reads_gated [OF r0 r, THEN conjunct1, rule_format, of cold_host "ctxFor ''alice'' []" "''a''" "new_node (stored_widget ''alice'')" obj]
    unfolding ns g by auto
qed






text \<open>
  The clean-up of a failed create is not limited to its own writes: whenever the write of a create
  fails after the existence check, the body stored under the object's name is deleted, even if
  another replica, holding the lock, wrote it in between.
\<close>

theorem create_failure_deletes_body:
  assumes "h_delete H = es_delete" and "run_validate v (Obj m0 p) = None" and "om_name m0 \<noteq> []"
    and ns: "ns = (if om_ns m0 = [] then c_ns c else om_ns m0)"
    and "fst (bs_GetDirect H (mr_bodies r) ns (om_name m0) n) = None"
    and "mh_Create H r bt c (Obj m0 p) v n = (Inl e, n1)"
  shows "es_lookup (nd_host n1) (gv_resource (bs_gvr (mr_bodies r))) (BodyName ns (om_name m0)) = None"
proof -
  have host: "nd_host (countConflict e n) = nd_host n" for e and n :: "etcd node" by (simp add: countConflict_def)
  have gone: "es_lookup (nd_host (snd (bs_Delete H B ns nm k))) (gv_resource (bs_gvr B)) (BodyName ns nm) = None" for B nm k
    using assms(1)
    by (auto simp: bs_Delete_def onHost_def es_delete_def Let_def es_lookup_def es_key_def split: option.splits)
  obtain n0 where g: "bs_GetDirect H (mr_bodies r) ns (om_name m0) n = (None, n0)"
    using assms(5) by (cases "bs_GetDirect H (mr_bodies r) ns (om_name m0) n") auto
  from assms(6) have "createObject H r bt (c_user c) (m0\<lparr>om_ns := ns\<rparr>) (Obj (m0\<lparr>om_ns := ns\<rparr>) p) n0 = (Inl e, n1)"
    using assms(2,3) g by (simp add: mh_Create_def Let_def ns [symmetric])
  then obtain k where "n1 = countConflict e (snd (bs_Delete H (mr_bodies r) ns (om_name m0) k))"
    by (auto simp: createObject_def Let_def split: prod.splits sum.splits)
  then show ?thesis using gone host by simp
qed

text \<open>
  Another replica holds the lock and writes its body while this one reads the clock to judge the lock.
\<close>

definition bob_writes :: "etcd \<Rightarrow> etcd" where
  "bob_writes s = nd_host (snd (bs_Put cold_host test_bodies ''default'' ''a'' (widget_body ''bob'' ''blue'' 1) (new_node s)))"

definition racing_host :: "etcd host" where
  "racing_host = cold_host\<lparr>h_now := (\<lambda>s. (1, bob_writes s))\<rparr>"

definition bob_locked :: etcd where
  "bob_locked = one_record [(''lock'', JObj [(''holderIdentity'', JStr ''bob''), (''renewedAt'', JStr (rfc3339 (10 * ns_per_s))),
     (''leaseDurationSeconds'', JInt 15)])]"

lemma bob_lock:
  "lockFromRaw \<lparr>un_group = [], un_version = [], un_kind = [], un_name = nm, un_uid = ''u'', un_rv = rv,
     un_obj = [(''spec'', JObj [(''lock'', JObj [(''holderIdentity'', JStr ''bob''), (''renewedAt'', JStr (rfc3339 (10 * ns_per_s))),
     (''leaseDurationSeconds'', JInt 15)])])]\<rparr> =
   Some \<lparr>lk_holder = ''bob'', lk_acquired = None, lk_renewed = Some (trunc_s (10 * ns_per_s)), lk_lease = 15\<rparr>"
proof -
  have "parsedTime (Some (JStr (rfc3339 (10 * ns_per_s)))) = Some (trunc_s (10 * ns_per_s))"
    by (rule rfc3339_parses) (simp_all add: ns_per_s_def max_time_def)
  then show ?thesis by (simp add: lockFromRaw_def path_defs lockStateFromMap_def int32_def)
qed

lemma racing_refused:
  "\<exists>m n1. Acquire (node_host racing_host) (test_locker\<lparr>lo_txn := False\<rparr>) test_ref (new_node bob_locked) = (Inl (Conflict ''a'' m), n1)"
proof -
  let ?H = "node_host racing_host" and ?L = "test_locker\<lparr>lo_txn := False\<rparr>" and ?n = "new_node bob_locked"
  obtain raw where at: "meta_at es_lookup test_locker test_ref bob_locked = Some raw" and lk: "lockFromRaw raw =
      Some \<lparr>lk_holder = ''bob'', lk_acquired = None, lk_renewed = Some (trunc_s (10 * ns_per_s)), lk_lease = 15\<rparr>"
    using one_record_at bob_lock unfolding bob_locked_def by blast
  have "es_get (ms_gvr test_store) (RecordName test_ref) bob_locked = Inr raw"
    using at by (simp add: meta_at_def es_lookup_def es_get_def es_key_def split: option.splits)
  then have g: "GetRawDirect ?H test_store test_ref ?n = (Inr (Some raw), ?n)"
    by (simp add: GetRawDirect_def node_host_def onHost_def racing_host_def cold_host_def etcd_host_def new_node_def)
  have now: "h_now ?H n = (1, n\<lparr>nd_host := bob_writes (nd_host n)\<rparr>)" for n :: "etcd node"
    by (simp add: node_host_def onHost_def racing_host_def)
  have late: "(trunc_s (10 * ns_per_s) + 15 * ns_per_s < 1) = False" by (simp add: trunc_s_def ns_per_s_def)
  have store: "lo_store ?L = test_store" "lo_identity ?L = ''replica-test''" "rf_name test_ref = ''a''"
    by (simp_all add: test_locker_def test_ref_def NewLocker_def)
  have "\<exists>m n1. acquirePass ?H ?L test_ref ?n = Done (Inl (Conflict ''a'' m)) n1"
    unfolding acquirePass_def store g by (simp add: now Let_def lk Held_def lockExpired_def store late)
  then obtain m n1 where p: "acquirePass ?H ?L test_ref ?n = Done (Inl (Conflict ''a'' m)) n1" by blast
  obtain k :: nat where k: "lockRetryAttempts = Suc k" by (simp add: lockRetryAttempts_def numeral_3_eq_3)
  show ?thesis by (simp add: Acquire_def k p)
qed

theorem create_failure_deletes_body_witness:
  "\<exists>m n1. mh_Create racing_host (newTestREST (mo_txn_update (\<lambda>_. False))) no_beats (ctxFor ''alice'' []) (makeWidget ''red'' 3) None
       (new_node bob_locked) = (Inl (Conflict ''a'' m), n1) \<and>
     holds_body test_bodies ''default'' ''a'' (widget_body ''bob'' ''blue'' 1) (es_lookup (snd (h_now racing_host bob_locked))) \<and>
     es_lookup (nd_host n1) ''widgetbodies'' (BodyName ''default'' ''a'') = None"
proof -
  let ?r = "newTestREST (mo_txn_update (\<lambda>_. False))" and ?n = "new_node bob_locked" and ?H = "racing_host"
  have r: "mr_locker ?r = Some (test_locker\<lparr>lo_txn := False\<rparr>)" "refFor ?r ''default'' ''a'' = test_ref" "bs_gvr (mr_bodies ?r) = bs_gvr test_bodies"
    by (simp_all add: newTestREST_def mh_New_def mh_Start_def test_options_def Let_def NewMetaStore_def NewBodyStore_def
        test_locker_def test_store_def NewLocker_def refFor_def test_ref_def test_bodies_def)
  have name: "om_name widget_meta = ''a''" "om_ns widget_meta = ''default''" "widget_meta\<lparr>om_ns := ''default''\<rparr> = widget_meta"
    by (simp_all add: widget_meta_def)
  have "es_get (bs_gvr test_bodies) (BodyName ''default'' ''a'') bob_locked = Inl (NotFound (BodyName ''default'' ''a''))"
    by (simp add: es_get_def es_key_def bob_locked_def one_record_def test_bodies_def Let_def)
  then have none: "bs_GetDirect ?H (mr_bodies ?r) ''default'' ''a'' ?n = (None, ?n)"
    by (simp add: bs_GetDirect_def onHost_def racing_host_def cold_host_def etcd_host_def new_node_def r)
  obtain m n1 where acq: "Acquire (node_host ?H) (test_locker\<lparr>lo_txn := False\<rparr>) test_ref ?n = (Inl (Conflict ''a'' m), n1)"
    using racing_refused by blast
  have "snd (currentRV (node_host ?H) (test_locker\<lparr>lo_txn := False\<rparr>) test_ref ?n) = ?n"
    by (auto simp: currentRV_def GetDirect_def node_host_def onHost_def racing_host_def cold_host_def etcd_host_def new_node_def
        split: sum.splits option.splits prod.splits)
  then have occ: "occCheck (node_host ?H) (test_locker\<lparr>lo_txn := False\<rparr>) test_ref (Some (occCond ''a'' [])) ?n = (None, ?n)"
    by (simp add: occCheck_def occCond_def split_beta)
  have w: "mh_write ?H ?r no_beats test_ref ''default'' ''a'' obj body [] ?n = (Inl (Conflict ''a'' m), n1)" for obj body
    by (simp add: mh_write_def r WriteTxn_def txnPass_def occ acq)
  then have c: "\<exists>n2. mh_Create ?H ?r no_beats (ctxFor ''alice'' []) (Obj widget_meta \<lparr>w_color = ''red'', w_size = 3\<rparr>) None ?n = (Inl (Conflict ''a'' m), n2)"
    by (simp add: mh_Create_def run_validate_def createObject_def name none r Let_def)
  then obtain n2 where n2: "mh_Create ?H ?r no_beats (ctxFor ''alice'' []) (Obj widget_meta \<lparr>w_color = ''red'', w_size = 3\<rparr>) None ?n = (Inl (Conflict ''a'' m), n2)"
    by blast
  have del: "h_delete ?H = es_delete" by (simp add: racing_host_def cold_host_def etcd_host_def)
  have ns: "''default'' = (if om_ns widget_meta = [] then c_ns (ctxFor ''alice'' []) else om_ns widget_meta)" by (simp add: name)
  have "es_lookup (nd_host n2) (gv_resource (bs_gvr (mr_bodies ?r))) (BodyName ''default'' (om_name widget_meta)) = None"
    by (rule create_failure_deletes_body [OF del _ _ ns _ n2]) (simp_all add: name none run_validate_def)
  then have "es_lookup (nd_host n2) ''widgetbodies'' (BodyName ''default'' ''a'') = None"
    by (simp only: r name) (simp add: test_bodies_def)
  moreover have "es_ok (nd_host (new_node bob_locked))" by (simp add: new_node_def bob_locked_def es_ok_one)
  then have "holds_body test_bodies ''default'' ''a'' (widget_body ''bob'' ''blue'' 1) (es_lookup (snd (h_now racing_host bob_locked)))"
    using host_api.Put_holds [OF cold_api _ widget_body_ok, of ?n test_bodies "''default''" "''a''" "''bob''" "''blue''" 1]
    by (simp add: racing_host_def bob_writes_def)
  ultimately show ?thesis using n2 unfolding makeWidget_def by blast
qed

end
