(* ===== verification/MhWatchSpec.thy ===== *)
theory MhWatchSpec
  imports MhWatch MhAdapterSpec
begin

text \<open>
  What the watchers of the multihost hub are promised: the registry and the bounds of the channels,
  the order of the events, what a metadata event does to every watcher, the replay, and where the
  code does not keep its word.  \<open>wstep\<close> is what the operations of a hub can do to one watcher.
\<close>

section \<open>What happens to one watcher\<close>

definition replaying :: "'p PerWatcher \<Rightarrow> bool" where
  "replaying w = (case pw_stage w of Replaying xs \<Rightarrow> True | _ \<Rightarrow> False)"

inductive wstep :: "bool \<Rightarrow> 'p PerWatcher \<Rightarrow> 'p PerWatcher \<Rightarrow> bool" for shd where
  dedup: "wstep shd w (dedupEmit et obj w)"
| replay: "pw_stage w = Replaying (x # xs) \<Longrightarrow> wstep shd w (setStage (Replaying xs) (replayOne x w))"
| bookmark: "pw_stage w = Replaying [] \<Longrightarrow> \<not> replaying (setStage st w) \<Longrightarrow> wstep shd w (setStage st (emit ev w))"
| share: "shd \<Longrightarrow> wstep shd w (emit ev w)"
| stage: "\<not> replaying w \<Longrightarrow> \<not> replaying (setStage st w) \<Longrightarrow> wstep shd w (w\<lparr>pw_sub := sub, pw_stage := st\<rparr>)"
| close: "wstep shd w (w\<lparr>pw_closed := True\<rparr>)"
| take: "pw_taken w < length (pw_sent w) \<Longrightarrow> wstep shd w (w\<lparr>pw_taken := pw_taken w + 1\<rparr>)"

text \<open>The watchers of one state have come to those of another by such steps.\<close>

definition evolves :: "bool \<Rightarrow> ('h, 'p) hub \<Rightarrow> ('h, 'p) hub \<Rightarrow> bool" where
  "evolves shd s s' \<longleftrightarrow> (\<forall>i w. map_of (hb_made s) i = Some w \<longrightarrow> (\<exists>w'. map_of (hb_made s') i = Some w' \<and> (wstep shd)\<^sup>*\<^sup>* w w'))"

lemma evolves_refl [simp]: "evolves shd s s"
  by (simp add: evolves_def)

lemma evolves_same: "hb_made s' = hb_made s \<Longrightarrow> evolves shd s s'"
  by (simp add: evolves_def)

lemma evolves_trans: "evolves shd s t \<Longrightarrow> evolves shd t u \<Longrightarrow> evolves shd s u"
  unfolding evolves_def by (meson rtranclp_trans)

lemma made_onWatcher: "map_of (hb_made (onWatcher i f s)) j = (if i = j then map_option f (map_of (hb_made s) j) else map_of (hb_made s) j)"
  by (simp add: onWatcher_def split: option.splits)

lemma onWatcher_frame [simp]:
  "hb_node (onWatcher i f s) = hb_node s" "hb_registry (onWatcher i f s) = hb_registry s" "hb_nextID (onWatcher i f s) = hb_nextID s"
  "hb_cnt (onWatcher i f s) = hb_cnt s" "hb_lastSig (onWatcher i f s) = hb_lastSig s" "hb_sharedSeen (onWatcher i f s) = hb_sharedSeen s"
  by (simp_all add: onWatcher_def split: option.splits)

lemma evolves_onWatcher: "(\<And>w. map_of (hb_made s) i = Some w \<Longrightarrow> (wstep shd)\<^sup>*\<^sup>* w (f w)) \<Longrightarrow> evolves shd s (onWatcher i f s)"
  by (auto simp: evolves_def made_onWatcher)

lemma wstep1: "wstep shd w w' \<Longrightarrow> (wstep shd)\<^sup>*\<^sup>* w w'"
  by blast

lemma evolves_foldl: "(\<And>s c. evolves shd s (f s c)) \<Longrightarrow> evolves shd s (foldl f s cs)"
  by (induction cs arbitrary: s) (auto intro: evolves_trans)

lemma fanoutTo_wsteps: "(wstep shd)\<^sup>*\<^sup>* w (fanoutTo et obj w)"
  by (auto simp: fanoutTo_def split: option.split intro: wstep1 dedup)

lemma getCache_made: "getCache_get U u ns nm c s = (obj, c1, s1) \<Longrightarrow> hb_made s1 = hb_made s \<and> hb_registry s1 = hb_registry s \<and>
    hb_nextID s1 = hb_nextID s \<and> hk_watchers (hb_cnt s1) = hk_watchers (hb_cnt s) \<and> hb_lastSig s1 = hb_lastSig s"
  by (auto simp: getCache_get_def split: option.splits prod.splits)

lemma metaFanout_evolves: "evolves shd s (metaFanout U et ref is c s)"
proof (induction "is" arbitrary: c s)
  case (Cons i "is")
  show ?case
  proof (cases "map_of (hb_made s) i")
    case (Some w)
    obtain obj c1 s1 where g: "getCache_get U (pw_identity w) (rf_namespace ref) (rf_name ref) c s = (obj, c1, s1)"
      by (cases "getCache_get U (pw_identity w) (rf_namespace ref) (rf_name ref) c s")
    have "evolves shd s s1" using getCache_made [OF g] by (simp add: evolves_same)
    moreover have "evolves shd s1 (onWatcher i (fanoutTo et obj) s1)" by (rule evolves_onWatcher [OF fanoutTo_wsteps])
    ultimately show ?thesis using Cons.IH Some g by (auto intro: evolves_trans)
  qed (simp add: Cons.IH)
qed simp

lemma emitBackendChange_evolves: "evolves shd s (emitBackendChange U i c s)"
  by (auto simp: emitBackendChange_def evolves_same Let_def split: option.splits prod.splits
      intro!: evolves_trans [OF evolves_same evolves_onWatcher] wstep1 dedup)

lemma not_replaying [simp]: "\<not> replaying (setStage Finished w)" "\<not> replaying (setStage (Polling m) w)"
  "\<not> replaying (setStage (Pushing j) w)" "\<not> replaying (setStage (liveStage U md) w)"
  by (auto simp: replaying_def setStage_def liveStage_def split: WatchMode.splits)

lemma wstep_stage: "\<not> replaying w \<Longrightarrow> \<not> replaying (setStage st w) \<Longrightarrow> wstep shd w (setStage st w)"
  using stage [of w st shd "pw_sub w"] by (simp add: setStage_def)

lemma stage_emit [simp]: "pw_stage (emit ev w) = pw_stage w"
  by (simp add: emit_def)

lemma stage_dedup [simp]: "pw_stage (dedupEmit et obj w) = pw_stage w"
  by (simp add: dedupEmit_def Let_def split: option.split)

lemma wstep_live: "wstep shd w w' \<Longrightarrow> \<not> replaying w \<Longrightarrow> \<not> replaying w'"
  by (induction rule: wstep.induct) (auto simp: replaying_def setStage_def)

lemma wsteps_live: "(wstep shd)\<^sup>*\<^sup>* w w' \<Longrightarrow> \<not> replaying w \<Longrightarrow> \<not> replaying w'"
  by (induction rule: rtranclp_induct) (auto dest: wstep_live)

section \<open>The registry and the channels\<close>

text \<open>What every operation but opening and stopping a watch leaves alone.\<close>

definition quiet :: "('h, 'p) hub \<Rightarrow> ('h, 'p) hub \<Rightarrow> bool" where
  "quiet s s' \<longleftrightarrow> hb_registry s' = hb_registry s \<and> hb_nextID s' = hb_nextID s \<and>
     hk_watchers (hb_cnt s') = hk_watchers (hb_cnt s) \<and>
     (\<forall>i. map_option pw_closed (map_of (hb_made s') i) = map_option pw_closed (map_of (hb_made s) i))"

lemma quiet_refl [simp]: "quiet s s"
  by (simp add: quiet_def)

lemma quiet_trans: "quiet s t \<Longrightarrow> quiet t u \<Longrightarrow> quiet s u"
  by (simp add: quiet_def)

lemma quiet_same: "hb_made s' = hb_made s \<Longrightarrow> hb_registry s' = hb_registry s \<Longrightarrow> hb_nextID s' = hb_nextID s \<Longrightarrow>
    hk_watchers (hb_cnt s') = hk_watchers (hb_cnt s) \<Longrightarrow> quiet s s'"
  by (simp add: quiet_def)

lemma quiet_onWatcher: "(\<And>w. pw_closed (f w) = pw_closed w) \<Longrightarrow> quiet s (onWatcher i f s)"
  by (simp add: quiet_def made_onWatcher option.map_comp comp_def)

lemma quiet_foldl: "(\<And>s c. quiet s (f s c)) \<Longrightarrow> quiet s (foldl f s cs)"
  by (induction cs arbitrary: s) (auto intro: quiet_trans)

lemma closed_emit [simp]: "pw_closed (emit ev w) = pw_closed w"
  by (simp add: emit_def)

lemma closed_dedup [simp]: "pw_closed (dedupEmit et obj w) = pw_closed w"
  by (simp add: dedupEmit_def Let_def split: option.split)

lemma closed_fanoutTo [simp]: "pw_closed (fanoutTo et obj w) = pw_closed w"
  by (simp add: fanoutTo_def split: option.split)

lemma closed_setStage [simp]: "pw_closed (setStage st w) = pw_closed w"
  by (simp add: setStage_def)

lemma closed_replayOne [simp]: "pw_closed (replayOne x w) = pw_closed w"
  by (simp add: replayOne_def split: option.split)

lemma metaFanout_quiet: "quiet s (metaFanout U et ref is c s)"
proof (induction "is" arbitrary: c s)
  case (Cons i "is")
  show ?case
  proof (cases "map_of (hb_made s) i")
    case (Some w)
    obtain obj c1 s1 where g: "getCache_get U (pw_identity w) (rf_namespace ref) (rf_name ref) c s = (obj, c1, s1)"
      by (cases "getCache_get U (pw_identity w) (rf_namespace ref) (rf_name ref) c s")
    have "quiet s s1" using getCache_made [OF g] by (simp add: quiet_same)
    moreover have "quiet s1 (onWatcher i (fanoutTo et obj) s1)" by (rule quiet_onWatcher) simp
    ultimately show ?thesis using Cons.IH Some g by (auto intro: quiet_trans)
  qed (simp add: Cons.IH)
qed simp

lemma emitBackendChange_quiet: "quiet s (emitBackendChange U i c s)"
  by (auto simp: emitBackendChange_def quiet_same Let_def split: option.splits prod.splits
      intro!: quiet_trans [OF quiet_same quiet_onWatcher])

lemma OnMetadataEvent_moves: "quiet s (OnMetadataEvent U et ref rec rv s)" "evolves shd s (OnMetadataEvent U et ref rec rv s)"
  by (auto simp: OnMetadataEvent_def Let_def quiet_same evolves_same split: option.split
      intro!: quiet_trans [OF quiet_same metaFanout_quiet] evolves_trans [OF evolves_same metaFanout_evolves])

lemma pollRound_moves:
  assumes "map_of (hb_made s) i = Some w" and "\<not> replaying w"
  shows "quiet s (pollRound U i w snap s)" and "evolves shd s (pollRound U i w snap s)"
proof -
  obtain refs n1 cs snap' where l: "ListFor (hu_host U) (hu_backend U) (pw_identity w) (pw_ns w) (hb_node s) = (refs, n1)"
    "roundChanges (hu_keys U) refs snap = (cs, snap')" by (meson surj_pair)
  let ?t = "foldl (\<lambda>s c. emitBackendChange U i c s) (s\<lparr>hb_node := n1\<rparr>) cs"
  let ?f = "\<lambda>w'. w'\<lparr>pw_stage := (if pw_closed w' then Finished else Polling snap')\<rparr>"
  have p: "pollRound U i w snap s = onWatcher i ?f ?t" by (simp add: pollRound_def l)
  have t: "quiet s ?t" "evolves shd s ?t"
    by (auto intro: quiet_trans [OF quiet_same quiet_foldl [OF emitBackendChange_quiet]]
        evolves_trans [OF evolves_same evolves_foldl [OF emitBackendChange_evolves]])
  show "quiet s (pollRound U i w snap s)"
    unfolding p by (rule quiet_trans [OF t(1) quiet_onWatcher]) simp
  show "evolves shd s (pollRound U i w snap s)"
    unfolding p
  proof (rule evolves_trans [OF t(2) evolves_onWatcher])
    fix w1 assume "map_of (hb_made ?t) i = Some w1"
    then have "(wstep False)\<^sup>*\<^sup>* w w1"
      using evolves_foldl [of False "\<lambda>s c. emitBackendChange U i c s" "s\<lparr>hb_node := n1\<rparr>" cs] emitBackendChange_evolves assms(1)
      by (fastforce simp: evolves_def)
    then have "\<not> replaying w1" using assms(2) wsteps_live by blast
    then show "(wstep shd)\<^sup>*\<^sup>* w1 (?f w1)"
      by (intro wstep1) (use wstep_stage [of w1 "if pw_closed w1 then Finished else Polling snap'" shd] in \<open>simp add: setStage_def replaying_def\<close>)
  qed
qed

lemma pipelineStep_moves: "quiet s (pipelineStep U i s)" "evolves shd s (pipelineStep U i s)"
proof -
  have "quiet s (pipelineStep U i s) \<and> evolves shd s (pipelineStep U i s)"
  proof (cases "map_of (hb_made s) i")
    case (Some w)
    show ?thesis
    proof (cases "pw_stage w")
      case (Replaying xs)
      then show ?thesis
        using Some
        by (cases xs) (auto simp: pipelineStep_def intro!: quiet_onWatcher evolves_onWatcher wstep1 replay bookmark)
    next
      case Opening
      then show ?thesis
        using Some
        by (auto simp: pipelineStep_def runPush_def replaying_def setStage_def split: option.split prod.split
            intro!: quiet_trans [OF quiet_same quiet_onWatcher] evolves_trans [OF evolves_same evolves_onWatcher] wstep1
              wstep_stage [unfolded setStage_def] stage)
    next
      case (Pushing j)
      then show ?thesis
        using Some
        by (auto simp: pipelineStep_def pushOne_def replaying_def setStage_def split: option.split
            intro!: quiet_onWatcher evolves_onWatcher wstep1 wstep_stage [unfolded setStage_def] quiet_trans [OF quiet_same emitBackendChange_quiet]
              evolves_trans [OF evolves_same emitBackendChange_evolves])
    next
      case (Polling snap)
      then have "\<not> replaying w" by (simp add: replaying_def)
      then show ?thesis using pollRound_moves [OF Some] Some Polling by (simp add: pipelineStep_def)
    qed (simp add: pipelineStep_def Some)
  qed (simp add: pipelineStep_def)
  then show "quiet s (pipelineStep U i s)" "evolves shd s (pipelineStep U i s)" by simp_all
qed

lemma sharedFanout_moves:
  "quiet s (sharedFanout U ct ns nm s)" "evolves True s (sharedFanout U ct ns nm s)"
proof -
  let ?f = "\<lambda>obj w. if pw_matches w obj then emit \<lparr>ev_type = changeEvent ct, ev_obj = obj\<rparr> w else w"
  have "quiet s' (onWatcher i (?f obj) s')" for obj s' i by (rule quiet_onWatcher) simp
  then show "quiet s (sharedFanout U ct ns nm s)"
    by (auto simp: sharedFanout_def quiet_same split: option.split prod.split intro!: quiet_trans [OF quiet_same quiet_foldl])
  have "evolves True s' (onWatcher i (?f obj) s')" for obj s' i by (rule evolves_onWatcher) (auto intro: share)
  then show "evolves True s (sharedFanout U ct ns nm s)"
    by (auto simp: sharedFanout_def evolves_same split: option.split prod.split intro!: evolves_trans [OF evolves_same evolves_foldl])
qed

lemma sharedRound_moves: "quiet s (sharedRound U s)" "evolves (hc_shared (hu_cfg U)) s (sharedRound U s)"
proof -
  obtain refs n1 cs seen where l: "ListFor (hu_host U) (hu_backend U) systemUser [] (hb_node s) = (refs, n1)"
    "roundChanges (hu_keys U) refs (hb_sharedSeen s) = (cs, seen)" by (meson surj_pair)
  let ?s = "s\<lparr>hb_node := n1, hb_sharedSeen := seen\<rparr>" and ?f = "\<lambda>s c. sharedFanout U (bch_type c) (bch_ns c) (bch_name c) s"
  have "quiet ?s (foldl ?f ?s cs)" by (rule quiet_foldl [OF sharedFanout_moves(1)])
  then show "quiet s (sharedRound U s)" by (simp add: sharedRound_def l quiet_def)
  have "evolves True ?s (foldl ?f ?s cs)" by (rule evolves_foldl [OF sharedFanout_moves(2)])
  then show "evolves (hc_shared (hu_cfg U)) s (sharedRound U s)"
    by (simp add: sharedRound_def l evolves_def)
qed

lemma cancelWatch_moves: "quiet s (cancelWatch i s)" "evolves shd s (cancelWatch i s)"
proof -
  show "quiet s (cancelWatch i s)"
    unfolding cancelWatch_def by (rule quiet_onWatcher) (simp split: stage.split)
  show "evolves shd s (cancelWatch i s)"
    unfolding cancelWatch_def
  proof (rule evolves_onWatcher)
    fix w show "(wstep shd)\<^sup>*\<^sup>* w (case pw_stage w of Pushing j \<Rightarrow> w\<lparr>pw_stage := Finished\<rparr> | Polling m \<Rightarrow> w\<lparr>pw_stage := Finished\<rparr> | _ \<Rightarrow> w)"
      by (auto split: stage.split intro!: wstep1 wstep_stage [unfolded setStage_def] simp: replaying_def)
  qed
qed

lemma recv_moves: "quiet s (recv i s)" "evolves shd s (recv i s)"
proof -
  show "quiet s (recv i s)" unfolding recv_def by (rule quiet_onWatcher) simp
  show "evolves shd s (recv i s)"
    unfolding recv_def by (rule evolves_onWatcher) (auto intro: wstep1 wstep.take [unfolded Suc_eq_plus1 [symmetric]])
qed

lemma Stop_evolves: "evolves shd s (Stop i s)"
  by (auto simp: evolves_def Stop_def split: option.splits intro: wstep1 close)

definition bounded :: "'p PerWatcher \<Rightarrow> bool" where
  "bounded w \<longleftrightarrow> pw_taken w \<le> length (pw_sent w) \<and> length (pw_sent w) - pw_taken w \<le> pw_cap w"

lemma bounded_emit: "bounded w \<Longrightarrow> bounded (emit ev w)"
  by (auto simp: bounded_def emit_def)

lemma wstep_bounded: "wstep shd w w' \<Longrightarrow> bounded w \<Longrightarrow> bounded w'"
proof (induction rule: wstep.induct)
  case (dedup w et obj)
  then show ?case by (auto simp: dedupEmit_def Let_def bounded_emit [unfolded bounded_def] bounded_def split: option.split)
next
  case (replay w x xs)
  then show ?case
    by (auto simp: replayOne_def setStage_def bounded_def split: option.split intro: bounded_emit [unfolded bounded_def, THEN conjunct1]
        bounded_emit [unfolded bounded_def, THEN conjunct2])
next
  case (bookmark w st ev)
  then have "bounded (emit ev w)" by (simp add: bounded_emit)
  then show ?case by (simp add: bounded_def setStage_def)
qed (auto simp: bounded_def bounded_emit [unfolded bounded_def])

definition hub_inv :: "('h, 'p) hub \<Rightarrow> bool" where
  "hub_inv s \<longleftrightarrow> distinct (hb_registry s) \<and> (\<forall>i w. map_of (hb_made s) i = Some w \<longrightarrow> i \<le> hb_nextID s) \<and>
     (\<forall>i. i \<in> set (hb_registry s) \<longleftrightarrow> (\<exists>w. map_of (hb_made s) i = Some w \<and> \<not> pw_closed w)) \<and>
     hk_watchers (hb_cnt s) = int (length (hb_registry s)) \<and>
     (\<forall>i w. map_of (hb_made s) i = Some w \<longrightarrow> bounded w)"

lemma map_option_eqD: "map_option f a = map_option f b \<Longrightarrow> a = Some x \<Longrightarrow> \<exists>y. b = Some y \<and> f y = f x"
  by (cases b) auto

lemma hub_inv_quiet:
  assumes "hub_inv s" and q: "quiet s s'" and e: "evolves shd s s'"
  shows "hub_inv s'"
proof -
  have bwd: "\<exists>w. map_of (hb_made s) i = Some w \<and> pw_closed w = pw_closed w' \<and> (wstep shd)\<^sup>*\<^sup>* w w'" if w': "map_of (hb_made s') i = Some w'" for i w'
  proof -
    obtain w where w: "map_of (hb_made s) i = Some w" "pw_closed w = pw_closed w'"
      using q w' map_option_eqD unfolding quiet_def by metis
    then show ?thesis using e w' unfolding evolves_def by fastforce
  qed
  have fwd: "\<exists>w'. map_of (hb_made s') i = Some w' \<and> pw_closed w' = pw_closed w" if "map_of (hb_made s) i = Some w" for i w
    using q that map_option_eqD unfolding quiet_def by metis
  have "bounded w'" if w': "map_of (hb_made s') i = Some w'" for i w'
  proof -
    obtain w where "map_of (hb_made s) i = Some w" "(wstep shd)\<^sup>*\<^sup>* w w'" using bwd w' by blast
    then have "bounded w" "(wstep shd)\<^sup>*\<^sup>* w w'" using assms(1) by (auto simp: hub_inv_def)
    then show ?thesis by (induction rule: rtranclp_induct [OF \<open>(wstep shd)\<^sup>*\<^sup>* w w'\<close>]) (auto dest: wstep_bounded)
  qed
  moreover have "i \<le> hb_nextID s'" if "map_of (hb_made s') i = Some w'" for i w'
    using bwd [OF that] assms(1) q by (auto simp: hub_inv_def quiet_def)
  moreover have "i \<in> set (hb_registry s') \<longleftrightarrow> (\<exists>w. map_of (hb_made s') i = Some w \<and> \<not> pw_closed w)" for i
    using bwd fwd assms(1) q unfolding hub_inv_def quiet_def by metis
  ultimately show ?thesis using assms(1) q unfolding hub_inv_def quiet_def by metis
qed

lemma fresh_watcher: "hub_inv s \<Longrightarrow> map_of (hb_made s) (hb_nextID s + 1) = None"
  unfolding hub_inv_def by (metis Suc_eq_plus1 not_less_eq_eq option.exhaust order_refl)

lemma hub_inv_NewWatch: "hub_inv s \<Longrightarrow> hub_inv (snd (NewWatch U u ns sel mode initial s))"
proof -
  assume h: "hub_inv s"
  let ?i = "hb_nextID s + 1"
  have "?i \<notin> set (hb_registry s)" using h fresh_watcher [OF h] by (auto simp: hub_inv_def)
  moreover have "bounded (newWatcher U u ns sel mode initial rv)" for rv by (simp add: bounded_def newWatcher_def)
  moreover have "\<not> pw_closed (newWatcher U u ns sel mode initial rv)" for rv by (simp add: newWatcher_def)
  ultimately show ?thesis
    using h fresh_watcher [OF h] unfolding hub_inv_def NewWatch_def Let_def
    by (auto simp: le_Suc_eq split: if_splits) 
qed

lemma hub_inv_Stop: "hub_inv s \<Longrightarrow> hub_inv (Stop i s)"
proof (cases "\<exists>w. map_of (hb_made s) i = Some w \<and> \<not> pw_closed w")
  case True
  then obtain w where w: "map_of (hb_made s) i = Some w" "\<not> pw_closed w" by blast
  assume h: "hub_inv s"
  then have i: "i \<in> set (hb_registry s)" "distinct (hb_registry s)" "bounded w" using w by (auto simp: hub_inv_def)
  then have "length (hb_registry s) = Suc (length (removeAll i (hb_registry s)))"
    by (metis One_nat_def Suc_pred distinct_remove1_removeAll length_pos_if_in_set length_remove1)
  moreover have "bounded (w\<lparr>pw_closed := True\<rparr>)" using i(3) by (simp add: bounded_def)
  ultimately show ?thesis using h w i(2) unfolding Stop_def hub_inv_def by (auto simp: distinct_removeAll)
qed (auto simp: Stop_def split: option.split)

lemma hub_step_inv: "hub_step U s s' \<Longrightarrow> hub_inv s \<Longrightarrow> hub_inv s'"
proof (induction rule: hub_step.induct)
  case (watch s u ns sel mode initial)
  then show ?case by (rule hub_inv_NewWatch)
next
  case (pipeline s i)
  then show ?case using hub_inv_quiet pipelineStep_moves by blast
next
  case (metadata s et ref rec rv)
  then show ?case using hub_inv_quiet OnMetadataEvent_moves by blast
next
  case (shared s)
  then show ?case using hub_inv_quiet sharedRound_moves by blast
next
  case (stop s i)
  then show ?case by (rule hub_inv_Stop)
next
  case (cancel s i)
  then show ?case using hub_inv_quiet cancelWatch_moves by blast
next
  case (receive s i)
  then show ?case using hub_inv_quiet recv_moves by blast
next
  case (outside s n)
  then show ?case by (simp add: hub_inv_def)
qed

lemma hub_steps_inv: "(hub_step U)\<^sup>*\<^sup>* s s' \<Longrightarrow> hub_inv s \<Longrightarrow> hub_inv s'"
  by (induction rule: rtranclp_induct) (auto intro: hub_step_inv)

lemma reachable_inv: "reachable (U :: ('h, 'p) Hub) s \<Longrightarrow> hub_inv s"
proof -
  have "hub_inv (newHubState n)" for n :: "'h node" by (simp add: hub_inv_def newHubState_def)
  then show "reachable U s \<Longrightarrow> hub_inv s" unfolding reachable_def using hub_steps_inv by metis
qed

text \<open>
  In every reachable state the registry holds exactly the watchers that were not stopped, each
  once, the counter of live watchers is their number, and no result channel holds more events than
  its buffer.
\<close>

theorem hub_registry_inv:
  assumes "reachable U s"
  shows "distinct (hb_registry s) \<and>
     (\<forall>i. i \<in> set (hb_registry s) \<longleftrightarrow> (\<exists>w. map_of (hb_made s) i = Some w \<and> \<not> pw_closed w)) \<and>
     hk_watchers (hb_cnt s) = int (length (hb_registry s)) \<and>
     (\<forall>i w. map_of (hb_made s) i = Some w \<longrightarrow> pw_taken w \<le> length (pw_sent w) \<and> length (pw_sent w) - pw_taken w \<le> pw_cap w)"
  using reachable_inv [OF assms] unfolding hub_inv_def bounded_def by blast

section \<open>The order of the events\<close>

lemma hub_step_evolves: "hub_step U s s' \<Longrightarrow> hub_inv s \<Longrightarrow> evolves (hc_shared (hu_cfg U)) s s'"
proof (induction rule: hub_step.induct)
  case (watch s u ns sel mode initial)
  then show ?case using fresh_watcher [of s] by (auto simp: evolves_def NewWatch_def Let_def)
next
  case (outside s n)
  then show ?case by (simp add: evolves_same)
qed (simp_all add: pipelineStep_moves OnMetadataEvent_moves sharedRound_moves Stop_evolves cancelWatch_moves recv_moves)

lemma hub_steps_evolve: "(hub_step U)\<^sup>*\<^sup>* s s' \<Longrightarrow> hub_inv s \<Longrightarrow> evolves (hc_shared (hu_cfg U)) s s'"
proof (induction rule: rtranclp_induct)
  case (step t u)
  then show ?case using hub_steps_inv hub_step_evolves evolves_trans by metis
qed simp

text \<open>
  A list of events is in order over what was sent before: each event of an object is newer than the
  last one sent for it, until it is deleted.
\<close>

fun in_order :: "(string \<Rightarrow> string option) \<Rightarrow> 'p event list \<Rightarrow> bool" where
  "in_order em [] = True"
| "in_order em (ev # evs) =
     (case accessor (ev_obj ev) of
        None \<Rightarrow> in_order em evs
      | Some m \<Rightarrow>
          (let key = refKey (om_ns m) (om_name m) in
           if ev_type ev = Deleted then in_order (em(key := None)) evs
           else (case em key of None \<Rightarrow> True | Some prev \<Rightarrow> mh_rvLess prev (om_rv m)) \<and> in_order (em(key \<mapsto> om_rv m)) evs))"

fun sent_after :: "(string \<Rightarrow> string option) \<Rightarrow> 'p event list \<Rightarrow> string \<Rightarrow> string option" where
  "sent_after em [] = em"
| "sent_after em (ev # evs) =
     (case accessor (ev_obj ev) of
        None \<Rightarrow> sent_after em evs
      | Some m \<Rightarrow> sent_after (em(refKey (om_ns m) (om_name m) := (if ev_type ev = Deleted then None else Some (om_rv m)))) evs)"

lemma in_order_append: "in_order em (xs @ ys) \<longleftrightarrow> in_order em xs \<and> in_order (sent_after em xs) ys"
  by (induction xs arbitrary: em) (auto simp: Let_def split: option.split)

lemma sent_after_append: "sent_after em (xs @ ys) = sent_after (sent_after em xs) ys"
  by (induction xs arbitrary: em) (auto split: option.split)

text \<open>What a watcher past its replay has been sent since, if nothing was dropped.\<close>

definition faithful_since :: "'p PerWatcher \<Rightarrow> 'p PerWatcher \<Rightarrow> bool" where
  "faithful_since w w' \<longleftrightarrow> pw_drops w \<le> pw_drops w' \<and>
     (pw_drops w' = pw_drops w \<longrightarrow>
        (\<exists>new. pw_sent w' = pw_sent w @ new \<and> in_order (map_of (pw_emitted w)) new \<and>
           (\<not> pw_closed w' \<longrightarrow> map_of (pw_emitted w') = sent_after (map_of (pw_emitted w)) new)))"

lemma dedup_known:
  assumes "accessor obj = Some m" and "\<not> pw_closed w" and "et = Deleted \<or> map_of (pw_emitted w) (refKey (om_ns m) (om_name m)) = None \<or>
      (\<exists>prev. map_of (pw_emitted w) (refKey (om_ns m) (om_name m)) = Some prev \<and> mh_rvLess prev (om_rv m))"
  shows "dedupEmit et obj w = emit \<lparr>ev_type = et, ev_obj = obj\<rparr> (w\<lparr>pw_emitted :=
     (if et = Deleted then adel (refKey (om_ns m) (om_name m)) else aput (refKey (om_ns m) (om_name m)) (om_rv m)) (pw_emitted w)\<rparr>)"
  using assms by (auto simp: dedupEmit_def Let_def)

lemma emit_faithful:
  assumes "\<not> pw_closed w" and "in_order (map_of (pw_emitted w)) [ev]" and "map_of em = sent_after (map_of (pw_emitted w)) [ev]"
  shows "faithful_since w (emit ev (w\<lparr>pw_emitted := em\<rparr>))"
proof (cases "length (pw_sent w) - pw_taken w < pw_cap w")
  case True
  then show ?thesis unfolding faithful_since_def
    using assms by (intro conjI impI exI [of _ "[ev]"]) (simp_all add: emit_def)
qed (simp add: faithful_since_def emit_def assms(1))

lemma dedup_faithful: "faithful_since w (dedupEmit et obj w)"
proof (cases "pw_closed w")
  case True
  then show ?thesis by (simp add: faithful_since_def dedupEmit_def emit_def Let_def split: option.split)
next
  case False
  show ?thesis
  proof (cases "accessor obj")
    case None
    then have "dedupEmit et obj w = emit \<lparr>ev_type = et, ev_obj = obj\<rparr> (w\<lparr>pw_emitted := pw_emitted w\<rparr>)"
      by (simp add: dedupEmit_def)
    then show ?thesis using emit_faithful [OF False, of "\<lparr>ev_type = et, ev_obj = obj\<rparr>" "pw_emitted w"] None by simp
  next
    case (Some m)
    let ?k = "refKey (om_ns m) (om_name m)"
    show ?thesis
    proof (cases "et = Deleted \<or> map_of (pw_emitted w) ?k = None \<or> (\<exists>prev. map_of (pw_emitted w) ?k = Some prev \<and> mh_rvLess prev (om_rv m))")
      case True
      show ?thesis
        unfolding dedup_known [OF Some False True]
        by (rule emit_faithful [OF False]) (use True Some in \<open>auto simp: Let_def\<close>)
    next
      case stale: False
      then have "dedupEmit et obj w = w" using Some by (auto simp: dedupEmit_def Let_def)
      then show ?thesis by (simp add: faithful_since_def)
    qed
  qed
qed

lemma faithful_same: "pw_sent w' = pw_sent w \<Longrightarrow> pw_drops w' = pw_drops w \<Longrightarrow> pw_emitted w' = pw_emitted w \<Longrightarrow> faithful_since w w'"
  by (simp add: faithful_since_def)

lemma wstep_faithful: "wstep False w w' \<Longrightarrow> \<not> replaying w \<Longrightarrow> faithful_since w w'"
proof (induction rule: wstep.induct)
  case (dedup w et obj)
  show ?case by (rule dedup_faithful)
qed (auto simp: replaying_def faithful_same)

lemma closed_silent: "wstep shd w w' \<Longrightarrow> pw_closed w \<Longrightarrow> pw_closed w' \<and> pw_sent w' = pw_sent w"
  by (induction rule: wstep.induct)
     (auto simp: dedupEmit_def emit_def Let_def replayOne_def setStage_def split: option.split)

lemma faithful_step:
  assumes ab: "faithful_since a b" and bc: "faithful_since b c" and silent: "pw_closed b \<longrightarrow> pw_closed c \<and> pw_sent c = pw_sent b"
  shows "faithful_since a c"
proof -
  have mono: "pw_drops a \<le> pw_drops b" "pw_drops b \<le> pw_drops c" using ab bc by (simp_all add: faithful_since_def)
  have "\<exists>new. pw_sent c = pw_sent a @ new \<and> in_order (map_of (pw_emitted a)) new \<and>
        (\<not> pw_closed c \<longrightarrow> map_of (pw_emitted c) = sent_after (map_of (pw_emitted a)) new)" if d: "pw_drops c = pw_drops a"
  proof -
    obtain x where x: "pw_sent b = pw_sent a @ x" "in_order (map_of (pw_emitted a)) x"
      "\<not> pw_closed b \<longrightarrow> map_of (pw_emitted b) = sent_after (map_of (pw_emitted a)) x"
      using ab d mono by (auto simp: faithful_since_def)
    obtain y where y: "pw_sent c = pw_sent b @ y" "in_order (map_of (pw_emitted b)) y"
      "\<not> pw_closed c \<longrightarrow> map_of (pw_emitted c) = sent_after (map_of (pw_emitted b)) y"
      using bc d mono by (auto simp: faithful_since_def)
    show ?thesis
    proof (cases "pw_closed b")
      case True
      then show ?thesis using silent x by auto
    next
      case False
      then have "in_order (map_of (pw_emitted a)) (x @ y)" using x y by (simp add: in_order_append)
      then show ?thesis using x y False by (intro exI [of _ "x @ y"]) (simp add: sent_after_append)
    qed
  qed
  then show ?thesis using mono by (simp add: faithful_since_def)
qed

lemma wsteps_faithful: "(wstep False)\<^sup>*\<^sup>* w w' \<Longrightarrow> \<not> replaying w \<Longrightarrow> faithful_since w w'"
proof (induction rule: rtranclp_induct)
  case (step b c)
  then have "\<not> replaying b" using wsteps_live by blast
  then show ?case using step wstep_faithful closed_silent faithful_step by metis
qed (simp add: faithful_same)


section \<open>The replay\<close>

lemma emit_take:
  assumes "\<not> pw_closed w" and "pw_taken w = 0" and "length (pw_sent w) \<le> pw_cap w"
  shows "pw_sent (emit ev w) = take (pw_cap w) (pw_sent w @ [ev])"
    and "pw_drops (emit ev w) = pw_drops w + (length (pw_sent w @ [ev]) - pw_cap w)"
  using assms by (auto simp: emit_def not_less)

lemma emit_frame [simp]: "pw_cap (emit ev w) = pw_cap w" "pw_taken (emit ev w) = pw_taken w" "pw_mode (emit ev w) = pw_mode w"
  "pw_ns (emit ev w) = pw_ns w" "pw_sel (emit ev w) = pw_sel w" "pw_bookmarkRV (emit ev w) = pw_bookmarkRV w"
  by (simp_all add: emit_def)

lemma pw_matches_cong: "pw_ns w' = pw_ns w \<Longrightarrow> pw_sel w' = pw_sel w \<Longrightarrow> pw_matches w' = pw_matches w"
  by (rule ext) (simp only: pw_matches_def)

definition replayEvents :: "'p PerWatcher \<Rightarrow> 'p robj list \<Rightarrow> 'p event list" where
  "replayEvents w xs = map (\<lambda>x. \<lparr>ev_type = Added, ev_obj = x\<rparr>) (filter (pw_matches w) xs)"

lemma replayOne_sent:
  assumes "\<not> pw_closed w" and "pw_taken w = 0" and "length (pw_sent w) \<le> pw_cap w"
    and w': "w' = replayOne x w"
  shows "pw_sent w' = take (pw_cap w) (pw_sent w @ replayEvents w [x])"
    and "pw_drops w' = pw_drops w + (length (pw_sent w @ replayEvents w [x]) - pw_cap w)"
    and "pw_cap w' = pw_cap w \<and> pw_taken w' = pw_taken w \<and> pw_mode w' = pw_mode w \<and> pw_ns w' = pw_ns w \<and> pw_sel w' = pw_sel w \<and>
      pw_bookmarkRV w' = pw_bookmarkRV w \<and> \<not> pw_closed w'"
  using assms by (auto simp: replayOne_def replayEvents_def emit_take split: option.split)

lemma take_again: "take k (take k u @ b) = take k (u @ b)"
  by (cases "length u \<le> k") simp_all

lemma drops_again: "(length u - k) + (length (take k u @ b) - k) = length (u @ b) - k"
  by (cases "length u \<le> k") simp_all

lemma replay_run:
  assumes "map_of (hb_made s) i = Some w" and "pw_stage w = Replaying xs" and "\<not> pw_closed w" and "pw_taken w = 0" and "length (pw_sent w) \<le> pw_cap w"
    and "evs = pw_sent w @ replayEvents w xs @ [bookmarkEvent (ws_NewBookmark (hu_stitcher U)) (pw_bookmarkRV w)]"
  shows "\<exists>w'. map_of (hb_made ((pipelineStep U i ^^ (length xs + 1)) s)) i = Some w' \<and> pw_stage w' = liveStage U (pw_mode w) \<and>
     pw_sent w' = take (pw_cap w) evs \<and> pw_drops w' = pw_drops w + (length evs - pw_cap w)"
  using assms
proof (induction xs arbitrary: s w evs)
  case Nil
  let ?w = "setStage (liveStage U (pw_mode w)) (emit (bookmarkEvent (ws_NewBookmark (hu_stitcher U)) (pw_bookmarkRV w)) w)"
  have "map_of (hb_made ((pipelineStep U i ^^ (length ([] :: 'a robj list) + 1)) s)) i = Some ?w"
    using Nil.prems(1,2) by (simp add: pipelineStep_def made_onWatcher)
  then show ?case
    using emit_take [OF Nil.prems(3-5)] Nil.prems(6) by (simp add: setStage_def replayEvents_def)
next
  case (Cons x xs)
  let ?w = "setStage (Replaying xs) (replayOne x w)" and ?s = "pipelineStep U i s"
  let ?bm = "bookmarkEvent (ws_NewBookmark (hu_stitcher U)) (pw_bookmarkRV w)"
  note one = replayOne_sent [OF Cons.prems(3-5) refl, of x]
  have made: "map_of (hb_made ?s) i = Some ?w" using Cons.prems(1,2) by (simp add: pipelineStep_def made_onWatcher)
  have sel: "pw_sent ?w = pw_sent (replayOne x w)" "pw_drops ?w = pw_drops (replayOne x w)" "pw_cap ?w = pw_cap w" "pw_mode ?w = pw_mode w"
    "pw_bookmarkRV ?w = pw_bookmarkRV w" "pw_taken ?w = 0" "\<not> pw_closed ?w" "pw_stage ?w = Replaying xs" "pw_matches ?w = pw_matches w"
    using one(3) Cons.prems(4) pw_matches_cong [of ?w w] by (simp_all add: setStage_def)
  have sent: "pw_sent ?w = take (pw_cap w) (pw_sent w @ replayEvents w [x])" "replayEvents ?w xs = replayEvents w xs"
    by (simp_all only: sel one(1) replayEvents_def)
  have cat: "replayEvents w (x # xs) = replayEvents w [x] @ replayEvents w xs" by (simp add: replayEvents_def)
  have le: "length (pw_sent ?w) \<le> pw_cap ?w" by (simp add: sent sel)
  obtain w' where w': "map_of (hb_made ((pipelineStep U i ^^ (length xs + 1)) ?s)) i = Some w'" "pw_stage w' = liveStage U (pw_mode w)"
    "pw_sent w' = take (pw_cap w) (take (pw_cap w) (pw_sent w @ replayEvents w [x]) @ replayEvents w xs @ [?bm])"
    "pw_drops w' = pw_drops (replayOne x w) + (length (take (pw_cap w) (pw_sent w @ replayEvents w [x]) @ replayEvents w xs @ [?bm]) - pw_cap w)"
    using Cons.IH [OF made sel(8,7,6) le refl] unfolding sent(2) sel(2-5) sent(1) by (elim exE conjE) (rule that)
  have "(pipelineStep U i ^^ (length (x # xs) + 1)) s = (pipelineStep U i ^^ (length xs + 1)) ?s" by (simp add: funpow_swap1)
  moreover have "evs = (pw_sent w @ replayEvents w [x]) @ replayEvents w xs @ [?bm]" by (simp add: Cons.prems(6) cat)
  ultimately show ?case
    using w' drops_again [of "pw_sent w @ replayEvents w [x]" "pw_cap w" "replayEvents w xs @ [?bm]"]
    unfolding one(2) take_again by (intro exI [of _ w']) (simp only: add.assoc simp_thms)
qed


section \<open>What a metadata event does\<close>

lemma cacheGet_bc: "cacheGet H B ns nm (n\<lparr>nd_bc := x\<rparr>) = cacheGet H B ns nm n"
  and cacheGet_rv: "cacheGet H B ns nm (SetCurrentResourceVersion rv n) = cacheGet H B ns nm n"
  by (simp_all add: cacheGet_def SetCurrentResourceVersion_def)

text \<open>Once the body is out of the cache nothing can be stitched for anyone.\<close>

lemma StitchFor_absent:
  assumes "cacheGet H (mr_bodies r) ns nm n = None"
  shows "StitchFor H r u ns nm n = (None, n\<lparr>nd_bc := (nd_bc n)\<lparr>bc_GetCalls := bc_GetCalls (nd_bc n) + 1\<rparr>\<rparr>)"
  using assms by (simp add: StitchFor_def GetFor_def cacheGet_bc)

lemma metaFanout_absent:
  assumes "cacheGet H (mr_bodies r) (rf_namespace ref) (rf_name ref) (hb_node s) = None"
    and "\<forall>k. map_of c k = None \<or> map_of c k = Some None"
  shows "map_of (hb_made (metaFanout (restHub H r v ks) et ref is c s)) = map_of (hb_made s)"
  using assms
proof (induction "is" arbitrary: c s)
  case (Cons i "is")
  show ?case
  proof (cases "\<exists>w. map_of (hb_made s) i = Some w \<and> (pw_ns w = [] \<or> pw_ns w = rf_namespace ref)")
    case True
    then obtain w where w: "map_of (hb_made s) i = Some w" "pw_ns w = [] \<or> pw_ns w = rf_namespace ref" by blast
    obtain obj c1 s1 where g: "getCache_get (restHub H r v ks) (pw_identity w) (rf_namespace ref) (rf_name ref) c s = (obj, c1, s1)"
      by (cases "getCache_get (restHub H r v ks) (pw_identity w) (rf_namespace ref) (rf_name ref) c s")
    have obj: "obj = None" and c1: "\<forall>k. map_of c1 k = None \<or> map_of c1 k = Some None" and s1: "hb_made s1 = hb_made s"
      and n1: "cacheGet H (mr_bodies r) (rf_namespace ref) (rf_name ref) (hb_node s1) = None"
      using g Cons.prems StitchFor_absent [OF Cons.prems(1)]
      by (auto simp: getCache_get_def restHub_def cacheGet_bc split: option.splits)
         (metis option.distinct(1) option.inject)+
    let ?t = "onWatcher i (fanoutTo et obj) s1"
    have t: "map_of (hb_made ?t) = map_of (hb_made s)" using w obj s1 by (auto simp: fun_eq_iff made_onWatcher fanoutTo_def)
    have "map_of (hb_made (metaFanout (restHub H r v ks) et ref is c1 ?t)) = map_of (hb_made ?t)"
      by (rule Cons.IH [OF _ c1]) (simp add: n1)
    then show ?thesis using w g t by auto
  next
    case False
    then show ?thesis using Cons by (auto split: option.split)
  qed
qed simp

text \<open>
  Deletions do not reach the watchers: a DELETED event is stitched from the body, so once the body
  has left the informer cache neither the metadata event nor the push or poll source nor the shared
  poll loop sends anything to anyone.
\<close>

theorem deletion_never_sent:
  assumes "cacheGet H (mr_bodies r) (rf_namespace ref) (rf_name ref) (hb_node s) = None"
  shows "map_of (hb_made (OnMetadataEvent (restHub H r v ks) Deleted ref rec rv s)) = map_of (hb_made s) \<and>
     hb_made (emitBackendChange (restHub H r v ks) i
       \<lparr>bch_type = BodyDeleted, bch_ns = rf_namespace ref, bch_name = rf_name ref, bch_body = body\<rparr> s) = hb_made s \<and>
     hb_made (sharedFanout (restHub H r v ks) BodyDeleted (rf_namespace ref) (rf_name ref) s) = hb_made s"
proof (intro conjI)
  let ?s0 = "s\<lparr>hb_node := SetCurrentResourceVersion rv (hb_node s)\<rparr>"
  let ?s1 = "?s0\<lparr>hb_lastSig := adel (RecordName ref) (hb_lastSig s), hb_cnt := (hb_cnt s)\<lparr>hk_fanout := hk_fanout (hb_cnt s) + 1\<rparr>\<rparr>"
  have "map_of (hb_made (metaFanout (restHub H r v ks) Deleted ref (hu_visit (restHub H r v ks) (hb_registry s)) [] ?s1)) = map_of (hb_made ?s1)"
    by (rule metaFanout_absent) (simp_all add: cacheGet_rv assms)
  then show "map_of (hb_made (OnMetadataEvent (restHub H r v ks) Deleted ref rec rv s)) = map_of (hb_made s)"
    by (simp add: OnMetadataEvent_def emissionFilter_def Let_def)
  note absent = StitchFor_absent [OF assms]
  show "hb_made (emitBackendChange (restHub H r v ks) i
       \<lparr>bch_type = BodyDeleted, bch_ns = rf_namespace ref, bch_name = rf_name ref, bch_body = body\<rparr> s) = hb_made s"
    by (simp add: emitBackendChange_def restHub_def absent split: option.split)
  show "hb_made (sharedFanout (restHub H r v ks) BodyDeleted (rf_namespace ref) (rf_name ref) s) = hb_made s"
    by (simp add: sharedFanout_def restHub_def absent)
qed

lemma metaFanout_lastSig: "hb_lastSig (metaFanout U et ref is c s) = hb_lastSig s"
proof (induction "is" arbitrary: c s)
  case (Cons i "is")
  then show ?case by (auto dest: getCache_made split: option.split prod.split)
qed simp

lemma filter_same: "map_of (hb_lastSig t) (RecordName ref) = Some (VisibleSignature rec) \<Longrightarrow>
    OnMetadataEvent U Modified ref rec rv t = t\<lparr>hb_node := SetCurrentResourceVersion rv (hb_node t)\<rparr>"
  by (simp add: OnMetadataEvent_def emissionFilter_def)

lemma filter_change: "map_of sigs (RecordName ref) = Some g \<Longrightarrow> VisibleSignature rec \<noteq> g \<Longrightarrow> emissionFilter Modified ref rec sigs \<noteq> None"
  by (auto simp: emissionFilter_def Let_def)

text \<open>
  After an event that made an object visible, taking, renewing or releasing its lock changes nothing
  but the high-water mark: such an update reaches no watcher and touches no other state of the hub,
  while an update that changes the body hash passes the filter.
\<close>

theorem lock_churn_suppressed:
  assumes "et = Added \<or> et = Modified"
  shows "let s1 = OnMetadataEvent U et ref rec rv s in
     OnMetadataEvent U Modified ref (rec\<lparr>rc_lock := l, rc_recordRV := rv', rc_recordUID := u\<rparr>) rv' s1 =
       s1\<lparr>hb_node := SetCurrentResourceVersion rv' (hb_node s1)\<rparr> \<and>
     (h \<noteq> rc_hash rec \<longrightarrow> emissionFilter Modified ref (rec\<lparr>rc_hash := h, rc_lock := l\<rparr>) (hb_lastSig s1) \<noteq> None)"
proof -
  let ?s1 = "OnMetadataEvent U et ref rec rv s"
  have sig: "map_of (hb_lastSig ?s1) (RecordName ref) = Some (VisibleSignature rec)"
    using assms by (auto simp: OnMetadataEvent_def emissionFilter_def Let_def metaFanout_lastSig)
  moreover have "VisibleSignature (rec\<lparr>rc_lock := l, rc_recordRV := rv', rc_recordUID := u\<rparr>) = VisibleSignature rec"
    by (simp add: VisibleSignature_def)
  moreover have "h \<noteq> rc_hash rec \<Longrightarrow> VisibleSignature (rec\<lparr>rc_hash := h, rc_lock := l\<rparr>) \<noteq> VisibleSignature rec"
    by (simp add: VisibleSignature_def)
  ultimately show ?thesis
    unfolding Let_def using filter_same filter_change by metis
qed

lemma cacheKey_eq: "cacheKey u ns nm = cacheKey v ns nm \<longleftrightarrow> identityKey u = identityKey v"
  by (simp add: cacheKey_def)

text \<open>What an event does to a watcher of the namespace.\<close>

definition entitled :: "event_type \<Rightarrow> string \<Rightarrow> (user option \<Rightarrow> 'p robj option) \<Rightarrow> 'p PerWatcher \<Rightarrow> 'p PerWatcher" where
  "entitled et ns x w = (if pw_ns w = [] \<or> pw_ns w = ns then fanoutTo et (x (pw_identity w)) w else w)"

text \<open>
  What the hub relies on in its stitcher: for one object, and as long as \<open>P\<close> holds of the
  replica, it answers every caller with \<open>x\<close> and keeps \<open>P\<close>.
\<close>

locale watch_stitcher =
  fixes U :: "('h, 'p) Hub" and ns nm :: string and P :: "'h node \<Rightarrow> bool" and x :: "user option \<Rightarrow> 'p robj option"
  assumes answers: "P n \<Longrightarrow> fst (ws_StitchFor (hu_stitcher U) u ns nm n) = x u"
    and keeps: "P n \<Longrightarrow> P (snd (ws_StitchFor (hu_stitcher U) u ns nm n))"

context watch_stitcher
begin

lemma getCache_steady:
  assumes "P (hb_node s)" and "map_of c (cacheKey u ns nm) \<in> {None, Some (x u)}"
    and "getCache_get U u ns nm c s = (obj, c1, s1)"
  shows "obj = x u" and "P (hb_node s1)" and "map_of c1 = (map_of c)(cacheKey u ns nm \<mapsto> x u)"
  using assms answers [OF assms(1), of u] keeps [OF assms(1), of u] by (auto simp: getCache_get_def split_beta split: option.splits)

lemma metaFanout_entitled:
  assumes "rf_namespace ref = ns" and "rf_name ref = nm" and "P (hb_node s)" and "distinct is"
    and "\<forall>i\<in>set is. \<forall>w. map_of (hb_made s) i = Some w \<longrightarrow> pw_identity w \<in> ids"
    and "\<forall>u\<in>ids. \<forall>v\<in>ids. identityKey u = identityKey v \<longrightarrow> u = v"
    and "\<forall>u\<in>ids. map_of c (cacheKey u ns nm) \<in> {None, Some (x u)}"
  shows "map_of (hb_made (metaFanout U et ref is c s)) i =
     (if i \<in> set is then map_option (entitled et ns x) (map_of (hb_made s) i) else map_of (hb_made s) i)"
  using assms
proof (induction "is" arbitrary: c s)
  case (Cons j "is")
  show ?case
  proof (cases "\<exists>w. map_of (hb_made s) j = Some w \<and> (pw_ns w = [] \<or> pw_ns w = ns)")
    case True
    then obtain w where w: "map_of (hb_made s) j = Some w" "pw_ns w = [] \<or> pw_ns w = ns" by blast
    obtain obj c1 s1 where g: "getCache_get U (pw_identity w) ns nm c s = (obj, c1, s1)"
      by (cases "getCache_get U (pw_identity w) ns nm c s")
    have id: "pw_identity w \<in> ids" using Cons.prems(5) w(1) by simp
    then have "map_of c (cacheKey (pw_identity w) ns nm) \<in> {None, Some (x (pw_identity w))}" using Cons.prems(7) by blast
    note st = getCache_steady [OF Cons.prems(3) this g]
    let ?t = "onWatcher j (fanoutTo et obj) s1"
    have made: "hb_made s1 = hb_made s" using getCache_made [OF g] by blast
    have d: "distinct is" "j \<notin> set is" using Cons.prems(4) by auto
    have ids: "\<forall>i\<in>set is. \<forall>w. map_of (hb_made ?t) i = Some w \<longrightarrow> pw_identity w \<in> ids"
      using Cons.prems(5) d made by (auto simp: made_onWatcher split: if_splits)
    have cached: "\<forall>u\<in>ids. map_of c1 (cacheKey u ns nm) \<in> {None, Some (x u)}"
      using Cons.prems(6,7) id by (auto simp: st(3) cacheKey_eq)
    have "P (hb_node ?t)" using st(2) by simp
    from Cons.IH [OF Cons.prems(1,2) this d(1) ids Cons.prems(6) cached]
    have "map_of (hb_made (metaFanout U et ref is c1 ?t)) i =
       (if i \<in> set is then map_option (entitled et ns x) (map_of (hb_made ?t) i) else map_of (hb_made ?t) i)" .
    moreover have "metaFanout U et ref (j # is) c s = metaFanout U et ref is c1 ?t" using w g Cons.prems(1,2) by auto
    moreover have "entitled et ns x w = fanoutTo et obj w" using w(2) st(1) by (simp add: entitled_def)
    ultimately show ?thesis using d made w(1) by (auto simp: made_onWatcher)
  next
    case False
    then have "metaFanout U et ref (j # is) c s = metaFanout U et ref is c s" using Cons.prems(1) by (auto split: option.split)
    moreover have "map_of (hb_made s) j = Some w \<Longrightarrow> entitled et ns x w = w" for w using False by (simp add: entitled_def)
    moreover have "map_of (hb_made (metaFanout U et ref is c s)) i =
       (if i \<in> set is then map_option (entitled et ns x) (map_of (hb_made s) i) else map_of (hb_made s) i)"
      using Cons.IH [OF Cons.prems(1-3) _ _ Cons.prems(6,7)] Cons.prems(4,5) by simp
    ultimately show ?thesis using Cons.prems(4) by (cases "map_of (hb_made s) i") auto
  qed
qed simp

end


text \<open>
  The cache of stitched objects is keyed by the caller's name alone: of two live watchers whose
  callers have one name, the one visited second is sent the object stitched for the first, whether or
  not the gate admits its own groups.
\<close>

theorem getCache_crosses_groups:
  assumes "map_of (hb_made s) i = Some v" and "map_of (hb_made s) j = Some w" and "i \<noteq> j"
    and "hu_visit U (hb_registry s) = [i, j]" and "pw_ns v = []" and "pw_ns w = []"
    and "identityKey (pw_identity v) = identityKey (pw_identity w)"
    and "fst (ws_StitchFor (hu_stitcher U) (pw_identity v) (rf_namespace ref) (rf_name ref) (SetCurrentResourceVersion rv (hb_node s))) = Some obj"
    and "accessor obj = Some m" and "map_of (pw_emitted w) (refKey (om_ns m) (om_name m)) = None"
    and "\<not> pw_closed w" and "length (pw_sent w) - pw_taken w < pw_cap w" and "pw_matches w obj"
  shows "\<exists>w'. map_of (hb_made (OnMetadataEvent U Added ref rec rv s)) j = Some w' \<and>
     pw_sent w' = pw_sent w @ [\<lparr>ev_type = Added, ev_obj = obj\<rparr>]"
proof -
  let ?ns = "rf_namespace ref" and ?nm = "rf_name ref"
  let ?s0 = "s\<lparr>hb_node := SetCurrentResourceVersion rv (hb_node s)\<rparr>"
  let ?s1 = "?s0\<lparr>hb_lastSig := aput (RecordName ref) (VisibleSignature rec) (hb_lastSig s), hb_cnt := (hb_cnt s)\<lparr>hk_fanout := hk_fanout (hb_cnt s) + 1\<rparr>\<rparr>"
  have ev: "OnMetadataEvent U Added ref rec rv s = metaFanout U Added ref [i, j] [] ?s1"
    by (simp add: OnMetadataEvent_def emissionFilter_def Let_def assms(4))
  obtain c1 s2 where g1: "getCache_get U (pw_identity v) ?ns ?nm [] ?s1 = (Some obj, c1, s2)"
    and c1: "map_of c1 (cacheKey (pw_identity v) ?ns ?nm) = Some (Some obj)" and s2: "hb_made s2 = hb_made s"
    using assms(8) by (simp add: getCache_get_def split_beta)
  let ?s3 = "onWatcher i (fanoutTo Added (Some obj)) s2"
  have key: "map_of c1 (cacheKey (pw_identity w) ?ns ?nm) = Some (Some obj)" using c1 assms(7) by (simp add: cacheKey_def)
  have wj: "map_of (hb_made ?s3) j = Some w" using assms(2,3) s2 by (simp add: made_onWatcher)
  obtain s4 where g2: "getCache_get U (pw_identity w) ?ns ?nm c1 ?s3 = (Some obj, c1, s4)" and s4: "hb_made s4 = hb_made ?s3"
    using key by (simp add: getCache_get_def)
  have "OnMetadataEvent U Added ref rec rv s = onWatcher j (fanoutTo Added (Some obj)) s4"
    using ev g1 g2 assms(1,5,6) wj by simp
  then have "map_of (hb_made (OnMetadataEvent U Added ref rec rv s)) j = Some (fanoutTo Added (Some obj) w)"
    using wj s4 by (simp add: made_onWatcher)
  moreover have "pw_sent (fanoutTo Added (Some obj) w) = pw_sent w @ [\<lparr>ev_type = Added, ev_obj = obj\<rparr>]"
    using assms(9-13) by (simp add: fanoutTo_def dedupEmit_def emit_def Let_def)
  ultimately show ?thesis by blast
qed

section \<open>Stopping early\<close>

text \<open>
  A watch that is stopped before its push subscription opens leaks it: the pipeline opens the
  subscription all the same, and since the watcher is closed neither a second \<open>Stop\<close> nor the
  pipeline, which ends, ever releases it or its slot of the upstream budget.
\<close>

theorem early_stop_leaks:
  assumes "map_of (hb_made s) i = Some w" and "pw_stage w = Opening" and "pw_sub w = None" and "\<not> pw_closed w"
    and "WatchFor (hu_backend U) (pw_identity w) (hc_buffer (hu_cfg U)) (hb_node s) = (Some j, n1)"
  shows "let s2 = pipelineStep U i (Stop i s) in
     map_of (nd_subs (hb_node s2)) j \<noteq> None \<and> i \<notin> set (hb_registry s2) \<and> Stop i s2 = s2 \<and>
     (\<forall>k. hb_node ((pipelineStep U i ^^ k) s2) = hb_node s2)"
proof -
  let ?w1 = "w\<lparr>pw_closed := True\<rparr>" and ?w2 = "w\<lparr>pw_closed := True, pw_sub := Some j, pw_stage := Pushing j\<rparr>"
  let ?s1 = "Stop i s" and ?s2 = "pipelineStep U i (Stop i s)"
  have s1: "map_of (hb_made ?s1) i = Some ?w1" "hb_node ?s1 = hb_node s" "i \<notin> set (hb_registry ?s1)"
    using assms(1,3,4) by (simp_all add: Stop_def)
  have step: "?s2 = onWatcher i (\<lambda>w. w\<lparr>pw_sub := Some j, pw_stage := Pushing j\<rparr>) (?s1\<lparr>hb_node := n1\<rparr>)"
    using s1 assms(2,5) by (simp add: pipelineStep_def runPush_def)
  have w2: "map_of (hb_made ?s2) i = Some ?w2" using s1 by (simp add: step made_onWatcher)
  have "map_of (nd_subs n1) j \<noteq> None"
    using assms(5) by (auto simp: WatchFor_def Let_def split_beta split: if_splits)
  moreover have "hb_node ?s2 = n1" "i \<notin> set (hb_registry ?s2)" using s1(3) by (simp_all add: step)
  moreover have "Stop i ?s2 = ?s2" using w2 by (simp add: Stop_def)
  moreover have "hb_node ((pipelineStep U i ^^ k) ?s2) = hb_node ?s2 \<and>
      (\<exists>v. map_of (hb_made ((pipelineStep U i ^^ k) ?s2)) i = Some v \<and> pw_closed v \<and> (pw_stage v = Pushing j \<or> pw_stage v = Finished))" for k
  proof (induction k)
    case (Suc k)
    then show ?case by (auto simp: pipelineStep_def pushOne_def made_onWatcher setStage_def)
  qed (simp add: w2)
  ultimately show ?thesis unfolding Let_def by (metis (no_types))
qed

section \<open>Polling\<close>

text \<open>The changes between a snapshot and a listing, as a specification.\<close>

definition bodyDiff :: "(string \<rightharpoonup> string) \<Rightarrow> BodyRef \<Rightarrow> BodyChange list" where
  "bodyDiff old r =
     (let change = (\<lambda>ct. \<lparr>bch_type = ct, bch_ns = br_ns r, bch_name = br_name r, bch_body = br_body r\<rparr>) in
      case old (brKey r) of
        None \<Rightarrow> [change BodyAdded]
      | Some h \<Rightarrow> if h = HashBody (br_body r) then [] else [change BodyModified])"

lemma listedChanges_diff:
  "distinct (map brKey refs) \<Longrightarrow> \<forall>r\<in>set refs. old (brKey r) = map_of snap (brKey r) \<Longrightarrow>
   fst (listedChanges refs snap) = concat (map (bodyDiff old) refs) \<and>
   map_of (snd (listedChanges refs snap)) = map_of snap ++ map_of (rev (map (\<lambda>r. (brKey r, HashBody (br_body r))) refs))"
proof (induction refs arbitrary: snap)
  case (Cons r refs)
  let ?m = "aput (brKey r) (HashBody (br_body r)) snap"
  have d: "distinct (map brKey refs)" "brKey r \<notin> brKey ` set refs" using Cons.prems(1) by auto
  have old: "\<forall>r\<in>set refs. old (brKey r) = map_of snap (brKey r)" "\<forall>r\<in>set refs. old (brKey r) = map_of ?m (brKey r)"
    using Cons.prems(2) d(2) by (auto simp: image_iff)
  have fresh: "map_of (rev (map (\<lambda>r. (brKey r, HashBody (br_body r))) refs)) (brKey r) = None"
    using d(2) by (auto simp: map_of_eq_None_iff)
  have o: "old (brKey r) = map_of snap (brKey r)" using Cons.prems(2) by simp
  have same: "map_of snap (brKey r) = Some (HashBody (br_body r)) \<Longrightarrow> map_of ?m = map_of snap" by auto
  show ?case
    using Cons.IH [OF d(1) old(1)] Cons.IH [OF d(1) old(2)] o same
    by (auto simp: bodyDiff_def Let_def split_beta map_add_def fun_eq_iff fresh split: option.split)
qed simp

lemma map_of_adels: "map_of (foldl (\<lambda>m k. adel k m) m ks) = (map_of m) |` (- set ks)"
  by (induction ks arbitrary: m) (auto simp: restrict_map_def fun_eq_iff)

text \<open>
  C28: A round of a poll loop, per watcher or shared, computes the difference between its snapshot and
  the listing: the additions and modifications in the order of the listing, one deletion for each key
  that is gone, and a snapshot that holds exactly the hashes of the listing.
\<close>

theorem poll_round_equiv_diff:
  assumes "distinct (map brKey refs)" and "distinct (akeys snap)" and "\<forall>l. mset (visit l) = mset l"
    and "roundChanges visit refs snap = (cs, snap')"
  shows "\<exists>gone. cs = concat (map (bodyDiff (map_of snap)) refs) @ map goneChange gone \<and>
     distinct gone \<and> set gone = set (akeys snap) - set (map brKey refs) \<and>
     map_of snap' = map_of (map (\<lambda>r. (brKey r, HashBody (br_body r))) refs)"
proof -
  obtain c1 m1 where l: "listedChanges refs snap = (c1, m1)" by (cases "listedChanges refs snap")
  let ?kv = "map (\<lambda>r. (brKey r, HashBody (br_body r))) refs" and ?gone = "filter (\<lambda>k. k \<notin> set (map brKey refs)) (visit (akeys m1))"
  have c1: "c1 = concat (map (bodyDiff (map_of snap)) refs)" and m1: "map_of m1 = map_of snap ++ map_of (rev ?kv)"
    using listedChanges_diff [OF assms(1), of "map_of snap" snap] l by auto
  have rev: "map_of (rev ?kv) = map_of ?kv"
    by (intro map_of_inject_set [THEN iffD2]) (simp_all add: comp_def assms(1) rev_map [symmetric])
  have keys: "distinct (akeys (snd (listedChanges refs m)))" if "distinct (akeys m)" for m
    using that by (induction refs m rule: listedChanges.induct) (auto simp: Let_def split_beta split: option.split)
  have d: "distinct (akeys m1)" using keys [OF assms(2)] l by simp
  have dom: "set (akeys m1) = set (akeys snap) \<union> set (map brKey refs)"
    using arg_cong [OF m1, of dom] by (simp add: dom_map_of_conv_image_fst rev image_image Un_commute)
  have v: "set (visit (akeys m1)) = set (akeys m1)" "distinct (visit (akeys m1))"
    using assms(3) d by (metis mset_eq_setD, metis mset_eq_imp_distinct_iff)
  have cs: "cs = c1 @ map goneChange ?gone" "snap' = foldl (\<lambda>m k. adel k m) m1 ?gone"
    using assms(4) l by (auto simp: roundChanges_def Let_def)
  have gone: "set ?gone = set (akeys snap) - set (map brKey refs)" using v(1) dom by auto
  have "map_of snap' k = map_of ?kv k" for k
  proof (cases "k \<in> set (map brKey refs)")
    case True
    then have "k \<in> dom (map_of ?kv)" by (simp add: dom_map_of_conv_image_fst image_image)
    then show ?thesis using True gone by (auto simp: cs map_of_adels m1 rev map_add_def restrict_map_def)
  next
    case False
    then have "map_of ?kv k = None" by (auto simp: map_of_eq_None_iff)
    moreover have "map_of snap k = None" if "k \<notin> set ?gone" using that gone False by (auto simp: map_of_eq_None_iff)
    ultimately show ?thesis by (auto simp: cs map_of_adels m1 rev map_add_def restrict_map_def)
  qed
  then show ?thesis using cs c1 gone v(2) by (intro exI [of _ ?gone]) (auto simp: distinct_filter)
qed

section \<open>A watched replica\<close>

text \<open>
  The adapter of the tests over a host that holds one widget, its record and body in the caches; and
  two live watchers whose callers are both named alice, the first of them a system identity.
\<close>

definition watch_hub :: "(etcd, widget) Hub" where
  "watch_hub = restHub etcd_host (newTestREST (\<lambda>x. x)) (\<lambda>l. l) (\<lambda>l. l)"

definition stitched_widget :: "string \<Rightarrow> widget robj" where
  "stitched_widget owner = fst (stitch etcd_host (newTestREST (\<lambda>x. x)) test_ref (widget_body owner ''red'' 3)
     (recOf (GetFromCache (node_host etcd_host) test_store test_ref (new_node (stored_widget owner)))) (new_node (stored_widget owner)))"

definition shown_widget :: "string \<Rightarrow> user option \<Rightarrow> widget robj option" where
  "shown_widget owner u = (if DefaultIdentityGate u owner then Some (stitched_widget owner) else None)"

lemma stored_record:
  assumes "nd_host n = stored_widget owner"
  shows "GetFromCache (node_host etcd_host) test_store test_ref n =
      GetFromCache (node_host etcd_host) test_store test_ref (new_node (stored_widget owner))"
    and "\<exists>rec. GetFromCache (node_host etcd_host) test_store test_ref n = Inr (Some rec)"
proof -
  have at: "es_get (ms_gvr test_store) (RecordName test_ref) (stored_widget owner) = Inr \<lparr>un_group = [], un_version = [], un_kind = [],
      un_name = RecordName test_ref, un_uid = ''u'', un_rv = dec_nat 1, un_obj = [(''spec'', JObj [])]\<rparr>"
    by (simp add: es_get_def es_key_def stored_widget_def Let_def test_store_def)
  obtain rec where "decodeRecord (ms_checks test_store) \<lparr>un_group = [], un_version = [], un_kind = [],
      un_name = RecordName test_ref, un_uid = ''u'', un_rv = dec_nat 1, un_obj = [(''spec'', JObj [])]\<rparr> test_ref = Inr rec"
    using readable_decodes [OF one_readable] by blast
  moreover have "ms_started test_store" by (simp add: test_store_def)
  ultimately show "GetFromCache (node_host etcd_host) test_store test_ref n =
      GetFromCache (node_host etcd_host) test_store test_ref (new_node (stored_widget owner))"
    and "\<exists>rec. GetFromCache (node_host etcd_host) test_store test_ref n = Inr (Some rec)"
    using assms at by (simp_all add: GetFromCache_def node_host_def etcd_host_def new_node_def)
qed

lemma stitched_widget_meta: "\<exists>m p. stitched_widget owner = Obj m p \<and> om_name m = ''a'' \<and> om_ns m = ''default''"
proof -
  obtain rec where rec: "GetFromCache (node_host etcd_host) test_store test_ref (new_node (stored_widget owner)) = Inr (Some rec)"
    using stored_record(2) [of "new_node (stored_widget owner)" owner] by (auto simp: new_node_def)
  show ?thesis
    unfolding stitched_widget_def rec recOf_def
    by (simp add: stitch_def newTestREST_wired [OF refl] widgetConverter_def overlay_def test_ref_def empty_meta_def Let_def)
qed

lemma stored_cached:
  assumes "nd_host n = stored_widget owner"
  shows "cacheGet etcd_host (mr_bodies (newTestREST (\<lambda>x. x))) ''default'' ''a'' n = Some (widget_body owner ''red'' 3)"
proof -
  obtain u where u: "es_lookup (stored_widget owner) ''widgetbodies'' (BodyName ''default'' ''a'') = Some u"
    "bodyFromUnstructured u = widget_body owner ''red'' 3" using stored_widget_at(2) by blast
  then have "es_get (bs_gvr test_bodies) (BodyName ''default'' ''a'') (stored_widget owner) = Inr u"
    by (simp add: es_get_def es_key_def es_lookup_def test_bodies_def split: option.splits)
  then show ?thesis
    using assms u(2) by (simp add: cacheGet_def newTestREST_modes newTestREST_wired [OF refl] etcd_host_def)
qed

lemma stored_stitch:
  assumes n: "nd_host n = stored_widget owner"
  shows "fst (StitchFor etcd_host (newTestREST (\<lambda>x. x)) u ''default'' ''a'' n) = shown_widget owner u"
    and "nd_host (snd (StitchFor etcd_host (newTestREST (\<lambda>x. x)) u ''default'' ''a'' n)) = stored_widget owner"
proof -
  let ?r = "newTestREST (\<lambda>x. x)" and ?n1 = "n\<lparr>nd_bc := (nd_bc n)\<lparr>bc_GetCalls := bc_GetCalls (nd_bc n) + 1\<rparr>\<rparr>"
  have gate: "maySee (mr_bodies ?r) u (widget_body owner ''red'' 3) = DefaultIdentityGate u owner"
    by (simp add: maySee_def widget_body_def newTestREST_def mh_New_def mh_Start_def test_options_def Let_def NewBodyStore_def)
  have get: "GetFor etcd_host (mr_bodies ?r) u ''default'' ''a'' n = (if DefaultIdentityGate u owner then Some (widget_body owner ''red'' 3) else None, ?n1)"
    using stored_cached [OF n] by (simp add: GetFor_def Let_def cacheGet_bc gate)
  have n1: "nd_host ?n1 = stored_widget owner" using n by simp
  obtain rec where rec: "GetFromCache (node_host etcd_host) test_store test_ref ?n1 = Inr (Some rec)" using stored_record(2) [OF n1] by blast
  have look: "lookupRecord etcd_host ?r test_ref ?n1 = (Some rec, ?n1)"
    by (simp add: lookupRecord_def newTestREST_wired [OF refl] rec recOf_def)
  have rec0: "recOf (GetFromCache (node_host etcd_host) test_store test_ref (new_node (stored_widget owner))) = Some rec"
    unfolding recOf_def stored_record(1) [OF n1, symmetric] rec by simp
  obtain obj where st: "stitch etcd_host ?r test_ref (widget_body owner ''red'' 3) (Some rec) k = (obj, k)" for k
  proof -
    have "fst (stitch etcd_host ?r test_ref (widget_body owner ''red'' 3) (Some rec) k) =
        fst (stitch etcd_host ?r test_ref (widget_body owner ''red'' 3) (Some rec) k')" for k k'
      by (simp add: stitch_def Let_def split: robj.split)
    then show ?thesis using that stitch_known by (metis prod.collapse)
  qed
  have "stitched_widget owner = obj" by (simp add: stitched_widget_def rec0 st)
  then have "StitchFor etcd_host ?r u ''default'' ''a'' n = (shown_widget owner u, ?n1)"
    by (simp add: StitchFor_def get shown_widget_def newTestREST_wired [OF refl] look st)
  then show "fst (StitchFor etcd_host ?r u ''default'' ''a'' n) = shown_widget owner u"
    and "nd_host (snd (StitchFor etcd_host ?r u ''default'' ''a'' n)) = stored_widget owner"
    using n1 by simp_all
qed

interpretation stored: watch_stitcher watch_hub "''default''" "''a''" "\<lambda>n. nd_host n = stored_widget owner" "shown_widget owner"
  by unfold_locales (simp_all add: watch_hub_def restHub_def stored_stitch)

text \<open>A watch of every namespace without a selector, past its empty replay.\<close>

definition opened :: "user option \<Rightarrow> (etcd, widget) hub \<Rightarrow> (etcd, widget) hub" where
  "opened u s = (let (i, s1) = NewWatch watch_hub u [] None WatchPush [] s in pipelineStep watch_hub i s1)"

definition alice_admin :: "user option" where
  "alice_admin = Some \<lparr>u_name = ''alice'', u_groups = [''system:masters'']\<rparr>"

definition alice_plain :: "user option" where
  "alice_plain = Some \<lparr>u_name = ''alice'', u_groups = []\<rparr>"

definition one_watch :: "user option \<Rightarrow> string \<Rightarrow> (etcd, widget) hub" where
  "one_watch u owner = opened u (newHubState (new_node (stored_widget owner)))"

definition two_alices :: "(etcd, widget) hub" where
  "two_alices = opened alice_plain (one_watch alice_admin ''bob'')"

text \<open>A watcher that has been sent its bookmark and nothing else.\<close>

definition idle_watcher :: "user option \<Rightarrow> 'p PerWatcher \<Rightarrow> bool" where
  "idle_watcher u w \<longleftrightarrow> pw_identity w = u \<and> pw_ns w = [] \<and> pw_sel w = None \<and> pw_cap w = 100 \<and> length (pw_sent w) = 1 \<and>
     pw_taken w = 0 \<and> pw_drops w = 0 \<and> \<not> pw_closed w \<and> pw_emitted w = [] \<and> pw_sub w = None \<and> pw_stage w = Opening"

lemma watch_hub_cfg [simp]: "hu_cfg watch_hub = \<lparr>hc_shared = False, hc_interval = defaultPollInterval, hc_buffer = 100\<rparr>"
  "hu_visit watch_hub l = l"
  by (simp_all add: watch_hub_def restHub_def newTestREST_def mh_New_def mh_Start_def test_options_def Let_def NewHub_def defaultWatchBuffer_def)

lemma opened_watch:
  shows "\<exists>w. map_of (hb_made (opened u s)) = (map_of (hb_made s))(hb_nextID s + 1 \<mapsto> w) \<and> idle_watcher u w"
    and "hb_node (opened u s) = hb_node s" and "hb_registry (opened u s) = hb_registry s @ [hb_nextID s + 1]"
    and "hb_nextID (opened u s) = hb_nextID s + 1" and "hb_lastSig (opened u s) = hb_lastSig s"
proof -
  let ?i = "hb_nextID s + 1" and ?w = "newWatcher watch_hub u [] None WatchPush [] (nd_hubRV (hb_node s))"
  let ?s1 = "snd (NewWatch watch_hub u [] None WatchPush [] s)"
  let ?f = "setStage Opening \<circ> emit (bookmarkEvent (ws_NewBookmark (hu_stitcher watch_hub)) (pw_bookmarkRV ?w))"
  have w: "pw_stage ?w = Replaying []" "pw_mode ?w = WatchPush" "idle_watcher u (?f ?w)"
    by (simp_all add: idle_watcher_def newWatcher_def emit_def setStage_def)
  have live: "liveStage watch_hub WatchPush = Opening" by (simp add: liveStage_def)
  have s1: "map_of (hb_made ?s1) = (map_of (hb_made s))(?i \<mapsto> ?w)" "hb_node ?s1 = hb_node s" "hb_registry ?s1 = hb_registry s @ [?i]"
    "hb_nextID ?s1 = ?i" "hb_lastSig ?s1 = hb_lastSig s" "fst (NewWatch watch_hub u [] None WatchPush [] s) = ?i"
    by (simp_all add: NewWatch_def Let_def)
  have "pipelineStep watch_hub ?i ?s1 = onWatcher ?i ?f ?s1"
    by (simp only: pipelineStep_def s1(1) fun_upd_same option.case w(1,2) stage.case list.case live)
  then have o: "opened u s = onWatcher ?i ?f ?s1"
    by (simp only: opened_def split_beta Let_def s1(6))
  note w(3)
  moreover have "map_of (hb_made (opened u s)) = (map_of (hb_made s))(?i \<mapsto> ?f ?w)"
    unfolding o by (auto simp: fun_eq_iff made_onWatcher s1(1))
  ultimately show "\<exists>w. map_of (hb_made (opened u s)) = (map_of (hb_made s))(?i \<mapsto> w) \<and> idle_watcher u w" by blast
  show "hb_node (opened u s) = hb_node s" "hb_registry (opened u s) = hb_registry s @ [?i]" "hb_nextID (opened u s) = ?i"
    "hb_lastSig (opened u s) = hb_lastSig s" unfolding o by (simp_all add: s1)
qed

lemma reachable_step: "reachable U s \<Longrightarrow> hub_step U s s' \<Longrightarrow> reachable U s'"
  unfolding reachable_def by (meson rtranclp.rtrancl_into_rtrancl)

lemma reachable_new: "reachable U (newHubState n)"
  unfolding reachable_def by blast

lemma reachable_opened: "reachable watch_hub s \<Longrightarrow> reachable watch_hub (opened u s)"
  unfolding opened_def split_beta Let_def
  by (rule reachable_step [OF reachable_step [OF _ hub_step.watch] hub_step.pipeline])

lemma one_watch_made:
  "\<exists>w. map_of (hb_made (one_watch u owner)) = [1 \<mapsto> w] \<and> idle_watcher u w" "hb_node (one_watch u owner) = new_node (stored_widget owner)"
  "hb_registry (one_watch u owner) = [1]" "hb_nextID (one_watch u owner) = 1" "hb_lastSig (one_watch u owner) = []"
  "reachable watch_hub (one_watch u owner)"
  using opened_watch [of u "newHubState (new_node (stored_widget owner))"] reachable_opened [OF reachable_new]
  by (auto simp: one_watch_def newHubState_def)

lemma two_alices_made:
  "\<exists>v w. map_of (hb_made two_alices) = [1 \<mapsto> v, 2 \<mapsto> w] \<and> idle_watcher alice_admin v \<and> idle_watcher alice_plain w"
  "hb_node two_alices = new_node (stored_widget ''bob'')" "hb_registry two_alices = [1, 2]" "hb_lastSig two_alices = []"
  "reachable watch_hub two_alices"
proof -
  obtain v where v: "map_of (hb_made (one_watch alice_admin ''bob'')) = [1 \<mapsto> v]" "idle_watcher alice_admin v"
    using one_watch_made(1) by blast
  note o = opened_watch [of alice_plain "one_watch alice_admin ''bob''"]
  show "\<exists>v w. map_of (hb_made two_alices) = [1 \<mapsto> v, 2 \<mapsto> w] \<and> idle_watcher alice_admin v \<and> idle_watcher alice_plain w"
    using o(1) v by (auto simp: two_alices_def one_watch_made numeral_2_eq_2)
  show "hb_node two_alices = new_node (stored_widget ''bob'')" "hb_registry two_alices = [1, 2]" "hb_lastSig two_alices = []"
    "reachable watch_hub two_alices"
    using o(2-) by (simp_all add: two_alices_def one_watch_made reachable_opened)
qed

lemma test_ref_key: "rf_namespace test_ref = ''default''" "rf_name test_ref = ''a''"
  by (simp_all add: test_ref_def)

lemma idle_receives:
  assumes "idle_watcher u w"
  shows "pw_sent (fanoutTo Added (Some (stitched_widget owner)) w) = pw_sent w @ [\<lparr>ev_type = Added, ev_obj = stitched_widget owner\<rparr>]"
    and "pw_drops (fanoutTo Added (Some (stitched_widget owner)) w) = pw_drops w"
proof -
  have "pw_matches w obj" for obj using assms by (simp add: idle_watcher_def pw_matches_def)
  then show "pw_sent (fanoutTo Added (Some (stitched_widget owner)) w) = pw_sent w @ [\<lparr>ev_type = Added, ev_obj = stitched_widget owner\<rparr>]"
    and "pw_drops (fanoutTo Added (Some (stitched_widget owner)) w) = pw_drops w"
    using assms by (auto simp: idle_watcher_def fanoutTo_def dedupEmit_def emit_def Let_def split: option.split)
qed

lemma one_watch_event:
  assumes "map_of (hb_made (one_watch u owner)) = [1 \<mapsto> w]" and "idle_watcher u w" and "DefaultIdentityGate u owner"
  shows "map_of (hb_made (OnMetadataEvent watch_hub Added test_ref rec rv (one_watch u owner))) 1 = Some (fanoutTo Added (Some (stitched_widget owner)) w)"
proof -
  let ?s = "one_watch u owner"
  let ?s1 = "?s\<lparr>hb_node := SetCurrentResourceVersion rv (hb_node ?s), hb_lastSig := aput (RecordName test_ref) (VisibleSignature rec) (hb_lastSig ?s),
    hb_cnt := (hb_cnt ?s)\<lparr>hk_fanout := hk_fanout (hb_cnt ?s) + 1\<rparr>\<rparr>"
  have ev: "OnMetadataEvent watch_hub Added test_ref rec rv ?s = metaFanout watch_hub Added test_ref [1] [] ?s1"
    by (simp add: OnMetadataEvent_def emissionFilter_def Let_def one_watch_made(3))
  have "nd_host (hb_node ?s1) = stored_widget owner" by (simp add: one_watch_made(2) SetCurrentResourceVersion_def new_node_def)
  then have "map_of (hb_made (metaFanout watch_hub Added test_ref [1] [] ?s1)) 1 =
     map_option (entitled Added ''default'' (shown_widget owner)) (map_of (hb_made ?s1) 1)"
    using stored.metaFanout_entitled [of test_ref ?s1 owner "[1]" "{u}" "[]" Added 1] assms(1,2)
    by (simp add: test_ref_key idle_watcher_def)
  then show ?thesis using assms by (simp add: ev entitled_def shown_widget_def idle_watcher_def)
qed

lemma alice_sees: "DefaultIdentityGate alice_admin owner" "DefaultIdentityGate alice_plain ''alice''" "\<not> DefaultIdentityGate alice_plain ''bob''"
  by (simp_all add: DefaultIdentityGate_def alice_admin_def alice_plain_def hasPrefix_def)

theorem hub_registry_inv_witness: "hk_watchers (hb_cnt two_alices) = 2 \<and> 1 \<in> set (hb_registry two_alices)"
  using hub_registry_inv [OF two_alices_made(5)] by (simp add: two_alices_made(3))


theorem lock_churn_suppressed_witness:
  "let s1 = OnMetadataEvent watch_hub Added test_ref (empty_record test_ref) (dec_nat 1) (one_watch alice_plain ''alice'') in
   hb_made (OnMetadataEvent watch_hub Modified test_ref ((empty_record test_ref)\<lparr>rc_lock := Some \<lparr>lk_holder = ''bob'', lk_acquired = None,
     lk_renewed = None, lk_lease = 15\<rparr>, rc_recordRV := dec_nat 2, rc_recordUID := ''u''\<rparr>) (dec_nat 2) s1) = hb_made s1"
  using lock_churn_suppressed [of Added, where U = watch_hub and ref = test_ref and rec = "empty_record test_ref" and rv = "dec_nat 1" and
      s = "one_watch alice_plain ''alice''" and rv' = "dec_nat 2" and u = "''u''" and h = "[]" and
      l = "Some \<lparr>lk_holder = ''bob'', lk_acquired = None, lk_renewed = None, lk_lease = 15\<rparr>"]
  by (simp add: Let_def)


theorem getCache_crosses_groups_witness:
  "\<not> DefaultIdentityGate alice_plain ''bob'' \<and>
   (\<exists>w w'. map_of (hb_made two_alices) 2 = Some w \<and> pw_identity w = alice_plain \<and>
     map_of (hb_made (OnMetadataEvent watch_hub Added test_ref (empty_record test_ref) (dec_nat 1) two_alices)) 2 = Some w' \<and>
     pw_sent w' = pw_sent w @ [\<lparr>ev_type = Added, ev_obj = stitched_widget ''bob''\<rparr>])"
proof -
  obtain v w where vw: "map_of (hb_made two_alices) = [1 \<mapsto> v, 2 \<mapsto> w]" "idle_watcher alice_admin v" "idle_watcher alice_plain w"
    using two_alices_made(1) by blast
  obtain m p where m: "stitched_widget ''bob'' = Obj m p" using stitched_widget_meta by blast
  have n: "nd_host (SetCurrentResourceVersion (dec_nat 1) (hb_node two_alices)) = stored_widget ''bob''"
    by (simp add: two_alices_made(2) SetCurrentResourceVersion_def new_node_def)
  have st: "fst (ws_StitchFor (hu_stitcher watch_hub) (pw_identity v) (rf_namespace test_ref) (rf_name test_ref)
      (SetCurrentResourceVersion (dec_nat 1) (hb_node two_alices))) = Some (stitched_widget ''bob'')"
    using stored.answers [OF n, of "pw_identity v"] vw(2) alice_sees(1)
    by (simp add: test_ref_key shown_widget_def idle_watcher_def)
  have made: "map_of (hb_made two_alices) 1 = Some v" "map_of (hb_made two_alices) 2 = Some w" using vw(1) by simp_all
  have "\<exists>w'. map_of (hb_made (OnMetadataEvent watch_hub Added test_ref (empty_record test_ref) (dec_nat 1) two_alices)) 2 = Some w' \<and>
      pw_sent w' = pw_sent w @ [\<lparr>ev_type = Added, ev_obj = stitched_widget ''bob''\<rparr>]"
    by (rule getCache_crosses_groups [OF made _ _ _ _ _ st, where m = m])
       (use vw m in \<open>simp_all add: two_alices_made(3) idle_watcher_def identityKey_def alice_admin_def alice_plain_def pw_matches_def\<close>)
  then show ?thesis using made(2) vw(3) alice_sees(3) by (auto simp: idle_watcher_def)
qed

theorem deletion_never_sent_witness:
  "map_of (hb_made (OnMetadataEvent (restHub etcd_host (newTestREST (\<lambda>x. x)) (\<lambda>l. l) (\<lambda>l. l)) Deleted test_ref (empty_record test_ref) (dec_nat 3)
     (opened alice_admin (newHubState (new_node es_empty))))) =
   map_of (hb_made (opened alice_admin (newHubState (new_node es_empty))))"
proof -
  have "cacheGet etcd_host (mr_bodies (newTestREST (\<lambda>x. x))) (rf_namespace test_ref) (rf_name test_ref)
      (hb_node (opened alice_admin (newHubState (new_node es_empty)))) = None"
    by (simp add: opened_watch newHubState_def cacheGet_def etcd_host_def es_get_def es_key_def es_empty_def new_node_def)
  from deletion_never_sent [OF this] show ?thesis by blast
qed

theorem early_stop_leaks_witness:
  "let s2 = pipelineStep watch_hub 1 (Stop 1 (one_watch alice_plain ''alice''))
   in map_of (nd_subs (hb_node s2)) 1 \<noteq> None \<and> hb_registry s2 = []"
proof -
  let ?s = "one_watch alice_plain ''alice''" and ?s2 = "pipelineStep watch_hub 1 (Stop 1 (one_watch alice_plain ''alice''))"
  obtain w where w: "map_of (hb_made ?s) = [1 \<mapsto> w]" "idle_watcher alice_plain w" using one_watch_made(1) by blast
  have b: "bs_budget (hu_backend watch_hub) = 0"
    by (simp add: watch_hub_def restHub_def newTestREST_def mh_New_def mh_Start_def test_options_def Let_def NewBodyStore_def)
  obtain n1 where wf: "WatchFor (hu_backend watch_hub) (pw_identity w) (hc_buffer (hu_cfg watch_hub)) (hb_node ?s) = (Some 1, n1)"
    by (simp add: WatchFor_def b Let_def split_beta one_watch_made(2) new_node_def)
  have made: "map_of (hb_made ?s) 1 = Some w" using w(1) by simp
  have st: "pw_stage w = Opening" "pw_sub w = None" "\<not> pw_closed w" using w(2) by (simp_all add: idle_watcher_def)
  have "map_of (nd_subs (hb_node ?s2)) 1 \<noteq> None"
    by (rule early_stop_leaks [OF made st wf, unfolded Let_def, THEN conjunct1])
  moreover have "hb_registry ?s2 = []"
    using made w(2) wf by (simp add: Stop_def one_watch_made(3) pipelineStep_def runPush_def idle_watcher_def split: prod.split)
  ultimately show ?thesis by (simp add: Let_def)
qed

theorem poll_round_equiv_diff_witness:
  "\<exists>cs snap' gone. roundChanges (\<lambda>l. l) [\<lparr>br_ns = ''default'', br_name = ''a'', br_body = widget_body ''alice'' ''red'' 3\<rparr>] [(''default/z'', ''h'')] = (cs, snap') \<and>
     cs = bodyDiff [''default/z'' \<mapsto> ''h''] \<lparr>br_ns = ''default'', br_name = ''a'', br_body = widget_body ''alice'' ''red'' 3\<rparr> @ map goneChange gone \<and>
     set gone = {''default/z''}"
proof -
  let ?refs = "[\<lparr>br_ns = ''default'', br_name = ''a'', br_body = widget_body ''alice'' ''red'' 3\<rparr>]" and ?snap = "[(''default/z'', ''h'')]"
  obtain cs snap' where r: "roundChanges (\<lambda>l. l) ?refs ?snap = (cs, snap')" by (cases "roundChanges (\<lambda>l. l) ?refs ?snap")
  have d: "distinct (map brKey ?refs)" "distinct (akeys ?snap)" "\<forall>l. mset ((\<lambda>l. l) l) = mset l" by simp_all
  show ?thesis using poll_round_equiv_diff [OF d r] r by (auto simp: brKey_def refKey_def)
qed

end
