(* ===== verification/CrdStore.thy ===== *)
theory CrdStore
  imports MemBackend HostApi
begin

text \<open>
  \<open>runtime/library/crdstore.go\<close>: a writable backend that keeps its objects in a custom resource of
  the host cluster, read through a shared informer and written through the dynamic client.  The client
  is the one bound to the namespace of the options, if there is one.  The state is that of the host
  together with that of the event sink.
\<close>

section \<open>The store\<close>

record 'p CRDStoreConverter =
  cc_ToTyped :: "unstr \<Rightarrow> 'p robj"
  cc_ToUnstructured :: "'p robj \<Rightarrow> string \<Rightarrow> unstr"

record ('r, 'p) CRDStoreEventSink =
  sk_Action :: "event_type \<Rightarrow> 'p robj \<Rightarrow> 'r \<Rightarrow> 'r"
  sk_CurrentResourceVersion :: "'r \<Rightarrow> string"
  sk_SetCurrentResourceVersion :: "string \<Rightarrow> 'r \<Rightarrow> 'r"

text \<open>The backend that gives the types, with its empty list.\<close>

record ('h, 'r, 'p) CRDStoreOptions =
  co_Dynamic :: "'h host option"
  co_GVR :: gvr
  co_Namespace :: string
  co_Converter :: "'p CRDStoreConverter option"
  co_ReplicaID :: string
  co_GroupResource :: group_resource
  co_TypeBackend :: "(('h \<times> 'r, 'p) Backend \<times> 'p rlist) option"

record ('h, 'r, 'p) CRDStore =
  cs_client :: "'h host"
  cs_gvr :: gvr
  cs_namespace :: string
  cs_replicaID :: string
  cs_converter :: "'p CRDStoreConverter"
  cs_gr :: group_resource
  cs_tb :: "('h \<times> 'r, 'p) Backend"
  cs_newList :: "'p rlist"
  cs_sink :: "('r, 'p) CRDStoreEventSink option"

text \<open>\<open>None\<close> is the panic on a missing client, converter or type backend.\<close>

definition NewCRDStore :: "('h, 'r, 'p) CRDStoreOptions \<Rightarrow> ('h, 'r, 'p) CRDStore option" where
  "NewCRDStore opts =
     (case (co_Dynamic opts, co_Converter opts, co_TypeBackend opts) of
        (Some d, Some conv, Some (tb, newList)) \<Rightarrow>
          Some \<lparr>cs_client = d, cs_gvr = co_GVR opts, cs_namespace = co_Namespace opts,
                cs_replicaID = co_ReplicaID opts, cs_converter = conv, cs_gr = co_GroupResource opts,
                cs_tb = tb, cs_newList = newList, cs_sink = None\<rparr>
      | _ \<Rightarrow> None)"

definition SetSink :: "('r, 'p) CRDStoreEventSink \<Rightarrow> ('h, 'r, 'p) CRDStore \<Rightarrow> ('h, 'r, 'p) CRDStore" where
  "SetSink sink C = C\<lparr>cs_sink := Some sink\<rparr>"

section \<open>Informer events\<close>

text \<open>The object of an event: unstructured, something else, or a tombstone around either.\<close>

datatype informer_obj = Live unstr | Foreign | Tombstone informer_obj

definition handleEvent :: "('h, 'r, 'p) CRDStore \<Rightarrow> event_type \<Rightarrow> informer_obj \<Rightarrow> 'r \<Rightarrow> 'r" where
  "handleEvent C et obj r =
     (case obj of
        Live u \<Rightarrow>
          (case cs_sink C of
             None \<Rightarrow> r
           | Some sink \<Rightarrow>
               sk_Action sink et (cc_ToTyped (cs_converter C) u) (sk_SetCurrentResourceVersion sink (un_rv u) r))
      | _ \<Rightarrow> r)"

definition handleDelete :: "('h, 'r, 'p) CRDStore \<Rightarrow> informer_obj \<Rightarrow> 'r \<Rightarrow> 'r" where
  "handleDelete C obj r = handleEvent C Deleted (case obj of Tombstone x \<Rightarrow> x | _ \<Rightarrow> obj) r"

section \<open>Reads\<close>

definition crd_Get :: "('h, 'r, 'p) CRDStore \<Rightarrow> user option \<Rightarrow> string \<Rightarrow> 'h \<times> 'r \<Rightarrow> 'p robj res \<times> 'h \<times> 'r" where
  "crd_Get C us name s =
     (case h_cache_get (cs_client C) (cs_gvr C) name (fst s) of
        Inl e \<Rightarrow> (Inl (if is_not_found e then NotFound name
                      else Internal (Wrapped (''informer Get '' @ name) e)), s)
      | Inr u \<Rightarrow> (Inr (cc_ToTyped (cs_converter C) u), s))"

definition crd_List :: "('h, 'r, 'p) CRDStore \<Rightarrow> user option \<Rightarrow> lsel option \<Rightarrow> 'h \<times> 'r \<Rightarrow> 'p rlist res \<times> 'h \<times> 'r" where
  "crd_List C us sel s =
     (case h_cache_list (cs_client C) (cs_gvr C) (fst s) of
        Inl e \<Rightarrow> (Inl (Internal (Wrapped ''informer List'' e)), s)
      | Inr objs \<Rightarrow>
          (let l = setListItems (cs_newList C) (map (cc_ToTyped (cs_converter C)) objs)
           in (Inr (case cs_sink C of
                      None \<Rightarrow> l
                    | Some sink \<Rightarrow> setListRV l (sk_CurrentResourceVersion sink (snd s))), s)))"

section \<open>Writes\<close>

definition crd_Create :: "('h, 'r, 'p) CRDStore \<Rightarrow> user option \<Rightarrow> 'p robj \<Rightarrow> 'h \<times> 'r \<Rightarrow> 'p robj res \<times> 'h \<times> 'r" where
  "crd_Create C us obj = (\<lambda>(h, r).
     (let u = cc_ToUnstructured (cs_converter C) obj (cs_namespace C) in
      case h_create (cs_client C) (cs_gvr C) u h of
        (Inl e, h1) \<Rightarrow> (Inl (if is_already_exists e then AlreadyExists (un_name u)
                           else Internal (Wrapped ''crdstore Create'' e)), h1, r)
      | (Inr created, h1) \<Rightarrow> (Inr (cc_ToTyped (cs_converter C) created), h1, r)))"

text \<open>The object an update writes, named.\<close>

definition crdNamed :: "('h, 'r, 'p) CRDStore \<Rightarrow> string \<Rightarrow> 'p robj \<Rightarrow> unstr" where
  "crdNamed C name obj =
     (let u = cc_ToUnstructured (cs_converter C) obj (cs_namespace C)
      in if un_name u = [] then u\<lparr>un_name := name\<rparr> else u)"

definition crd_Update :: "('h, 'r, 'p) CRDStore \<Rightarrow> user option \<Rightarrow> string \<Rightarrow> 'p robj \<Rightarrow> bool \<Rightarrow> 'h \<times> 'r \<Rightarrow>
    ('p robj \<times> bool) res \<times> 'h \<times> 'r" where
  "crd_Update C us name obj forceAllowCreate = (\<lambda>(h, r).
     (let H = cs_client C; g = cs_gvr C; u = crdNamed C name obj in
      case h_get H g name h of
        (Inl e, h1) \<Rightarrow>
          (if \<not> is_not_found e then (Inl (Internal (Wrapped (''crdstore Get '' @ name) e)), h1, r)
           else if \<not> forceAllowCreate then (Inl (NotFound name), h1, r)
           else (case h_create H g u h1 of
                   (Inl ce, h2) \<Rightarrow> (Inl (Internal (Wrapped (''crdstore Create '' @ name) ce)), h2, r)
                 | (Inr created, h2) \<Rightarrow> (Inr (cc_ToTyped (cs_converter C) created, True), h2, r)))
      | (Inr existing, h1) \<Rightarrow>
          (case h_update H g (u\<lparr>un_rv := un_rv existing\<rparr>) h1 of
             (Inl ue, h2) \<Rightarrow>
               (Inl (if is_conflict ue then ue else Internal (Wrapped (''crdstore Update '' @ name) ue)), h2, r)
           | (Inr updated, h2) \<Rightarrow> (Inr (cc_ToTyped (cs_converter C) updated, False), h2, r))))"

definition crd_Delete :: "('h, 'r, 'p) CRDStore \<Rightarrow> user option \<Rightarrow> string \<Rightarrow> 'h \<times> 'r \<Rightarrow> ('p robj \<times> bool) res \<times> 'h \<times> 'r" where
  "crd_Delete C us name = (\<lambda>(h, r).
     (let H = cs_client C; g = cs_gvr C in
      case h_get H g name h of
        (Inl e, h1) \<Rightarrow> (Inl (if is_not_found e then NotFound name
                           else Internal (Wrapped (''crdstore Get '' @ name) e)), h1, r)
      | (Inr existing, h1) \<Rightarrow>
          (case h_delete H g name h1 of
             (Some derr, h2) \<Rightarrow> (Inl (if is_not_found derr then NotFound name
                                    else Internal (Wrapped (''crdstore Delete '' @ name) derr)), h2, r)
           | (None, h2) \<Rightarrow> (Inr (cc_ToTyped (cs_converter C) existing, True), h2, r))))"

section \<open>The store as a backend\<close>

definition crdWritable :: "('h, 'r, 'p) CRDStore \<Rightarrow> ('h \<times> 'r, 'p) WritableBackend" where
  "crdWritable C = \<lparr>bw_create = crd_Create C, bw_update = crd_Update C, bw_delete = crd_Delete C\<rparr>"

definition crdBackend :: "('h, 'r, 'p) CRDStore \<Rightarrow> ('h \<times> 'r, 'p) Backend" where
  "crdBackend C = \<lparr>be_new = be_new (cs_tb C), be_get = crd_Get C, be_list = crd_List C,
     be_columns = be_columns (cs_tb C), be_rows = be_rows (cs_tb C), be_writable = Some (crdWritable C)\<rparr>"

section \<open>What the store relies on\<close>

text \<open>A converter that keeps names, as the adapter's contract for backends needs; a host that does.\<close>

definition keeps_names :: "'p CRDStoreConverter \<Rightarrow> bool" where
  "keeps_names conv \<longleftrightarrow>
     (\<forall>u. \<exists>m. accessor (cc_ToTyped conv u) = Some m \<and> om_name m = un_name u) \<and>
     (\<forall>obj ns m. accessor obj = Some m \<longrightarrow> un_name (cc_ToUnstructured conv obj ns) = om_name m)"

definition host_names :: "'h host \<Rightarrow> bool" where
  "host_names H \<longleftrightarrow> (\<forall>g u h x. fst (h_create H g u h) = Inr x \<or> fst (h_update H g u h) = Inr x \<longrightarrow> un_name x = un_name u)"

lemma crd_writable:
  assumes conv: "keeps_names (cs_converter C)" and H: "host_names (cs_client C)"
  shows "writable_backend (crdBackend C) (crdWritable C) (\<lambda>_. True)"
proof
  show "be_writable (crdBackend C) = Some (crdWritable C)" by (simp add: crdBackend_def)
  show "accessor obj \<noteq> None" if got: "fst (be_get (crdBackend C) u n s) = Inr obj" for u n s obj
  proof -
    obtain v where "obj = cc_ToTyped (cs_converter C) v" using got by (auto simp: crdBackend_def crd_Get_def split: sum.splits)
    then show ?thesis using conv unfolding keeps_names_def by fastforce
  qed
  show "accessor st \<noteq> None \<and> objectNameFromObj st = n"
    if name: "objectNameFromObj obj = n" and acc: "accessor obj \<noteq> None"
      and upd: "fst (bw_update (crdWritable C) u n obj f s) = Inr (st, cr)" for u n obj f s st cr
  proof -
    obtain m where m: "accessor obj = Some m" "om_name m = n" using name acc by (auto simp: objectNameFromObj_def)
    have un: "un_name (crdNamed C n obj) = n" using conv m by (simp add: crdNamed_def keeps_names_def Let_def)
    obtain x where x: "st = cc_ToTyped (cs_converter C) x" "un_name x = n"
    proof -
      have created: "un_name y = n" if "fst (h_create (cs_client C) (cs_gvr C) (crdNamed C n obj) h) = Inr y" for y h
        using H un that unfolding host_names_def by metis
      have updated: "un_name y = n" if "fst (h_update (cs_client C) (cs_gvr C) ((crdNamed C n obj)\<lparr>un_rv := v\<rparr>) h) = Inr y" for y v h
      proof -
        have "un_name y = un_name ((crdNamed C n obj)\<lparr>un_rv := v\<rparr>)" using H that unfolding host_names_def by metis
        then show ?thesis using un by simp
      qed
      show ?thesis
        using upd created updated that
        by (auto simp: crdWritable_def crd_Update_def Let_def split_beta split: sum.splits if_splits)
    qed
    obtain mx where "accessor (cc_ToTyped (cs_converter C) x) = Some mx" "om_name mx = un_name x"
      using conv unfolding keeps_names_def by blast
    then show ?thesis using x by (simp add: objectNameFromObj_def)
  qed
qed simp_all

section \<open>Properties\<close>

context host_api
begin

text \<open>A write over an existing object is stored at a newer version, whatever version it carries.\<close>

lemma overwrite:
  assumes "ok h" and cur: "objs h (gv_resource g) (un_name u) = Some cur"
  obtains rv uid h1 where "h_update H g (u\<lparr>un_rv := un_rv cur\<rparr>) h = (Inr (u\<lparr>un_rv := rv, un_uid := uid\<rparr>), h1)" and "ver (un_rv cur) < ver rv" and "ok h1"
    and "objs h1 = (objs h)(gv_resource g := (objs h (gv_resource g))(un_name u \<mapsto> u\<lparr>un_rv := rv, un_uid := uid\<rparr>))"
proof -
  let ?u = "u\<lparr>un_rv := un_rv cur\<rparr>"
  have "objs h (gv_resource g) (un_name ?u) = Some cur" "un_rv ?u = un_rv cur" using cur by simp_all
  from update [OF assms(1) this] obtain rv uid where
    "fst (h_update H g ?u h) = Inr (u\<lparr>un_rv := rv, un_uid := uid\<rparr>)" "ver (un_rv cur) < ver rv" "ok (snd (h_update H g ?u h))"
    "objs (snd (h_update H g ?u h)) = (objs h)(gv_resource g := (objs h (gv_resource g))(un_name u \<mapsto> u\<lparr>un_rv := rv, un_uid := uid\<rparr>))"
    by auto
  then show ?thesis using that by (metis prod.collapse)
qed

lemma get_known:
  assumes "ok h"
  obtains h1 where "h_get H g n h = (case objs h (gv_resource g) n of Some u \<Rightarrow> Inr u | None \<Rightarrow> fst (h_get H g n h), h1)"
    and "ok h1" and "objs h1 = objs h"
  using that [of "snd (h_get H g n h)"] get [OF assms, of g n] get_some [OF assms, of g n]
  by (cases "objs h (gv_resource g) n") (auto simp: prod_eq_iff)

end

lemma crd_create_known:
  assumes host: "host_api (cs_client C) ok objs ver" and "ok h"
    and u: "u = cc_ToUnstructured (cs_converter C) obj (cs_namespace C)" and free: "objs h (gv_resource (cs_gvr C)) (un_name u) = None"
  shows "\<exists>rv uid h1. crd_Create C us obj (h, r) = (Inr (cc_ToTyped (cs_converter C) (u\<lparr>un_rv := rv, un_uid := uid\<rparr>)), h1, r) \<and>
    ok h1 \<and> objs h1 = (objs h)(gv_resource (cs_gvr C) := (objs h (gv_resource (cs_gvr C)))(un_name u \<mapsto> u\<lparr>un_rv := rv, un_uid := uid\<rparr>))"
proof -
  obtain rv uid where "fst (h_create (cs_client C) (cs_gvr C) u h) = Inr (u\<lparr>un_rv := rv, un_uid := uid\<rparr>)"
      "ok (snd (h_create (cs_client C) (cs_gvr C) u h))"
      "objs (snd (h_create (cs_client C) (cs_gvr C) u h)) =
        (objs h)(gv_resource (cs_gvr C) := (objs h (gv_resource (cs_gvr C)))(un_name u \<mapsto> u\<lparr>un_rv := rv, un_uid := uid\<rparr>))"
    using host_api.create [OF host \<open>ok h\<close> free] by blast
  moreover obtain x h1 where "h_create (cs_client C) (cs_gvr C) u h = (x, h1)" by (cases "h_create (cs_client C) (cs_gvr C) u h")
  ultimately show ?thesis unfolding crd_Create_def u [symmetric] Let_def by auto
qed

lemma crd_update_known:
  assumes host: "host_api (cs_client C) ok objs ver" and "ok h"
    and u: "u = crdNamed C n obj" "un_name u = n" and cur: "objs h (gv_resource (cs_gvr C)) n = Some cur"
  shows "\<exists>rv uid h1. crd_Update C us n obj f (h, r) = (Inr (cc_ToTyped (cs_converter C) (u\<lparr>un_rv := rv, un_uid := uid\<rparr>), False), h1, r) \<and>
    ver (un_rv cur) < ver rv \<and> ok h1 \<and>
    objs h1 = (objs h)(gv_resource (cs_gvr C) := (objs h (gv_resource (cs_gvr C)))(n \<mapsto> u\<lparr>un_rv := rv, un_uid := uid\<rparr>))"
proof -
  obtain h1 where g: "h_get (cs_client C) (cs_gvr C) n h = (Inr cur, h1)" "ok h1" "objs h1 = objs h"
    using host_api.get_known [OF host \<open>ok h\<close>, of "cs_gvr C" n] cur by (metis option.simps(5))
  have cur1: "objs h1 (gv_resource (cs_gvr C)) (un_name u) = Some cur" using cur g u by simp
  obtain rv uid h2 where up: "h_update (cs_client C) (cs_gvr C) (u\<lparr>un_rv := un_rv cur\<rparr>) h1 = (Inr (u\<lparr>un_rv := rv, un_uid := uid\<rparr>), h2)"
      "ver (un_rv cur) < ver rv" "ok h2"
      "objs h2 = (objs h1)(gv_resource (cs_gvr C) := (objs h1 (gv_resource (cs_gvr C)))(un_name u \<mapsto> u\<lparr>un_rv := rv, un_uid := uid\<rparr>))"
    by (rule host_api.overwrite [OF host g(2) cur1])
  show ?thesis using g up u(2) unfolding crd_Update_def u(1) [symmetric] Let_def by auto
qed

lemma crd_update_missing:
  assumes host: "host_api (cs_client C) ok objs ver" and "ok h" and none: "objs h (gv_resource (cs_gvr C)) n = None"
  shows "\<exists>h1. crd_Update C us n obj False (h, r) = (Inl (NotFound n), h1, r) \<and> ok h1 \<and> objs h1 = objs h"
    and "\<exists>h1. crd_Delete C us n (h, r) = (Inl (NotFound n), h1, r) \<and> ok h1 \<and> objs h1 = objs h"
proof -
  obtain e where e: "fst (h_get (cs_client C) (cs_gvr C) n h) = Inl e" "is_not_found e"
    using host_api.get_none [OF host \<open>ok h\<close> none] by blast
  obtain h1 where h1: "h_get (cs_client C) (cs_gvr C) n h = (Inl e, h1)" using e(1) by (metis prod.collapse)
  have "ok h1" "objs h1 = objs h" using host_api.get [OF host \<open>ok h\<close>, of "cs_gvr C" n] h1 by simp_all
  then show "\<exists>h1. crd_Update C us n obj False (h, r) = (Inl (NotFound n), h1, r) \<and> ok h1 \<and> objs h1 = objs h"
    and "\<exists>h1. crd_Delete C us n (h, r) = (Inl (NotFound n), h1, r) \<and> ok h1 \<and> objs h1 = objs h"
    using h1 e(2) by (simp_all add: crd_Update_def crd_Delete_def Let_def)
qed

lemma crd_delete_known:
  assumes host: "host_api (cs_client C) ok objs ver" and "ok h" and cur: "objs h (gv_resource (cs_gvr C)) n = Some cur"
  shows "\<exists>h1. crd_Delete C us n (h, r) = (Inr (cc_ToTyped (cs_converter C) cur, True), h1, r) \<and>
    ok h1 \<and> objs h1 = (objs h)(gv_resource (cs_gvr C) := (objs h (gv_resource (cs_gvr C)))(n := None))"
proof -
  obtain h1 where g: "h_get (cs_client C) (cs_gvr C) n h = (Inr cur, h1)" "ok h1" "objs h1 = objs h"
    using host_api.get_known [OF host \<open>ok h\<close>, of "cs_gvr C" n] cur by (metis option.simps(5))
  obtain e h2 where d: "h_delete (cs_client C) (cs_gvr C) n h1 = (e, h2)" by (cases "h_delete (cs_client C) (cs_gvr C) n h1")
  have "e = None" using host_api.delete_result [OF host g(2), of "cs_gvr C" n] cur g(3) d by simp
  then show ?thesis using host_api.delete [OF host g(2), of "cs_gvr C" n] g d by (simp add: crd_Delete_def Let_def)
qed

section \<open>The store over the simulated host\<close>

text \<open>A converter that copies metadata, name and contents; a store on the simulated host.\<close>

definition plain_converter :: "jmap CRDStoreConverter" where
  "plain_converter =
     \<lparr>cc_ToTyped = (\<lambda>u. Obj (empty_meta\<lparr>om_name := un_name u, om_rv := un_rv u, om_uid := un_uid u\<rparr>) (un_obj u)),
      cc_ToUnstructured = (\<lambda>obj ns. case obj of
         Obj m p \<Rightarrow> (new_unstr \<lparr>gv_group = ''test.io'', gv_version = ''v1'', gv_resource = ''things''\<rparr> ''Thing'')
           \<lparr>un_name := om_name m, un_rv := om_rv m, un_uid := om_uid m, un_obj := p\<rparr>
       | Bare p \<Rightarrow> new_unstr \<lparr>gv_group = ''test.io'', gv_version = ''v1'', gv_resource = ''things''\<rparr> ''Thing'')\<rparr>"

text \<open>The backend that gives the types; nothing else of it is used.\<close>

definition things_types :: "(etcd \<times> string, jmap) Backend" where
  "things_types = \<lparr>be_new = Obj empty_meta [], be_get = (\<lambda>u n s. (Inl (NotFound n), s)), be_list = (\<lambda>u sel s. (Inl (Plain ''types only''), s)),
     be_columns = [''Name''], be_rows = (\<lambda>obj. Inr []), be_writable = None\<rparr>"

definition things_store :: "(etcd, string, jmap) CRDStore" where
  "things_store =
     \<lparr>cs_client = etcd_host, cs_gvr = \<lparr>gv_group = ''test.io'', gv_version = ''v1'', gv_resource = ''things''\<rparr>,
      cs_namespace = [], cs_replicaID = ''a'', cs_converter = plain_converter,
      cs_gr = \<lparr>gr_group = ''test.io'', gr_resource = ''things''\<rparr>, cs_tb = things_types,
      cs_newList = \<lparr>l_extract = True, l_setlist = True, l_reflect = True, l_iface = True, l_accessor = True, l_items = [], l_rv = [], l_continue = [], l_remaining = None\<rparr>,
      cs_sink = None\<rparr>"

lemma plain_converter_names: "keeps_names plain_converter"
  unfolding keeps_names_def
proof (intro conjI allI impI)
  show "\<exists>m. accessor (cc_ToTyped plain_converter u) = Some m \<and> om_name m = un_name u" for u
    by (simp add: plain_converter_def)
  show "un_name (cc_ToUnstructured plain_converter obj ns) = om_name m" if "accessor obj = Some m" for obj ns m
    using that by (cases obj) (simp_all add: plain_converter_def)
qed

lemma etcd_host_names: "host_names etcd_host"
  unfolding host_names_def
  by (auto simp: es_defs split: if_splits option.splits)

interpretation things: writable_backend "crdBackend things_store" "crdWritable things_store" "\<lambda>_. True"
  by (rule crd_writable) (simp_all add: things_store_def plain_converter_names etcd_host_names)

section \<open>Properties of the store\<close>

text \<open>
  The CRD store replaces what the host holds whatever resource version the client
  sent: on a host nobody else writes to during the call, an update of an existing object stores the
  client's object at a newer version and answers it, even when the resource version it carries is stale or
  empty, because the store takes the version to compare with from its own read; an update of a missing object
  answers NotFound and changes nothing unless it may create.
\<close>

theorem crd_update_overwrites:
  assumes "host_api (cs_client C) ok objs ver" and "ok h"
    and "un_name (crdNamed C n obj) = n"
  shows "case objs h (gv_resource (cs_gvr C)) n of
      Some cur \<Rightarrow> \<exists>rv uid h1. let u = (crdNamed C n obj)\<lparr>un_rv := rv, un_uid := uid\<rparr> in
        crd_Update C us n obj f (h, r) = (Inr (cc_ToTyped (cs_converter C) u, False), h1, r) \<and> ver (un_rv cur) < ver rv \<and>
        ok h1 \<and> objs h1 = (objs h)(gv_resource (cs_gvr C) := (objs h (gv_resource (cs_gvr C)))(n \<mapsto> u))
    | None \<Rightarrow> \<exists>h1. crd_Update C us n obj False (h, r) = (Inl (NotFound n), h1, r) \<and> ok h1 \<and> objs h1 = objs h"
  using crd_update_known [OF assms(1,2) refl assms(3)] crd_update_missing(1) [OF assms(1,2)]
  by (simp add: Let_def split: option.split)

text \<open>The object of the witnesses, as it was first stored and as a second client sends it.\<close>

definition thing :: "string \<Rightarrow> string \<Rightarrow> jmap robj" where
  "thing rv color = Obj (empty_meta\<lparr>om_name := ''a'', om_rv := rv\<rparr>) [(''color'', JStr color)]"

definition things_host :: etcd where
  "things_host = snd (es_create \<lparr>gv_group = ''test.io'', gv_version = ''v1'', gv_resource = ''things''\<rparr>
     (cc_ToUnstructured plain_converter (thing [] ''red'') []) es_empty)"

lemma things_host_ok: "es_ok things_host" and things_host_a:
  "\<exists>cur. es_lookup things_host ''things'' ''a'' = Some cur \<and> un_rv cur = ''1''"
proof -
  let ?g = "\<lparr>gv_group = ''test.io'', gv_version = ''v1'', gv_resource = ''things''\<rparr>"
  let ?u = "cc_ToUnstructured plain_converter (thing [] ''red'') []"
  have one: "dec_nat 1 = ''1''" by code_simp
  have c: "es_create ?g ?u es_empty = (Inr (es_written ?g ?u es_empty), es_after ?g ?u es_empty)"
    by (rule es_create_fresh) (simp add: es_empty_def)
  have "es_ok es_empty" by (simp add: es_ok_def es_empty_def)
  then show "es_ok things_host" unfolding things_host_def c snd_conv by (rule es_after_ok)
  have "un_name ?u = ''a''" by (simp add: plain_converter_def thing_def)
  then show "\<exists>cur. es_lookup things_host ''things'' ''a'' = Some cur \<and> un_rv cur = ''1''"
    using one unfolding things_host_def c snd_conv es_after_lookup
    by (simp add: es_written_def Let_def es_empty_def)
qed

theorem crd_update_overwrites_witness:
  "\<exists>rv uid h1. crd_Update things_store None ''a'' (thing ''0'' ''blue'') False (things_host, []) =
      (Inr (Obj (empty_meta\<lparr>om_name := ''a'', om_rv := rv, om_uid := uid\<rparr>) [(''color'', JStr ''blue'')], False), h1, []) \<and>
    1 < es_ver rv"
proof -
  have n: "un_name (crdNamed things_store ''a'' (thing ''0'' ''blue'')) = ''a''"
    by (simp add: crdNamed_def things_store_def plain_converter_def thing_def)
  obtain cur where cur: "es_lookup things_host ''things'' ''a'' = Some cur" "un_rv cur = ''1''"
    using things_host_a by blast
  have one: "es_ver ''1'' = 1" by code_simp
  have api: "host_api (cs_client things_store) es_ok es_lookup es_ver"
    using etcd.host_api_axioms by (simp add: things_store_def)
  have res: "gv_resource (cs_gvr things_store) = ''things''" by (simp add: things_store_def)
  note t = crd_update_overwrites [OF api things_host_ok n, where us = None and f = False and r = "[]", unfolded res cur(1) option.case Let_def]
  show ?thesis
    using t one cur(2)
    by (fastforce simp: crdNamed_def things_store_def plain_converter_def thing_def Let_def)
qed


definition things_opts :: "jmap Options" where
  "things_opts = \<lparr>op_gr = \<lparr>gr_group = ''test.io'', gr_resource = ''things''\<rparr>, op_uids = False,
     op_pagination = False, op_occ = True, op_bookmark = True, op_fields = None\<rparr>"


end
