(* ===== verification/GoJson.thy ===== *)
theory GoJson
  imports Unstructured
begin

text \<open>
  What the code uses of \<open>encoding/json\<close> to fill a struct from a JSON value: names of keys match those
  of fields exactly or, failing that, up to the case folding of the library (which also folds the long s and the
  Kelvin sign); \<open>null\<close> leaves a field as it is; a value of another type is an error that is reported
  once the whole value is read.  A JSON text is represented by the value it decodes to.
\<close>

section \<open>Names of fields\<close>

definition upper :: "char \<Rightarrow> char" where
  "upper c = (if CHR ''a'' \<le> c \<and> c \<le> CHR ''z'' then char_of (of_char c - (32 :: nat)) else c)"

definition toUpper :: "string \<Rightarrow> string" where
  "toUpper s = map upper s"

fun foldName :: "string \<Rightarrow> string" where
  "foldName [] = []"
| "foldName (c # cs) =
     (if c = CHR 0xC5 \<and> take 1 cs = [CHR 0xBF] then CHR ''S'' # foldName (drop 1 cs)
      else if c = CHR 0xE2 \<and> take 2 cs = [CHR 0x84, CHR 0xAA] then CHR ''K'' # foldName (drop 2 cs)
      else upper c # foldName cs)"

text \<open>The field of a struct with these field names that a key fills.\<close>

definition fieldFor :: "string list \<Rightarrow> string \<Rightarrow> string option" where
  "fieldFor names k = (if k \<in> set names then Some k else find (\<lambda>n. foldName n = foldName k) names)"

section \<open>Fields of basic types\<close>

text \<open>The new value of a field and whether the value had the type of the field.\<close>

definition intoString :: "json \<Rightarrow> string \<Rightarrow> string \<times> bool" where
  "intoString v old = (case v of JStr s \<Rightarrow> (s, True) | JNull \<Rightarrow> (old, True) | _ \<Rightarrow> (old, False))"

definition intoBool :: "json \<Rightarrow> bool \<Rightarrow> bool \<times> bool" where
  "intoBool v old = (case v of JBool b \<Rightarrow> (b, True) | JNull \<Rightarrow> (old, True) | _ \<Rightarrow> (old, False))"

lemma into_simps [go_simps]:
  "intoString (JStr s) old = (s, True)" "intoString JNull old = (old, True)"
  "intoBool (JBool b) x = (b, True)" "intoBool JNull x = (x, True)"
  by (simp_all add: intoString_def intoBool_def)

text \<open>
  A struct is filled entry by entry with \<open>set\<close>, which takes the field and the value and gives the new
  struct and whether the value fitted; \<open>None\<close> when the value of some field did not fit, or the JSON value is no object.
\<close>

fun fillEntries :: "string list \<Rightarrow> (string \<Rightarrow> json \<Rightarrow> 'a \<Rightarrow> 'a \<times> bool) \<Rightarrow> jmap \<Rightarrow> 'a \<times> bool \<Rightarrow> 'a \<times> bool" where
  "fillEntries names setter [] (x, ok) = (x, ok)"
| "fillEntries names setter ((k, v) # m) (x, ok) =
     (case fieldFor names k of
        None \<Rightarrow> fillEntries names setter m (x, ok)
      | Some f \<Rightarrow> (let (x', fits) = setter f v x in fillEntries names setter m (x', ok \<and> fits)))"

definition intoStruct :: "string list \<Rightarrow> (string \<Rightarrow> json \<Rightarrow> 'a \<Rightarrow> 'a \<times> bool) \<Rightarrow> json \<Rightarrow> 'a \<Rightarrow> 'a \<times> bool" where
  "intoStruct names setter v x =
     (case v of JObj m \<Rightarrow> fillEntries names setter m (x, True) | JNull \<Rightarrow> (x, True) | _ \<Rightarrow> (x, False))"

text \<open>\<open>json.Unmarshal\<close> of a text into a zero struct: an error is a text that is not JSON or a value that does not fit.\<close>

definition unmarshalStruct :: "string list \<Rightarrow> (string \<Rightarrow> json \<Rightarrow> 'a \<Rightarrow> 'a \<times> bool) \<Rightarrow> 'a \<Rightarrow> json option \<Rightarrow> 'a option" where
  "unmarshalStruct names setter zero text =
     (case text of
        None \<Rightarrow> None
      | Some v \<Rightarrow> (let (x, ok) = intoStruct names setter v zero in if ok then Some x else None))"

lemma fillEntries_ok:
  "snd (fillEntries names setter m (x, ok)) \<longleftrightarrow> ok \<and> snd (fillEntries names setter m (x, True))"
proof (induction m arbitrary: x ok)
  case (Cons kv m)
  obtain k v where kv: "kv = (k, v)" by fastforce
  show ?case
  proof (cases "fieldFor names k")
    case None
    then have "fillEntries names setter (kv # m) (x, b) = fillEntries names setter m (x, b)" for b by (simp add: kv)
    then show ?thesis using Cons [of x ok] by metis
  next
    case (Some f)
    obtain x' fits where s: "setter f v x = (x', fits)" by fastforce
    have "fillEntries names setter (kv # m) (x, b) = fillEntries names setter m (x', b \<and> fits)" for b
      using Some s by (simp add: kv)
    then show ?thesis using Cons [of x' "ok \<and> fits"] Cons [of x' "True \<and> fits"] by metis
  qed
qed simp

lemma fillEntries_fits:
  assumes "snd (fillEntries names setter m (x, ok))"
  shows "ok" and "\<And>k v f. (k, v) \<in> set m \<Longrightarrow> fieldFor names k = Some f \<Longrightarrow> \<exists>y. snd (setter f v y)"
proof -
  show "ok" using assms by (simp add: fillEntries_ok [of _ _ _ _ ok])
  show "\<exists>y. snd (setter f v y)" if "(k, v) \<in> set m" "fieldFor names k = Some f" for k v f
    using assms that
  proof (induction m arbitrary: x ok)
    case (Cons kv m)
    obtain k' v' where kv: "kv = (k', v')" by fastforce
    show ?case
    proof (cases "(k, v) = kv")
      case True
      obtain x' fits where s: "setter f v x = (x', fits)" by fastforce
      have "snd (fillEntries names setter m (x', ok \<and> fits))" using Cons.prems(1,3) s unfolding True [symmetric] by simp
      then have "fits" using fillEntries_ok [of names setter m x' "ok \<and> fits"] by simp
      then show ?thesis using s by (metis snd_conv)
    next
      case False
      then have "(k, v) \<in> set m" using Cons.prems(2) kv by auto
      then show ?thesis using Cons.IH Cons.prems kv
        by (cases "fieldFor names k'") (auto split: prod.splits)
    qed
  qed simp
qed

end
