(* ===== verification/Authz.thy ===== *)
theory Authz
  imports GoJson
begin

text \<open>
  \<open>runtime/authz/authorizer.go\<close>: an authorizer that asks an external policy service over HTTP.  The
  HTTP client (the transport and the parsing of URLs) is a parameter over the state of the world; the log callback of
  the consumer acts on the same state.  The request is the JSON value sent, the answer a status with
  the first JSON value of the body, \<open>None\<close> when the body does not start with one.
\<close>

section \<open>Requests and answers\<close>

record PolicyRequest =
  pq_User :: string
  pq_Groups :: "string list"
  pq_UID :: string
  pq_Extra :: "(string \<times> string list) list"
  pq_Verb :: string
  pq_APIGroup :: string
  pq_APIVersion :: string
  pq_Resource :: string
  pq_Subresource :: string
  pq_Namespace :: string
  pq_Name :: string

record PolicyResponse =
  pp_Allow :: bool
  pp_Reason :: string

record attributes =
  at_resource_request :: bool
  at_user :: "user_info option"
  at_Verb :: string
  at_APIGroup :: string
  at_APIVersion :: string
  at_Resource :: string
  at_Subresource :: string
  at_Namespace :: string
  at_Name :: string

datatype decision = DecisionDeny | DecisionAllow | DecisionNoOpinion

text \<open>What went wrong with the policy service: the causes the code wraps.\<close>

datatype policy_err = BuildRequest | ServiceCall string | ServiceStatus nat | DecodeResponse

section \<open>The JSON shapes\<close>

text \<open>Fields tagged \<open>omitempty\<close> are left out when empty.\<close>

definition policyJSON :: "PolicyRequest \<Rightarrow> json" where
  "policyJSON q =
     (let arr = (\<lambda>xs. JArr (map JStr xs)); opt = (\<lambda>k s. if s = [] then [] else [(k, JStr s)]) in
      JObj ([(''user'', JStr (pq_User q))]
        @ (if pq_Groups q = [] then [] else [(''groups'', arr (pq_Groups q))])
        @ opt ''uid'' (pq_UID q)
        @ (if pq_Extra q = [] then [] else [(''extra'', JObj (map (\<lambda>(k, vs). (k, arr vs)) (pq_Extra q)))])
        @ [(''verb'', JStr (pq_Verb q)), (''apiGroup'', JStr (pq_APIGroup q)),
           (''apiVersion'', JStr (pq_APIVersion q)), (''resource'', JStr (pq_Resource q))]
        @ opt ''subresource'' (pq_Subresource q)
        @ opt ''namespace'' (pq_Namespace q)
        @ opt ''name'' (pq_Name q)))"

definition setPolicyResponse :: "string \<Rightarrow> json \<Rightarrow> PolicyResponse \<Rightarrow> PolicyResponse \<times> bool" where
  "setPolicyResponse f v p =
     (if f = ''allow'' then (let (b, ok) = intoBool v (pp_Allow p) in (p\<lparr>pp_Allow := b\<rparr>, ok))
      else (let (s, ok) = intoString v (pp_Reason p) in (p\<lparr>pp_Reason := s\<rparr>, ok)))"

definition decodePolicy :: "json option \<Rightarrow> PolicyResponse option" where
  "decodePolicy body = unmarshalStruct [''allow'', ''reason''] setPolicyResponse \<lparr>pp_Allow = False, pp_Reason = []\<rparr> body"

section \<open>The authorizer\<close>

record http_request =
  hr_method :: string
  hr_url :: string
  hr_headers :: "(string \<times> string) list"
  hr_body :: json

text \<open>\<open>hc_do\<close> gets the client's timeout in nanoseconds and answers a status and a body, or a transport error.\<close>

record 'w http_client =
  hc_url_ok :: "string \<Rightarrow> bool"
  hc_do :: "int \<Rightarrow> http_request \<Rightarrow> 'w \<Rightarrow> (string + nat \<times> json option) \<times> 'w"

type_synonym 'w DecisionLog = "PolicyRequest \<Rightarrow> decision \<Rightarrow> string \<Rightarrow> policy_err option \<Rightarrow> 'w \<Rightarrow> 'w"

record 'w AuthzOptions =
  ao_URL :: string
  ao_Timeout :: int
  ao_Group :: string
  ao_Log :: "'w DecisionLog option"
  ao_Transport :: "'w http_client option"

record 'w Authorizer =
  az_url :: string
  az_group :: string
  az_timeout :: int
  az_client :: "'w http_client"
  az_log :: "'w DecisionLog option"

text \<open>\<open>New\<close>; the first argument is the default transport of the HTTP library.\<close>

definition authz_New :: "'w http_client \<Rightarrow> 'w AuthzOptions \<Rightarrow> 'w Authorizer" where
  "authz_New dflt opts =
     \<lparr>az_url = ao_URL opts, az_group = ao_Group opts,
      az_timeout = (if ao_Timeout opts = 0 then 2000000000 else ao_Timeout opts),
      az_client = (case ao_Transport opts of None \<Rightarrow> dflt | Some t \<Rightarrow> t),
      az_log = ao_Log opts\<rparr>"

definition flattenExtras :: "user_info \<Rightarrow> (string \<times> string list) list" where
  "flattenExtras u = (if ui_extra u = [] then [] else fold (\<lambda>(k, v) m. aput k v m) (ui_extra u) [])"

definition ask :: "'w Authorizer \<Rightarrow> PolicyRequest \<Rightarrow> 'w \<Rightarrow> (policy_err + decision \<times> string) \<times> 'w" where
  "ask a q w =
     (if \<not> hc_url_ok (az_client a) (az_url a) then (Inl BuildRequest, w)
      else (let req = \<lparr>hr_method = ''POST'', hr_url = az_url a,
                hr_headers = [(''Content-Type'', ''application/json''), (''Accept'', ''application/json'')],
                hr_body = policyJSON q\<rparr> in
        case hc_do (az_client a) (az_timeout a) req w of
          (Inl e, w1) \<Rightarrow> (Inl (ServiceCall e), w1)
        | (Inr (status, body), w1) \<Rightarrow>
            (if status < 200 \<or> 300 \<le> status then (Inl (ServiceStatus status), w1)
             else (case decodePolicy body of
                     None \<Rightarrow> (Inl DecodeResponse, w1)
                   | Some p \<Rightarrow> (Inr (if pp_Allow p then DecisionAllow else DecisionDeny, pp_Reason p), w1)))))"

definition policyRequest :: "attributes \<Rightarrow> user_info \<Rightarrow> PolicyRequest" where
  "policyRequest at u =
     \<lparr>pq_User = u_name u, pq_Groups = u_groups u, pq_UID = ui_uid u, pq_Extra = flattenExtras u,
      pq_Verb = at_Verb at, pq_APIGroup = at_APIGroup at, pq_APIVersion = at_APIVersion at,
      pq_Resource = at_Resource at, pq_Subresource = at_Subresource at,
      pq_Namespace = at_Namespace at, pq_Name = at_Name at\<rparr>"

text \<open>The decision and its reason; the error result of \<open>Authorize\<close> is always nil.\<close>

definition Authorize :: "'w Authorizer \<Rightarrow> attributes \<Rightarrow> 'w \<Rightarrow> (decision \<times> string) \<times> 'w" where
  "Authorize a at w =
     (if \<not> at_resource_request at then ((DecisionNoOpinion, []), w)
      else if az_group a \<noteq> [] \<and> at_APIGroup at \<noteq> az_group a then ((DecisionNoOpinion, []), w)
      else case at_user at of
             None \<Rightarrow> ((DecisionNoOpinion, ''missing user''), w)
           | Some u \<Rightarrow>
               (let q = policyRequest at u; (res, w1) = ask a q w;
                    (d, reason, err) = (case res of Inl e \<Rightarrow> (DecisionNoOpinion, [], Some e) | Inr (d, r) \<Rightarrow> (d, r, None));
                    w2 = (case az_log a of None \<Rightarrow> w1 | Some lg \<Rightarrow> lg q d reason err w1)
                in if err \<noteq> None then ((DecisionNoOpinion, ''policy service unavailable''), w2)
                   else ((d, reason), w2)))"

section \<open>Lemmas\<close>

text \<open>A fact about \<open>allow\<close> that survives every entry.\<close>

lemma fill_allow:
  assumes "snd (fillEntries [''allow'', ''reason''] setPolicyResponse m (p, ok))"
    and "\<forall>(k, v) \<in> set m. fieldFor [''allow'', ''reason''] k = Some ''allow'' \<longrightarrow> v \<noteq> JBool True"
    and "\<not> pp_Allow p"
  shows "\<not> pp_Allow (fst (fillEntries [''allow'', ''reason''] setPolicyResponse m (p, ok)))"
  using assms
proof (induction m arbitrary: p ok)
  case (Cons kv m)
  obtain k v where kv: "kv = (k, v)" by fastforce
  show ?case
  proof (cases "fieldFor [''allow'', ''reason''] k")
    case None then show ?thesis using Cons by (simp add: kv)
  next
    case (Some f)
    obtain p' fits where s: "setPolicyResponse f v p = (p', fits)" by fastforce
    have step: "fillEntries [''allow'', ''reason''] setPolicyResponse (kv # m) (p, ok) =
        fillEntries [''allow'', ''reason''] setPolicyResponse m (p', ok \<and> fits)"
      using Some s by (simp add: kv)
    have fits: "fits"
      using Cons.prems(1) fillEntries_fits(1) [of "[''allow'', ''reason'']" setPolicyResponse m p' "ok \<and> fits"]
      unfolding step by blast
    have "\<not> pp_Allow p'"
      using s fits Cons.prems(2,3) Some
      by (auto simp: setPolicyResponse_def intoBool_def kv split: if_splits prod.splits json.splits)
    then show ?thesis using Cons.IH [of p' "ok \<and> fits"] Cons.prems(1,2) unfolding step by simp
  qed
qed simp

text \<open>An answer that nowhere says \<open>allow: true\<close> does not allow.\<close>

lemma decodePolicy_allow:
  assumes "decodePolicy body = Some p" and "pp_Allow p"
  shows "\<exists>m k. body = Some (JObj m) \<and> (k, JBool True) \<in> set m \<and> foldName k = ''ALLOW''"
proof -
  have folds: "foldName ''allow'' = ''ALLOW''" "foldName ''reason'' = ''REASON''" by code_simp+
  have fold_allow: "foldName k = ''ALLOW''" if "fieldFor [''allow'', ''reason''] k = Some ''allow''" for k
    using that folds unfolding fieldFor_def find.simps by (auto split: if_splits simp del: foldName.simps)
  obtain m where m: "body = Some (JObj m)"
    using assms by (auto simp: decodePolicy_def unmarshalStruct_def intoStruct_def split: option.splits json.splits if_splits)
  have ok: "snd (fillEntries [''allow'', ''reason''] setPolicyResponse m (\<lparr>pp_Allow = False, pp_Reason = []\<rparr>, True))"
    and p: "p = fst (fillEntries [''allow'', ''reason''] setPolicyResponse m (\<lparr>pp_Allow = False, pp_Reason = []\<rparr>, True))"
    using assms(1) m by (auto simp: decodePolicy_def unmarshalStruct_def intoStruct_def split: prod.splits if_splits)
  have "\<exists>(k, v) \<in> set m. fieldFor [''allow'', ''reason''] k = Some ''allow'' \<and> v = JBool True"
    using fill_allow [OF ok] assms(2) p by auto
  then show ?thesis using m fold_allow by blast
qed

lemma decodePolicy_null: "decodePolicy (Some JNull) = Some \<lparr>pp_Allow = False, pp_Reason = []\<rparr>"
  by (simp add: decodePolicy_def unmarshalStruct_def intoStruct_def)

definition in_scope :: "'w Authorizer \<Rightarrow> attributes \<Rightarrow> bool" where
  "in_scope a at \<longleftrightarrow> at_resource_request at \<and> (az_group a = [] \<or> at_APIGroup at = az_group a) \<and> at_user at \<noteq> None"

text \<open>The answer of the service to a request in scope, if there is a usable one.\<close>

definition service_answer :: "'w Authorizer \<Rightarrow> attributes \<Rightarrow> 'w \<Rightarrow> PolicyResponse option" where
  "service_answer a at w =
     (if \<not> in_scope a at \<or> \<not> hc_url_ok (az_client a) (az_url a) then None
      else case fst (hc_do (az_client a) (az_timeout a)
               \<lparr>hr_method = ''POST'', hr_url = az_url a,
                hr_headers = [(''Content-Type'', ''application/json''), (''Accept'', ''application/json'')],
                hr_body = policyJSON (policyRequest at (the (at_user at)))\<rparr> w) of
             Inl _ \<Rightarrow> None
           | Inr (status, body) \<Rightarrow> if 200 \<le> status \<and> status < 300 then decodePolicy body else None)"

lemma Authorize_answer:
  "fst (fst (Authorize a at w)) =
     (case service_answer a at w of None \<Rightarrow> DecisionNoOpinion
      | Some p \<Rightarrow> if pp_Allow p then DecisionAllow else DecisionDeny)"
  by (auto simp: Authorize_def ask_def service_answer_def in_scope_def Let_def
      split: option.splits sum.splits prod.splits if_splits)

lemma Authorize_quiet: "\<not> in_scope a at \<Longrightarrow> snd (Authorize a at w) = w"
  by (auto simp: Authorize_def in_scope_def split: option.splits)

section \<open>Properties\<close>

text \<open>
  C36: The authorizer allows only what the policy service said to allow and never denies on its own account:
  Allow needs a request in scope and an answer with a 2xx status whose body has an entry allow (up to
  case) with the value true; Deny needs such an answer without that; outside its scope it has no
  opinion, does not call the service and does not log.
\<close>

theorem authorize_only_on_answer:
  "(fst (fst (Authorize a at w)) = DecisionAllow \<longrightarrow>
      in_scope a at \<and> (\<exists>req status m k. fst (hc_do (az_client a) (az_timeout a) req w) = Inr (status, Some (JObj m)) \<and>
        hr_body req = policyJSON (policyRequest at (the (at_user at))) \<and>
        200 \<le> status \<and> status < 300 \<and> (k, JBool True) \<in> set m \<and> foldName k = ''ALLOW'')) \<and>
   (fst (fst (Authorize a at w)) = DecisionDeny \<longrightarrow>
      in_scope a at \<and> (\<exists>req status body p. fst (hc_do (az_client a) (az_timeout a) req w) = Inr (status, body) \<and>
        200 \<le> status \<and> status < 300 \<and> decodePolicy body = Some p \<and> \<not> pp_Allow p)) \<and>
   (\<not> in_scope a at \<longrightarrow> fst (fst (Authorize a at w)) = DecisionNoOpinion \<and> snd (Authorize a at w) = w)"
proof -
  have scope: "service_answer a at w = None" if "\<not> in_scope a at" using that by (simp add: service_answer_def)
  have ans: "in_scope a at \<and> (\<exists>req status body. fst (hc_do (az_client a) (az_timeout a) req w) = Inr (status, body) \<and>
      hr_body req = policyJSON (policyRequest at (the (at_user at))) \<and>
      200 \<le> status \<and> status < 300 \<and> decodePolicy body = Some p)" if "service_answer a at w = Some p" for p
    using that by (fastforce simp: service_answer_def split: if_splits sum.splits)
  show ?thesis
  proof (cases "service_answer a at w")
    case None then show ?thesis using Authorize_quiet [of a at w] by (auto simp: Authorize_answer)
  next
    case (Some p)
    obtain req status body where b: "in_scope a at" "fst (hc_do (az_client a) (az_timeout a) req w) = Inr (status, body)"
      "hr_body req = policyJSON (policyRequest at (the (at_user at)))" "200 \<le> status" "status < 300" "decodePolicy body = Some p"
      using ans [OF Some] by blast
    show ?thesis
    proof (cases "pp_Allow p")
      case True
      then obtain m k where "body = Some (JObj m)" "(k, JBool True) \<in> set m" "foldName k = ''ALLOW''"
        using decodePolicy_allow [OF b(6)] by blast
      then show ?thesis using b Some True by (auto simp: Authorize_answer)
    next
      case False
      then show ?thesis using b Some by (auto simp: Authorize_answer)
    qed
  qed
qed

text \<open>A service that allows everybody in one group, for the witness.\<close>

definition test_service :: "nat http_client" where
  "test_service = \<lparr>hc_url_ok = (\<lambda>u. True),
     hc_do = (\<lambda>t req w. (Inr (200, Some (JObj [(''allow'', JBool (hr_url req = ''http://yes''))])), w + 1))\<rparr>"

definition test_authorizer :: "string \<Rightarrow> nat Authorizer" where
  "test_authorizer url = authz_New test_service
     \<lparr>ao_URL = url, ao_Timeout = 0, ao_Group = ''aggexp.io'', ao_Log = None, ao_Transport = None\<rparr>"

definition test_attributes :: attributes where
  "test_attributes = \<lparr>at_resource_request = True, at_user = Some \<lparr>u_name = ''alice'', u_groups = [], ui_uid = [], ui_extra = []\<rparr>,
     at_Verb = ''get'', at_APIGroup = ''aggexp.io'', at_APIVersion = ''v1'', at_Resource = ''widgets'', at_Subresource = [],
     at_Namespace = [], at_Name = ''w''\<rparr>"

lemmas test_authz_defs = test_authorizer_def authz_New_def test_service_def test_attributes_def

theorem authorize_only_on_answer_witness:
  "fst (fst (Authorize (test_authorizer ''http://yes'') test_attributes 0)) = DecisionAllow \<and>
   in_scope (test_authorizer ''http://yes'') test_attributes \<and>
   fst (fst (Authorize (test_authorizer ''http://no'') test_attributes 0)) = DecisionDeny \<and>
   snd (Authorize (test_authorizer ''http://no'') (test_attributes\<lparr>at_APIGroup := ''apps''\<rparr>) 0) = 0"
proof -
  have yes: "fst (fst (Authorize (test_authorizer ''http://yes'') test_attributes 0)) = DecisionAllow"
    and no: "fst (fst (Authorize (test_authorizer ''http://no'') test_attributes 0)) = DecisionDeny"
    by (simp_all add: Authorize_def ask_def test_authz_defs decodePolicy_def unmarshalStruct_def intoStruct_def
        fieldFor_def setPolicyResponse_def go_simps)
  have out: "\<not> in_scope (test_authorizer ''http://no'') (test_attributes\<lparr>at_APIGroup := ''apps''\<rparr>)"
    by (simp add: in_scope_def test_authz_defs)
  show ?thesis
    using yes no out authorize_only_on_answer [of "test_authorizer ''http://yes''" test_attributes 0]
      authorize_only_on_answer [of "test_authorizer ''http://no''" "test_attributes\<lparr>at_APIGroup := ''apps''\<rparr>" 0]
    by blast
qed

end
