(* ===== verification/V2Store.thy ===== *)
theory V2Store
  imports MetaStore GoJson
begin

text \<open>
  \<open>runtime/component/v2/metadatastore/metadatastore.go\<close>: the metadata store of the component
  runtime, the records of Kubernetes metadata kept in a custom resource of the host.  The stored shape is that
  of the multi-host records without lock and body hash, which the codec lemmas use; the host API server is the parameter
  \<open>host\<close> with the laws of \<open>host_lister\<close>.  \<open>Watch\<close> only opens a watch of the host client.
\<close>

section \<open>Records\<close>

text \<open>\<open>GVR\<close>, the resource of the records.\<close>

definition metaGVR :: gvr where
  "metaGVR = \<lparr>gv_group = ''aggexpmeta.aggexp.io'', gv_version = ''v1'', gv_resource = ''resourcemetadatas''\<rparr>"

record krm =
  kr_ref :: ResourceRef
  kr_recordUID :: string
  kr_recordRV :: string
  kr_uid :: string
  kr_created :: gotime
  kr_deleted :: "gotime option"
  kr_labels :: smap
  kr_anns :: smap
  kr_fins :: "string list"
  kr_managed :: string
  kr_owners :: string

definition empty_krm :: "ResourceRef \<Rightarrow> krm" where
  "empty_krm ref = \<lparr>kr_ref = ref, kr_recordUID = [], kr_recordRV = [], kr_uid = [], kr_created = 0, kr_deleted = None,
     kr_labels = [], kr_anns = [], kr_fins = [], kr_managed = [], kr_owners = []\<rparr>"

definition v2_isDNS1123Subdomain :: "string \<Rightarrow> bool" where
  "v2_isDNS1123Subdomain s \<longleftrightarrow> s \<noteq> [] \<and> length s \<le> 253 \<and> list_all dns_label (labels_of s)"

definition v2_RecordName :: "ResourceRef \<Rightarrow> string" where
  "v2_RecordName ref =
     (let ns = (if rf_namespace ref = [] then ''cluster'' else rf_namespace ref);
          grp = replace_char (CHR ''.'') (CHR ''-'') (rf_group ref);
          candidate = grp @ ''.'' @ rf_resource ref @ ''.'' @ ns @ ''.'' @ rf_name ref
      in if length candidate \<le> 253 \<and> v2_isDNS1123Subdomain candidate then candidate
         else ''rmeta-'' @ take 24 (hex_bytes (sha256 candidate)))"

definition v2_refString :: "ResourceRef \<Rightarrow> string" where
  "v2_refString r =
     (let ns = (if rf_namespace r = [] then ''cluster'' else rf_namespace r)
      in rf_group r @ ''/'' @ rf_resource r @ ''/'' @ ns @ ''/'' @ rf_name r)"

section \<open>The codec\<close>

definition refPathFromUnstructured :: "unstr \<Rightarrow> string \<times> string" where
  "refPathFromUnstructured u =
     (stringAt (un_obj u) [''spec'', ''resourceRef'', ''group''], stringAt (un_obj u) [''spec'', ''resourceRef'', ''resource''])"

definition v2_RefFromUnstructured :: "unstr \<Rightarrow> ResourceRef" where
  "v2_RefFromUnstructured u =
     (let (g, r) = refPathFromUnstructured u in
      \<lparr>rf_group = g, rf_resource = r,
       rf_namespace = stringAt (un_obj u) [''spec'', ''resourceRef'', ''namespace''],
       rf_name = stringAt (un_obj u) [''spec'', ''resourceRef'', ''name'']\<rparr>)"

definition krmMeta :: "krm \<Rightarrow> jmap" where
  "krmMeta rec =
     entry (kr_uid rec \<noteq> []) ''uid'' (JStr (kr_uid rec)) @
     entry (kr_created rec \<noteq> 0) ''creationTimestamp'' (JStr (rfc3339 (kr_created rec))) @
     entry (isSet (kr_deleted rec)) ''deletionTimestamp'' (timeText (kr_deleted rec)) @
     entry (kr_labels rec \<noteq> []) ''labels'' (jsmap (kr_labels rec)) @
     entry (kr_anns rec \<noteq> []) ''annotations'' (jsmap (kr_anns rec)) @
     entry (kr_fins rec \<noteq> []) ''finalizers'' (JArr (map JStr (kr_fins rec))) @
     entry (kr_managed rec \<noteq> []) ''managedFields'' (JStr (kr_managed rec)) @
     entry (kr_owners rec \<noteq> []) ''ownerReferences'' (JStr (kr_owners rec))"

definition v2_encode :: "krm \<Rightarrow> unstr" where
  "v2_encode rec =
     (let ref = [(''group'', JStr (rf_group (kr_ref rec))), (''resource'', JStr (rf_resource (kr_ref rec))),
                 (''name'', JStr (rf_name (kr_ref rec)))] @
                entry (rf_namespace (kr_ref rec) \<noteq> []) ''namespace'' (JStr (rf_namespace (kr_ref rec)))
      in (new_unstr metaGVR ''ResourceMetadata'')\<lparr>un_obj :=
           [(''spec'', JObj [(''resourceRef'', JObj ref), (''metadata'', JObj (krmMeta rec))])]\<rparr>)"

definition krmFromMeta :: "json_checks \<Rightarrow> krm \<Rightarrow> jmap \<Rightarrow> krm res" where
  "krmFromMeta J rec m =
     (let r1 = rec\<lparr>kr_uid := (case asStr (map_of m ''uid'') of None \<Rightarrow> kr_uid rec | Some s \<Rightarrow> s),
                   kr_created := (case parsedTime (map_of m ''creationTimestamp'') of None \<Rightarrow> kr_created rec | Some t \<Rightarrow> t),
                   kr_deleted := (case parsedTime (map_of m ''deletionTimestamp'') of None \<Rightarrow> kr_deleted rec | Some t \<Rightarrow> Some t),
                   kr_labels := (case asMap (map_of m ''labels'') of None \<Rightarrow> kr_labels rec | Some l \<Rightarrow> strEntries l),
                   kr_anns := (case asMap (map_of m ''annotations'') of None \<Rightarrow> kr_anns rec | Some l \<Rightarrow> strEntries l),
                   kr_fins := (case asArr (map_of m ''finalizers'') of None \<Rightarrow> kr_fins rec | Some xs \<Rightarrow> strElems xs)\<rparr>;
          mf = (case asStr (map_of m ''managedFields'') of None \<Rightarrow> [] | Some s \<Rightarrow> s);
          ors = (case asStr (map_of m ''ownerReferences'') of None \<Rightarrow> [] | Some s \<Rightarrow> s)
      in if mf \<noteq> [] \<and> \<not> jc_managed J mf then Inl (Plain ''managedFields not valid JSON'')
         else let r2 = (if mf \<noteq> [] then r1\<lparr>kr_managed := mf\<rparr> else r1)
              in if ors \<noteq> [] \<and> \<not> jc_owners J ors then Inl (Plain ''ownerReferences not valid JSON'')
                 else Inr (if ors \<noteq> [] then r2\<lparr>kr_owners := ors\<rparr> else r2))"

definition v2_decode :: "json_checks \<Rightarrow> unstr \<Rightarrow> ResourceRef \<Rightarrow> krm res" where
  "v2_decode J u fallback =
     (let ref0 = v2_RefFromUnstructured u;
          ref = (if rf_group ref0 = [] then fallback else ref0);
          rec = (empty_krm ref)\<lparr>kr_recordUID := un_uid u, kr_recordRV := un_rv u\<rparr>
      in case nestedMap (un_obj u) [''spec'', ''metadata''] of
           BadType \<Rightarrow> Inl (Plain ''accessor error'')
         | Missing \<Rightarrow> Inr rec
         | Found m \<Rightarrow> krmFromMeta J rec m)"

section \<open>The store\<close>

text \<open>The store: the client and the JSON checks of the metav1 types; the field manager only labels the writes.\<close>

record 'h Store =
  so_dyn :: "'h host"
  so_fieldMgr :: string
  so_checks :: json_checks

definition v2_Get :: "'h Store \<Rightarrow> ResourceRef \<Rightarrow> 'h \<Rightarrow> krm option res \<times> 'h" where
  "v2_Get S ref h =
     (let name = v2_RecordName ref in
      case h_get (so_dyn S) metaGVR name h of
        (Inl e, h1) \<Rightarrow> ((if is_not_found e then Inr None else Inl (Wrapped (''metastore: get '' @ name) e)), h1)
      | (Inr u, h1) \<Rightarrow> ((case v2_decode (so_checks S) u ref of Inl e \<Rightarrow> Inl e | Inr r \<Rightarrow> Inr (Some r)), h1))"

definition v2_keep :: "'h Store \<Rightarrow> string \<Rightarrow> string \<Rightarrow> unstr \<Rightarrow> krm option" where
  "v2_keep S gname rname u =
     (let (g, r) = refPathFromUnstructured u in
      if g \<noteq> gname \<or> r \<noteq> rname then None
      else (case v2_decode (so_checks S) u \<lparr>rf_group = [], rf_resource = [], rf_namespace = [], rf_name = []\<rparr> of
              Inl e \<Rightarrow> None
            | Inr rec \<Rightarrow> Some rec))"

definition v2_List :: "'h Store \<Rightarrow> string \<Rightarrow> string \<Rightarrow> 'h \<Rightarrow> krm list res \<times> 'h" where
  "v2_List S gname rname h =
     (case h_list (so_dyn S) metaGVR h of
        (Inl e, h1) \<Rightarrow> (Inl (Wrapped ''metastore: list'' e), h1)
      | (Inr us, h1) \<Rightarrow> (Inr (List.map_filter (v2_keep S gname rname) us), h1))"

definition v2_Put :: "'h Store \<Rightarrow> krm \<Rightarrow> 'h \<Rightarrow> krm res \<times> 'h" where
  "v2_Put S rec h =
     (let H = so_dyn S; name = v2_RecordName (kr_ref rec); u = (v2_encode rec)\<lparr>un_name := name\<rparr> in
      case h_get H metaGVR name h of
        (Inl e, h1) \<Rightarrow>
          (if \<not> is_not_found e then (Inl (Wrapped (''metastore: get for put '' @ name) e), h1)
           else (case h_create H metaGVR (u\<lparr>un_rv := []\<rparr>) h1 of
                   (Inl ce, h2) \<Rightarrow> (Inl (Wrapped (''metastore: create '' @ name) ce), h2)
                 | (Inr created, h2) \<Rightarrow> (v2_decode (so_checks S) created (kr_ref rec), h2)))
      | (Inr existing, h1) \<Rightarrow>
          (case h_update H metaGVR (u\<lparr>un_rv := un_rv existing, un_uid := un_uid existing\<rparr>) h1 of
             (Inl ue, h2) \<Rightarrow> (Inl (Wrapped (''metastore: update '' @ name) ue), h2)
           | (Inr updated, h2) \<Rightarrow> (v2_decode (so_checks S) updated (kr_ref rec), h2)))"

definition v2_Delete :: "'h Store \<Rightarrow> ResourceRef \<Rightarrow> 'h \<Rightarrow> api_err option \<times> 'h" where
  "v2_Delete S ref h =
     (let name = v2_RecordName ref in
      case h_delete (so_dyn S) metaGVR name h of
        (Some e, h1) \<Rightarrow> ((if is_not_found e then None else Some (Wrapped (''metastore: delete '' @ name) e)), h1)
      | (None, h1) \<Rightarrow> (None, h1))"

section \<open>The codec against the multi-host one\<close>

definition toMh :: "krm \<Rightarrow> Record" where
  "toMh r = \<lparr>rc_ref = kr_ref r, rc_recordUID = kr_recordUID r, rc_recordRV = kr_recordRV r, rc_uid = kr_uid r,
     rc_created = kr_created r, rc_deleted = kr_deleted r, rc_labels = kr_labels r, rc_anns = kr_anns r,
     rc_fins = kr_fins r, rc_managed = kr_managed r, rc_owners = kr_owners r, rc_lock = None, rc_hash = []\<rparr>"

definition fromMh :: "Record \<Rightarrow> krm" where
  "fromMh r = \<lparr>kr_ref = rc_ref r, kr_recordUID = rc_recordUID r, kr_recordRV = rc_recordRV r, kr_uid = rc_uid r,
     kr_created = rc_created r, kr_deleted = rc_deleted r, kr_labels = rc_labels r, kr_anns = rc_anns r,
     kr_fins = rc_fins r, kr_managed = rc_managed r, kr_owners = rc_owners r\<rparr>"

lemma v2_RecordName_eq: "v2_RecordName = RecordName"
  by (simp add: fun_eq_iff v2_RecordName_def RecordName_def recordCandidate_def orCluster_def
      v2_isDNS1123Subdomain_def isDNS1123Subdomain_def Let_def)

lemma v2_ref_eq: "v2_RefFromUnstructured = refFromUnstructured"
  by (simp add: fun_eq_iff v2_RefFromUnstructured_def refFromUnstructured_def refPathFromUnstructured_def)

lemma refPath_eq: "refPathFromUnstructured u = (rf_group (refFromUnstructured u), rf_resource (refFromUnstructured u))"
  by (simp add: refFromUnstructured_def refPathFromUnstructured_def)

lemma v2_encode_eq: "v2_encode r = encodeRecord (toMh r) metaGVR ''ResourceMetadata''"
  by (simp add: v2_encode_def encodeRecord_def krmMeta_def metaMap_def refMap_def toMh_def Held_def Let_def entry_def)

lemma krmFromMeta_eq:
  "krmFromMeta J (fromMh r) m = map_sum id fromMh (decodeMeta J r m)"
  by (simp add: krmFromMeta_def decodeMeta_def fromMh_def Let_def cong: option.case_cong)

lemma fromMh_lock_hash [simp]: "fromMh (r\<lparr>rc_lock := l\<rparr>) = fromMh r" "fromMh (r\<lparr>rc_hash := x\<rparr>) = fromMh r"
  by (simp_all add: fromMh_def)

lemma v2_decode_eq: "v2_decode J u fb = map_sum id fromMh (decodeRecord J u fb)"
proof -
  have e: "(empty_krm ref)\<lparr>kr_recordUID := a, kr_recordRV := b\<rparr> = fromMh ((empty_record ref)\<lparr>rc_recordUID := a, rc_recordRV := b\<rparr>)" for ref a b
    by (simp add: empty_krm_def empty_record_def fromMh_def)
  show ?thesis
    unfolding v2_decode_def decodeRecord_def v2_ref_eq e Let_def
    by (auto simp: krmFromMeta_eq split: nested.split sum.split)
qed

text \<open>What a stored record reads back as.\<close>

definition krm_ok :: "json_checks \<Rightarrow> krm \<Rightarrow> bool" where
  "krm_ok J r \<longleftrightarrow> rf_group (kr_ref r) \<noteq> [] \<and>
     0 \<le> kr_created r \<and> kr_created r < max_time \<and> time_ok (kr_deleted r) \<and>
     (kr_managed r \<noteq> [] \<longrightarrow> jc_managed J (kr_managed r)) \<and> (kr_owners r \<noteq> [] \<longrightarrow> jc_owners J (kr_owners r))"

definition stored_krm :: "string \<Rightarrow> string \<Rightarrow> krm \<Rightarrow> krm" where
  "stored_krm uid rv r = r\<lparr>kr_recordUID := uid, kr_recordRV := rv,
     kr_created := trunc_s (kr_created r), kr_deleted := trunc_opt (kr_deleted r)\<rparr>"

lemma stored_krm_eq: "fromMh (stored_record uid rv (toMh r)) = stored_krm uid rv r"
  by (simp add: stored_record_def stored_krm_def fromMh_def toMh_def norm_lock_def)

lemma krm_ok_eq: "krm_ok J r = record_ok J (toMh r)"
  by (simp add: krm_ok_def record_ok_def toMh_def lock_ok_def)

lemma v2_decode_encode:
  assumes "krm_ok J r"
  shows "v2_decode J ((v2_encode r)\<lparr>un_name := n, un_uid := uid, un_rv := rv\<rparr>) fb = Inr (stored_krm uid rv r)"
  using decode_encode [of J "toMh r"] assms
  by (simp add: v2_decode_eq v2_encode_eq krm_ok_eq stored_krm_eq)

lemma ref_of_encode: "v2_RefFromUnstructured ((v2_encode r)\<lparr>un_name := n, un_uid := uid, un_rv := rv\<rparr>) = kr_ref r"
  by (cases "kr_ref r") (simp add: v2_RefFromUnstructured_def refPathFromUnstructured_def v2_encode_def path_defs Let_def)

lemma ref_of_decode: "v2_decode J u fb = Inr r \<Longrightarrow> rf_group (v2_RefFromUnstructured u) \<noteq> [] \<Longrightarrow> kr_ref r = v2_RefFromUnstructured u"
  by (auto simp: v2_decode_def krmFromMeta_def empty_krm_def Let_def split: nested.splits if_splits)

section \<open>The operations over the host\<close>

abbreviation meta_res :: string where "meta_res \<equiv> gv_resource metaGVR"

definition stored_obj :: "krm \<Rightarrow> string \<Rightarrow> string \<Rightarrow> unstr" where
  "stored_obj r uid rv = (v2_encode r)\<lparr>un_name := v2_RecordName (kr_ref r), un_uid := uid, un_rv := rv\<rparr>"

lemma decode_stored_obj: "krm_ok J r \<Longrightarrow> v2_decode J (stored_obj r uid rv) fb = Inr (stored_krm uid rv r)"
  by (simp add: stored_obj_def v2_decode_encode)

lemma v2_put_spec:
  assumes host: "host_api (so_dyn S) ok objs ver" and "ok h" and r: "krm_ok (so_checks S) r"
  shows "\<exists>uid rv h1. v2_Put S r h = (Inr (stored_krm uid rv r), h1) \<and> rv \<noteq> [] \<and> ok h1 \<and>
    objs h1 = (objs h)(meta_res := (objs h meta_res)(v2_RecordName (kr_ref r) \<mapsto> stored_obj r uid rv)) \<and>
    (\<forall>cur. objs h meta_res (v2_RecordName (kr_ref r)) = Some cur \<longrightarrow> ver (un_rv cur) < ver rv)"
proof -
  let ?H = "so_dyn S" and ?n = "v2_RecordName (kr_ref r)"
  let ?u = "(v2_encode r)\<lparr>un_name := ?n\<rparr>"
  note get = host_api.get [OF host \<open>ok h\<close>, of metaGVR ?n]
  obtain g h1 where g: "h_get ?H metaGVR ?n h = (g, h1)" by (cases "h_get ?H metaGVR ?n h")
  have h1: "ok h1" "objs h1 = objs h" using get g by simp_all
  have so: "?u\<lparr>un_rv := a, un_uid := b, un_rv := rv, un_uid := uid\<rparr> = stored_obj r uid rv"
    "?u\<lparr>un_rv := a, un_rv := rv, un_uid := uid\<rparr> = stored_obj r uid rv" for a b rv uid
    by (simp_all add: stored_obj_def)
  show ?thesis
  proof (cases "objs h meta_res ?n")
    case None
    then obtain e where e: "g = Inl e" "is_not_found e"
      using host_api.get_none [OF host \<open>ok h\<close> None] g by auto
    obtain rv uid where c: "fst (h_create ?H metaGVR (?u\<lparr>un_rv := []\<rparr>) h1) = Inr (stored_obj r uid rv)" "rv \<noteq> []"
      "ok (snd (h_create ?H metaGVR (?u\<lparr>un_rv := []\<rparr>) h1))"
      "objs (snd (h_create ?H metaGVR (?u\<lparr>un_rv := []\<rparr>) h1)) = (objs h1)(meta_res := (objs h1 meta_res)(?n \<mapsto> stored_obj r uid rv))"
      using host_api.create [OF host h1(1), of metaGVR "?u\<lparr>un_rv := []\<rparr>"] None h1(2) unfolding so by auto
    obtain h2 where "h_create ?H metaGVR (?u\<lparr>un_rv := []\<rparr>) h1 = (Inr (stored_obj r uid rv), h2)" using c(1) by (metis prod.collapse)
    then have "v2_Put S r h = (Inr (stored_krm uid rv r), h2)"
      using g e decode_stored_obj [OF r] by (simp add: v2_Put_def Let_def)
    then show ?thesis using c h1 None \<open>h_create _ _ _ _ = _\<close> by fastforce
  next
    case (Some cur)
    then have e: "g = Inr cur" using host_api.get_some [OF host \<open>ok h\<close> Some] g by simp
    let ?v = "?u\<lparr>un_rv := un_rv cur, un_uid := un_uid cur\<rparr>"
    obtain rv uid where c: "fst (h_update ?H metaGVR ?v h1) = Inr (stored_obj r uid rv)" "rv \<noteq> []" "ver (un_rv cur) < ver rv"
      "ok (snd (h_update ?H metaGVR ?v h1))"
      "objs (snd (h_update ?H metaGVR ?v h1)) = (objs h1)(meta_res := (objs h1 meta_res)(?n \<mapsto> stored_obj r uid rv))"
      using host_api.update [OF host h1(1), of metaGVR ?v cur] Some h1(2) unfolding so by auto
    obtain h2 where "h_update ?H metaGVR ?v h1 = (Inr (stored_obj r uid rv), h2)" using c(1) by (metis prod.collapse)
    then have "v2_Put S r h = (Inr (stored_krm uid rv r), h2)"
      using g e decode_stored_obj [OF r] by (simp add: v2_Put_def Let_def)
    then show ?thesis using c h1 Some \<open>h_update _ _ _ _ = _\<close> by fastforce
  qed
qed

lemma v2_get_spec:
  assumes host: "host_api (so_dyn S) ok objs ver" and "ok h"
  shows "\<exists>h1. v2_Get S ref h = ((case objs h meta_res (v2_RecordName ref) of None \<Rightarrow> Inr None
      | Some u \<Rightarrow> map_sum id Some (v2_decode (so_checks S) u ref)), h1) \<and> ok h1 \<and> objs h1 = objs h"
proof -
  let ?n = "v2_RecordName ref"
  obtain g h1 where g: "h_get (so_dyn S) metaGVR ?n h = (g, h1)" by (cases "h_get (so_dyn S) metaGVR ?n h")
  have h1: "ok h1" "objs h1 = objs h" using host_api.get [OF host \<open>ok h\<close>, of metaGVR ?n] g by simp_all
  show ?thesis
  proof (cases "objs h meta_res ?n")
    case None
    then obtain e where "g = Inl e" "is_not_found e" using host_api.get_none [OF host \<open>ok h\<close> None] g by auto
    then show ?thesis using g h1 None by (simp add: v2_Get_def Let_def)
  next
    case (Some u)
    then have "g = Inr u" using host_api.get_some [OF host \<open>ok h\<close> Some] g by simp
    then show ?thesis using g h1 Some by (auto simp: v2_Get_def Let_def split: sum.split)
  qed
qed

lemma v2_delete_spec:
  assumes host: "host_api (so_dyn S) ok objs ver" and "ok h"
  shows "\<exists>e h1. v2_Delete S ref h = (e, h1) \<and> ok h1 \<and> objs h1 = (objs h)(meta_res := (objs h meta_res)(v2_RecordName ref := None)) \<and>
    (objs h meta_res (v2_RecordName ref) \<noteq> None \<longrightarrow> e = None)"
proof -
  let ?n = "v2_RecordName ref"
  obtain e h1 where d: "h_delete (so_dyn S) metaGVR ?n h = (e, h1)" by (cases "h_delete (so_dyn S) metaGVR ?n h")
  show ?thesis
    using host_api.delete [OF host \<open>ok h\<close>, of metaGVR ?n] host_api.delete_result [OF host \<open>ok h\<close>, of metaGVR ?n] d
    by (cases "objs h meta_res ?n"; cases e) (auto simp: v2_Delete_def Let_def)
qed

text \<open>Every record is stored under the name of the object it describes.\<close>

definition store_wf :: "(string \<Rightarrow> string \<Rightarrow> unstr option) \<Rightarrow> bool" where
  "store_wf M \<longleftrightarrow> (\<forall>n u. M meta_res n = Some u \<longrightarrow> n = v2_RecordName (v2_RefFromUnstructured u))"

lemma store_wf_put: "store_wf M \<Longrightarrow> store_wf (M(meta_res := (M meta_res)(v2_RecordName (kr_ref r) \<mapsto> stored_obj r uid rv)))"
  by (simp add: store_wf_def stored_obj_def ref_of_encode)

lemma store_wf_del: "store_wf M \<Longrightarrow> store_wf (M(meta_res := (M meta_res)(n := None)))"
  by (simp add: store_wf_def)

section \<open>Properties\<close>

text \<open>
  C35: The metadata store is a map from references to records: on a host nobody else writes to during the calls, a
  Put of a record that can be stored always succeeds at a newer resource version than the one it replaces,
  a Get of the same reference then returns that record (times cut to the second, with the UID and resource version of
  the host), a Get of a reference with another record name returns what it returned before, and every record stays
  stored under the name of its reference.
\<close>

theorem metadata_put_get:
  assumes "host_api (so_dyn S) ok objs ver" and "ok h" and "krm_ok (so_checks S) r" and "store_wf (objs h)"
  shows "\<exists>uid rv h1. v2_Put S r h = (Inr (stored_krm uid rv r), h1) \<and> rv \<noteq> [] \<and> ok h1 \<and> store_wf (objs h1) \<and>
    (\<forall>cur. objs h meta_res (v2_RecordName (kr_ref r)) = Some cur \<longrightarrow> ver (un_rv cur) < ver rv) \<and>
    fst (v2_Get S (kr_ref r) h1) = Inr (Some (stored_krm uid rv r)) \<and>
    (\<forall>ref. v2_RecordName ref \<noteq> v2_RecordName (kr_ref r) \<longrightarrow> fst (v2_Get S ref h1) = fst (v2_Get S ref h))"
proof -
  obtain uid rv h1 where p: "v2_Put S r h = (Inr (stored_krm uid rv r), h1)" "rv \<noteq> []" "ok h1"
    "objs h1 = (objs h)(meta_res := (objs h meta_res)(v2_RecordName (kr_ref r) \<mapsto> stored_obj r uid rv))"
    "\<forall>cur. objs h meta_res (v2_RecordName (kr_ref r)) = Some cur \<longrightarrow> ver (un_rv cur) < ver rv"
    using v2_put_spec [OF assms(1-3)] by blast
  have g: "fst (v2_Get S ref h1) = (case objs h1 meta_res (v2_RecordName ref) of None \<Rightarrow> Inr None
      | Some u \<Rightarrow> map_sum id Some (v2_decode (so_checks S) u ref))" for ref
    using v2_get_spec [OF assms(1) p(3), of ref] by (metis fst_conv)
  have g0: "fst (v2_Get S ref h) = (case objs h meta_res (v2_RecordName ref) of None \<Rightarrow> Inr None
      | Some u \<Rightarrow> map_sum id Some (v2_decode (so_checks S) u ref))" for ref
    using v2_get_spec [OF assms(1,2), of ref] by (metis fst_conv)
  have same: "fst (v2_Get S (kr_ref r) h1) = Inr (Some (stored_krm uid rv r))"
    using decode_stored_obj [OF assms(3)] by (simp add: g p(4))
  have other: "fst (v2_Get S ref h1) = fst (v2_Get S ref h)" if "v2_RecordName ref \<noteq> v2_RecordName (kr_ref r)" for ref
    using that by (simp add: g g0 p(4))
  have wf: "store_wf (objs h1)" unfolding p(4) by (rule store_wf_put [OF assms(4)])
  show ?thesis using p(1-3,5) same other wf by blast
qed

text \<open>The store over the simulated host, and a record for the witnesses.\<close>

definition test_store :: "etcd Store" where
  "test_store = \<lparr>so_dyn = etcd_host, so_fieldMgr = ''aggexp'', so_checks = \<lparr>jc_managed = (\<lambda>_. True), jc_owners = (\<lambda>_. True)\<rparr>\<rparr>"

definition test_krm :: "string \<Rightarrow> gotime \<Rightarrow> krm" where
  "test_krm n t = (empty_krm \<lparr>rf_group = ''g'', rf_resource = ''r'', rf_namespace = ''ns'', rf_name = n\<rparr>)\<lparr>kr_uid := n, kr_created := t\<rparr>"

lemma test_krm_ok: "0 \<le> t \<Longrightarrow> t < max_time \<Longrightarrow> krm_ok (so_checks test_store) (test_krm n t)"
  by (simp add: krm_ok_def test_krm_def empty_krm_def time_ok_def)

lemma test_store_api: "host_api (so_dyn test_store) es_ok es_lookup es_ver"
  using etcd.host_api_axioms by (simp add: test_store_def)

lemma es_empty_ok: "es_ok es_empty" and es_empty_lookup: "es_lookup es_empty r n = None" and es_empty_wf: "store_wf (es_lookup es_empty)"
  by (simp_all add: es_ok_def es_empty_def es_lookup_def store_wf_def)

theorem metadata_put_get_witness:
  "\<exists>uid rv h1 h2. v2_Put test_store (test_krm ''a'' 5) es_empty = (Inr (stored_krm uid rv (test_krm ''a'' 5)), h1) \<and>
     v2_Get test_store (kr_ref (test_krm ''a'' 5)) h1 = (Inr (Some (stored_krm uid rv (test_krm ''a'' 5))), h2)"
proof -
  have ok: "krm_ok (so_checks test_store) (test_krm ''a'' 5)" by (rule test_krm_ok) (simp_all add: max_time_def ns_per_s_def)
  obtain uid rv h1 where "v2_Put test_store (test_krm ''a'' 5) es_empty = (Inr (stored_krm uid rv (test_krm ''a'' 5)), h1)"
    "fst (v2_Get test_store (kr_ref (test_krm ''a'' 5)) h1) = Inr (Some (stored_krm uid rv (test_krm ''a'' 5)))"
    using metadata_put_get [OF test_store_api es_empty_ok ok es_empty_wf] by blast
  then show ?thesis by (metis prod.collapse)
qed

end
