(* ===== verification/V2Gc.thy ===== *)
theory V2Gc
  imports V2Store
begin

text \<open>
  \<open>runtime/component/v2/gc/gc.go\<close>: the garbage collector of the metadata store.  A sweep lists the
  records of one resource and the objects of the backend and deletes the records without an object that its policy
  releases.  The backend's \<open>List\<close> call is a parameter over the backend's state; a reason for skipping is a value
  instead of its text; the duration of a sweep is not kept.
\<close>

section \<open>Configuration and results\<close>

record gc_config =
  gc_Group :: string
  gc_Resource :: string
  gc_Interval :: int
  gc_MinAge :: int
  gc_InitialDelay :: int

datatype skip_reason =
    TooYoung int
  | HasFinalizers "string list"
  | HasOwnerReferences
  | DeletionTimestampSet
  | DeleteError api_err

datatype gc_error = MetastoreList api_err | BackendList string

record RunResult =
  rr_Trigger :: string
  rr_StartedAt :: gotime
  rr_Seen :: nat
  rr_Backend :: nat
  rr_Orphans :: nat
  rr_Deleted :: nat
  rr_Skipped :: "(string \<times> skip_reason) list"
  rr_Deletions :: "string list"
  rr_Error :: "gc_error option"

text \<open>\<open>Reconciler\<close>: its fixed part and its mutable part.\<close>

type_synonym 'b backend_list = "'b \<Rightarrow> (string + json option list) \<times> 'b"

record ('h, 'b) Reconciler =
  re_store :: "'h Store"
  re_backend :: "'b backend_list"
  re_cfg :: gc_config

record gc_state =
  gs_running :: bool
  gs_lastRun :: "RunResult option"

definition gc_New :: "'h Store \<Rightarrow> 'b backend_list \<Rightarrow> gc_config \<Rightarrow> ('h, 'b) Reconciler \<times> gc_state" where
  "gc_New store backend cfg =
     (\<lparr>re_store = store, re_backend = backend,
       re_cfg = cfg\<lparr>gc_Interval := (if gc_Interval cfg \<le> 0 then 300 * ns_per_s else gc_Interval cfg),
                    gc_MinAge := (if gc_MinAge cfg \<le> 0 then 30 * ns_per_s else gc_MinAge cfg),
                    gc_InitialDelay := (if gc_InitialDelay cfg \<le> 0 then 10 * ns_per_s else gc_InitialDelay cfg)\<rparr>\<rparr>,
      \<lparr>gs_running = False, gs_lastRun = None\<rparr>)"

section \<open>Names in JSON objects\<close>

definition setNameNs :: "string \<Rightarrow> json \<Rightarrow> string \<times> string \<Rightarrow> (string \<times> string) \<times> bool" where
  "setNameNs f v p =
     (if f = ''name'' then (let (s, ok) = intoString v (fst p) in ((s, snd p), ok))
      else (let (s, ok) = intoString v (snd p) in ((fst p, s), ok)))"

definition setMetadata :: "string \<Rightarrow> json \<Rightarrow> string \<times> string \<Rightarrow> (string \<times> string) \<times> bool" where
  "setMetadata f v p = intoStruct [''name'', ''namespace''] setNameNs v p"

definition nameNamespaceFromJSON :: "json option \<Rightarrow> string \<times> string" where
  "nameNamespaceFromJSON raw =
     (case unmarshalStruct [''metadata''] setMetadata ([], []) raw of None \<Rightarrow> ([], []) | Some p \<Rightarrow> p)"

section \<open>The policy\<close>

text \<open>\<open>None\<close> is \<open>decideDelete\<close>.  The difference of two times saturates only beyond 292 years, which no comparison with \<open>MinAge\<close> notices.\<close>

definition decide :: "gc_config \<Rightarrow> krm \<Rightarrow> gotime \<Rightarrow> skip_reason option" where
  "decide cfg rec now =
     (if kr_created rec \<noteq> 0 \<and> now - kr_created rec < gc_MinAge cfg then Some (TooYoung (gc_MinAge cfg))
      else if kr_fins rec \<noteq> [] then Some (HasFinalizers (kr_fins rec))
      else if kr_owners rec \<noteq> [] then Some HasOwnerReferences
      else if kr_deleted rec \<noteq> None then Some DeletionTimestampSet
      else None)"

section \<open>A sweep\<close>

definition gcKey :: "string \<Rightarrow> string \<Rightarrow> string" where
  "gcKey ns nm = ns @ ''/'' @ nm"

definition backendKeys :: "json option list \<Rightarrow> string list" where
  "backendKeys items = remdups (map (\<lambda>raw. let (nm, ens) = nameNamespaceFromJSON raw in gcKey ens nm) items)"

text \<open>\<open>sort.Slice\<close> may order equal names either way; the model keeps their order.\<close>

definition orphansOf :: "string list \<Rightarrow> krm list \<Rightarrow> krm list" where
  "orphansOf keys recs =
     sort_key (\<lambda>r. rf_name (kr_ref r)) (filter (\<lambda>r. gcKey (rf_namespace (kr_ref r)) (rf_name (kr_ref r)) \<notin> set keys) recs)"

definition sweepOne :: "('h, 'b) Reconciler \<Rightarrow> gotime \<Rightarrow> krm \<Rightarrow> RunResult \<times> 'h \<Rightarrow> RunResult \<times> 'h" where
  "sweepOne R now rec = (\<lambda>(res, h).
     (let name = v2_RecordName (kr_ref rec) in
      case decide (re_cfg R) rec now of
        Some reason \<Rightarrow> (res\<lparr>rr_Skipped := rr_Skipped res @ [(name, reason)]\<rparr>, h)
      | None \<Rightarrow>
          (case v2_Delete (re_store R) (kr_ref rec) h of
             (Some e, h1) \<Rightarrow> (res\<lparr>rr_Skipped := rr_Skipped res @ [(name, DeleteError e)]\<rparr>, h1)
           | (None, h1) \<Rightarrow> (res\<lparr>rr_Deletions := rr_Deletions res @ [name], rr_Deleted := rr_Deleted res + 1\<rparr>, h1))))"

definition gc_sweep :: "('h, 'b) Reconciler \<Rightarrow> string \<Rightarrow> 'h \<Rightarrow> 'b \<Rightarrow> RunResult \<times> 'h \<times> 'b" where
  "gc_sweep R trigger h b =
     (let (started, h0) = h_now (so_dyn (re_store R)) h;
          res = \<lparr>rr_Trigger = trigger, rr_StartedAt = started, rr_Seen = 0, rr_Backend = 0, rr_Orphans = 0, rr_Deleted = 0,
                 rr_Skipped = [], rr_Deletions = [], rr_Error = None\<rparr>
      in case v2_List (re_store R) (gc_Group (re_cfg R)) (gc_Resource (re_cfg R)) h0 of
           (Inl e, h1) \<Rightarrow> (res\<lparr>rr_Error := Some (MetastoreList e)\<rparr>, h1, b)
         | (Inr records, h1) \<Rightarrow>
             (let res1 = res\<lparr>rr_Seen := length records\<rparr> in
              case re_backend R b of
                (Inl e, b1) \<Rightarrow> (res1\<lparr>rr_Error := Some (BackendList e)\<rparr>, h1, b1)
              | (Inr items, b1) \<Rightarrow>
                  (let keys = backendKeys items;
                       (now, h2) = h_now (so_dyn (re_store R)) h1;
                       orphans = orphansOf keys records;
                       (res2, h3) = fold (sweepOne R now) orphans
                         (res1\<lparr>rr_Backend := length keys, rr_Orphans := length orphans\<rparr>, h2)
                   in (res2, h3, b1))))"

text \<open>\<open>runOnce\<close>: one sweep at a time; \<open>None\<close> when one is in progress.\<close>

definition runOnce :: "('h, 'b) Reconciler \<Rightarrow> string \<Rightarrow> gc_state \<Rightarrow> 'h \<Rightarrow> 'b \<Rightarrow> RunResult option \<times> gc_state \<times> 'h \<times> 'b" where
  "runOnce R trigger st h b =
     (if gs_running st then (None, st, h, b)
      else (let (res, h1, b1) = gc_sweep R trigger h b
            in (Some res, st\<lparr>gs_lastRun := Some res, gs_running := False\<rparr>, h1, b1)))"

definition RunOnce :: "('h, 'b) Reconciler \<Rightarrow> gc_state \<Rightarrow> 'h \<Rightarrow> 'b \<Rightarrow> RunResult option \<times> gc_state \<times> 'h \<times> 'b" where
  "RunOnce R st h b = runOnce R ''manual'' st h b"

definition LastRun :: "gc_state \<Rightarrow> RunResult option" where
  "LastRun st = gs_lastRun st"

text \<open>The HTTP handlers: a status and the result written, if any.\<close>

definition HandleRun :: "('h, 'b) Reconciler \<Rightarrow> gc_state \<Rightarrow> 'h \<Rightarrow> 'b \<Rightarrow> (nat \<times> RunResult option) \<times> gc_state \<times> 'h \<times> 'b" where
  "HandleRun R st h b =
     (let (res, rest) = RunOnce R st h b
      in ((case res of None \<Rightarrow> (409, None) | Some r \<Rightarrow> (200, Some r)), rest))"

definition HandleLast :: "gc_state \<Rightarrow> nat \<times> RunResult option" where
  "HandleLast st = (case LastRun st of None \<Rightarrow> (404, None) | Some r \<Rightarrow> (200, Some r))"

section \<open>Lemmas\<close>

text \<open>What a sweep removes: the names of the released orphans.\<close>

definition released :: "('h, 'b) Reconciler \<Rightarrow> gotime \<Rightarrow> krm list \<Rightarrow> string set" where
  "released R now recs = {v2_RecordName (kr_ref rec) | rec. rec \<in> set recs \<and> decide (re_cfg R) rec now = None}"

definition without :: "string set \<Rightarrow> (string \<Rightarrow> string \<Rightarrow> unstr option) \<Rightarrow> string \<Rightarrow> string \<Rightarrow> unstr option" where
  "without N M = M(meta_res := (\<lambda>n. if n \<in> N then None else M meta_res n))"

lemma without_insert: "without N (M(meta_res := (M meta_res)(n := None))) = without (insert n N) M"
  by (simp add: without_def fun_eq_iff)

lemma without_empty: "without {} M = M"
  by (simp add: without_def)

lemma sweep_fold:
  assumes host: "host_api (so_dyn (re_store R)) ok objs ver" and "ok h"
  shows "\<exists>res' h'. fold (sweepOne R now) recs (res, h) = (res', h') \<and> ok h' \<and> objs h' = without (released R now recs) (objs h) \<and>
    rr_Deleted res' + length (rr_Skipped res') = rr_Deleted res + length (rr_Skipped res) + length recs \<and>
    rr_Orphans res' = rr_Orphans res \<and> rr_Error res' = rr_Error res \<and> rr_Seen res' = rr_Seen res \<and> rr_Backend res' = rr_Backend res"
  using assms(2)
proof (induction recs arbitrary: res h)
  case Nil then show ?case by (simp add: released_def without_empty)
next
  case (Cons rec recs)
  have rel: "released R now (rec # recs) = (if decide (re_cfg R) rec now = None
      then insert (v2_RecordName (kr_ref rec)) (released R now recs) else released R now recs)"
    by (auto simp: released_def)
  obtain e hd where d: "v2_Delete (re_store R) (kr_ref rec) h = (e, hd)" "ok hd"
    "objs hd = (objs h)(meta_res := (objs h meta_res)(v2_RecordName (kr_ref rec) := None))"
    using v2_delete_spec [OF host Cons.prems] by blast
  obtain res1 h1 where one: "sweepOne R now rec (res, h) = (res1, h1)" by fastforce
  have step: "ok h1" "without (released R now recs) (objs h1) = without (released R now (rec # recs)) (objs h)"
    "rr_Deleted res1 + length (rr_Skipped res1) = rr_Deleted res + length (rr_Skipped res) + 1"
    "rr_Orphans res1 = rr_Orphans res" "rr_Error res1 = rr_Error res" "rr_Seen res1 = rr_Seen res" "rr_Backend res1 = rr_Backend res"
    using one d Cons.prems unfolding rel sweepOne_def Let_def
    by (auto simp: without_insert split: option.splits)
  obtain res' h' where "fold (sweepOne R now) recs (res1, h1) = (res', h')" "ok h'" "objs h' = without (released R now recs) (objs h1)"
    "rr_Deleted res' + length (rr_Skipped res') = rr_Deleted res1 + length (rr_Skipped res1) + length recs"
    "rr_Orphans res' = rr_Orphans res1" "rr_Error res' = rr_Error res1" "rr_Seen res' = rr_Seen res1" "rr_Backend res' = rr_Backend res1"
    using Cons.IH [OF step(1)] by blast
  then show ?case using one step by simp
qed

text \<open>The records the store lists, over a consistent store.\<close>

lemma v2_list_spec:
  assumes host: "host_lister (so_dyn S) ok objs ver" and "ok h" and "gname \<noteq> []"
  shows "\<exists>recs h1. v2_List S gname rname h = (Inr recs, h1) \<and> ok h1 \<and> objs h1 = objs h \<and>
    (\<forall>rec. rec \<in> set recs \<longleftrightarrow> (\<exists>n u. objs h meta_res n = Some u \<and> refPathFromUnstructured u = (gname, rname) \<and>
       v2_decode (so_checks S) u (v2_RefFromUnstructured u) = Inr rec))"
proof -
  obtain us h1 where l: "h_list (so_dyn S) metaGVR h = (Inr us, h1)" "ok h1" "objs h1 = objs h"
    "\<forall>u. u \<in> set us \<longleftrightarrow> (\<exists>n. objs h meta_res n = Some u)"
    using host_lister.list [OF host \<open>ok h\<close>, of metaGVR] by (metis prod.collapse)
  let ?none = "\<lparr>rf_group = [], rf_resource = [], rf_namespace = [], rf_name = []\<rparr>"
  have fb: "v2_decode (so_checks S) u ?none = v2_decode (so_checks S) u (v2_RefFromUnstructured u)"
    if "refPathFromUnstructured u = (gname, rname)" for u
    using that assms(3) by (simp add: v2_decode_def v2_RefFromUnstructured_def Let_def)
  have keep: "v2_keep S gname rname u = Some rec \<longleftrightarrow> refPathFromUnstructured u = (gname, rname) \<and>
      v2_decode (so_checks S) u (v2_RefFromUnstructured u) = Inr rec" for u rec
    using fb [of u]
    by (auto simp: v2_keep_def Let_def split: prod.splits sum.splits if_splits)
  have "rec \<in> set (List.map_filter (v2_keep S gname rname) us) \<longleftrightarrow> (\<exists>n u. objs h meta_res n = Some u \<and>
      refPathFromUnstructured u = (gname, rname) \<and> v2_decode (so_checks S) u (v2_RefFromUnstructured u) = Inr rec)" for rec
  proof -
    have "rec \<in> set (List.map_filter (v2_keep S gname rname) us) \<longleftrightarrow> (\<exists>u \<in> set us. v2_keep S gname rname u = Some rec)"
      by (force simp: List.map_filter_def)
    then show ?thesis using l(4) keep by blast
  qed
  then show ?thesis using l(1-3) by (simp add: v2_List_def)
qed

section \<open>Properties\<close>

text \<open>The records a sweep releases, in terms of the stored objects.\<close>

lemma released_iff:
  fixes R :: "('h, 'b) Reconciler"
  assumes wf: "store_wf M" and grp: "gc_Group (re_cfg R) \<noteq> []" and u: "M meta_res n = Some u"
    and recs: "\<forall>rec. rec \<in> set recs \<longleftrightarrow> (\<exists>n u. M meta_res n = Some u \<and>
       refPathFromUnstructured u = (gc_Group (re_cfg R), gc_Resource (re_cfg R)) \<and>
       v2_decode (so_checks (re_store R)) u (v2_RefFromUnstructured u) = Inr rec)"
  shows "n \<in> released R now (orphansOf keys recs) \<longleftrightarrow>
      refPathFromUnstructured u = (gc_Group (re_cfg R), gc_Resource (re_cfg R)) \<and>
      gcKey (rf_namespace (v2_RefFromUnstructured u)) (rf_name (v2_RefFromUnstructured u)) \<notin> set keys \<and>
      (\<exists>rec. v2_decode (so_checks (re_store R)) u (v2_RefFromUnstructured u) = Inr rec \<and> decide (re_cfg R) rec now = None)"
proof -
  let ?g = "gc_Group (re_cfg R)" and ?r = "gc_Resource (re_cfg R)"
  have name: "m = v2_RecordName (v2_RefFromUnstructured w)" if "M meta_res m = Some w" for m w
    using wf that by (simp add: store_wf_def)
  have ref: "kr_ref rec = v2_RefFromUnstructured w"
    if "refPathFromUnstructured w = (?g, ?r)" "v2_decode (so_checks (re_store R)) w (v2_RefFromUnstructured w) = Inr rec" for w rec
    by (rule ref_of_decode [OF that(2)]) (use that(1) grp in \<open>simp add: v2_RefFromUnstructured_def\<close>)
  have orph: "rec \<in> set (orphansOf keys recs) \<longleftrightarrow> rec \<in> set recs \<and>
      gcKey (rf_namespace (kr_ref rec)) (rf_name (kr_ref rec)) \<notin> set keys" for rec
    by (simp add: orphansOf_def)
  have same: "w = u" if "M meta_res m = Some w" "m = n" for m w using that u by simp
  show ?thesis
  proof
    assume "n \<in> released R now (orphansOf keys recs)"
    then obtain rec where rec: "n = v2_RecordName (kr_ref rec)" "rec \<in> set (orphansOf keys recs)" "decide (re_cfg R) rec now = None"
      by (auto simp: released_def)
    obtain m w where w: "M meta_res m = Some w" "refPathFromUnstructured w = (?g, ?r)"
      "v2_decode (so_checks (re_store R)) w (v2_RefFromUnstructured w) = Inr rec"
      using rec(2) recs orph by blast
    have "m = n" using name [OF w(1)] ref [OF w(2,3)] rec(1) by simp
    then have "w = u" using same w(1) by blast
    then show "refPathFromUnstructured u = (?g, ?r) \<and>
        gcKey (rf_namespace (v2_RefFromUnstructured u)) (rf_name (v2_RefFromUnstructured u)) \<notin> set keys \<and>
        (\<exists>rec. v2_decode (so_checks (re_store R)) u (v2_RefFromUnstructured u) = Inr rec \<and> decide (re_cfg R) rec now = None)"
      using w rec ref [OF w(2,3)] orph by auto
  next
    assume a: "refPathFromUnstructured u = (?g, ?r) \<and>
        gcKey (rf_namespace (v2_RefFromUnstructured u)) (rf_name (v2_RefFromUnstructured u)) \<notin> set keys \<and>
        (\<exists>rec. v2_decode (so_checks (re_store R)) u (v2_RefFromUnstructured u) = Inr rec \<and> decide (re_cfg R) rec now = None)"
    then obtain rec where rec: "v2_decode (so_checks (re_store R)) u (v2_RefFromUnstructured u) = Inr rec" "decide (re_cfg R) rec now = None" by blast
    have r: "kr_ref rec = v2_RefFromUnstructured u" using ref a rec(1) by blast
    then have "rec \<in> set (orphansOf keys recs)" using orph a recs u rec(1) by auto
    then show "n \<in> released R now (orphansOf keys recs)" using name [OF u] r rec(2) unfolding released_def by force
  qed
qed

text \<open>
  C34: A sweep deletes exactly the records its policy releases: over a consistent store that nobody else writes
  to meanwhile, a sweep whose backend listing succeeds removes a record if and only if it describes the swept
  resource, can be decoded, no object of the listing has its namespace and name, and the
  policy releases it at the time read after the listing; every other record and every other resource of the
  host stay as they are, and every orphan is accounted for as deleted or skipped.
\<close>

theorem gc_sweep_exact:
  assumes "host_lister (so_dyn (re_store R)) ok objs ver" and "ok h" and "store_wf (objs h)"
    and "gc_Group (re_cfg R) \<noteq> []" and "\<not> gs_running st" and "re_backend R b = (Inr items, b1)"
  shows "\<exists>res st' h'. runOnce R trigger st h b = (Some res, st', h', b1) \<and>
    gs_lastRun st' = Some res \<and> \<not> gs_running st' \<and> rr_Error res = None \<and>
    rr_Deleted res + length (rr_Skipped res) = rr_Orphans res \<and> ok h' \<and>
    (\<forall>r. r \<noteq> meta_res \<longrightarrow> objs h' r = objs h r) \<and>
    (\<forall>n. objs h' meta_res n =
      (let H = so_dyn (re_store R);
           now = fst (h_now H (snd (v2_List (re_store R) (gc_Group (re_cfg R)) (gc_Resource (re_cfg R)) (snd (h_now H h)))))
       in case objs h meta_res n of
            None \<Rightarrow> None
          | Some u \<Rightarrow>
              (if refPathFromUnstructured u = (gc_Group (re_cfg R), gc_Resource (re_cfg R)) \<and>
                  gcKey (rf_namespace (v2_RefFromUnstructured u)) (rf_name (v2_RefFromUnstructured u)) \<notin> set (backendKeys items) \<and>
                  (\<exists>rec. v2_decode (so_checks (re_store R)) u (v2_RefFromUnstructured u) = Inr rec \<and> decide (re_cfg R) rec now = None)
               then None else Some u)))"
proof -
  let ?H = "so_dyn (re_store R)" and ?g = "gc_Group (re_cfg R)" and ?r = "gc_Resource (re_cfg R)"
  have host: "host_api ?H ok objs ver" using assms(1) by (simp add: host_lister_def)
  obtain started h0 where t0: "h_now ?H h = (started, h0)" by fastforce
  have h0: "ok h0" "objs h0 = objs h" using host_api.clock [OF host assms(2)] t0 by simp_all
  obtain recs h1 where l: "v2_List (re_store R) ?g ?r h0 = (Inr recs, h1)" "ok h1" "objs h1 = objs h"
    "\<forall>rec. rec \<in> set recs \<longleftrightarrow> (\<exists>n u. objs h meta_res n = Some u \<and> refPathFromUnstructured u = (?g, ?r) \<and>
       v2_decode (so_checks (re_store R)) u (v2_RefFromUnstructured u) = Inr rec)"
    using v2_list_spec [OF assms(1) h0(1) assms(4), of ?r] h0(2) by auto
  obtain now h2 where t1: "h_now ?H h1 = (now, h2)" by fastforce
  have h2: "ok h2" "objs h2 = objs h" using host_api.clock [OF host l(2)] t1 l(3) by simp_all
  have now: "fst (h_now ?H (snd (v2_List (re_store R) ?g ?r (snd (h_now ?H h))))) = now" by (simp add: t0 l(1) t1)
  let ?orphans = "orphansOf (backendKeys items) recs"
  let ?res = "\<lparr>rr_Trigger = trigger, rr_StartedAt = started, rr_Seen = length recs, rr_Backend = length (backendKeys items),
    rr_Orphans = length ?orphans, rr_Deleted = 0, rr_Skipped = [], rr_Deletions = [], rr_Error = None\<rparr>"
  obtain res h3 where f: "fold (sweepOne R now) ?orphans (?res, h2) = (res, h3)" "ok h3"
    "objs h3 = without (released R now ?orphans) (objs h2)"
    "rr_Deleted res + length (rr_Skipped res) = length ?orphans" "rr_Orphans res = length ?orphans" "rr_Error res = None"
    using sweep_fold [OF host h2(1), of now ?orphans ?res] by auto
  have run: "runOnce R trigger st h b = (Some res, st\<lparr>gs_lastRun := Some res, gs_running := False\<rparr>, h3, b1)"
    using assms(5,6) f(1) by (simp add: runOnce_def gc_sweep_def t0 l(1) t1 Let_def)
  note rel = released_iff [OF assms(3,4) _ l(4)]
  have other: "objs h3 r = objs h r" if "r \<noteq> meta_res" for r using that by (simp add: f(3) h2(2) without_def)
  have here: "objs h3 meta_res n = (case objs h meta_res n of None \<Rightarrow> None
      | Some u \<Rightarrow> (if n \<in> released R now ?orphans then None else Some u))" for n
    by (simp add: f(3) h2(2) without_def split: option.split)
  show ?thesis
    unfolding Let_def now
    by (intro exI conjI, rule run) (use f here rel other in \<open>auto split: option.split\<close>)
qed

text \<open>A collector over the simulated host whose backend holds \<open>a\<close> only; the store has records of \<open>a\<close> and \<open>b\<close>.\<close>

definition test_gc :: "(etcd, unit) Reconciler" where
  "test_gc = fst (gc_New test_store
     (\<lambda>b. (Inr [Some (JObj [(''metadata'', JObj [(''name'', JStr ''a''), (''namespace'', JStr ''ns'')])])], b))
     \<lparr>gc_Group = ''g'', gc_Resource = ''r'', gc_Interval = 0, gc_MinAge = 0, gc_InitialDelay = 0\<rparr>)"

definition two_records :: etcd where
  "two_records = snd (v2_Put test_store (test_krm ''b'' 0) (snd (v2_Put test_store (test_krm ''a'' 0) es_empty)))"

lemma two_records_facts:
  shows "es_ok two_records" and "store_wf (es_lookup two_records)"
    and "\<exists>ua ra ub rb. es_lookup two_records meta_res = (\<lambda>_. None)
      (v2_RecordName (kr_ref (test_krm ''a'' 0)) \<mapsto> stored_obj (test_krm ''a'' 0) ua ra, v2_RecordName (kr_ref (test_krm ''b'' 0)) \<mapsto> stored_obj (test_krm ''b'' 0) ub rb)"
proof -
  have k: "krm_ok (so_checks test_store) (test_krm n 0)" for n by (rule test_krm_ok) (simp_all add: max_time_def ns_per_s_def)
  obtain ua ra h1 where a: "v2_Put test_store (test_krm ''a'' 0) es_empty = (Inr (stored_krm ua ra (test_krm ''a'' 0)), h1)" "es_ok h1"
    "es_lookup h1 = (es_lookup es_empty)(meta_res := (es_lookup es_empty meta_res)(v2_RecordName (kr_ref (test_krm ''a'' 0)) \<mapsto> stored_obj (test_krm ''a'' 0) ua ra))"
    using v2_put_spec [OF test_store_api es_empty_ok k] by blast
  obtain ub rb h2 where b: "v2_Put test_store (test_krm ''b'' 0) h1 = (Inr (stored_krm ub rb (test_krm ''b'' 0)), h2)" "es_ok h2"
    "es_lookup h2 = (es_lookup h1)(meta_res := (es_lookup h1 meta_res)(v2_RecordName (kr_ref (test_krm ''b'' 0)) \<mapsto> stored_obj (test_krm ''b'' 0) ub rb))"
    using v2_put_spec [OF test_store_api a(2) k] by blast
  have t: "two_records = h2" by (simp add: two_records_def a(1) b(1))
  show "es_ok two_records" using b(2) t by simp
  show "store_wf (es_lookup two_records)" unfolding t b(3) a(3) by (intro store_wf_put es_empty_wf)
  show "\<exists>ua ra ub rb. es_lookup two_records meta_res = (\<lambda>_. None)
      (v2_RecordName (kr_ref (test_krm ''a'' 0)) \<mapsto> stored_obj (test_krm ''a'' 0) ua ra, v2_RecordName (kr_ref (test_krm ''b'' 0)) \<mapsto> stored_obj (test_krm ''b'' 0) ub rb)"
    using es_empty_lookup unfolding t b(3) a(3) by (intro exI [of _ ua] exI [of _ ra] exI [of _ ub] exI [of _ rb]) (simp add: fun_eq_iff)
qed

lemma test_names: "v2_RecordName (kr_ref (test_krm ''a'' 0)) \<noteq> v2_RecordName (kr_ref (test_krm ''b'' 0))"
proof -
  have "v2_RecordName (kr_ref (test_krm ''a'' 0)) = ''g.r.ns.a''" "v2_RecordName (kr_ref (test_krm ''b'' 0)) = ''g.r.ns.b''"
    by (simp_all add: test_krm_def empty_krm_def v2_RecordName_def v2_isDNS1123Subdomain_def replace_char_def Let_def dns_label_def alnum_def)
  then show ?thesis by simp
qed

theorem gc_sweep_exact_witness:
  "\<exists>res st h b. runOnce test_gc ''manual'' \<lparr>gs_running = False, gs_lastRun = None\<rparr> two_records () = (Some res, st, h, b) \<and>
     rr_Error res = None \<and>
     es_lookup h meta_res (v2_RecordName (kr_ref (test_krm ''a'' 0))) \<noteq> None \<and>
     es_lookup h meta_res (v2_RecordName (kr_ref (test_krm ''b'' 0))) = None"
proof -
  let ?items = "[Some (JObj [(''metadata'', JObj [(''name'', JStr ''a''), (''namespace'', JStr ''ns'')])])]"
  have host: "host_lister (so_dyn (re_store test_gc)) es_ok es_lookup es_ver"
    using etcd_list.host_lister_axioms by (simp add: test_gc_def gc_New_def test_store_def)
  have grp: "gc_Group (re_cfg test_gc) \<noteq> []" and be: "re_backend test_gc () = (Inr ?items, ())"
    and cfg: "gc_Group (re_cfg test_gc) = ''g''" "gc_Resource (re_cfg test_gc) = ''r''" and st: "re_store test_gc = test_store"
    by (simp_all add: test_gc_def gc_New_def)
  have idle: "\<not> gs_running \<lparr>gs_running = False, gs_lastRun = None\<rparr>" by simp
  have keys: "set (backendKeys ?items) = {gcKey ''ns'' ''a''}"
    by (simp add: backendKeys_def nameNamespaceFromJSON_def unmarshalStruct_def intoStruct_def fieldFor_def setMetadata_def
        setNameNs_def go_simps)
  obtain ua ra ub rb where two: "es_lookup two_records meta_res = (\<lambda>_. None)
      (v2_RecordName (kr_ref (test_krm ''a'' 0)) \<mapsto> stored_obj (test_krm ''a'' 0) ua ra, v2_RecordName (kr_ref (test_krm ''b'' 0)) \<mapsto> stored_obj (test_krm ''b'' 0) ub rb)"
    using two_records_facts(3) by blast
  have a: "es_lookup two_records meta_res (v2_RecordName (kr_ref (test_krm ''a'' 0))) = Some (stored_obj (test_krm ''a'' 0) ua ra)"
    and b: "es_lookup two_records meta_res (v2_RecordName (kr_ref (test_krm ''b'' 0))) = Some (stored_obj (test_krm ''b'' 0) ub rb)"
    using test_names by (simp_all add: two)
  have ref: "v2_RefFromUnstructured (stored_obj (test_krm n 0) x y) = kr_ref (test_krm n 0)" for n x y
    by (simp add: stored_obj_def ref_of_encode)
  then have path: "refPathFromUnstructured (stored_obj (test_krm n 0) x y) = (''g'', ''r'')" for n x y
    by (simp add: refPath_eq v2_ref_eq [symmetric] test_krm_def empty_krm_def)
  have dec: "v2_decode (so_checks test_store) (stored_obj (test_krm n 0) x y) fb = Inr (stored_krm x y (test_krm n 0))" for n x y fb
    by (rule decode_stored_obj, rule test_krm_ok) (simp_all add: max_time_def ns_per_s_def)
  have rel: "decide c (stored_krm x y (test_krm n 0)) t = None" for c x y n t
    by (simp add: decide_def stored_krm_def test_krm_def empty_krm_def trunc_s_def trunc_opt_def)
  have nm: "rf_namespace (kr_ref (test_krm n 0)) = ''ns''" "rf_name (kr_ref (test_krm n 0)) = n" for n
    by (simp_all add: test_krm_def empty_krm_def)
  have kb: "gcKey ''ns'' ''b'' \<noteq> gcKey ''ns'' ''a''" by (simp add: gcKey_def)
  note sweep = gc_sweep_exact [OF host two_records_facts(1,2) grp idle be, where trigger = "''manual''", unfolded cfg st keys Let_def]
  show ?thesis
    using sweep a b by (elim exE conjE) (simp add: ref path dec rel nm kb)
qed

end
