(* ===== verification/Admission.thy ===== *)
theory Admission
  imports GoJson MhRef
begin

text \<open>
  \<open>runtime/component/v2/admission/admission.go\<close>: the declarative admission engine.  JSON objects that
  mutations write to are cells of an explicit heap, because the value of a rule is put into the object by reference:
  later writes through the object reach the rule.  The CEL library is a parameter (\<open>cel_lib\<close>).  Reading the
  configuration file is input only; the names of operations are ASCII, so that upper case and white space are those of ASCII.
\<close>

section \<open>Configuration\<close>

record 'v Mutation =
  mu_JSONPath :: string
  mu_Op :: string
  mu_Value :: 'v
  mu_Operations :: "string list"

record Validation =
  va_Expression :: string
  va_Message :: string
  va_FieldPath :: string
  va_Operations :: "string list"

record 'v Config =
  cf_Mutations :: "'v Mutation list"
  cf_Validations :: "Validation list"

definition is_space :: "char \<Rightarrow> bool" where
  "is_space c \<longleftrightarrow> c \<in> {CHR 0x09, CHR 0x0A, CHR 0x0B, CHR 0x0C, CHR 0x0D, CHR '' ''}"

definition trimSpace :: "string \<Rightarrow> string" where
  "trimSpace s = rev (dropWhile is_space (rev (dropWhile is_space s)))"

definition normalizeOps :: "string list \<Rightarrow> string list" where
  "normalizeOps ops = map (\<lambda>s. toUpper (trimSpace s)) ops"

definition cfg_normalize :: "'v Config \<Rightarrow> 'v Config" where
  "cfg_normalize c =
     \<lparr>cf_Mutations = map (\<lambda>m. m\<lparr>mu_Operations := normalizeOps (mu_Operations m)\<rparr>) (cf_Mutations c),
      cf_Validations = map (\<lambda>v. v\<lparr>va_Operations := normalizeOps (va_Operations v)\<rparr>) (cf_Validations c)\<rparr>"

definition appliesTo :: "string list \<Rightarrow> string \<Rightarrow> bool" where
  "appliesTo ops op \<longleftrightarrow> ops = [] \<or> op \<in> set ops"

section \<open>The heap of JSON objects\<close>

text \<open>A cell is a map; a value is a reference to a cell or anything else (arrays are never written to).\<close>

datatype hval = HLeaf json | HRef nat

type_synonym cell = "(string \<times> hval) list"
type_synonym heap = "cell list"

fun alloc :: "json \<Rightarrow> heap \<Rightarrow> hval \<times> heap" and allocEntries :: "jmap \<Rightarrow> heap \<Rightarrow> cell \<times> heap" where
  "alloc (JObj m) h = (let (c, h1) = allocEntries m h in (HRef (length h1), h1 @ [c]))"
| "alloc v h = (HLeaf v, h)"
| "allocEntries [] h = ([], h)"
| "allocEntries ((k, v) # m) h =
     (let (x, h1) = alloc v h; (c, h2) = allocEntries m h1 in ((k, x) # c, h2))"

text \<open>The tree below a value; a tree in the heap is no deeper than there are cells.\<close>

fun readTree :: "nat \<Rightarrow> heap \<Rightarrow> hval \<Rightarrow> json" where
  "readTree n h (HLeaf j) = j"
| "readTree 0 h (HRef a) = JNull"
| "readTree (Suc n) h (HRef a) = (if a < length h then JObj (map (\<lambda>(k, v). (k, readTree n h v)) (h ! a)) else JNull)"

text \<open>\<open>json.Marshal\<close> up to the text: keys sorted, numbers by their text.\<close>

fun canon :: "json \<Rightarrow> json" where
  "canon (JInt i) = JFloat (dec_int i) i"
| "canon (JArr xs) = JArr (map canon xs)"
| "canon (JObj m) = JObj (sort_key fst (map (\<lambda>(k, v). (k, canon v)) m))"
| "canon v = v"

section \<open>Mutations\<close>

text \<open>\<open>labels_of\<close> is \<open>strings.Split(p, ".")\<close>.\<close>

definition splitPath :: "string \<Rightarrow> string list" where
  "splitPath p =
     (let parts = labels_of p in
      if 3 \<le> length parts \<and> parts ! 0 = ''metadata'' \<and> (parts ! 1 = ''annotations'' \<or> parts ! 1 = ''labels'')
      then [parts ! 0, parts ! 1, join ''.'' (drop 2 parts)] else parts)"

text \<open>What a failed mutation reports; a write to the nil map of a \<open>null\<close> object panics.\<close>

datatype mut_err = EmptyPath | NotAnObject "string list" string | UnknownOp string | BadObject | NilMapPanic

definition setKey :: "heap \<Rightarrow> nat \<Rightarrow> string \<Rightarrow> hval \<Rightarrow> heap" where
  "setKey h a k v = h[a := aput k v (h ! a)]"

text \<open>Whether \<open>default\<close> leaves the value that is there.\<close>

definition keepsDefault :: "heap \<Rightarrow> hval option \<Rightarrow> bool" where
  "keepsDefault h existing =
     (case existing of
        None \<Rightarrow> False
      | Some (HLeaf JNull) \<Rightarrow> False
      | Some (HLeaf (JStr s)) \<Rightarrow> s \<noteq> []
      | Some (HLeaf _) \<Rightarrow> True
      | Some (HRef a) \<Rightarrow> h ! a \<noteq> [])"

definition applyLeaf :: "heap \<Rightarrow> nat \<Rightarrow> string \<Rightarrow> string \<Rightarrow> hval \<Rightarrow> mut_err option \<times> heap" where
  "applyLeaf h parent key op v =
     (if op = ''set'' then (None, setKey h parent key v)
      else if op = ''default''
      then (None, if keepsDefault h (map_of (h ! parent) key) then h else setKey h parent key v)
      else (Some (UnknownOp op), h))"

fun walkAndApply :: "heap \<Rightarrow> nat \<Rightarrow> string list \<Rightarrow> string \<Rightarrow> hval \<Rightarrow> mut_err option \<times> heap" where
  "walkAndApply h cur [] op v = (Some EmptyPath, h)"
| "walkAndApply h cur [p] op v = applyLeaf h cur p op v"
| "walkAndApply h cur (p # q # ps) op v =
     (let fresh = walkAndApply ((setKey h cur p (HRef (length h))) @ [[]]) (length h) (q # ps) op v in
      case map_of (h ! cur) p of
        None \<Rightarrow> fresh
      | Some (HLeaf JNull) \<Rightarrow> fresh
      | Some (HRef a) \<Rightarrow> walkAndApply h a (q # ps) op v
      | Some (HLeaf _) \<Rightarrow> (Some (NotAnObject (p # q # ps) p), h))"

text \<open>The object of a request: a map, or the nil map \<open>null\<close> decodes to.\<close>

definition mutatePath :: "heap \<Rightarrow> nat option \<Rightarrow> string \<Rightarrow> string \<Rightarrow> hval \<Rightarrow> mut_err option \<times> heap" where
  "mutatePath h obj path op v =
     (if path = [] then (Some EmptyPath, h)
      else case obj of
             Some a \<Rightarrow> walkAndApply h a (splitPath path) op v
           | None \<Rightarrow> (if length (splitPath path) = 1 \<and> op \<noteq> ''set'' \<and> op \<noteq> ''default''
                      then (Some (UnknownOp op), h) else (Some NilMapPanic, h)))"

section \<open>CEL\<close>

text \<open>
  The library: the error of \<open>NewEnv\<close>, compiling an expression (an error, or whether its type is bool, and a
  program or an error for it); a program gets the object and the old object (\<open>None\<close> for nil).  A value is nil,
  a Bool, or another value with its text and its conversion to a native bool, if there is one.
\<close>

datatype cel_val = CelNil | CelBool bool | CelOther string "bool option"

type_synonym cel_program = "json \<Rightarrow> json option \<Rightarrow> string + cel_val"

record cel_lib =
  cel_env :: "string option"
  cel_compile :: "string \<Rightarrow> string + bool \<times> (string + cel_program)"

datatype new_err = CelEnv string | BadExpression nat string | NotBool nat string | BadProgram nat string

record compiledValidation =
  cv_Rule :: Validation
  cv_Program :: cel_program

record Engine =
  en_mutations :: "hval Mutation list"
  en_validations :: "compiledValidation list"

fun compileAll :: "cel_lib \<Rightarrow> nat \<Rightarrow> Validation list \<Rightarrow> new_err + compiledValidation list" where
  "compileAll L i [] = Inr []"
| "compileAll L i (v # vs) =
     (case cel_compile L (va_Expression v) of
        Inl e \<Rightarrow> Inl (BadExpression i e)
      | Inr (isBool, prg) \<Rightarrow>
          (if \<not> isBool then Inl (NotBool i (va_Expression v))
           else case prg of
                  Inl e \<Rightarrow> Inl (BadProgram i e)
                | Inr p \<Rightarrow> map_sum id ((#) \<lparr>cv_Rule = v, cv_Program = p\<rparr>) (compileAll L (i + 1) vs)))"

definition engine_New :: "cel_lib \<Rightarrow> hval Config \<Rightarrow> new_err + Engine" where
  "engine_New L cfg =
     (let c = cfg_normalize cfg in
      case cel_env L of
        Some e \<Rightarrow> Inl (CelEnv e)
      | None \<Rightarrow> map_sum id (\<lambda>ps. \<lparr>en_mutations = cf_Mutations c, en_validations = ps\<rparr>) (compileAll L 0 (cf_Validations c)))"

text \<open>The values of a configuration as it is read, put into the heap.\<close>

fun loadMutations :: "json Mutation list \<Rightarrow> heap \<Rightarrow> hval Mutation list \<times> heap" where
  "loadMutations [] h = ([], h)"
| "loadMutations (m # ms) h =
     (let (v, h1) = alloc (mu_Value m) h; (ms', h2) = loadMutations ms h1
      in (\<lparr>mu_JSONPath = mu_JSONPath m, mu_Op = mu_Op m, mu_Value = v, mu_Operations = mu_Operations m\<rparr> # ms', h2))"

section \<open>Mutate\<close>

text \<open>A JSON text is the value it decodes to, \<open>None\<close> when it is not JSON.  Decoding into a map.\<close>

definition decodeMap :: "json option \<Rightarrow> jmap option option" where
  "decodeMap raw = (case raw of Some (JObj m) \<Rightarrow> Some (Some m) | Some JNull \<Rightarrow> Some None | _ \<Rightarrow> None)"

definition treeOf :: "heap \<Rightarrow> nat option \<Rightarrow> json" where
  "treeOf h obj = (case obj of None \<Rightarrow> JNull | Some a \<Rightarrow> readTree (length h + 1) h (HRef a))"

fun mutateAll :: "hval Mutation list \<Rightarrow> string \<Rightarrow> nat option \<Rightarrow> bool \<Rightarrow> heap \<Rightarrow> (mut_err + bool) \<times> heap" where
  "mutateAll [] op obj changed h = (Inr changed, h)"
| "mutateAll (m # ms) op obj changed h =
     (if \<not> appliesTo (mu_Operations m) op then mutateAll ms op obj changed h
      else let orig = canon (treeOf h obj) in
           case mutatePath h obj (mu_JSONPath m) (mu_Op m) (mu_Value m) of
             (Some e, h1) \<Rightarrow> (Inl e, h1)
           | (None, h1) \<Rightarrow> mutateAll ms op obj (changed \<or> orig \<noteq> canon (treeOf h1 obj)) h1)"

definition Mutate :: "Engine option \<Rightarrow> string \<Rightarrow> json option \<Rightarrow> heap \<Rightarrow> (mut_err + json option \<times> bool) \<times> heap" where
  "Mutate E op raw h =
     (case E of
        None \<Rightarrow> (Inr (raw, False), h)
      | Some e \<Rightarrow>
          (if en_mutations e = [] then (Inr (raw, False), h)
           else case decodeMap raw of
                  None \<Rightarrow> (Inl BadObject, h)
                | Some m \<Rightarrow>
                    (let (obj, h1) = (case m of
                           None \<Rightarrow> (None, h)
                         | Some fs \<Rightarrow> (let (c, h') = allocEntries fs h in (Some (length h'), h' @ [c])))
                     in case mutateAll (en_mutations e) op obj False h1 of
                          (Inl err, h2) \<Rightarrow> (Inl err, h2)
                        | (Inr changed, h2) \<Rightarrow> (Inr (Some (treeOf h2 obj), changed), h2))))"

section \<open>Validate\<close>

record Failure =
  fa_Message :: string
  fa_FieldPath :: string

text \<open>\<open>toBool\<close>: the value and whether there is one.\<close>

definition toBool :: "cel_val \<Rightarrow> bool option" where
  "toBool v = (case v of CelNil \<Rightarrow> None | CelBool b \<Rightarrow> Some b | CelOther t b \<Rightarrow> b)"

definition show_cel :: "cel_val \<Rightarrow> string" where
  "show_cel v = (case v of CelNil \<Rightarrow> ''<nil>'' | CelBool b \<Rightarrow> (if b then ''true'' else ''false'') | CelOther t b \<Rightarrow> t)"

definition ruleFailure :: "compiledValidation \<Rightarrow> json \<Rightarrow> json option \<Rightarrow> Failure option" where
  "ruleFailure v obj oldObj =
     (let r = cv_Rule v in
      case cv_Program v obj oldObj of
        Inl err \<Rightarrow> Some \<lparr>fa_Message = va_Message r @ '' [cel eval error: '' @ err @ '']'', fa_FieldPath = va_FieldPath r\<rparr>
      | Inr val \<Rightarrow>
          (case toBool val of
             None \<Rightarrow> Some \<lparr>fa_Message = va_Message r @ '' [non-bool result: '' @ show_cel val @ '']'', fa_FieldPath = va_FieldPath r\<rparr>
           | Some True \<Rightarrow> None
           | Some False \<Rightarrow>
               Some \<lparr>fa_Message = (if va_Message r = [] then ''validation failed: '' @ va_Expression r else va_Message r),
                     fa_FieldPath = va_FieldPath r\<rparr>))"

text \<open>\<open>None\<close> is the error of an object or an old object that does not decode; an old object of no bytes is \<open>None\<close>.\<close>

definition Validate :: "Engine option \<Rightarrow> string \<Rightarrow> json option \<Rightarrow> json option option \<Rightarrow> Failure list option" where
  "Validate E op raw oldRaw =
     (case E of
        None \<Rightarrow> Some []
      | Some e \<Rightarrow>
          (if en_validations e = [] then Some []
           else case decodeMap raw of
                  None \<Rightarrow> None
                | Some m \<Rightarrow>
                    (let obj = (case m of None \<Rightarrow> JNull | Some f \<Rightarrow> JObj f) in
                     case (case oldRaw of
                             None \<Rightarrow> Some None
                           | Some old \<Rightarrow> map_option (\<lambda>om. Some (case om of None \<Rightarrow> JNull | Some f \<Rightarrow> JObj f)) (decodeMap old)) of
                       None \<Rightarrow> None
                     | Some oldObj \<Rightarrow>
                         Some (List.map_filter (\<lambda>v. if appliesTo (va_Operations (cv_Rule v)) op then ruleFailure v obj oldObj else None)
                                 (en_validations e)))))"

section \<open>Lemmas\<close>

text \<open>Decoding only adds cells, and the cells it adds refer to each other only.\<close>

definition closed_from :: "nat \<Rightarrow> heap \<Rightarrow> bool" where
  "closed_from n h \<longleftrightarrow> (\<forall>a k b. n \<le> a \<and> a < length h \<and> (k, HRef b) \<in> set (h ! a) \<longrightarrow> n \<le> b \<and> b < length h)"

definition in_range :: "nat \<Rightarrow> heap \<Rightarrow> hval \<Rightarrow> bool" where
  "in_range n h v \<longleftrightarrow> (case v of HLeaf j \<Rightarrow> True | HRef b \<Rightarrow> n \<le> b \<and> b < length h)"

lemma in_range_cell:
  "(\<forall>kv \<in> set c. in_range n h (snd kv)) \<longleftrightarrow> (\<forall>k b. (k, HRef b) \<in> set c \<longrightarrow> n \<le> b \<and> b < length h)"
  by (auto simp: in_range_def split: hval.splits)

lemma aput_subset: "set (aput k v m) \<subseteq> insert (k, v) (set m)"
  by (induction m) (auto split: if_splits)

lemma closed_from_cells: "closed_from n h \<longleftrightarrow>
    (\<forall>a. n \<le> a \<and> a < length h \<longrightarrow> (\<forall>kv \<in> set (h ! a). in_range n h (snd kv)))"
  unfolding closed_from_def in_range_cell by blast

lemma in_range_append [simp]: "in_range n h v \<Longrightarrow> in_range n (h @ ext) v"
  by (auto simp: in_range_def split: hval.splits)

lemma in_range_update [simp]: "in_range n (h[a := c]) v = in_range n h v"
  by (auto simp: in_range_def split: hval.splits)

lemma alloc_extends:
  "closed_from n h \<Longrightarrow> n \<le> length h \<Longrightarrow>
     (\<exists>ext. snd (alloc j h) = h @ ext) \<and> closed_from n (snd (alloc j h)) \<and> in_range n (snd (alloc j h)) (fst (alloc j h))"
  "closed_from n h \<Longrightarrow> n \<le> length h \<Longrightarrow>
     (\<exists>ext. snd (allocEntries m h) = h @ ext) \<and> closed_from n (snd (allocEntries m h)) \<and>
     (\<forall>kv \<in> set (fst (allocEntries m h)). in_range n (snd (allocEntries m h)) (snd kv))"
proof (induction j h and m h rule: alloc_allocEntries.induct)
  case (1 m h)
  obtain c h1 where e: "allocEntries m h = (c, h1)" by fastforce
  obtain ext where h1: "h1 = h @ ext" "closed_from n h1" "\<forall>kv \<in> set c. in_range n h1 (snd kv)"
    using 1 e by auto
  have "closed_from n (h1 @ [c])"
    using h1(2,3) unfolding closed_from_cells by (auto simp: nth_append less_Suc_eq)
  then show ?case using h1(1) 1(3) by (simp add: e in_range_def)
next
  case (4 k v m h)
  obtain x h1 where a: "alloc v h = (x, h1)" by fastforce
  obtain c h2 where e: "allocEntries m h1 = (c, h2)" by fastforce
  obtain ext where h1: "h1 = h @ ext" "closed_from n h1" "in_range n h1 x" using 4 a by auto
  obtain ext2 where h2: "h2 = h1 @ ext2" "closed_from n h2" "\<forall>kv \<in> set c. in_range n h2 (snd kv)"
    using "4.IH"(2) [OF a [symmetric] refl] "4.prems" e h1 by (auto simp: h1(1))
  moreover have "in_range n h2 x" unfolding h2(1) by (rule in_range_append [OF h1(3)])
  moreover have "allocEntries ((k, v) # m) h = ((k, x) # c, h2)" by (simp add: a e)
  ultimately show ?case using h1 by auto
qed (auto simp: in_range_def)

lemma setKey_cells:
  assumes "closed_from n h" and "in_range n h v" and "n \<le> a" and "a < length h"
  shows "closed_from n (setKey h a k v)" and "take n (setKey h a k v) = take n h" and "length (setKey h a k v) = length h"
proof -
  have "in_range n h (snd kv)" if "kv \<in> set (aput k v (h ! a))" for kv
  proof -
    have "kv \<in> insert (k, v) (set (h ! a))" using that aput_subset by fast
    then show ?thesis using assms unfolding closed_from_cells by auto
  qed
  then show "closed_from n (setKey h a k v)"
    using assms(1,4) unfolding closed_from_cells setKey_def by (auto simp: nth_list_update split: if_splits)
  show "take n (setKey h a k v) = take n h" "length (setKey h a k v) = length h"
    using assms(3) by (simp_all add: setKey_def)
qed

text \<open>A fresh empty cell hung under a key.\<close>

lemma hang_cells:
  assumes "closed_from n h" and "n \<le> cur" and "cur < length h"
    and h1: "h1 = setKey h cur p (HRef (length h)) @ [[]]"
  shows "closed_from n h1" and "take n h1 = take n h" and "length h1 = length h + 1"
proof -
  have c: "closed_from n (h @ [[]])" using assms(1) unfolding closed_from_cells by (auto simp: nth_append less_Suc_eq)
  have e: "h1 = setKey (h @ [[]]) cur p (HRef (length h))"
    using assms(3) by (simp add: h1 setKey_def nth_append list_update_append)
  have r: "in_range n (h @ [[]]) (HRef (length h))" using assms(2,3) by (simp add: in_range_def)
  show "closed_from n h1" "take n h1 = take n h" "length h1 = length h + 1"
    using setKey_cells [OF c r assms(2), of p] assms(2,3) unfolding e by simp_all
qed

lemma walk_isolated:
  assumes "closed_from n h" and "n \<le> cur" and "cur < length h" and "in_range n h v"
  shows "closed_from n (snd (walkAndApply h cur parts op v)) \<and> take n (snd (walkAndApply h cur parts op v)) = take n h \<and>
    length h \<le> length (snd (walkAndApply h cur parts op v))"
  using assms
proof (induction h cur parts op v rule: walkAndApply.induct)
  case (2 h cur p op v)
  then show ?case using setKey_cells [of n h v cur p] by (auto simp: applyLeaf_def)
next
  case (3 h cur p q ps op v)
  let ?h1 = "setKey h cur p (HRef (length h)) @ [[]]"
  note hang = hang_cells [OF "3.prems"(1-3) refl, of p]
  have v1: "in_range n ?h1 v" using "3.prems"(4) by (simp add: setKey_def)
  have fresh: "closed_from n (snd (walkAndApply ?h1 (length h) (q # ps) op v)) \<and>
      take n (snd (walkAndApply ?h1 (length h) (q # ps) op v)) = take n h \<and>
      length h \<le> length (snd (walkAndApply ?h1 (length h) (q # ps) op v))"
    using "3.IH"(1) [OF hang(1) _ _ v1] hang(2,3) "3.prems"(2,3) by simp
  have down: "closed_from n (snd (walkAndApply h a (q # ps) op v)) \<and>
      take n (snd (walkAndApply h a (q # ps) op v)) = take n h \<and> length h \<le> length (snd (walkAndApply h a (q # ps) op v))"
    if k: "map_of (h ! cur) p = Some (HRef a)" for a
  proof -
    have "n \<le> a \<and> a < length h" using map_of_SomeD [OF k] "3.prems"(1-3) unfolding closed_from_def by blast
    then show ?thesis using "3.IH"(2) [OF refl k _ "3.prems"(1) _ _ "3.prems"(4)] by simp
  qed
  show ?case
    using fresh down "3.prems"(1) by (simp add: Let_def split: option.split hval.split json.split)
qed simp

lemma mutateAll_isolated:
  assumes "closed_from n h" and "n \<le> length h" and "case obj of None \<Rightarrow> True | Some a \<Rightarrow> n \<le> a \<and> a < length h"
    and "\<forall>m \<in> set ms. \<exists>j. mu_Value m = HLeaf j"
  shows "take n (snd (mutateAll ms op obj changed h)) = take n h"
  using assms
proof (induction ms op obj changed h rule: mutateAll.induct)
  case (2 m ms op obj changed h)
  show ?case
  proof (cases "appliesTo (mu_Operations m) op")
    case False then show ?thesis using "2.IH"(1) "2.prems" by simp
  next
    case True
    obtain e h1 where mp: "mutatePath h obj (mu_JSONPath m) (mu_Op m) (mu_Value m) = (e, h1)" by fastforce
    have v: "in_range n h (mu_Value m)" using "2.prems"(4) by (auto simp: in_range_def)
    have h1: "closed_from n h1 \<and> take n h1 = take n h \<and> length h \<le> length h1"
    proof (cases obj)
      case None
      then have "h1 = h" using mp by (auto simp: mutatePath_def split: if_splits)
      then show ?thesis using "2.prems"(1) by simp
    next
      case (Some a)
      then show ?thesis
        using walk_isolated [OF "2.prems"(1) _ _ v, of a "splitPath (mu_JSONPath m)" "mu_Op m"] mp "2.prems"(1,3)
        by (simp add: mutatePath_def split: if_splits)
    qed
    show ?thesis
    proof (cases e)
      case None
      have r: "case obj of None \<Rightarrow> True | Some a \<Rightarrow> n \<le> a \<and> a < length h1"
        using "2.prems"(3) h1 by (auto split: option.splits)
      have "take n (snd (mutateAll ms op obj (changed \<or> canon (treeOf h obj) \<noteq> canon (treeOf h1 obj)) h1)) = take n h1"
        using "2.IH"(2) [OF _ refl mp [symmetric]] True None h1 "2.prems"(2,4) r by simp
      then show ?thesis using True None h1 mp by (simp add: Let_def)
    next
      case (Some err) then show ?thesis using True h1 mp by (simp add: Let_def)
    qed
  qed
qed simp

section \<open>Properties\<close>

text \<open>
  C37: Validation fails closed: it reports no failure exactly when object and old object decode and every rule for the
  operation evaluates, without an error, to a value that converts to true; a rule that errs or has no truth value denies.
\<close>

theorem validate_fail_closed:
  assumes "en_validations e \<noteq> []"
  shows "Validate (Some e) op raw oldRaw = Some [] \<longleftrightarrow>
    (\<exists>m oldObj. decodeMap raw = Some m \<and>
      (case oldRaw of None \<Rightarrow> oldObj = None
       | Some old \<Rightarrow> \<exists>om. decodeMap old = Some om \<and> oldObj = Some (case om of None \<Rightarrow> JNull | Some f \<Rightarrow> JObj f)) \<and>
      (\<forall>v \<in> set (en_validations e). appliesTo (va_Operations (cv_Rule v)) op \<longrightarrow>
        (\<exists>val. cv_Program v (case m of None \<Rightarrow> JNull | Some f \<Rightarrow> JObj f) oldObj = Inr val \<and> toBool val = Some True)))"
proof -
  have rule: "ruleFailure v obj oldObj = None \<longleftrightarrow> (\<exists>val. cv_Program v obj oldObj = Inr val \<and> toBool val = Some True)" for v obj oldObj
    by (auto simp: ruleFailure_def Let_def split: sum.splits option.splits bool.splits)
  have none: "List.map_filter f xs = [] \<longleftrightarrow> (\<forall>x \<in> set xs. f x = None)" for f :: "compiledValidation \<Rightarrow> Failure option" and xs
    by (induction xs) (auto simp: map_filter_simps split: option.splits)
  show ?thesis
  proof (cases "decodeMap raw")
    case None then show ?thesis using assms by (simp add: Validate_def)
  next
    case (Some m)
    show ?thesis
    proof (cases oldRaw)
      case None
      then show ?thesis using assms Some by (simp add: Validate_def none rule Let_def)
    next
      case old: (Some old)
      then show ?thesis using assms Some by (cases "decodeMap old") (simp_all add: Validate_def none rule Let_def)
    qed
  qed
qed

text \<open>An engine whose only rule asks for a field \<open>spec\<close>.\<close>

definition has_spec :: compiledValidation where
  "has_spec = \<lparr>cv_Rule = \<lparr>va_Expression = ''has(object.spec)'', va_Message = ''no spec'', va_FieldPath = ''spec'', va_Operations = [''CREATE'']\<rparr>,
     cv_Program = (\<lambda>obj old. case obj of JObj m \<Rightarrow> Inr (CelBool (map_of m ''spec'' \<noteq> None)) | _ \<Rightarrow> Inl ''no such key'')\<rparr>"

theorem validate_fail_closed_witness:
  "Validate (Some \<lparr>en_mutations = [], en_validations = [has_spec]\<rparr>) ''CREATE'' (Some (JObj [(''spec'', JNull)])) None = Some [] \<and>
   Validate (Some \<lparr>en_mutations = [], en_validations = [has_spec]\<rparr>) ''CREATE'' (Some (JObj [])) None \<noteq> Some []"
  using validate_fail_closed [of "\<lparr>en_mutations = [], en_validations = [has_spec]\<rparr>" "''CREATE''" "Some (JObj [(''spec'', JNull)])" None]
    validate_fail_closed [of "\<lparr>en_mutations = [], en_validations = [has_spec]\<rparr>" "''CREATE''" "Some (JObj [])" None]
  by (simp add: has_spec_def decodeMap_def appliesTo_def toBool_def)

text \<open>
  Mutation rules whose values are no objects leave the configuration alone: whatever a request contains and
  whichever rules apply, every cell that existed before the request is as it was, so that requests do not influence each other.
\<close>

theorem scalar_rules_isolated:
  assumes "\<forall>m \<in> set (en_mutations e). \<exists>j. mu_Value m = HLeaf j"
  shows "take (length h) (snd (Mutate (Some e) op raw h)) = h"
proof -
  have c0: "closed_from (length h) h" by (simp add: closed_from_def)
  show ?thesis
  proof (cases "en_mutations e = [] \<or> decodeMap raw = None")
    case True then show ?thesis by (auto simp: Mutate_def)
  next
    case False
    then obtain m where m: "decodeMap raw = Some m" and ne: "en_mutations e \<noteq> []" by auto
    show ?thesis
    proof (cases m)
      case None
      have "take (length h) (snd (mutateAll (en_mutations e) op None False h)) = h"
        using mutateAll_isolated [OF c0 _ _ assms, of None] by simp
      then show ?thesis using m ne None by (auto simp: Mutate_def Let_def split: prod.splits sum.splits)
    next
      case (Some fs)
      obtain c h1 where a: "allocEntries fs h = (c, h1)" by fastforce
      have h1: "\<exists>ext. h1 = h @ ext" "closed_from (length h) h1" "\<forall>kv \<in> set c. in_range (length h) h1 (snd kv)"
        using alloc_extends(2) [OF c0 order_refl, of fs] a by auto
      have c2: "closed_from (length h) (h1 @ [c])"
        using h1(2,3) unfolding closed_from_cells by (auto simp: nth_append less_Suc_eq)
      have "take (length h) (snd (mutateAll (en_mutations e) op (Some (length h1)) False (h1 @ [c]))) = h"
        using mutateAll_isolated [OF c2 _ _ assms, of "Some (length h1)"] h1(1) by auto
      then show ?thesis using m ne Some a by (auto simp: Mutate_def Let_def split: prod.splits sum.splits)
    qed
  qed
qed

definition set_rule :: "string \<Rightarrow> hval \<Rightarrow> string list \<Rightarrow> hval Mutation" where
  "set_rule path v ops = \<lparr>mu_JSONPath = path, mu_Op = ''set'', mu_Value = v, mu_Operations = ops\<rparr>"

theorem scalar_rules_isolated_witness:
  "take 1 (snd (Mutate (Some \<lparr>en_mutations = [set_rule ''spec'' (HLeaf (JInt 1)) []], en_validations = []\<rparr>) ''CREATE''
     (Some (JObj [])) [[(''a'', HLeaf JNull)]])) = [[(''a'', HLeaf JNull)]]"
  using scalar_rules_isolated [of "\<lparr>en_mutations = [set_rule ''spec'' (HLeaf (JInt 1)) []], en_validations = []\<rparr>"
      "[[(''a'', HLeaf JNull)]]" "''CREATE''" "Some (JObj [])"]
  by (simp add: set_rule_def)

text \<open>
  A rule whose value is an object is changed by the requests it applies to: when one rule sets a key to an
  object of the configuration and a later rule sets a key below it, the write of the second goes into the
  configuration's own object, so that every later request the first rule applies to gets it too, whether the second
  applies to that request or not.
\<close>

theorem object_rule_leaks:
  assumes "en_mutations e = [m1, m2]" and "mu_Op m1 = ''set''" and "mu_Op m2 = ''set''"
    and "mu_JSONPath m1 = k" and "mu_JSONPath m2 = k @ ''.'' @ q" and "CHR ''.'' \<notin> set k" and "CHR ''.'' \<notin> set q" and "k \<noteq> []"
    and "mu_Value m1 = HRef a" and "a < length h"
    and "appliesTo (mu_Operations m1) op" and "appliesTo (mu_Operations m2) op"
  shows "\<exists>r h'. Mutate (Some e) op (Some (JObj fs)) h = (Inr r, h') \<and> h' ! a = aput q (mu_Value m2) (h ! a)"
proof -
  obtain c h1 where al: "allocEntries fs h = (c, h1)" by fastforce
  obtain ext where ext: "h1 = h @ ext" using alloc_extends(2) [of "length h" h fs] al by (auto simp: closed_from_def)
  have p1: "splitPath k = [k]" using labels_of_nodot [OF assms(6)] by (simp add: splitPath_def Let_def)
  have p2: "splitPath (k @ CHR ''.'' # q) = [k, q]"
    using labels_of_append [OF assms(6), of q] labels_of_nodot [OF assms(7)] by (simp add: splitPath_def Let_def)
  let ?h0 = "h1 @ [c]" and ?root = "length h1"
  let ?h2 = "setKey ?h0 ?root k (HRef a)"
  have s1: "mutatePath ?h0 (Some ?root) k ''set'' (HRef a) = (None, ?h2)"
    using assms(8) by (simp add: mutatePath_def p1 applyLeaf_def)
  have at: "map_of (?h2 ! ?root) k = Some (HRef a)" by (simp add: setKey_def)
  have s2: "mutatePath ?h2 (Some ?root) (k @ CHR ''.'' # q) ''set'' (mu_Value m2) = (None, setKey ?h2 a q (mu_Value m2))"
    using at by (simp add: mutatePath_def p2 applyLeaf_def)
  have "?h2 ! a = h ! a" "a < length ?h2" using assms(10) by (simp_all add: setKey_def ext nth_append nth_list_update)
  then have "setKey ?h2 a q (mu_Value m2) ! a = aput q (mu_Value m2) (h ! a)" by (simp add: setKey_def)
  then show ?thesis
    using assms s1 s2 al by (simp add: Mutate_def decodeMap_def Let_def)
qed

text \<open>An object value for every request, and a debug flag in it for updates only.\<close>

definition leaky_engine :: Engine where
  "leaky_engine = \<lparr>en_mutations = [set_rule ''spec'' (HRef 0) [], set_rule ''spec.debug'' (HLeaf (JStr ''on'')) [''UPDATE'']],
     en_validations = []\<rparr>"

theorem object_rule_leaks_witness:
  "\<exists>r h'. Mutate (Some leaky_engine) ''UPDATE'' (Some (JObj [])) [[(''cpu'', HLeaf (JInt 1))]] = (Inr r, h') \<and>
     h' ! 0 = [(''cpu'', HLeaf (JInt 1)), (''debug'', HLeaf (JStr ''on''))] \<and>
     fst (Mutate (Some leaky_engine) ''CREATE'' (Some (JObj [])) h') =
       Inr (Some (JObj [(''spec'', JObj [(''cpu'', JInt 1), (''debug'', JStr ''on'')])]), True)"
proof -
  let ?h = "[[(''cpu'', HLeaf (JInt 1))]]"
  let ?m1 = "set_rule ''spec'' (HRef 0) []" and ?m2 = "set_rule ''spec.debug'' (HLeaf (JStr ''on'')) [''UPDATE'']"
  have e: "en_mutations leaky_engine = [?m1, ?m2]" by (simp add: leaky_engine_def)
  obtain r h' where r: "Mutate (Some leaky_engine) ''UPDATE'' (Some (JObj [])) ?h = (Inr r, h')"
    and c: "h' ! 0 = aput ''debug'' (mu_Value ?m2) (?h ! 0)"
    using object_rule_leaks [OF e, of "''spec''" "''debug''" 0 ?h "''UPDATE''" "[]"] by (auto simp: set_rule_def appliesTo_def)
  have h': "h' = snd (Mutate (Some leaky_engine) ''UPDATE'' (Some (JObj [])) ?h)" by (simp add: r)
  have "h' = [[(''cpu'', HLeaf (JInt 1)), (''debug'', HLeaf (JStr ''on''))], [(''spec'', HRef 0)]]"
    unfolding h' by (simp add: leaky_engine_def set_rule_def Mutate_def decodeMap_def appliesTo_def mutatePath_def splitPath_def
        applyLeaf_def setKey_def Let_def)
  then have "fst (Mutate (Some leaky_engine) ''CREATE'' (Some (JObj [])) h') =
      Inr (Some (JObj [(''spec'', JObj [(''cpu'', JInt 1), (''debug'', JStr ''on'')])]), True)"
    by (simp add: leaky_engine_def set_rule_def Mutate_def decodeMap_def appliesTo_def mutatePath_def splitPath_def
        applyLeaf_def setKey_def Let_def treeOf_def)
  then show ?thesis using r c by (simp add: set_rule_def)
qed

end
