(* ===== verification/V2Rest.thy ===== *)
theory V2Rest
  imports V2Gc Admission LibAdapter
begin

text \<open>
  \<open>runtime/component/v2/grpcbackend\<close> (\<open>rest.go\<close>, \<open>helpers.go\<close>) with the object of \<open>scheme/scheme.go\<close>: the REST adapter of the
  component runtime, which joins the objects of a backend behind RPCs with the metadata records of the store.  The
  backend client is a parameter over the backend's state, the JSON form of metav1 metadata and of unstructured objects and
  the text of a selector are those of the k8s.io modules (\<open>codecs\<close>).  The state of the adapter is its
  counter, the log of events handed to the broadcaster, the snapshot of the poller and the heap of the admission
  engine; every operation is atomic.  A JSON text is the value it decodes to.
\<close>

section \<open>Objects\<close>

text \<open>The typed wrapper \<open>Object\<close>: type and object metadata, and the other keys.\<close>

record vpayload =
  vp_api :: string
  vp_kind :: string
  vp_content :: jmap

type_synonym vobj = "vpayload robj"

record codecs =
  cd_metaTo :: "ometa \<Rightarrow> jmap"
  cd_metaFrom :: "jmap \<Rightarrow> ometa option"
  cd_unEncode :: "vobj \<Rightarrow> json option"
  cd_unDecode :: "json option \<Rightarrow> vobj option"
  cd_selText :: "lsel \<Rightarrow> string"
  cd_checks :: json_checks

definition AsMap :: "codecs \<Rightarrow> vobj \<Rightarrow> jmap" where
  "AsMap C obj =
     (let p = payload obj; meta = (case accessor obj of None \<Rightarrow> [] | Some m \<Rightarrow> cd_metaTo C m);
          m1 = (if vp_api p \<noteq> [] then aput ''apiVersion'' (JStr (vp_api p)) (vp_content p) else vp_content p);
          m2 = (if vp_kind p \<noteq> [] then aput ''kind'' (JStr (vp_kind p)) m1 else m1)
      in if meta \<noteq> [] then aput ''metadata'' (JObj meta) m2 else m2)"

definition obj_MarshalJSON :: "codecs \<Rightarrow> vobj \<Rightarrow> json" where
  "obj_MarshalJSON C obj = JObj (AsMap C obj)"

definition obj_UnmarshalJSON :: "codecs \<Rightarrow> json option \<Rightarrow> vobj option" where
  "obj_UnmarshalJSON C raw =
     (case decodeMap raw of
        None \<Rightarrow> None
      | Some m0 \<Rightarrow>
          (let m = (case m0 of None \<Rightarrow> [] | Some f \<Rightarrow> f);
               p = \<lparr>vp_api = (case asStr (map_of m ''apiVersion'') of None \<Rightarrow> [] | Some s \<Rightarrow> s),
                    vp_kind = (case asStr (map_of m ''kind'') of None \<Rightarrow> [] | Some s \<Rightarrow> s),
                    vp_content = adel ''metadata'' (adel ''kind'' (adel ''apiVersion'' m))\<rparr>
           in case asMap (map_of m ''metadata'') of
                None \<Rightarrow> Some (Obj empty_meta p)
              | Some mm \<Rightarrow> map_option (\<lambda>meta. Obj meta p) (cd_metaFrom C mm)))"

section \<open>The backend client\<close>

datatype rpc_code = C_NotFound | C_AlreadyExists | C_InvalidArgument | C_PermissionDenied | C_Unavailable | C_Other nat

datatype rpc_err = RpcEOF | RpcStatus rpc_code string | RpcOther string

record proto_user =
  pu_Name :: string
  pu_Uid :: string
  pu_Groups :: "string list"
  pu_Extra :: "(string \<times> string list) list"

text \<open>A request of \<open>Mutate\<close> or \<open>Validate\<close>: user, namespace, name, object, old object, operation.\<close>

record admit_req =
  aq_user :: "proto_user option"
  aq_ns :: string
  aq_name :: string
  aq_obj :: "json option"
  aq_old :: "json option option"
  aq_op :: string

record validate_resp =
  vr_Allowed :: bool
  vr_Reason :: string
  vr_Causes :: "(string \<times> string) list"

datatype push_type = EVENT_ADDED | EVENT_MODIFIED | EVENT_DELETED | EVENT_OTHER

text \<open>
  \<open>bc_Watch\<close> gives the events of one stream and the error that ends it; \<open>bc_Mutate\<close> an object, or none when it is left alone.
\<close>

record 'b client =
  bc_Get :: "proto_user option \<Rightarrow> string \<Rightarrow> string \<Rightarrow> 'b \<Rightarrow> (rpc_err + json option) \<times> 'b"
  bc_List :: "proto_user option \<Rightarrow> string \<Rightarrow> string \<Rightarrow> 'b \<Rightarrow> (rpc_err + json option list) \<times> 'b"
  bc_Create :: "proto_user option \<Rightarrow> string \<Rightarrow> json option \<Rightarrow> string \<Rightarrow> 'b \<Rightarrow> (rpc_err + json option) \<times> 'b"
  bc_Update :: "proto_user option \<Rightarrow> string \<Rightarrow> string \<Rightarrow> json option \<Rightarrow> string \<Rightarrow> 'b \<Rightarrow> (rpc_err + json option) \<times> 'b"
  bc_Delete :: "proto_user option \<Rightarrow> string \<Rightarrow> string \<Rightarrow> 'b \<Rightarrow> rpc_err option \<times> 'b"
  bc_Mutate :: "admit_req \<Rightarrow> 'b \<Rightarrow> (rpc_err + json option option) \<times> 'b"
  bc_Validate :: "admit_req \<Rightarrow> 'b \<Rightarrow> (rpc_err + validate_resp) \<times> 'b"
  bc_Watch :: "'b \<Rightarrow> (rpc_err + (push_type \<times> json option) list \<times> rpc_err) \<times> 'b"

section \<open>The adapter\<close>

datatype watch_mode = ModePoll | ModePush

record vdesc =
  vd_Group :: string
  vd_Version :: string
  vd_Resource :: string
  vd_Kind :: string
  vd_Singular :: string
  vd_Namespaced :: bool
  vd_Writable :: bool
  vd_SupportsServerSideApply :: bool
  vd_UseTypedWrapper :: bool
  vd_Columns :: "string list"
  vd_RowFields :: "string list"
  vd_GroupResource :: "group_resource option"
  vd_SupportsValidation :: bool
  vd_SupportsMutation :: bool
  vd_WatchMode :: "watch_mode option"
  vd_PollInterval :: int

record pollEntry =
  pe_raw :: "json option"
  pe_hash :: string

record ('h, 'b) vREST =
  vr_desc :: vdesc
  vr_gr :: group_resource
  vr_mode :: watch_mode
  vr_interval :: int
  vr_client :: "'b client"
  vr_store :: "'h Store option"
  vr_admission :: "Engine option"
  vr_codecs :: codecs
  vr_host :: "'h host"
  vr_hash :: "json option \<Rightarrow> string"
  vr_range :: "(string \<times> pollEntry) list \<Rightarrow> (string \<times> pollEntry) list"

text \<open>The mutable part, with the host and the backend.\<close>

record ('h, 'b) world =
  w_h :: 'h
  w_b :: 'b
  w_rv :: "64 word"
  w_log :: "vpayload event list"
  w_poll :: "(string \<times> pollEntry) list"
  w_heap :: heap

record vctx =
  vc_user :: "user_info option"
  vc_ns :: string

text \<open>\<open>New\<close>; the hash of a text and the order in which a map is ranged over are given.\<close>

definition v2_New :: "codecs \<Rightarrow> 'h host \<Rightarrow> (json option \<Rightarrow> string) \<Rightarrow> ((string \<times> pollEntry) list \<Rightarrow> (string \<times> pollEntry) list) \<Rightarrow>
    vdesc \<Rightarrow> 'b client \<Rightarrow> 'h \<Rightarrow> 'b \<Rightarrow> heap \<Rightarrow> ('h, 'b) vREST \<times> ('h, 'b) world" where
  "v2_New C H hash visit d c h b heap =
     (\<lparr>vr_desc = d,
       vr_gr = (case vd_GroupResource d of Some g \<Rightarrow> g | None \<Rightarrow> \<lparr>gr_group = vd_Group d, gr_resource = vd_Resource d\<rparr>),
       vr_mode = (case vd_WatchMode d of None \<Rightarrow> ModePoll | Some m \<Rightarrow> m),
       vr_interval = (if vd_PollInterval d \<le> 0 then 15 * ns_per_s else vd_PollInterval d),
       vr_client = c, vr_store = None, vr_admission = None, vr_codecs = C, vr_host = H, vr_hash = hash, vr_range = visit\<rparr>,
      \<lparr>w_h = h, w_b = b, w_rv = 1, w_log = [], w_poll = [], w_heap = heap\<rparr>)"

definition WithMetadataStore :: "'h Store \<Rightarrow> ('h, 'b) vREST \<Rightarrow> ('h, 'b) vREST" where
  "WithMetadataStore s R = R\<lparr>vr_store := Some s\<rparr>"

definition WithAdmission :: "Engine option \<Rightarrow> ('h, 'b) vREST \<Rightarrow> ('h, 'b) vREST" where
  "WithAdmission e R = R\<lparr>vr_admission := e\<rparr>"

text \<open>Operations of the host and of the backend on the world.\<close>

definition viaHost :: "('h \<Rightarrow> 'a \<times> 'h) \<Rightarrow> ('h, 'b) world \<Rightarrow> 'a \<times> ('h, 'b) world" where
  "viaHost f w = (let (x, h) = f (w_h w) in (x, w\<lparr>w_h := h\<rparr>))"

definition viaBackend :: "('b \<Rightarrow> 'a \<times> 'b) \<Rightarrow> ('h, 'b) world \<Rightarrow> 'a \<times> ('h, 'b) world" where
  "viaBackend f w = (let (x, b) = f (w_b w) in (x, w\<lparr>w_b := b\<rparr>))"

definition apiVersionOf :: "vdesc \<Rightarrow> string" where
  "apiVersionOf d = (if vd_Group d = [] then vd_Version d else vd_Group d @ ''/'' @ vd_Version d)"

definition v2_NewObj :: "('h, 'b) vREST \<Rightarrow> vobj" where
  "v2_NewObj R = Obj empty_meta \<lparr>vp_api = apiVersionOf (vr_desc R), vp_kind = vd_Kind (vr_desc R), vp_content = []\<rparr>"

record vlist =
  vl_kind :: string
  vl_items :: "vobj list"
  vl_rv :: string

definition v2_NewList :: "('h, 'b) vREST \<Rightarrow> vlist" where
  "v2_NewList R = \<lparr>vl_kind = vd_Kind (vr_desc R) @ ''List'', vl_items = [], vl_rv = []\<rparr>"

section \<open>Helpers\<close>

definition userToProto :: "user_info \<Rightarrow> proto_user" where
  "userToProto u = \<lparr>pu_Name = u_name u, pu_Uid = ui_uid u, pu_Groups = u_groups u,
     pu_Extra = fold (\<lambda>(k, v) m. aput k v m) (ui_extra u) []\<rparr>"

definition v2_userFromCtx :: "vctx \<Rightarrow> proto_user option" where
  "v2_userFromCtx c = map_option userToProto (vc_user c)"

definition selectorFromOpts :: "list_options option \<Rightarrow> lsel" where
  "selectorFromOpts opts =
     (case opts of None \<Rightarrow> everything | Some o' \<Rightarrow> (case lo_label o' of None \<Rightarrow> everything | Some s \<Rightarrow> s))"

definition selectorString :: "codecs \<Rightarrow> list_options option \<Rightarrow> string" where
  "selectorString C opts =
     (case opts of
        None \<Rightarrow> []
      | Some o' \<Rightarrow> (case lo_label o' of None \<Rightarrow> [] | Some s \<Rightarrow> (if ls_empty s then [] else cd_selText C s)))"

definition v2_matchesLabels :: "vobj \<Rightarrow> list_options option \<Rightarrow> bool" where
  "v2_matchesLabels obj opts =
     (let sel = selectorFromOpts opts in
      if ls_empty sel then True
      else case accessor obj of None \<Rightarrow> True | Some m \<Rightarrow> ls_matches sel (om_labels m))"

definition translateErr :: "rpc_err \<Rightarrow> string \<Rightarrow> api_err" where
  "translateErr err name =
     (case err of
        RpcEOF \<Rightarrow> ServiceUnavailable ''backend stream closed''
      | RpcOther t \<Rightarrow> Internal (Plain t)
      | RpcStatus code msg \<Rightarrow>
          (case code of
             C_NotFound \<Rightarrow> NotFound name
           | C_AlreadyExists \<Rightarrow> AlreadyExists name
           | C_InvalidArgument \<Rightarrow> BadRequest msg
           | C_PermissionDenied \<Rightarrow> Forbidden name msg
           | C_Unavailable \<Rightarrow> ServiceUnavailable msg
           | C_Other n \<Rightarrow> Internal (Plain (''backend: '' @ msg))))"

text \<open>A delete the backend answers with NotFound has succeeded.\<close>

definition deleteFailed :: "rpc_err option \<Rightarrow> rpc_err option" where
  "deleteFailed e = (case e of Some (RpcStatus C_NotFound msg) \<Rightarrow> None | _ \<Rightarrow> e)"

definition v2_CurrentResourceVersion :: "('h, 'b) world \<Rightarrow> string" where
  "v2_CurrentResourceVersion w = dec_nat (unat (w_rv w))"

definition finalRV :: "('h, 'b) world \<Rightarrow> nat \<Rightarrow> string" where
  "finalRV w listRV = (if unat (w_rv w) < listRV then dec_nat listRV else dec_nat (unat (w_rv w)))"

definition v2_refFor :: "('h, 'b) vREST \<Rightarrow> string \<Rightarrow> string \<Rightarrow> ResourceRef" where
  "v2_refFor R ns name = \<lparr>rf_group = gr_group (vr_gr R), rf_resource = gr_resource (vr_gr R), rf_namespace = ns, rf_name = name\<rparr>"

definition businessJSONFromBytes :: "json option \<Rightarrow> json option" where
  "businessJSONFromBytes raw =
     (case decodeMap raw of
        None \<Rightarrow> None
      | Some m0 \<Rightarrow>
          (let full = (case m0 of None \<Rightarrow> [] | Some f \<Rightarrow> f);
               str = (\<lambda>k. case asStr (map_of full k) of None \<Rightarrow> [] | Some s \<Rightarrow> [(k, JStr s)]);
               any = (\<lambda>k. case map_of full k of None \<Rightarrow> [] | Some v \<Rightarrow> [(k, v)])
           in Some (JObj (str ''apiVersion'' @ str ''kind'' @
                (case asMap (map_of full ''metadata'') of
                   None \<Rightarrow> []
                 | Some md \<Rightarrow>
                     [(''metadata'', JObj ((case map_of md ''name'' of None \<Rightarrow> [] | Some v \<Rightarrow> [(''name'', v)]) @
                        (case map_of md ''namespace'' of None \<Rightarrow> [] | Some v \<Rightarrow> (if v = JStr [] then [] else [(''namespace'', v)]))))]) @
                any ''spec'' @ any ''status''))))"

definition encodeObject :: "('h, 'b) vREST \<Rightarrow> vobj \<Rightarrow> json option" where
  "encodeObject R obj = (if vd_UseTypedWrapper (vr_desc R) then Some (obj_MarshalJSON (vr_codecs R) obj)
     else cd_unEncode (vr_codecs R) obj)"

definition businessJSON :: "('h, 'b) vREST \<Rightarrow> vobj \<Rightarrow> json option" where
  "businessJSON R obj = (case encodeObject R obj of None \<Rightarrow> None | Some j \<Rightarrow> businessJSONFromBytes (Some j))"

definition recordFromLibraryObject :: "vobj \<Rightarrow> ResourceRef \<Rightarrow> krm" where
  "recordFromLibraryObject obj ref =
     (case accessor obj of
        None \<Rightarrow> empty_krm ref
      | Some m \<Rightarrow> (empty_krm ref)\<lparr>kr_uid := om_uid m, kr_created := om_created m, kr_labels := om_labels m,
          kr_anns := om_anns m, kr_fins := om_fins m,
          kr_deleted := (if isSet (om_deleted m) then om_deleted m else None),
          kr_managed := om_managed m, kr_owners := om_owners m\<rparr>)"

definition failuresToInvalid :: "string \<Rightarrow> Failure list \<Rightarrow> api_err" where
  "failuresToInvalid name fs = Invalid name (map (\<lambda>f. (fa_FieldPath f, fa_Message f)) fs)"

definition protoCausesToInvalid :: "string \<Rightarrow> validate_resp \<Rightarrow> api_err" where
  "protoCausesToInvalid name resp =
     (if vr_Causes resp = []
      then BadRequest (if vr_Reason resp = [] then ''backend admission denied'' else vr_Reason resp)
      else Invalid name (vr_Causes resp))"

definition nameOfRaw :: "json option \<Rightarrow> string" where
  "nameOfRaw raw = fst (nameNamespaceFromJSON raw)"

section \<open>Assembly\<close>

definition decodeOne :: "('h, 'b) vREST \<Rightarrow> json option \<Rightarrow> vobj res" where
  "decodeOne R raw =
     (case (if vd_UseTypedWrapper (vr_desc R) then obj_UnmarshalJSON (vr_codecs R) raw else cd_unDecode (vr_codecs R) raw) of
        None \<Rightarrow> Inl (Internal (Plain ''decode object''))
      | Some obj \<Rightarrow> Inr obj)"

text \<open>The name and the namespace a stitched object gets.\<close>

definition v2_named :: "('h, 'b) vREST \<Rightarrow> string \<Rightarrow> string \<Rightarrow> ometa \<Rightarrow> ometa" where
  "v2_named R ns name m =
     m\<lparr>om_name := (if om_name m = [] then name else om_name m),
       om_ns := (if vd_Namespaced (vr_desc R) then (if om_ns m = [] then ns else om_ns m) else [])\<rparr>"

text \<open>Metadata without a record.\<close>

definition v2_synthesize :: "('h, 'b) vREST \<Rightarrow> ometa \<Rightarrow> ('h, 'b) world \<Rightarrow> ometa \<times> ('h, 'b) world" where
  "v2_synthesize R m w =
     (let (m1, w1) = (if om_uid m = []
                      then (let (u, w') = viaHost (h_uuid (vr_host R)) w in (m\<lparr>om_uid := ''synthetic-'' @ u\<rparr>, w'))
                      else (m, w));
          m2 = (if om_rv m1 = [] then m1\<lparr>om_rv := v2_CurrentResourceVersion w1\<rparr> else m1)
      in if om_created m2 = 0
         then (let (now, w2) = viaHost (h_now (vr_host R)) w1 in (m2\<lparr>om_created := now\<rparr>, w2))
         else (m2, w1))"

text \<open>Metadata from a record; owner references of the backend stay when the record has none.\<close>

definition v2_overlay :: "('h, 'b) vREST \<Rightarrow> krm \<Rightarrow> string \<Rightarrow> ometa \<Rightarrow> ometa" where
  "v2_overlay R rec currentRV m =
     m\<lparr>om_uid := kr_uid rec,
       om_rv := (if kr_recordRV rec \<noteq> [] then kr_recordRV rec else currentRV),
       om_created := (if kr_created rec \<noteq> 0 then kr_created rec else om_created m),
       om_deleted := kr_deleted rec, om_labels := kr_labels rec, om_anns := kr_anns rec, om_fins := kr_fins rec,
       om_managed := (if kr_managed rec \<noteq> []
                      then (if jc_managed (cd_checks (vr_codecs R)) (kr_managed rec) then kr_managed rec else om_managed m)
                      else []),
       om_owners := (if kr_owners rec \<noteq> [] \<and> jc_owners (cd_checks (vr_codecs R)) (kr_owners rec)
                     then kr_owners rec else om_owners m)\<rparr>"

definition stitchFromRecord :: "('h, 'b) vREST \<Rightarrow> json option \<Rightarrow> krm option \<Rightarrow> string \<Rightarrow> string \<Rightarrow> ('h, 'b) world \<Rightarrow>
    vobj res \<times> ('h, 'b) world" where
  "stitchFromRecord R raw rec ns name w =
     (case decodeOne R raw of
        Inl e \<Rightarrow> (Inl e, w)
      | Inr (Bare p) \<Rightarrow> (Inl (Internal (Plain ''object has no metadata'')), w)
      | Inr (Obj m0 p0) \<Rightarrow>
          (let p = p0\<lparr>vp_api := apiVersionOf (vr_desc R), vp_kind := vd_Kind (vr_desc R)\<rparr>; m = v2_named R ns name m0 in
           case rec of
             None \<Rightarrow> (let (m1, w1) = v2_synthesize R m w in (Inr (Obj m1 p), w1))
           | Some r \<Rightarrow> (Inr (Obj (v2_overlay R r (v2_CurrentResourceVersion w) m) p), w)))"

text \<open>The record of an object, \<open>None\<close> when there is no store or the read fails.\<close>

definition recordFor :: "('h, 'b) vREST \<Rightarrow> string \<Rightarrow> string \<Rightarrow> ('h, 'b) world \<Rightarrow> krm option \<times> ('h, 'b) world" where
  "recordFor R ns name w =
     (case vr_store R of
        None \<Rightarrow> (None, w)
      | Some S \<Rightarrow> (let (x, w1) = viaHost (v2_Get S (v2_refFor R ns name)) w
                  in ((case x of Inl e \<Rightarrow> None | Inr r \<Rightarrow> r), w1)))"

definition assembleOne :: "('h, 'b) vREST \<Rightarrow> json option \<Rightarrow> string \<Rightarrow> string \<Rightarrow> ('h, 'b) world \<Rightarrow> vobj res \<times> ('h, 'b) world" where
  "assembleOne R raw ns name w =
     (case vr_store R of
        None \<Rightarrow>
          (case decodeOne R raw of
             Inl e \<Rightarrow> (Inl e, w)
           | Inr obj \<Rightarrow> (Inr (with_meta (\<lambda>m. if om_rv m = [] then m\<lparr>om_rv := v2_CurrentResourceVersion w\<rparr> else m) obj), w))
      | Some S \<Rightarrow> (let (rec, w1) = recordFor R ns name w in stitchFromRecord R raw rec ns name w1))"

definition fromJSONAssembled :: "('h, 'b) vREST \<Rightarrow> json option \<Rightarrow> ('h, 'b) world \<Rightarrow> vobj res \<times> ('h, 'b) world" where
  "fromJSONAssembled R raw w =
     (let (nm, ens) = nameNamespaceFromJSON raw in
      case vr_store R of
        None \<Rightarrow> (decodeOne R raw, w)
      | Some S \<Rightarrow> (let (rec, w1) = recordFor R ens nm w in stitchFromRecord R raw rec ens nm w1))"

definition listRecords :: "('h, 'b) vREST \<Rightarrow> string \<Rightarrow> ('h, 'b) world \<Rightarrow> (string \<times> krm) list \<times> ('h, 'b) world" where
  "listRecords R ns w =
     (case vr_store R of
        None \<Rightarrow> ([], w)
      | Some S \<Rightarrow>
          (case viaHost (v2_List S (gr_group (vr_gr R)) (gr_resource (vr_gr R))) w of
             (Inl e, w1) \<Rightarrow> ([], w1)
           | (Inr recs, w1) \<Rightarrow>
               (foldl (\<lambda>m r. aput (gcKey (rf_namespace (kr_ref r)) (rf_name (kr_ref r))) r m) []
                  (filter (\<lambda>r. \<not> (vd_Namespaced (vr_desc R) \<and> rf_namespace (kr_ref r) \<noteq> ns \<and> ns \<noteq> [])) recs), w1)))"

definition stitchObj :: "('h, 'b) vREST \<Rightarrow> json option \<Rightarrow> (string \<times> krm) list \<Rightarrow> string \<Rightarrow> ('h, 'b) world \<Rightarrow>
    (vobj \<times> nat) res \<times> ('h, 'b) world" where
  "stitchObj R raw records ns w =
     (let (nm, ens0) = nameNamespaceFromJSON raw; ens = (if ens0 = [] then ns else ens0);
          rec = map_of records (gcKey ens nm)
      in case stitchFromRecord R raw rec ens nm w of
           (Inl e, w1) \<Rightarrow> (Inl e, w1)
         | (Inr obj, w1) \<Rightarrow>
             (Inr (obj, (case rec of None \<Rightarrow> 0 | Some r \<Rightarrow> (case parse_uint64 (kr_recordRV r) of None \<Rightarrow> 0 | Some n \<Rightarrow> n))), w1))"

section \<open>Get and List\<close>

definition v2_GetObj :: "('h, 'b) vREST \<Rightarrow> vctx \<Rightarrow> string \<Rightarrow> ('h, 'b) world \<Rightarrow> vobj res \<times> ('h, 'b) world" where
  "v2_GetObj R c name w =
     (case viaBackend (bc_Get (vr_client R) (v2_userFromCtx c) (vc_ns c) name) w of
        (Inl e, w1) \<Rightarrow> (Inl (translateErr e name), w1)
      | (Inr raw, w1) \<Rightarrow> assembleOne R raw (vc_ns c) name w1)"

fun stitchItems :: "('h, 'b) vREST \<Rightarrow> list_options option \<Rightarrow> (string \<times> krm) list \<Rightarrow> string \<Rightarrow> json option list \<Rightarrow> vobj list \<Rightarrow> nat \<Rightarrow>
    ('h, 'b) world \<Rightarrow> (vobj list \<times> nat) res \<times> ('h, 'b) world" where
  "stitchItems R opts records ns [] acc listRV w = (Inr (acc, listRV), w)"
| "stitchItems R opts records ns (raw # raws) acc listRV w =
     (case stitchObj R raw records ns w of
        (Inl e, w1) \<Rightarrow> (Inl e, w1)
      | (Inr (obj, rv), w1) \<Rightarrow>
          (if \<not> v2_matchesLabels obj opts then stitchItems R opts records ns raws acc listRV w1
           else stitchItems R opts records ns raws (acc @ [obj]) (if listRV < rv then rv else listRV) w1))"

definition v2_ListObjs :: "('h, 'b) vREST \<Rightarrow> vctx \<Rightarrow> list_options option \<Rightarrow> ('h, 'b) world \<Rightarrow> vlist res \<times> ('h, 'b) world" where
  "v2_ListObjs R c opts w =
     (case viaBackend (bc_List (vr_client R) (v2_userFromCtx c) (vc_ns c) (selectorString (vr_codecs R) opts)) w of
        (Inl e, w1) \<Rightarrow> (Inl (translateErr e []), w1)
      | (Inr raws, w1) \<Rightarrow>
          (let (records, w2) = listRecords R (vc_ns c) w1 in
           case stitchItems R opts records (vc_ns c) raws [] 0 w2 of
             (Inl e, w3) \<Rightarrow> (Inl e, w3)
           | (Inr (items, listRV), w3) \<Rightarrow> (Inr ((v2_NewList R)\<lparr>vl_items := items, vl_rv := finalRV w3 listRV\<rparr>), w3)))"

section \<open>Watch\<close>

definition v2_bookmarkObject :: "('h, 'b) vREST \<Rightarrow> ('h, 'b) world \<Rightarrow> vobj" where
  "v2_bookmarkObject R w =
     with_meta (\<lambda>m. m\<lparr>om_anns := [(''k8s.io/initial-events-end'', ''true'')], om_rv := v2_CurrentResourceVersion w\<rparr>) (v2_NewObj R)"

definition v2_admits :: "string \<Rightarrow> lsel \<Rightarrow> vpayload event \<Rightarrow> bool" where
  "v2_admits ns sel ev =
     (if ev_type ev = Bookmark then True
      else case accessor (ev_obj ev) of
             None \<Rightarrow> True
           | Some m \<Rightarrow> (if ns \<noteq> [] \<and> om_ns m \<noteq> ns then False
                       else if \<not> ls_empty sel \<and> \<not> ls_matches sel (om_labels m) then False else True))"

definition v2_Watch :: "('h, 'b) vREST \<Rightarrow> vctx \<Rightarrow> list_options option \<Rightarrow> ('h, 'b) world \<Rightarrow> vpayload wstream res \<times> ('h, 'b) world" where
  "v2_Watch R c opts w =
     (let req = requestedRV opts in
      if req \<noteq> [] \<and> req \<noteq> ''0'' \<and> (case parse_uint64 req of None \<Rightarrow> True | Some n \<Rightarrow> unat (w_rv w) < n)
      then (Inl (Expired req (v2_CurrentResourceVersion w)), w)
      else case v2_ListObjs R c opts w of
             (Inl e, w1) \<Rightarrow> (Inl e, w1)
           | (Inr initial, w1) \<Rightarrow>
               (let prefix = map (\<lambda>o'. \<lparr>ev_type = Added, ev_obj = o'\<rparr>) (vl_items initial) @
                             [\<lparr>ev_type = Bookmark, ev_obj = v2_bookmarkObject R w1\<rparr>];
                    sel = selectorFromOpts opts
                in (Inr \<lparr>ws_prefix = prefix,
                         ws_filter = (if ls_empty sel \<and> vc_ns c = [] then (\<lambda>_. True) else v2_admits (vc_ns c) sel)\<rparr>, w1)))"

definition v2_publish :: "event_type \<Rightarrow> vobj \<Rightarrow> ('h, 'b) world \<Rightarrow> vobj \<times> ('h, 'b) world" where
  "v2_publish t obj w =
     (let n = w_rv w + 1; o' = stampRV obj (dec_nat (unat n))
      in (o', w\<lparr>w_rv := n, w_log := w_log w @ [\<lparr>ev_type = t, ev_obj = o'\<rparr>]\<rparr>))"

text \<open>The push loop: the events of one stream, then the error that ended it.\<close>

definition pushEvent :: "('h, 'b) vREST \<Rightarrow> push_type \<times> json option \<Rightarrow> ('h, 'b) world \<Rightarrow> ('h, 'b) world" where
  "pushEvent R ev w =
     (case fromJSONAssembled R (snd ev) w of
        (Inl e, w1) \<Rightarrow> w1
      | (Inr obj, w1) \<Rightarrow>
          (case fst ev of
             EVENT_ADDED \<Rightarrow> snd (v2_publish Added obj w1)
           | EVENT_MODIFIED \<Rightarrow> snd (v2_publish Modified obj w1)
           | EVENT_DELETED \<Rightarrow> snd (v2_publish Deleted obj w1)
           | EVENT_OTHER \<Rightarrow> w1))"

definition runPushOnce :: "('h, 'b) vREST \<Rightarrow> ('h, 'b) world \<Rightarrow> rpc_err \<times> ('h, 'b) world" where
  "runPushOnce R w =
     (case viaBackend (bc_Watch (vr_client R)) w of
        (Inl e, w1) \<Rightarrow> (e, w1)
      | (Inr (evs, e), w1) \<Rightarrow> (e, fold (pushEvent R) evs w1))"

text \<open>One round of the poller.\<close>

definition publishRaw :: "('h, 'b) vREST \<Rightarrow> event_type \<Rightarrow> json option \<Rightarrow> ('h, 'b) world \<Rightarrow> ('h, 'b) world" where
  "publishRaw R t raw w =
     (case fromJSONAssembled R raw w of
        (Inl e, w1) \<Rightarrow> w1
      | (Inr obj, w1) \<Rightarrow> snd (v2_publish t obj w1))"

definition pollEntries :: "('h, 'b) vREST \<Rightarrow> json option list \<Rightarrow> (string \<times> pollEntry) list" where
  "pollEntries R raws =
     foldl (\<lambda>m raw. let (nm, ens) = nameNamespaceFromJSON raw in aput (gcKey ens nm) \<lparr>pe_raw = raw, pe_hash = vr_hash R raw\<rparr> m) [] raws"

definition pollChanged :: "('h, 'b) vREST \<Rightarrow> (string \<times> pollEntry) list \<Rightarrow> string \<times> pollEntry \<Rightarrow> ('h, 'b) world \<Rightarrow> ('h, 'b) world" where
  "pollChanged R prev kp w =
     (case map_of prev (fst kp) of
        None \<Rightarrow> publishRaw R Added (pe_raw (snd kp)) w
      | Some old \<Rightarrow> (if pe_hash old \<noteq> pe_hash (snd kp) then publishRaw R Modified (pe_raw (snd kp)) w else w))"

definition v2_pollGone :: "('h, 'b) vREST \<Rightarrow> (string \<times> pollEntry) list \<Rightarrow> string \<times> pollEntry \<Rightarrow> ('h, 'b) world \<Rightarrow> ('h, 'b) world" where
  "v2_pollGone R now kp w = (if map_of now (fst kp) = None then publishRaw R Deleted (pe_raw (snd kp)) w else w)"

definition pollOnce :: "('h, 'b) vREST \<Rightarrow> ('h, 'b) world \<Rightarrow> rpc_err option \<times> ('h, 'b) world" where
  "pollOnce R w =
     (case viaBackend (bc_List (vr_client R) None [] []) w of
        (Inl e, w1) \<Rightarrow> (Some e, w1)
      | (Inr raws, w1) \<Rightarrow>
          (let now = pollEntries R raws; prev = w_poll w1; w2 = w1\<lparr>w_poll := now\<rparr>;
               w3 = fold (pollChanged R prev) (vr_range R now) w2
           in (None, fold (v2_pollGone R now) (vr_range R prev) w3)))"

section \<open>Admission\<close>

definition v2_runAdmission :: "('h, 'b) vREST \<Rightarrow> vobj \<Rightarrow> json option option \<Rightarrow> string \<Rightarrow> ('h, 'b) world \<Rightarrow> json option res \<times> ('h, 'b) world" where
  "v2_runAdmission R obj oldRaw op w =
     (case encodeObject R obj of
        None \<Rightarrow> (Inl (BadRequest ''encode object''), w)
      | Some j \<Rightarrow>
          (if vr_admission R = None then (Inr (Some j), w)
           else case Mutate (vr_admission R) op (Some j) (w_heap w) of
                  (Inl e, hp) \<Rightarrow> (Inl (Internal (Plain ''mutate'')), w\<lparr>w_heap := hp\<rparr>)
                | (Inr (mutated, changed), hp) \<Rightarrow>
                    (let w1 = w\<lparr>w_heap := hp\<rparr> in
                     case Validate (vr_admission R) op mutated oldRaw of
                       None \<Rightarrow> (Inl (Internal (Plain ''validate'')), w1)
                     | Some fs \<Rightarrow> (if fs \<noteq> [] then (Inl (failuresToInvalid (nameOfRaw mutated) fs), w1) else (Inr mutated, w1)))))"

definition backendMutate :: "('h, 'b) vREST \<Rightarrow> admit_req \<Rightarrow> ('h, 'b) world \<Rightarrow> json option res \<times> ('h, 'b) world" where
  "backendMutate R q w =
     (if \<not> vd_SupportsMutation (vr_desc R) then (Inr (aq_obj q), w)
      else case viaBackend (bc_Mutate (vr_client R) q) w of
             (Inl e, w1) \<Rightarrow> (Inl (translateErr e (aq_name q)), w1)
           | (Inr resp, w1) \<Rightarrow> (Inr (case resp of None \<Rightarrow> aq_obj q | Some raw \<Rightarrow> raw), w1))"

definition backendMutateValidate :: "('h, 'b) vREST \<Rightarrow> vctx \<Rightarrow> json option \<Rightarrow> json option option \<Rightarrow> string \<Rightarrow> string \<Rightarrow>
    ('h, 'b) world \<Rightarrow> json option res \<times> ('h, 'b) world" where
  "backendMutateValidate R c raw oldRaw name op w =
     (let q = \<lparr>aq_user = v2_userFromCtx c, aq_ns = vc_ns c, aq_name = name, aq_obj = raw, aq_old = oldRaw, aq_op = op\<rparr> in
      case backendMutate R q w of
        (Inl e, w1) \<Rightarrow> (Inl e, w1)
      | (Inr raw1, w1) \<Rightarrow>
          (if \<not> vd_SupportsValidation (vr_desc R) then (Inr raw1, w1)
           else case viaBackend (bc_Validate (vr_client R) (q\<lparr>aq_obj := raw1\<rparr>)) w1 of
                  (Inl e, w2) \<Rightarrow> (Inl (translateErr e name), w2)
                | (Inr resp, w2) \<Rightarrow>
                    (if vr_Allowed resp then (Inr raw1, w2) else (Inl (protoCausesToInvalid name resp), w2))))"

section \<open>Writes\<close>

text \<open>A UID and a creation time where the record has none.\<close>

definition mintUIDTime :: "('h, 'b) vREST \<Rightarrow> bool \<Rightarrow> krm \<Rightarrow> ('h, 'b) world \<Rightarrow> krm \<times> ('h, 'b) world" where
  "mintUIDTime R needsUID rec w =
     (let (r1, w1) = (if needsUID then (let (u, w') = viaHost (h_uuid (vr_host R)) w in (rec\<lparr>kr_uid := u\<rparr>, w')) else (rec, w))
      in if kr_created r1 = 0
         then (let (now, w2) = viaHost (h_now (vr_host R)) w1 in (r1\<lparr>kr_created := now\<rparr>, w2))
         else (r1, w1))"

definition putRecord :: "'h Store \<Rightarrow> krm \<Rightarrow> ('h, 'b) world \<Rightarrow> krm res \<times> ('h, 'b) world" where
  "putRecord S rec w =
     (case viaHost (v2_Put S rec) w of
        (Inl e, w1) \<Rightarrow> (Inl (Internal (Wrapped ''metastore.Put'' e)), w1)
      | (Inr stored, w1) \<Rightarrow> (Inr stored, w1))"

definition rollbackRecord :: "('h, 'b) vREST \<Rightarrow> string \<Rightarrow> string \<Rightarrow> ('h, 'b) world \<Rightarrow> ('h, 'b) world" where
  "rollbackRecord R ns name w =
     (case vr_store R of None \<Rightarrow> w | Some S \<Rightarrow> snd (viaHost (v2_Delete S (v2_refFor R ns name)) w))"

text \<open>The record a create persists first, if there is a store.\<close>

definition createRecord :: "('h, 'b) vREST \<Rightarrow> vobj \<Rightarrow> string \<Rightarrow> string \<Rightarrow> ('h, 'b) world \<Rightarrow> krm option res \<times> ('h, 'b) world" where
  "createRecord R obj ns name w =
     (case vr_store R of
        None \<Rightarrow> (Inr None, w)
      | Some S \<Rightarrow>
          (let rec = recordFromLibraryObject obj (v2_refFor R ns name);
               (rec', w1) = mintUIDTime R (kr_uid rec = []) rec w
           in case putRecord S rec' w1 of
                (Inl e, w2) \<Rightarrow> (Inl e, w2)
              | (Inr stored, w2) \<Rightarrow> (Inr (Some stored), w2)))"

definition v2_Create :: "('h, 'b) vREST \<Rightarrow> vctx \<Rightarrow> vobj \<Rightarrow> vpayload validate \<Rightarrow> string \<Rightarrow> ('h, 'b) world \<Rightarrow> vobj res \<times> ('h, 'b) world" where
  "v2_Create R c obj createValidation fm w =
     (if \<not> vd_Writable (vr_desc R) then (Inl (MethodNotSupported ''create''), w)
      else case run_validate createValidation obj of
        Some e \<Rightarrow> (Inl e, w)
      | None \<Rightarrow>
          (case accessor obj of
             None \<Rightarrow> (Inl (BadRequest ''accessor''), w)
           | Some m \<Rightarrow>
               (let name = om_name m; ns = vc_ns c in
                case v2_runAdmission R obj None ''CREATE'' w of
                  (Inl e, w1) \<Rightarrow> (Inl e, w1)
                | (Inr mutatedRaw, w1) \<Rightarrow>
                    (case backendMutateValidate R c mutatedRaw None name ''CREATE'' w1 of
                       (Inl e, w2) \<Rightarrow> (Inl e, w2)
                     | (Inr afterBackend, w2) \<Rightarrow>
                         (case createRecord R obj ns name w2 of
                            (Inl e, w3) \<Rightarrow> (Inl e, w3)
                          | (Inr storedRec, w3) \<Rightarrow>
                              (case businessJSONFromBytes afterBackend of
                                 None \<Rightarrow> (Inl (BadRequest ''unmarshal obj''), rollbackRecord R ns name w3)
                               | Some biz \<Rightarrow>
                                   (case viaBackend (bc_Create (vr_client R) (v2_userFromCtx c) ns (Some biz) fm) w3 of
                                      (Inl e, w4) \<Rightarrow> (Inl (translateErr e name), rollbackRecord R ns name w4)
                                    | (Inr raw, w4) \<Rightarrow>
                                        (case stitchFromRecord R raw storedRec ns name w4 of
                                           (Inl e, w5) \<Rightarrow> (Inl e, w5)
                                         | (Inr stitched, w5) \<Rightarrow>
                                             (let (out, w6) = v2_publish Added stitched w5 in (Inr out, w6))))))))))"

definition isSynthetic :: "string \<Rightarrow> bool" where
  "isSynthetic uid \<longleftrightarrow> uid = [] \<or> take (length ''synthetic-'') uid = ''synthetic-''"

text \<open>The record of an update: what the object says, completed from the stored record.\<close>

definition inheritRecord :: "krm option \<Rightarrow> krm \<Rightarrow> krm" where
  "inheritRecord prior rec =
     (case prior of
        None \<Rightarrow> rec
      | Some p \<Rightarrow>
          rec\<lparr>kr_uid := (if isSynthetic (kr_uid rec) then kr_uid p else kr_uid rec),
              kr_created := (if kr_created rec = 0 then kr_created p else kr_created rec),
              kr_deleted := (if kr_deleted p \<noteq> None \<and> kr_deleted rec = None then kr_deleted p else kr_deleted rec)\<rparr>)"

definition finalizersCleared :: "krm option \<Rightarrow> krm \<Rightarrow> bool" where
  "finalizersCleared prior rec =
     (case prior of None \<Rightarrow> False | Some p \<Rightarrow> kr_deleted p \<noteq> None \<and> kr_fins p \<noteq> [] \<and> kr_fins rec = [])"

text \<open>The update that removes the last finalizer of an object being deleted.\<close>

definition completeDelete :: "('h, 'b) vREST \<Rightarrow> 'h Store \<Rightarrow> vctx \<Rightarrow> string \<Rightarrow> vobj \<Rightarrow> krm \<Rightarrow> ('h, 'b) world \<Rightarrow>
    (vobj \<times> bool) res \<times> ('h, 'b) world" where
  "completeDelete R S c name updated rec w =
     (case viaBackend (bc_Delete (vr_client R) (v2_userFromCtx c) (vc_ns c) name) w of
        (derr, w1) \<Rightarrow>
          (case deleteFailed derr of
             Some e \<Rightarrow> (Inl (translateErr e name), w1)
           | None \<Rightarrow>
               (let w2 = snd (viaHost (v2_Delete S (kr_ref rec)) w1) in
                case stitchFromRecord R (businessJSON R updated) None (vc_ns c) name w2 of
                  (Inr vanishing, w3) \<Rightarrow> (let (out, w4) = v2_publish Deleted vanishing w3 in (Inr (out, False), w4))
                | (Inl e, w3) \<Rightarrow> (let (out, w4) = v2_publish Deleted updated w3 in (Inr (out, False), w4)))))"

text \<open>What remains of an update once the record is persisted.\<close>

definition updateBackend :: "('h, 'b) vREST \<Rightarrow> vctx \<Rightarrow> string \<Rightarrow> json option \<Rightarrow> krm option \<Rightarrow> string \<Rightarrow> ('h, 'b) world \<Rightarrow>
    (vobj \<times> bool) res \<times> ('h, 'b) world" where
  "updateBackend R c name afterBackend storedRec fm w =
     (case businessJSONFromBytes afterBackend of
        None \<Rightarrow> (Inl (BadRequest ''unmarshal obj''), w)
      | Some biz \<Rightarrow>
          (case viaBackend (bc_Update (vr_client R) (v2_userFromCtx c) (vc_ns c) name (Some biz) fm) w of
             (Inl e, w1) \<Rightarrow> (Inl (translateErr e name), w1)
           | (Inr raw, w1) \<Rightarrow>
               (case stitchFromRecord R raw storedRec (vc_ns c) name w1 of
                  (Inl e, w2) \<Rightarrow> (Inl e, w2)
                | (Inr stitched, w2) \<Rightarrow> (let (out, w3) = v2_publish Modified stitched w2 in (Inr (out, False), w3)))))"

definition updateMeta :: "('h, 'b) vREST \<Rightarrow> vctx \<Rightarrow> string \<Rightarrow> vobj \<Rightarrow> json option \<Rightarrow> string \<Rightarrow> ('h, 'b) world \<Rightarrow>
    (vobj \<times> bool) res \<times> ('h, 'b) world" where
  "updateMeta R c name updated afterBackend fm w =
     (case vr_store R of
        None \<Rightarrow> updateBackend R c name afterBackend None fm w
      | Some S \<Rightarrow>
          (let rec0 = recordFromLibraryObject updated (v2_refFor R (vc_ns c) name);
               (prior, w1) = recordFor R (vc_ns c) name w;
               rec1 = inheritRecord prior rec0;
               (rec, w2) = mintUIDTime R (isSynthetic (kr_uid rec1)) rec1 w1
           in if finalizersCleared prior rec then completeDelete R S c name updated rec w2
              else case putRecord S rec w2 of
                     (Inl e, w3) \<Rightarrow> (Inl e, w3)
                   | (Inr stored, w3) \<Rightarrow> updateBackend R c name afterBackend (Some stored) fm w3))"

definition v2_Update :: "('h, 'b) vREST \<Rightarrow> vctx \<Rightarrow> string \<Rightarrow> vpayload updated_info \<Rightarrow> vpayload validate \<Rightarrow> vpayload validate_update \<Rightarrow> bool \<Rightarrow>
    string \<Rightarrow> ('h, 'b) world \<Rightarrow> (vobj \<times> bool) res \<times> ('h, 'b) world" where
  "v2_Update R c name objInfo createValidation updateValidation forceAllowCreate fm w =
     (if \<not> vd_Writable (vr_desc R) then (Inl (MethodNotSupported ''update''), w)
      else case v2_GetObj R c name w of
        (Inl gerr, w1) \<Rightarrow>
          (if \<not> is_not_found gerr then (Inl gerr, w1)
           else case objInfo None of
             Inl e \<Rightarrow> (Inl e, w1)
           | Inr updated \<Rightarrow>
               (if \<not> forceAllowCreate then (Inl (NotFound name), w1)
                else case run_validate createValidation updated of
                  Some e \<Rightarrow> (Inl e, w1)
                | None \<Rightarrow>
                    (case v2_Create R c updated None fm w1 of
                       (Inl e, w2) \<Rightarrow> (Inl e, w2)
                     | (Inr co, w2) \<Rightarrow> (Inr (co, True), w2))))
      | (Inr current, w1) \<Rightarrow>
          (case objInfo (Some current) of
             Inl e \<Rightarrow> (Inl e, w1)
           | Inr updated \<Rightarrow>
               (case run_validate_update updateValidation updated current of
                  Some e \<Rightarrow> (Inl e, w1)
                | None \<Rightarrow>
                    (let oldRaw = map_option Some (encodeObject R current) in
                     case v2_runAdmission R updated oldRaw ''UPDATE'' w1 of
                       (Inl e, w2) \<Rightarrow> (Inl e, w2)
                     | (Inr newRaw, w2) \<Rightarrow>
                         (case backendMutateValidate R c newRaw oldRaw name ''UPDATE'' w2 of
                            (Inl e, w3) \<Rightarrow> (Inl e, w3)
                          | (Inr afterBackend, w3) \<Rightarrow> updateMeta R c name updated afterBackend fm w3)))))"

text \<open>The first delete of an object with finalizers.\<close>

definition markDeleted :: "('h, 'b) vREST \<Rightarrow> 'h Store \<Rightarrow> vctx \<Rightarrow> string \<Rightarrow> vobj \<Rightarrow> krm \<Rightarrow> ('h, 'b) world \<Rightarrow> (vobj \<times> bool) res \<times> ('h, 'b) world" where
  "markDeleted R S c name prior rec w =
     (let (now, w1) = viaHost (h_now (vr_host R)) w in
      case viaHost (v2_Put S (rec\<lparr>kr_deleted := Some now\<rparr>)) w1 of
        (Inl e, w2) \<Rightarrow> (Inl (Internal e), w2)
      | (Inr stored, w2) \<Rightarrow>
          (case viaBackend (bc_Get (vr_client R) (v2_userFromCtx c) (vc_ns c) name) w2 of
             (Inl e, w3) \<Rightarrow> (Inr (prior, False), w3)
           | (Inr raw, w3) \<Rightarrow>
               (case stitchFromRecord R raw (Some stored) (vc_ns c) name w3 of
                  (Inl e, w4) \<Rightarrow> (Inr (prior, False), w4)
                | (Inr stitched, w4) \<Rightarrow> (let (out, w5) = v2_publish Modified stitched w4 in (Inr (out, False), w5)))))"

definition deleteNow :: "('h, 'b) vREST \<Rightarrow> vctx \<Rightarrow> string \<Rightarrow> vobj \<Rightarrow> ('h, 'b) world \<Rightarrow> (vobj \<times> bool) res \<times> ('h, 'b) world" where
  "deleteNow R c name prior w =
     (case viaBackend (bc_Delete (vr_client R) (v2_userFromCtx c) (vc_ns c) name) w of
        (derr, w1) \<Rightarrow>
          (case deleteFailed derr of
             Some e \<Rightarrow> (Inl (translateErr e name), w1)
           | None \<Rightarrow>
               (let w2 = rollbackRecord R (vc_ns c) name w1; (out, w3) = v2_publish Deleted prior w2
                in (Inr (out, True), w3))))"

definition v2_DeleteObj :: "('h, 'b) vREST \<Rightarrow> vctx \<Rightarrow> string \<Rightarrow> vpayload validate \<Rightarrow> ('h, 'b) world \<Rightarrow> (vobj \<times> bool) res \<times> ('h, 'b) world" where
  "v2_DeleteObj R c name deleteValidation w =
     (if \<not> vd_Writable (vr_desc R) then (Inl (MethodNotSupported ''delete''), w)
      else case v2_GetObj R c name w of
        (Inl e, w1) \<Rightarrow> (Inl e, w1)
      | (Inr prior, w1) \<Rightarrow>
          (case run_validate deleteValidation prior of
             Some e \<Rightarrow> (Inl e, w1)
           | None \<Rightarrow>
               (case vr_store R of
                  None \<Rightarrow> deleteNow R c name prior w1
                | Some S \<Rightarrow>
                    (case viaHost (v2_Get S (v2_refFor R (vc_ns c) name)) w1 of
                       (Inl e, w2) \<Rightarrow> (Inl (Internal (Wrapped ''metastore.Get'' e)), w2)
                     | (Inr rec, w2) \<Rightarrow>
                         (case rec of
                            None \<Rightarrow> deleteNow R c name prior w2
                          | Some r \<Rightarrow>
                              (if kr_fins r = [] then deleteNow R c name prior w2
                               else if kr_deleted r = None then markDeleted R S c name prior r w2
                               else (Inr (prior, False), w2)))))))"

section \<open>Tables\<close>

definition LookupField :: "jmap \<Rightarrow> string \<Rightarrow> json" where
  "LookupField obj path =
     (if path = [] then JNull
      else let parts = labels_of (if take 1 path = ''.'' then drop 1 path else path);
               cur = foldl (\<lambda>cur p. case cur of
                              Some (JObj m) \<Rightarrow> Some (case map_of m p of None \<Rightarrow> JNull | Some v \<Rightarrow> v)
                            | _ \<Rightarrow> None) (Some (JObj obj)) parts
           in case cur of None \<Rightarrow> JStr [] | Some JNull \<Rightarrow> JStr [] | Some v \<Rightarrow> v)"

definition round_s :: "int \<Rightarrow> int" where
  "round_s d = (if 0 \<le> d then (d + ns_per_s div 2) div ns_per_s else - ((- d + ns_per_s div 2) div ns_per_s))"

text \<open>\<open>durationShort\<close> of a duration of whole seconds.\<close>

definition durationShort :: "int \<Rightarrow> string" where
  "durationShort secs =
     (if secs < 60 then dec_int secs @ ''s''
      else if secs < 3600 then dec_int (secs div 60) @ ''m''
      else if secs < 86400 then dec_int (secs div 3600) @ ''h''
      else dec_int (secs div 86400) @ ''d'')"

definition ageOf :: "gotime \<Rightarrow> string \<Rightarrow> string" where
  "ageOf now ts = (case parse_rfc3339 ts of None \<Rightarrow> ''<unknown>'' | Some t \<Rightarrow> durationShort (round_s (now - t)))"

definition rowCell :: "('h, 'b) vREST \<Rightarrow> jmap \<Rightarrow> string \<Rightarrow> ('h, 'b) world \<Rightarrow> json \<times> ('h, 'b) world" where
  "rowCell R content path w =
     (case LookupField content path of
        JStr s \<Rightarrow>
          (if path = ''.metadata.creationTimestamp'' \<and> s \<noteq> []
           then (if parse_rfc3339 s = None then (JStr (ageOf 0 s), w)
                 else (let (now, w1) = viaHost (h_now (vr_host R)) w in (JStr (ageOf now s), w1)))
           else (JStr s, w))
      | v \<Rightarrow> (v, w))"

fun rowFromContent :: "('h, 'b) vREST \<Rightarrow> jmap \<Rightarrow> string list \<Rightarrow> ('h, 'b) world \<Rightarrow> json list \<times> ('h, 'b) world" where
  "rowFromContent R content [] w = ([], w)"
| "rowFromContent R content (p # ps) w =
     (let (v, w1) = rowCell R content p w; (vs, w2) = rowFromContent R content ps w1 in (v # vs, w2))"

definition contentOf :: "('h, 'b) vREST \<Rightarrow> vobj \<Rightarrow> jmap" where
  "contentOf R obj =
     (if vd_UseTypedWrapper (vr_desc R) then AsMap (vr_codecs R) obj
      else (case cd_unEncode (vr_codecs R) obj of Some (JObj m) \<Rightarrow> m | _ \<Rightarrow> []))"

fun rowsFor :: "('h, 'b) vREST \<Rightarrow> vobj list \<Rightarrow> ('h, 'b) world \<Rightarrow> (json list \<times> vobj) list \<times> ('h, 'b) world" where
  "rowsFor R [] w = ([], w)"
| "rowsFor R (obj # objs) w =
     (let (cells, w1) = rowFromContent R (contentOf R obj) (vd_RowFields (vr_desc R)) w; (rows, w2) = rowsFor R objs w1
      in ((cells, obj) # rows, w2))"

record vtable =
  vt_columns :: "string list"
  vt_rows :: "(json list \<times> vobj) list"
  vt_rv :: string

text \<open>A single object, or a list, whose resource version the table carries.\<close>

definition v2_ConvertToTable :: "('h, 'b) vREST \<Rightarrow> vobj + vlist \<Rightarrow> ('h, 'b) world \<Rightarrow> vtable \<times> ('h, 'b) world" where
  "v2_ConvertToTable R object w =
     (case object of
        Inl obj \<Rightarrow> (let (rows, w1) = rowsFor R [obj] w in (\<lparr>vt_columns = vd_Columns (vr_desc R), vt_rows = rows, vt_rv = []\<rparr>, w1))
      | Inr l \<Rightarrow> (let (rows, w1) = rowsFor R (vl_items l) w
                in (\<lparr>vt_columns = vd_Columns (vr_desc R), vt_rows = rows, vt_rv = vl_rv l\<rparr>, w1)))"

end
