(* ===== verification/EventCounter.thy ===== *)
theory EventCounter
  imports LibInvariants
begin

text \<open>
  The contract the component adapters share: a 64-bit counter of resource versions beside a log of events.  Every step of an adapter appends some
  events, each stamped with the next version, and advances the counter by their number; the run of any steps then keeps counter and log in
  agreement.
\<close>

definition counted :: "64 word \<Rightarrow> 'p event list \<Rightarrow> bool" where
  "counted n l \<longleftrightarrow> unat n = length l + 1 \<and> (\<forall>i < length l. event_rvs l ! i \<in> {None, Some (dec_nat (i + 2))})"

text \<open>The events \<open>evs\<close> carry the versions after \<open>n\<close>.\<close>

definition stamped_after :: "64 word \<Rightarrow> 'p event list \<Rightarrow> bool" where
  "stamped_after n evs \<longleftrightarrow> (\<forall>i < length evs. event_rvs evs ! i \<in> {None, Some (dec_nat (unat (n + of_nat i + 1)))})"

lemma stamped_after_Nil [simp]: "stamped_after n []"
  by (simp add: stamped_after_def)

lemma event_rvs_append: "event_rvs (l @ l') = event_rvs l @ event_rvs l'"
  by (simp add: event_rvs_def)

lemma stamped_after_append:
  assumes "stamped_after n evs" and "stamped_after (n + of_nat (length evs)) evs'"
  shows "stamped_after n (evs @ evs')"
  unfolding stamped_after_def
proof (intro allI impI)
  fix i
  assume i: "i < length (evs @ evs')"
  show "event_rvs (evs @ evs') ! i \<in> {None, Some (dec_nat (unat (n + of_nat i + 1)))}"
  proof (cases "i < length evs")
    case True
    then show ?thesis using assms(1) by (simp add: stamped_after_def event_rvs_append nth_append)
  next
    case False
    then have j: "i - length evs < length evs'" "i = length evs + (i - length evs)" using i by simp_all
    have "(of_nat i :: 64 word) = of_nat (length evs) + of_nat (i - length evs)"
      by (subst j(2)) (rule of_nat_add)
    then have "n + of_nat i + 1 = n + of_nat (length evs) + of_nat (i - length evs) + 1" by (simp only: add.assoc)
    moreover have "event_rvs (evs @ evs') ! i = event_rvs evs' ! (i - length evs)" using False by (simp add: event_rvs_append nth_append)
    ultimately show ?thesis using assms(2) j(1) by (simp only: stamped_after_def)
  qed
qed

text \<open>Until the counter wraps, versions are the numbers of events.\<close>

lemma counted_extend:
  assumes "counted n l" and "stamped_after n evs" and room: "length (l @ evs) + 1 < 2 ^ 64"
  shows "counted (n + of_nat (length evs)) (l @ evs)"
proof -
  have n: "n = of_nat (length l + 1)" using assms(1) by (metis counted_def of_nat_unat ucast_id)
  have u: "unat (of_nat k :: 64 word) = k" if "k \<le> length l + 1 + length evs" for k
    using that room by (simp add: unsigned_of_nat take_bit_nat_eq_self)
  have "n + of_nat (length evs) = of_nat (length l + 1 + length evs)" by (simp only: n of_nat_add)
  then have "unat (n + of_nat (length evs)) = length (l @ evs) + 1" by (simp only: u) simp
  moreover have "event_rvs (l @ evs) ! i \<in> {None, Some (dec_nat (i + 2))}" if "i < length (l @ evs)" for i
  proof (cases "i < length l")
    case True
    then show ?thesis using assms(1) by (simp add: counted_def event_rvs_append nth_append)
  next
    case False
    then have i: "i - length l < length evs" "i = length l + (i - length l)" using that by simp_all
    have "n + of_nat (i - length l) + 1 = of_nat (length l + 1) + of_nat (i - length l) + (of_nat 1 :: 64 word)" using n by simp
    also have "\<dots> = of_nat (length l + 1 + (i - length l) + 1)" by (simp only: of_nat_add)
    also have "length l + 1 + (i - length l) + 1 = i + 2" using i(2) by simp
    finally have "n + of_nat (i - length l) + 1 = of_nat (i + 2)" .
    moreover have "event_rvs (l @ evs) ! i = event_rvs evs ! (i - length l)" using False by (simp add: event_rvs_append nth_append)
    moreover have "unat (of_nat (i + 2) :: 64 word) = i + 2" using that by (intro u) simp
    ultimately show ?thesis using assms(2) i(1) by (metis stamped_after_def)
  qed
  ultimately show ?thesis by (simp add: counted_def)
qed

locale event_counter =
  fixes step :: "'op \<Rightarrow> 'w \<Rightarrow> 'w" and rv :: "'w \<Rightarrow> 64 word" and log :: "'w \<Rightarrow> 'p event list"
  assumes step: "\<exists>evs. log (step op w) = log w @ evs \<and> rv (step op w) = rv w + of_nat (length evs) \<and> stamped_after (rv w) evs"
begin

lemma run: "\<exists>evs. log (fold step ops w) = log w @ evs \<and> rv (fold step ops w) = rv w + of_nat (length evs) \<and> stamped_after (rv w) evs"
proof (induction ops arbitrary: w)
  case (Cons op ops)
  obtain evs where 1: "log (step op w) = log w @ evs" "rv (step op w) = rv w + of_nat (length evs)" "stamped_after (rv w) evs"
    using step by blast
  obtain evs' where 2: "log (fold step ops (step op w)) = log (step op w) @ evs'"
    "rv (fold step ops (step op w)) = rv (step op w) + of_nat (length evs')" "stamped_after (rv (step op w)) evs'"
    using Cons.IH by blast
  show ?case using 1 2 stamped_after_append [of "rv w" evs evs'] by (intro exI [of _ "evs @ evs'"]) simp
qed (simp add: stamped_after_def)

lemma run_counted:
  assumes "counted (rv w) (log w)" and "length (log (fold step ops w)) + 1 < 2 ^ 64"
  shows "counted (rv (fold step ops w)) (log (fold step ops w)) \<and> take (length (log w)) (log (fold step ops w)) = log w"
  using run [of ops w] counted_extend [OF assms(1)] assms(2) by auto

end

end
