(* ===== verification/V2Frames.thy ===== *)
theory V2Frames
  imports V2Rest EventCounter
begin

text \<open>
  What the operations of the component REST adapter leave alone: reads and admission publish nothing (\<open>silent\<close>), and whatever else
  runs publishes events at consecutive resource versions (\<open>extends\<close>); runs of the adapter as lists of requests and watch-source rounds.
\<close>

section \<open>Events and the counter\<close>

lemma viaHost_eq: "viaHost f w = (fst (f (w_h w)), w\<lparr>w_h := snd (f (w_h w))\<rparr>)"
  by (simp add: viaHost_def split_beta)

lemma viaBackend_eq: "viaBackend f w = (fst (f (w_b w)), w\<lparr>w_b := snd (f (w_b w))\<rparr>)"
  by (simp add: viaBackend_def split_beta)

text \<open>An operation that publishes nothing.\<close>

definition silent :: "('h, 'b) world \<Rightarrow> ('h, 'b) world \<Rightarrow> bool" where
  "silent w w' \<longleftrightarrow> w_rv w' = w_rv w \<and> w_log w' = w_log w"

text \<open>One that publishes events, each at the next resource version.\<close>

definition extends :: "('h, 'b) world \<Rightarrow> ('h, 'b) world \<Rightarrow> bool" where
  "extends w w' \<longleftrightarrow>
     (\<exists>evs. w_log w' = w_log w @ evs \<and> w_rv w' = w_rv w + of_nat (length evs) \<and> stamped_after (w_rv w) evs)"

lemma world_silent_refl [simp]: "silent w w" and silent_trans: "silent w w' \<Longrightarrow> silent w' w'' \<Longrightarrow> silent w w''"
  by (simp_all add: silent_def)

lemma silent_host [simp]: "silent w (w'\<lparr>w_h := h\<rparr>) = silent w w'" and silent_backend [simp]: "silent w (w'\<lparr>w_b := b\<rparr>) = silent w w'"
  and silent_heap [simp]: "silent w (w'\<lparr>w_heap := hp\<rparr>) = silent w w'" and silent_poll [simp]: "silent w (w'\<lparr>w_poll := q\<rparr>) = silent w w'"
  by (simp_all add: silent_def)

lemma silent_from [simp]: "silent (w\<lparr>w_h := h\<rparr>) w' = silent w w'" "silent (w\<lparr>w_b := b\<rparr>) w' = silent w w'"
  "silent (w\<lparr>w_heap := hp\<rparr>) w' = silent w w'" "silent (w\<lparr>w_poll := q\<rparr>) w' = silent w w'"
  by (simp_all add: silent_def)

lemma extends_from [simp]: "extends (w\<lparr>w_h := h\<rparr>) w' = extends w w'" "extends (w\<lparr>w_b := b\<rparr>) w' = extends w w'"
  by (simp_all add: extends_def)

lemma extends_silent: "silent w w' \<Longrightarrow> extends w w'"
  by (auto simp: silent_def extends_def)

lemma extends_trans:
  assumes "extends w w'" and "extends w' w''"
  shows "extends w w''"
proof -
  obtain a where a: "w_log w' = w_log w @ a" "w_rv w' = w_rv w + of_nat (length a)" "stamped_after (w_rv w) a"
    using assms(1) by (auto simp: extends_def)
  obtain b where "w_log w'' = w_log w' @ b" "w_rv w'' = w_rv w' + of_nat (length b)" "stamped_after (w_rv w') b"
    using assms(2) by (auto simp: extends_def)
  then show ?thesis using a stamped_after_append [of "w_rv w" a b] unfolding extends_def
    by (intro exI [of _ "a @ b"]) (simp add: algebra_simps)
qed

lemma extends_publish: "silent w w' \<Longrightarrow> extends w (snd (v2_publish t obj w'))"
  by (cases obj) (auto simp: extends_def stamped_after_def silent_def v2_publish_def Let_def event_rvs_def stampRV_def intro!: exI [of _ "[_]"])

lemma publish_extends: "v2_publish t obj w' = (out, w'') \<Longrightarrow> silent w w' \<Longrightarrow> extends w w''"
  by (metis extends_publish snd_conv)

text \<open>Reading, admitting and the records: silent.\<close>

lemma stitch_silent: "stitchFromRecord R raw rec ns name w = (x, w') \<Longrightarrow> silent w w'"
  by (auto simp: stitchFromRecord_def v2_synthesize_def viaHost_eq Let_def split: sum.splits robj.splits option.splits if_splits)

lemma recordFor_silent: "recordFor R ns name w = (x, w') \<Longrightarrow> silent w w'"
  by (auto simp: recordFor_def viaHost_eq split: option.splits)

lemma assembleOne_silent: "assembleOne R raw ns name w = (x, w') \<Longrightarrow> silent w w'"
  by (auto simp: assembleOne_def dest: recordFor_silent stitch_silent silent_trans split: option.splits sum.splits prod.splits)

lemma fromJSON_silent: "fromJSONAssembled R raw w = (x, w') \<Longrightarrow> silent w w'"
  by (auto simp: fromJSONAssembled_def dest: recordFor_silent stitch_silent silent_trans split: option.splits prod.splits)

lemma GetObj_silent: "v2_GetObj R c name w = (x, w') \<Longrightarrow> silent w w'"
  by (auto simp: v2_GetObj_def viaBackend_eq dest!: assembleOne_silent split: sum.splits)

lemma listRecords_silent: "listRecords R ns w = (x, w') \<Longrightarrow> silent w w'"
  by (auto simp: listRecords_def viaHost_eq split: option.splits sum.splits)

lemma stitchObj_silent: "stitchObj R raw records ns w = (x, w') \<Longrightarrow> silent w w'"
  by (auto simp: stitchObj_def Let_def dest: stitch_silent split: sum.splits prod.splits)

lemma stitchItems_silent: "stitchItems R opts records ns raws acc n w = (x, w') \<Longrightarrow> silent w w'"
proof (induction raws arbitrary: acc n w)
  case (Cons raw raws)
  obtain y w1 where y: "stitchObj R raw records ns w = (y, w1)" by fastforce
  have q: "silent w w1" by (rule stitchObj_silent [OF y])
  show ?case
  proof (cases y)
    case (Inl e)
    then show ?thesis using Cons.prems y q by simp
  next
    case (Inr o')
    then have "\<exists>acc' n'. stitchItems R opts records ns raws acc' n' w1 = (x, w')"
      using Cons.prems y by (cases o') (auto split: if_splits)
    then show ?thesis using Cons.IH q silent_trans by blast
  qed
qed simp

lemma ListObjs_silent: "v2_ListObjs R c opts w = (x, w') \<Longrightarrow> silent w w'"
proof -
  assume l: "v2_ListObjs R c opts w = (x, w')"
  obtain a w1 where b: "viaBackend (bc_List (vr_client R) (v2_userFromCtx c) (vc_ns c) (selectorString (vr_codecs R) opts)) w = (a, w1)" by fastforce
  have q1: "silent w w1" using b by (auto simp: viaBackend_eq)
  obtain recs w2 where r: "listRecords R (vc_ns c) w1 = (recs, w2)" by fastforce
  show ?thesis
    using l b r listRecords_silent [OF r] q1
    by (auto simp: v2_ListObjs_def split: sum.splits prod.splits dest!: stitchItems_silent intro: silent_trans)
qed

lemma Watch_silent: "v2_Watch R c opts w = (x, w') \<Longrightarrow> silent w w'"
  by (auto simp: v2_Watch_def Let_def dest!: ListObjs_silent split: if_splits sum.splits prod.splits)

lemma runAdmission_silent: "v2_runAdmission R obj old op w = (x, w') \<Longrightarrow> silent w w'"
  by (auto simp: v2_runAdmission_def Let_def split: option.splits if_splits sum.splits prod.splits)

lemma backendMutate_silent: "backendMutate R q w = (x, w') \<Longrightarrow> silent w w'"
  by (auto simp: backendMutate_def viaBackend_eq split: if_splits sum.splits)

lemma admit_silent: "backendMutateValidate R c raw old name op w = (x, w') \<Longrightarrow> silent w w'"
  by (auto simp: backendMutateValidate_def viaBackend_eq Let_def dest!: backendMutate_silent split: if_splits sum.splits prod.splits)

lemma mint_silent: "mintUIDTime R b rec w = (x, w') \<Longrightarrow> silent w w'"
  by (auto simp: mintUIDTime_def viaHost_eq Let_def split: if_splits)

lemma put_silent: "putRecord S rec w = (x, w') \<Longrightarrow> silent w w'"
  by (auto simp: putRecord_def viaHost_eq split: sum.splits)

lemma rollback_silent [simp]: "silent w (rollbackRecord R ns name w') = silent w w'"
  by (simp add: rollbackRecord_def viaHost_eq split: option.split)

lemma createRecord_silent: "createRecord R obj ns name w = (x, w') \<Longrightarrow> silent w w'"
  by (auto simp: createRecord_def Let_def dest!: mint_silent put_silent split: option.splits sum.splits prod.splits intro: silent_trans)

lemmas silent_ops = stitch_silent recordFor_silent assembleOne_silent fromJSON_silent GetObj_silent ListObjs_silent Watch_silent
  runAdmission_silent admit_silent mint_silent put_silent createRecord_silent

text \<open>The writes and the watch sources: at most one event per write.\<close>

lemma Create_extends: "v2_Create R c obj v fm w = (x, w') \<Longrightarrow> extends w w'"
  unfolding v2_Create_def
  by (auto simp: viaBackend_eq Let_def dest!: silent_ops split: if_splits option.splits sum.splits prod.splits
      intro!: extends_silent elim!: publish_extends) (simp_all add: silent_def)?

lemma completeDelete_extends: "completeDelete R S c name obj rec w = (x, w') \<Longrightarrow> extends w w'"
  unfolding completeDelete_def
  by (auto simp: viaBackend_eq viaHost_eq Let_def dest!: stitch_silent split: option.splits sum.splits prod.splits
      intro!: extends_silent elim!: publish_extends) (simp_all add: silent_def)?

lemma updateBackend_extends: "updateBackend R c name raw rec fm w = (x, w') \<Longrightarrow> extends w w'"
  unfolding updateBackend_def
  by (auto simp: viaBackend_eq Let_def dest!: stitch_silent split: option.splits sum.splits prod.splits
      intro!: extends_silent elim!: publish_extends) (simp_all add: silent_def)?

lemma updateMeta_extends: "updateMeta R c name obj raw fm w = (x, w') \<Longrightarrow> extends w w'"
  unfolding updateMeta_def
  by (auto simp: Let_def dest!: recordFor_silent mint_silent put_silent updateBackend_extends completeDelete_extends
      split: option.splits if_splits sum.splits prod.splits)
     (simp_all add: silent_def extends_def)?

lemma Update_extends: "v2_Update R c name oi cv uv force fm w = (x, w') \<Longrightarrow> extends w w'"
  unfolding v2_Update_def
  by (auto simp: Let_def dest!: GetObj_silent runAdmission_silent admit_silent updateMeta_extends Create_extends
      split: option.splits if_splits sum.splits prod.splits)
     (simp_all add: silent_def extends_def)?

lemma markDeleted_extends: "markDeleted R S c name prior rec w = (x, w') \<Longrightarrow> extends w w'"
  unfolding markDeleted_def
  by (auto simp: viaBackend_eq viaHost_eq Let_def dest!: stitch_silent split: option.splits sum.splits prod.splits
      intro!: extends_silent elim!: publish_extends) (simp_all add: silent_def)?

lemma deleteNow_extends: "deleteNow R c name prior w = (x, w') \<Longrightarrow> extends w w'"
  unfolding deleteNow_def
  by (auto simp: viaBackend_eq Let_def split: option.splits sum.splits prod.splits
      intro!: extends_silent elim!: publish_extends) (simp_all add: silent_def)?

lemma Delete_extends: "v2_DeleteObj R c name v w = (x, w') \<Longrightarrow> extends w w'"
  unfolding v2_DeleteObj_def
  by (auto simp: viaHost_eq Let_def dest!: GetObj_silent deleteNow_extends markDeleted_extends
      split: option.splits if_splits sum.splits prod.splits)
     (simp_all add: silent_def extends_def)?

lemma pushEvent_extends: "extends w (pushEvent R ev w)"
  unfolding pushEvent_def
  by (auto dest!: fromJSON_silent split: sum.splits prod.splits push_type.splits intro: extends_silent extends_publish)

lemma publishRaw_extends: "extends w (publishRaw R t raw w)"
  unfolding publishRaw_def
  by (auto dest!: fromJSON_silent split: sum.splits prod.splits intro: extends_silent extends_publish)

lemma extends_fold: "(\<And>x w. extends w (f x w)) \<Longrightarrow> extends w (fold f xs w)"
  by (induction xs arbitrary: w) (auto intro: extends_trans extends_silent)

lemma extends_fold_from: "silent w w' \<Longrightarrow> (\<And>x w. extends w (f x w)) \<Longrightarrow> extends w (fold f xs w')"
  by (metis extends_fold extends_silent extends_trans)

lemma push_extends: "extends w (snd (runPushOnce R w))"
  unfolding runPushOnce_def
  by (auto simp: viaBackend_eq split: sum.splits prod.splits
      intro: extends_silent extends_fold_from pushEvent_extends)

lemma poll_extends: "extends w (snd (pollOnce R w))"
proof (cases "fst (bc_List (vr_client R) None [] [] (w_b w))")
  case (Inl e)
  then show ?thesis by (simp add: pollOnce_def viaBackend_eq extends_silent)
next
  case (Inr raws)
  have c: "extends w (pollChanged R prev kp w)" for prev kp w
    by (simp add: pollChanged_def publishRaw_extends extends_silent split: option.split)
  have g: "extends w (v2_pollGone R now kp w)" for now kp w
    by (simp add: v2_pollGone_def publishRaw_extends extends_silent)
  show ?thesis
    using Inr by (simp add: pollOnce_def viaBackend_eq Let_def)
      (intro extends_trans [OF extends_fold_from extends_fold] c g, simp)
qed

lemma rowCell_silent: "rowCell R content p w = (x, w') \<Longrightarrow> silent w w'"
  by (auto simp: rowCell_def viaHost_eq split: json.splits if_splits)

lemma row_silent: "rowFromContent R content ps w = (x, w') \<Longrightarrow> silent w w'"
  by (induction ps arbitrary: w x) (auto dest!: rowCell_silent split: prod.splits intro: silent_trans)

lemma rows_silent: "rowsFor R objs w = (x, w') \<Longrightarrow> silent w w'"
  by (induction objs arbitrary: w x) (auto dest!: row_silent split: prod.splits intro: silent_trans)

lemma table_silent: "v2_ConvertToTable R object w = (x, w') \<Longrightarrow> silent w w'"
  by (auto simp: v2_ConvertToTable_def dest!: rows_silent row_silent split: sum.splits prod.splits)

section \<open>Runs\<close>

datatype v2_op =
    VGet vctx string
  | VList vctx "list_options option"
  | VWatch vctx "list_options option"
  | VCreate vctx vobj "vpayload validate" string
  | VUpdate vctx string "vpayload updated_info" "vpayload validate" "vpayload validate_update" bool string
  | VDelete vctx string "vpayload validate"
  | VTable "vobj + vlist"
  | VPush
  | VPoll

fun v2_step :: "('h, 'b) vREST \<Rightarrow> v2_op \<Rightarrow> ('h, 'b) world \<Rightarrow> ('h, 'b) world" where
  "v2_step R (VGet c n) w = snd (v2_GetObj R c n w)"
| "v2_step R (VList c l) w = snd (v2_ListObjs R c l w)"
| "v2_step R (VWatch c l) w = snd (v2_Watch R c l w)"
| "v2_step R (VCreate c obj v fm) w = snd (v2_Create R c obj v fm w)"
| "v2_step R (VUpdate c n oi cv uv force fm) w = snd (v2_Update R c n oi cv uv force fm w)"
| "v2_step R (VDelete c n v) w = snd (v2_DeleteObj R c n v w)"
| "v2_step R (VTable t) w = snd (v2_ConvertToTable R t w)"
| "v2_step R VPush w = snd (runPushOnce R w)"
| "v2_step R VPoll w = snd (pollOnce R w)"

definition v2_run :: "('h, 'b) vREST \<Rightarrow> v2_op list \<Rightarrow> ('h, 'b) world \<Rightarrow> ('h, 'b) world" where
  "v2_run R ops w = fold (v2_step R) ops w"

lemma step_extends: "extends w (v2_step R op w)"
  by (cases op)
     (simp_all add: push_extends poll_extends, (metis extends_silent GetObj_silent ListObjs_silent Watch_silent table_silent
        Create_extends Update_extends Delete_extends prod.collapse)+)

interpretation v2c: event_counter "v2_step R" w_rv w_log for R
  using step_extends by unfold_locales (simp add: extends_def)

lemma run_extends: "extends w (v2_run R ops w)"
  unfolding v2_run_def extends_def by (rule v2c.run)

end
