(* ===== verification/V2RestSpec.thy ===== *)
theory V2RestSpec
  imports V2Frames
begin

text \<open>
  What the component REST adapter promises: the resource versions of its events and lists, the records and the business objects its
  writes leave behind, and the deletion protocol with finalizers; a concrete adapter over a backend that
  keeps what it is given for the witnesses.
\<close>

section \<open>The counter and the events\<close>

text \<open>The counter of an adapter that has published the events \<open>w_log\<close> since it started.\<close>

definition v2_inv :: "('h, 'b) world \<Rightarrow> bool" where
  "v2_inv w \<longleftrightarrow> unat (w_rv w) = length (w_log w) + 1 \<and>
     (\<forall>i < length (w_log w). event_rvs (w_log w) ! i \<in> {None, Some (dec_nat (i + 2))})"

lemma v2_inv_counted: "v2_inv w \<longleftrightarrow> counted (w_rv w) (w_log w)"
  by (simp add: v2_inv_def counted_def)

lemma extends_inv:
  assumes "v2_inv w" and "extends w w'" and room: "length (w_log w') + 1 < 2 ^ 64"
  shows "v2_inv w' \<and> take (length (w_log w)) (w_log w') = w_log w"
  using assms counted_extend [of "w_rv w" "w_log w"] by (auto simp: extends_def v2_inv_counted)


section \<open>The resource version of a list\<close>

lemma parse_dec_nat_iff: "parse_uint64 (dec_nat n) = (if n < 2 ^ 64 then Some n else None)"
  by (simp add: parse_uint64_def digits_val_dec_nat dec_nat_nonempty)

lemma dec_nat_0: "dec_nat 0 = ''0''"
  by code_simp

definition recordVersion :: "(string \<times> krm) list \<Rightarrow> string \<Rightarrow> json option \<Rightarrow> nat" where
  "recordVersion records ns raw =
     (let (nm, ens) = nameNamespaceFromJSON raw in
      case map_of records (gcKey (if ens = [] then ns else ens) nm) of
        None \<Rightarrow> 0
      | Some r \<Rightarrow> (case parse_uint64 (kr_recordRV r) of None \<Rightarrow> 0 | Some n \<Rightarrow> n))"

lemma stitchObj_version: "stitchObj R raw records ns w = (Inr (obj, rv), w') \<Longrightarrow> rv = recordVersion records ns raw"
  by (auto simp: stitchObj_def recordVersion_def Let_def split: sum.splits prod.splits)

lemma Max_insert_max: "finite A \<Longrightarrow> Max (insert (max n rv) A) = Max (insert n (insert (rv :: nat) A))"
  by (cases "A = {}") (simp_all add: max.assoc)

lemma stitchItems_version:
  assumes "ls_empty (selectorFromOpts opts)" and "stitchItems R opts records ns raws acc n w = (Inr (items, m), w')"
  shows "m = Max (insert n (recordVersion records ns ` set raws))"
  using assms(2)
proof (induction raws arbitrary: acc n w)
  case (Cons raw raws)
  obtain obj rv w1 where s: "stitchObj R raw records ns w = (Inr (obj, rv), w1)"
    "stitchItems R opts records ns raws (acc @ [obj]) (max n rv) w1 = (Inr (items, m), w')"
    using Cons.prems assms(1) by (auto simp: v2_matchesLabels_def Let_def max_def split: sum.splits prod.splits if_splits)
  then have "m = Max (insert (max n rv) (recordVersion records ns ` set raws))" using Cons.IH by blast
  then show ?case using stitchObj_version [OF s(1)] by (simp add: Max_insert_max)
qed simp

text \<open>
  C31: A list cannot be watched from where it was read once the store is wired.  The resource version of a list is the greatest of the
  counter and of the host's resource versions of the records of its items.  Whenever a record's is the
  greater one, a watch from the list's resource version is refused as expired, and answers with the counter: the
  counter only counts events of this process, and nothing moves it forward to the host's versions.
\<close>

theorem list_then_watch_expires:
  assumes "v2_ListObjs R c opts w = (Inr l, w')" and "ls_empty (selectorFromOpts opts)"
    and "viaBackend (bc_List (vr_client R) (v2_userFromCtx c) (vc_ns c) (selectorString (vr_codecs R) opts)) w = (Inr raws, w1)"
    and "listRecords R (vc_ns c) w1 = (records, w2)"
    and "unat (w_rv w) < Max (recordVersion records (vc_ns c) ` set raws)" and "raws \<noteq> []" and "lo_rv o' = vl_rv l"
  shows "vl_rv l = dec_nat (Max (recordVersion records (vc_ns c) ` set raws)) \<and>
    v2_Watch R c (Some o') w' = (Inl (Expired (vl_rv l) (dec_nat (unat (w_rv w)))), w')"
proof -
  let ?n = "Max (recordVersion records (vc_ns c) ` set raws)"
  obtain x w3 where x: "stitchItems R opts records (vc_ns c) raws [] 0 w2 = (x, w3)" by fastforce
  have "(case x of Inl e \<Rightarrow> (Inl e, w3) | Inr (items, listRV) \<Rightarrow>
      (Inr ((v2_NewList R)\<lparr>vl_items := items, vl_rv := finalRV w3 listRV\<rparr>), w3)) = (Inr l, w')"
    using assms(1) by (simp add: v2_ListObjs_def assms(3,4) x)
  note e = this
  obtain items m where xi: "x = Inr (items, m)" using e by (cases x) auto
  note s = x [unfolded xi]
  have l: "(v2_NewList R)\<lparr>vl_items := items, vl_rv := finalRV w' m\<rparr> = l" "w3 = w'" using e unfolding xi by auto
  have m: "m = ?n" using stitchItems_version [OF assms(2) s] assms(6) by (simp add: Max_insert)
  have q: "w_rv w' = w_rv w" using ListObjs_silent [OF assms(1)] by (simp add: silent_def)
  then have rv: "vl_rv l = dec_nat ?n" using m assms(5) by (simp add: l(1) [symmetric] l(2) finalRV_def)
  have "(case parse_uint64 (dec_nat ?n) of None \<Rightarrow> True | Some k \<Rightarrow> unat (w_rv w') < k)"
    using q assms(5) by (simp add: parse_dec_nat_iff)
  moreover have "dec_nat ?n \<noteq> ''0''" using assms(5) dec_nat_inj [of ?n 0] by (metis dec_nat_0 not_less_zero)
  ultimately show ?thesis
    using rv assms(7) q dec_nat_nonempty [of ?n] by (simp add: v2_Watch_def requestedRV_def v2_CurrentResourceVersion_def)
qed

section \<open>Records of the adapter\<close>

text \<open>An adapter with a store on its host, whose clock shows a date before the year 10000.\<close>

definition v2_wired :: "('h, 'b) vREST \<Rightarrow> 'h Store \<Rightarrow> ('h \<Rightarrow> bool) \<Rightarrow> bool" where
  "v2_wired R S ok \<longleftrightarrow> vr_store R = Some S \<and> vr_host R = so_dyn S \<and> vd_Writable (vr_desc R) \<and> gr_group (vr_gr R) \<noteq> [] \<and>
     (\<forall>h. ok h \<longrightarrow> fst (h_now (so_dyn S) h) < max_time)"

text \<open>Metadata a record can hold.\<close>

definition meta_ok :: "'h Store \<Rightarrow> ometa \<Rightarrow> bool" where
  "meta_ok S m \<longleftrightarrow> 0 \<le> om_created m \<and> om_created m < max_time \<and> time_ok (om_deleted m) \<and>
     (om_managed m \<noteq> [] \<longrightarrow> jc_managed (so_checks S) (om_managed m)) \<and> (om_owners m \<noteq> [] \<longrightarrow> jc_owners (so_checks S) (om_owners m))"

text \<open>The parts of the metadata a record takes from the client.\<close>

definition same_meta :: "krm \<Rightarrow> ometa \<Rightarrow> bool" where
  "same_meta r m \<longleftrightarrow> kr_labels r = om_labels m \<and> kr_anns r = om_anns m \<and> kr_fins r = om_fins m \<and>
     kr_managed r = om_managed m \<and> kr_owners r = om_owners m"

lemma recordFromLibraryObject_ok:
  assumes "meta_ok S m" and "gr_group (vr_gr R) \<noteq> []"
  shows "krm_ok (so_checks S) (recordFromLibraryObject (Obj m p) (v2_refFor R ns name))"
    and "same_meta (recordFromLibraryObject (Obj m p) ref) m"
    and "kr_ref (recordFromLibraryObject (Obj m p) ref) = ref" and "kr_uid (recordFromLibraryObject (Obj m p) ref) = om_uid m"
    and "kr_created (recordFromLibraryObject (Obj m p) ref) = om_created m"
  using assms by (auto simp: recordFromLibraryObject_def meta_ok_def krm_ok_def empty_krm_def v2_refFor_def same_meta_def time_ok_def)

lemma mint_spec:
  assumes host: "host_api (so_dyn S) ok objs ver" and wired: "v2_wired R S ok" and ok: "ok (w_h w)" and r: "krm_ok (so_checks S) rec"
    and b: "b = (kr_uid rec = []) \<or> b = isSynthetic (kr_uid rec)"
  shows "\<exists>u t h. mintUIDTime R b rec w = (rec\<lparr>kr_uid := u, kr_created := t\<rparr>, w\<lparr>w_h := h\<rparr>) \<and> ok h \<and> objs h = objs (w_h w) \<and>
     u \<noteq> [] \<and> (\<not> b \<longrightarrow> u = kr_uid rec) \<and> 0 < t \<and> krm_ok (so_checks S) (rec\<lparr>kr_uid := u, kr_created := t\<rparr>)"
proof -
  let ?H = "so_dyn S"
  define u where "u = (if b then fst (h_uuid ?H (w_h w)) else kr_uid rec)"
  define h1 where "h1 = (if b then snd (h_uuid ?H (w_h w)) else w_h w)"
  have h1: "ok h1" "objs h1 = objs (w_h w)" using host_api.uuid [OF host ok] ok by (auto simp: h1_def)
  have u: "u \<noteq> []" using host_api.uuid [OF host ok] b by (auto simp: u_def isSynthetic_def)
  define t where "t = (if kr_created rec = 0 then fst (h_now ?H h1) else kr_created rec)"
  define h2 where "h2 = (if kr_created rec = 0 then snd (h_now ?H h1) else h1)"
  have h2: "ok h2" "objs h2 = objs (w_h w)" using host_api.clock [OF host h1(1)] h1 by (auto simp: h2_def)
  have t: "0 < t" "t < max_time"
    using host_api.clock_range [OF host h1(1)] wired h1(1) r by (auto simp: t_def v2_wired_def krm_ok_def)
  have "mintUIDTime R b rec w = (rec\<lparr>kr_uid := u, kr_created := t\<rparr>, w\<lparr>w_h := h2\<rparr>)"
    using wired by (simp add: mintUIDTime_def viaHost_eq Let_def v2_wired_def u_def t_def h2_def h1_def)
  moreover have "krm_ok (so_checks S) (rec\<lparr>kr_uid := u, kr_created := t\<rparr>)" using r t by (simp add: krm_ok_def)
  moreover have "\<not> b \<longrightarrow> u = kr_uid rec" by (simp add: u_def)
  ultimately show ?thesis using h2 u t by blast
qed

text \<open>The object map of the host with a record written or removed.\<close>

abbreviation with_record :: "(string \<Rightarrow> string \<Rightarrow> unstr option) \<Rightarrow> ResourceRef \<Rightarrow> unstr option \<Rightarrow> string \<Rightarrow> string \<Rightarrow> unstr option" where
  "with_record M ref u \<equiv> M(meta_res := (M meta_res)(v2_RecordName ref := u))"

lemma put_record_spec:
  assumes host: "host_api (so_dyn S) ok objs ver" and ok: "ok (w_h w)" and r: "krm_ok (so_checks S) rec"
  shows "\<exists>uid rv h. putRecord S rec w = (Inr (stored_krm uid rv rec), w\<lparr>w_h := h\<rparr>) \<and> rv \<noteq> [] \<and> ok h \<and>
     objs h = with_record (objs (w_h w)) (kr_ref rec) (Some (stored_obj rec uid rv))"
proof -
  obtain uid rv h where "v2_Put S rec (w_h w) = (Inr (stored_krm uid rv rec), h)" "rv \<noteq> []" "ok h"
    "objs h = with_record (objs (w_h w)) (kr_ref rec) (Some (stored_obj rec uid rv))"
    using v2_put_spec [OF host ok r] by blast
  then show ?thesis by (auto simp: putRecord_def viaHost_eq)
qed

lemma create_record_spec:
  assumes host: "host_api (so_dyn S) ok objs ver" and wired: "v2_wired R S ok" and ok: "ok (w_h w)" and m: "meta_ok S m"
  shows "\<exists>rec uid rv h. createRecord R (Obj m p) ns name w = (Inr (Some (stored_krm uid rv rec)), w\<lparr>w_h := h\<rparr>) \<and> ok h \<and>
     objs h = with_record (objs (w_h w)) (v2_refFor R ns name) (Some (stored_obj rec uid rv)) \<and> rv \<noteq> [] \<and>
     same_meta rec m \<and> kr_ref rec = v2_refFor R ns name \<and> kr_uid rec \<noteq> [] \<and> (om_uid m \<noteq> [] \<longrightarrow> kr_uid rec = om_uid m) \<and>
     krm_ok (so_checks S) rec"
proof -
  let ?rec = "recordFromLibraryObject (Obj m p) (v2_refFor R ns name)"
  have g: "gr_group (vr_gr R) \<noteq> []" and st: "vr_store R = Some S" using wired by (simp_all add: v2_wired_def)
  note r = recordFromLibraryObject_ok [OF m g]
  obtain u t h1 where mint: "mintUIDTime R (kr_uid ?rec = []) ?rec w = (?rec\<lparr>kr_uid := u, kr_created := t\<rparr>, w\<lparr>w_h := h1\<rparr>)"
    "ok h1" "objs h1 = objs (w_h w)" "u \<noteq> []" "kr_uid ?rec \<noteq> [] \<Longrightarrow> u = kr_uid ?rec"
    "krm_ok (so_checks S) (?rec\<lparr>kr_uid := u, kr_created := t\<rparr>)"
    using mint_spec [OF host wired ok r(1), of "kr_uid ?rec = []" p ns name] by blast
  let ?r = "?rec\<lparr>kr_uid := u, kr_created := t\<rparr>"
  have ref: "kr_ref ?r = v2_refFor R ns name" by (simp add: r)
  obtain uid rv h where put: "putRecord S ?r (w\<lparr>w_h := h1\<rparr>) = (Inr (stored_krm uid rv ?r), w\<lparr>w_h := h\<rparr>)" "rv \<noteq> []" "ok h"
    "objs h = with_record (objs (w_h w)) (kr_ref ?r) (Some (stored_obj ?r uid rv))"
    using put_record_spec [OF host _ mint(6), of "w\<lparr>w_h := h1\<rparr>"] mint(2,3) by auto
  have "createRecord R (Obj m p) ns name w = (Inr (Some (stored_krm uid rv ?r)), w\<lparr>w_h := h\<rparr>)"
    using mint(1) put(1) st by (simp add: createRecord_def Let_def)
  moreover have "same_meta ?r m" using r(2) by (simp add: same_meta_def)
  moreover have "om_uid m \<noteq> [] \<longrightarrow> kr_uid ?r = om_uid m" using mint(5) r(4) by simp
  moreover have "kr_uid ?r \<noteq> []" using mint(4) by simp
  ultimately show ?thesis
    using put ref mint(6) by (intro exI [of _ ?r] exI [of _ uid] exI [of _ rv] exI [of _ h]) (simp del: fun_upd_apply)
qed

lemma rollback_spec:
  assumes host: "host_api (so_dyn S) ok objs ver" and "vr_store R = Some S" and ok: "ok (w_h w)"
  shows "\<exists>h. rollbackRecord R ns name w = w\<lparr>w_h := h\<rparr> \<and> ok h \<and> objs h = with_record (objs (w_h w)) (v2_refFor R ns name) None"
proof -
  obtain e h where "v2_Delete S (v2_refFor R ns name) (w_h w) = (e, h)" "ok h" "objs h = with_record (objs (w_h w)) (v2_refFor R ns name) None"
    using v2_delete_spec [OF host ok] by blast
  then show ?thesis using assms(2) by (auto simp: rollbackRecord_def viaHost_eq)
qed

lemma runAdmission_frame: "v2_runAdmission R obj old op w = (x, w') \<Longrightarrow> w_h w' = w_h w \<and> w_b w' = w_b w \<and> w_poll w' = w_poll w"
  by (auto simp: v2_runAdmission_def Let_def split: option.splits if_splits sum.splits prod.splits)

lemma admit_frame: "backendMutateValidate R c raw old name op w = (x, w') \<Longrightarrow> w_h w' = w_h w \<and> w_heap w' = w_heap w \<and> w_poll w' = w_poll w"
  by (auto simp: backendMutateValidate_def backendMutate_def viaBackend_eq Let_def split: if_splits sum.splits prod.splits)

lemma v2_get_stored:
  assumes host: "host_api (so_dyn S) ok objs ver" and "ok h" and "krm_ok (so_checks S) rec"
    and "objs h meta_res (v2_RecordName (kr_ref rec)) = Some (stored_obj rec uid rv)"
  shows "\<exists>h1. v2_Get S (kr_ref rec) h = (Inr (Some (stored_krm uid rv rec)), h1) \<and> ok h1 \<and> objs h1 = objs h"
  using v2_get_spec [OF host assms(2), of "kr_ref rec"] assms(4) decode_stored_obj [OF assms(3)] by simp

lemma get_absent:
  assumes host: "host_api (so_dyn S) ok objs ver" and "ok h" and "objs h meta_res (v2_RecordName ref) = None"
  shows "\<exists>h1. v2_Get S ref h = (Inr None, h1) \<and> ok h1 \<and> objs h1 = objs h"
  using v2_get_spec [OF host assms(2), of ref] assms(3) by simp

text \<open>What a stitched object shows of its record.\<close>

definition shows_record :: "krm \<Rightarrow> string \<Rightarrow> ometa \<Rightarrow> bool" where
  "shows_record r rv m \<longleftrightarrow> om_uid m = kr_uid r \<and> om_rv m = rv \<and> om_labels m = kr_labels r \<and> om_anns m = kr_anns r \<and>
     om_fins m = kr_fins r \<and> om_deleted m = kr_deleted r \<and> (kr_created r \<noteq> 0 \<longrightarrow> om_created m = kr_created r)"

lemma stitch_with_record:
  assumes "decodeOne R raw = Inr (Obj m1 p1)"
  shows "\<exists>m. stitchFromRecord R raw (Some r) ns name w =
      (Inr (Obj m (p1\<lparr>vp_api := apiVersionOf (vr_desc R), vp_kind := vd_Kind (vr_desc R)\<rparr>)), w) \<and>
    shows_record r (if kr_recordRV r = [] then v2_CurrentResourceVersion w else kr_recordRV r) m \<and>
    om_name m = (if om_name m1 = [] then name else om_name m1)"
  by (simp add: stitchFromRecord_def assms Let_def shows_record_def v2_overlay_def v2_named_def)

lemma shows_record_stamp: "shows_record r rv m \<Longrightarrow> shows_record r rv' (m\<lparr>om_rv := rv'\<rparr>)"
  by (simp add: shows_record_def)

lemma same_meta_stored [simp]: "same_meta (stored_krm uid rv r) m = same_meta r m"
  by (simp add: same_meta_def stored_krm_def)

lemma stored_krm_sel [simp]: "kr_recordRV (stored_krm uid rv r) = rv" "kr_uid (stored_krm uid rv r) = kr_uid r"
  "kr_ref (stored_krm uid rv r) = kr_ref r"
  by (simp_all add: stored_krm_def)

text \<open>
  C32: A create the backend refuses removes the metadata record of the name, whoever wrote it.  The record is put before the
  backend is asked, over any record that exists, and removed when the backend fails: when the backend answers
  that the object exists, the caller gets AlreadyExists and the record of the existing object (its UID, labels,
  annotations, finalizers and deletion mark) is gone, while nothing is published and the backend keeps its object.
\<close>

theorem create_conflict_destroys_record:
  assumes host: "host_api (so_dyn S) ok objs ver" and wired: "v2_wired R S ok" and ok: "ok (w_h w)" and m: "meta_ok S m"
    and "run_validate v (Obj m p) = None"
    and a: "v2_runAdmission R (Obj m p) None ''CREATE'' w = (Inr raw1, w1)"
    and b: "backendMutateValidate R c raw1 None (om_name m) ''CREATE'' w1 = (Inr raw2, w2)"
    and biz: "businessJSONFromBytes raw2 = Some biz"
    and e: "bc_Create (vr_client R) (v2_userFromCtx c) (vc_ns c) (Some biz) fm (w_b w2) = (Inl (RpcStatus C_AlreadyExists msg), b1)"
  shows "\<exists>h. v2_Create R c (Obj m p) v fm w = (Inl (AlreadyExists (om_name m)), w2\<lparr>w_h := h, w_b := b1\<rparr>) \<and>
     fst (v2_Get S (v2_refFor R (vc_ns c) (om_name m)) h) = Inr None \<and>
     objs h = with_record (objs (w_h w)) (v2_refFor R (vc_ns c) (om_name m)) None \<and> w_log w2 = w_log w"
proof -
  let ?ref = "v2_refFor R (vc_ns c) (om_name m)"
  have st: "vr_store R = Some S" and wr: "vd_Writable (vr_desc R)" using wired by (simp_all add: v2_wired_def)
  have w2: "w_h w2 = w_h w" using runAdmission_frame [OF a] admit_frame [OF b] by simp
  have log: "w_log w2 = w_log w" using runAdmission_silent [OF a] admit_silent [OF b] by (simp add: silent_def)
  obtain rec uid rv h1 where cr: "createRecord R (Obj m p) (vc_ns c) (om_name m) w2 = (Inr (Some (stored_krm uid rv rec)), w2\<lparr>w_h := h1\<rparr>)"
    "ok h1" "objs h1 = with_record (objs (w_h w)) ?ref (Some (stored_obj rec uid rv))"
    using create_record_spec [OF host wired _ m, of w2 p "vc_ns c" "om_name m"] w2 ok by auto
  let ?w = "w2\<lparr>w_h := h1, w_b := b1\<rparr>"
  have "ok (w_h ?w)" using cr(2) by simp
  then obtain h2 where rb: "rollbackRecord R (vc_ns c) (om_name m) ?w = ?w\<lparr>w_h := h2\<rparr>" "ok h2"
    "objs h2 = with_record (objs (w_h ?w)) ?ref None"
    using rollback_spec [OF host st, of ?w "vc_ns c" "om_name m"] by blast
  have "v2_Create R c (Obj m p) v fm w = (Inl (AlreadyExists (om_name m)), w2\<lparr>w_h := h2, w_b := b1\<rparr>)"
    using wr assms(5) a b cr(1) biz e rb(1) by (simp add: v2_Create_def Let_def viaBackend_eq translateErr_def)
  moreover have o2: "objs h2 = with_record (objs (w_h w)) ?ref None" by (simp add: rb(3) cr(3))
  moreover have "fst (v2_Get S ?ref h2) = Inr None" using get_absent [OF host rb(2), of ?ref] o2 by auto
  ultimately show ?thesis using log by blast
qed

text \<open>
  C12: A create that succeeds.  Exactly one Added event is published, with the object returned; that object has the payload
  the backend answered, the UID (a fresh one, unless the client set one), labels, annotations and finalizers of the record, which
  are the client's, and the next value of the counter as its resource version.  A Get from then on, whatever JSON the backend answers,
  returns the same UID, labels, annotations, finalizers and deletion mark, now at the resource version the host gave the record.
\<close>

theorem v2_create_commits:
  assumes host: "host_api (so_dyn S) ok objs ver" and wired: "v2_wired R S ok" and ok: "ok (w_h w)" and m: "meta_ok S m"
    and v: "run_validate v (Obj m p) = None"
    and a: "v2_runAdmission R (Obj m p) None ''CREATE'' w = (Inr raw1, w1)"
    and b: "backendMutateValidate R c raw1 None (om_name m) ''CREATE'' w1 = (Inr raw2, w2)"
    and biz: "businessJSONFromBytes raw2 = Some biz"
    and bc: "bc_Create (vr_client R) (v2_userFromCtx c) (vc_ns c) (Some biz) fm (w_b w2) = (Inr raw3, b1)"
    and d: "decodeOne R raw3 = Inr (Obj m3 p3)"
    and g: "bc_Get (vr_client R) (v2_userFromCtx c) (vc_ns c) (om_name m) b1 = (Inr raw4, b2)" and d4: "decodeOne R raw4 = Inr (Obj m4 p4)"
  shows "\<exists>r mo mg w3 w4.
     v2_Create R c (Obj m p) v fm w = (Inr (Obj mo (p3\<lparr>vp_api := apiVersionOf (vr_desc R), vp_kind := vd_Kind (vr_desc R)\<rparr>)), w3) \<and>
     w_log w3 = w_log w @ [\<lparr>ev_type = Added, ev_obj = Obj mo (p3\<lparr>vp_api := apiVersionOf (vr_desc R), vp_kind := vd_Kind (vr_desc R)\<rparr>)\<rparr>] \<and>
     shows_record r (dec_nat (unat (w_rv w + 1))) mo \<and> same_meta r m \<and> kr_uid r \<noteq> [] \<and> (om_uid m \<noteq> [] \<longrightarrow> kr_uid r = om_uid m) \<and>
     v2_GetObj R c (om_name m) w3 = (Inr (Obj mg (p4\<lparr>vp_api := apiVersionOf (vr_desc R), vp_kind := vd_Kind (vr_desc R)\<rparr>)), w4) \<and>
     shows_record r (kr_recordRV r) mg \<and> kr_recordRV r \<noteq> []"
proof -
  let ?ref = "v2_refFor R (vc_ns c) (om_name m)"
  let ?p = "\<lambda>p. p\<lparr>vp_api := apiVersionOf (vr_desc R), vp_kind := vd_Kind (vr_desc R)\<rparr>"
  have st: "vr_store R = Some S" and wr: "vd_Writable (vr_desc R)" using wired by (simp_all add: v2_wired_def)
  have w2: "w_h w2 = w_h w" using runAdmission_frame [OF a] admit_frame [OF b] by simp
  have log: "w_log w2 = w_log w" "w_rv w2 = w_rv w" using runAdmission_silent [OF a] admit_silent [OF b] by (simp_all add: silent_def)
  obtain rec uid rv h1 where cr: "createRecord R (Obj m p) (vc_ns c) (om_name m) w2 = (Inr (Some (stored_krm uid rv rec)), w2\<lparr>w_h := h1\<rparr>)"
    "ok h1" "objs h1 = with_record (objs (w_h w)) ?ref (Some (stored_obj rec uid rv))" "rv \<noteq> []" "same_meta rec m" "kr_ref rec = ?ref"
    "kr_uid rec \<noteq> []" "om_uid m \<noteq> [] \<longrightarrow> kr_uid rec = om_uid m" "krm_ok (so_checks S) rec"
    using create_record_spec [OF host wired _ m, of w2 p "vc_ns c" "om_name m"] w2 ok by auto
  let ?r = "stored_krm uid rv rec" and ?w = "w2\<lparr>w_h := h1, w_b := b1\<rparr>"
  obtain ms where s: "stitchFromRecord R raw3 (Some ?r) (vc_ns c) (om_name m) ?w = (Inr (Obj ms (?p p3)), ?w)"
    "shows_record ?r (kr_recordRV ?r) ms"
    using stitch_with_record [OF d, of ?r "vc_ns c" "om_name m" ?w] cr(4) by auto
  let ?rv = "dec_nat (unat (w_rv w + 1))"
  let ?mo = "ms\<lparr>om_rv := ?rv\<rparr>"
  let ?w3 = "?w\<lparr>w_rv := w_rv w + 1, w_log := w_log w @ [\<lparr>ev_type = Added, ev_obj = Obj ?mo (?p p3)\<rparr>]\<rparr>"
  have create: "v2_Create R c (Obj m p) v fm w = (Inr (Obj ?mo (?p p3)), ?w3)"
    using wr v a b cr(1) biz bc s(1) log by (simp add: v2_Create_def Let_def viaBackend_eq v2_publish_def stampRV_def)
  obtain h2 where get: "v2_Get S ?ref h1 = (Inr (Some ?r), h2)"
    using v2_get_stored [OF host cr(2,9), of uid rv] cr(3,6) by auto
  let ?w5 = "?w3\<lparr>w_b := b2, w_h := h2\<rparr>"
  obtain mg where sg: "stitchFromRecord R raw4 (Some ?r) (vc_ns c) (om_name m) ?w5 = (Inr (Obj mg (?p p4)), ?w5)"
    "shows_record ?r (kr_recordRV ?r) mg"
    using stitch_with_record [OF d4, of ?r "vc_ns c" "om_name m" ?w5] cr(4) by auto
  have "v2_GetObj R c (om_name m) ?w3 = (Inr (Obj mg (?p p4)), ?w5)"
    using g get sg(1) st by (simp add: v2_GetObj_def viaBackend_eq viaHost_eq assembleOne_def recordFor_def)
  moreover have "shows_record ?r ?rv ?mo" using shows_record_stamp [OF s(2)] by simp
  moreover have "w_log ?w3 = w_log w @ [\<lparr>ev_type = Added, ev_obj = Obj ?mo (?p p3)\<rparr>]" by simp
  ultimately show ?thesis
    using create sg(2) cr(4,5,7,8) by (intro exI [of _ ?r] exI [of _ ?mo] exI [of _ mg] exI [of _ ?w3] exI [of _ ?w5]) simp
qed

section \<open>Deletion and finalizers\<close>

text \<open>An operation that leaves the objects of the host alone.\<close>

definition keeps_host :: "('h \<Rightarrow> bool) \<Rightarrow> ('h \<Rightarrow> string \<Rightarrow> string \<Rightarrow> unstr option) \<Rightarrow> ('h, 'b) world \<Rightarrow> ('h, 'b) world \<Rightarrow> bool" where
  "keeps_host ok objs w w' \<longleftrightarrow> ok (w_h w') \<and> objs (w_h w') = objs (w_h w)"

lemma get_result:
  assumes "host_api (so_dyn S) ok objs ver" and "ok h" and "ok h'" and "objs h' = objs h"
  shows "fst (v2_Get S ref h') = fst (v2_Get S ref h)"
  using v2_get_spec [OF assms(1,2), of ref] v2_get_spec [OF assms(1,3), of ref] assms(4) by (metis fst_conv)

lemma get_state: "host_api (so_dyn S) ok objs ver \<Longrightarrow> ok h \<Longrightarrow> ok (snd (v2_Get S ref h)) \<and> objs (snd (v2_Get S ref h)) = objs h"
  by (metis v2_get_spec snd_conv)

lemma recordFor_host:
  assumes host: "host_api (so_dyn S) ok objs ver" and "vr_store R = Some S" and "ok (w_h w)"
    and "fst (v2_Get S (v2_refFor R ns name) (w_h w)) = Inr r"
  shows "\<exists>h. recordFor R ns name w = (r, w\<lparr>w_h := h\<rparr>) \<and> ok h \<and> objs h = objs (w_h w)"
  using get_state [OF host assms(3)] assms(2,4) by (auto simp: recordFor_def viaHost_eq)

lemma v2_mint_frame:
  assumes host: "host_api (so_dyn S) ok objs ver" and "vr_host R = so_dyn S" and "ok (w_h w)"
  shows "\<exists>u t h. mintUIDTime R b rec w = (rec\<lparr>kr_uid := u, kr_created := t\<rparr>, w\<lparr>w_h := h\<rparr>) \<and> ok h \<and> objs h = objs (w_h w)"
proof -
  let ?H = "so_dyn S" and ?h = "if b then snd (h_uuid (so_dyn S) (w_h w)) else w_h w"
  have h: "ok ?h" "objs ?h = objs (w_h w)" using host_api.uuid [OF host assms(3)] assms(3) by auto
  have h': "ok (snd (h_now ?H ?h))" "objs (snd (h_now ?H ?h)) = objs (w_h w)" using host_api.clock [OF host h(1)] h(2) by auto
  have "mintUIDTime R b rec w = (rec\<lparr>kr_uid := (if b then fst (h_uuid ?H (w_h w)) else kr_uid rec),
       kr_created := (if kr_created rec = 0 then fst (h_now ?H ?h) else kr_created rec)\<rparr>,
     w\<lparr>w_h := (if kr_created rec = 0 then snd (h_now ?H ?h) else ?h)\<rparr>)"
    using assms(2) by (simp add: mintUIDTime_def viaHost_eq Let_def)
  moreover have "ok (if kr_created rec = 0 then snd (h_now ?H ?h) else ?h) \<and>
      objs (if kr_created rec = 0 then snd (h_now ?H ?h) else ?h) = objs (w_h w)" using h h' by presburger
  ultimately show ?thesis by blast
qed

text \<open>A Get of an object with a record.\<close>

lemma GetObj_known:
  assumes host: "host_api (so_dyn S) ok objs ver" and st: "vr_store R = Some S" and ok: "ok (w_h w)"
    and r: "fst (v2_Get S (v2_refFor R (vc_ns c) name) (w_h w)) = Inr (Some r)"
    and g: "bc_Get (vr_client R) (v2_userFromCtx c) (vc_ns c) name (w_b w) = (Inr raw, b1)" and d: "decodeOne R raw = Inr (Obj m1 p1)"
  shows "\<exists>m h. v2_GetObj R c name w = (Inr (Obj m (p1\<lparr>vp_api := apiVersionOf (vr_desc R), vp_kind := vd_Kind (vr_desc R)\<rparr>)),
      w\<lparr>w_b := b1, w_h := h\<rparr>) \<and> ok h \<and> objs h = objs (w_h w) \<and>
    shows_record r (if kr_recordRV r = [] then v2_CurrentResourceVersion w else kr_recordRV r) m"
proof -
  let ?w1 = "w\<lparr>w_b := b1\<rparr>"
  obtain h where h: "recordFor R (vc_ns c) name ?w1 = (Some r, ?w1\<lparr>w_h := h\<rparr>)" "ok h" "objs h = objs (w_h w)"
    using recordFor_host [OF host st, of ?w1 "vc_ns c" name "Some r"] ok r by auto
  obtain m where "stitchFromRecord R raw (Some r) (vc_ns c) name (?w1\<lparr>w_h := h\<rparr>) =
      (Inr (Obj m (p1\<lparr>vp_api := apiVersionOf (vr_desc R), vp_kind := vd_Kind (vr_desc R)\<rparr>)), ?w1\<lparr>w_h := h\<rparr>)"
    "shows_record r (if kr_recordRV r = [] then v2_CurrentResourceVersion (?w1\<lparr>w_h := h\<rparr>) else kr_recordRV r) m"
    using stitch_with_record [OF d, of r "vc_ns c" name "?w1\<lparr>w_h := h\<rparr>"] by auto
  then show ?thesis
    using g st h by (auto simp: v2_GetObj_def viaBackend_eq assembleOne_def v2_CurrentResourceVersion_def)
qed

lemma trunc_range: "0 \<le> t \<Longrightarrow> t < max_time \<Longrightarrow> 0 \<le> trunc_s t \<and> trunc_s t < max_time"
  by (simp add: trunc_s_def max_time_def ns_per_s_def)

text \<open>
  C13: Deleting an object with finalizers.  The first delete of an object whose record has finalizers and no deletion mark answers with the
  marked object as not yet deleted: it puts the record back with a deletion timestamp and otherwise unchanged, publishes one Modified event
  with that object, and asks the backend for nothing but the object (its Delete is not called).
\<close>

theorem v2_delete_keeps_finalized:
  assumes host: "host_api (so_dyn S) ok objs ver" and wired: "v2_wired R S ok" and ok: "ok (w_h w)" and v: "\<And>obj. run_validate v obj = None"
    and ref: "ref = v2_refFor R (vc_ns c) name" and r: "fst (v2_Get S ref (w_h w)) = Inr (Some r)" and rok: "krm_ok (so_checks S) r" "kr_ref r = ref"
    and fins: "kr_fins r \<noteq> []" "kr_deleted r = None"
    and g1: "bc_Get (vr_client R) (v2_userFromCtx c) (vc_ns c) name (w_b w) = (Inr raw1, b1)" and d1: "decodeOne R raw1 = Inr (Obj m1 p1)"
    and g2: "bc_Get (vr_client R) (v2_userFromCtx c) (vc_ns c) name b1 = (Inr raw2, b2)" and d2: "decodeOne R raw2 = Inr (Obj m2 p2)"
  shows "\<exists>t uid rv out m w'. v2_DeleteObj R c name v w = (Inr (out, False), w') \<and> w_b w' = b2 \<and> 0 < t \<and>
     fst (v2_Get S ref (w_h w')) = Inr (Some (stored_krm uid rv (r\<lparr>kr_deleted := Some t\<rparr>))) \<and>
     w_log w' = w_log w @ [\<lparr>ev_type = Modified, ev_obj = out\<rparr>] \<and>
     accessor out = Some m \<and> om_deleted m = Some (trunc_s t) \<and> om_fins m = kr_fins r"
proof -
  have st: "vr_store R = Some S" and hh: "vr_host R = so_dyn S" and wr: "vd_Writable (vr_desc R)" using wired by (simp_all add: v2_wired_def)
  obtain mg h1 where get: "v2_GetObj R c name w = (Inr (Obj mg (p1\<lparr>vp_api := apiVersionOf (vr_desc R), vp_kind := vd_Kind (vr_desc R)\<rparr>)),
      w\<lparr>w_b := b1, w_h := h1\<rparr>)" "ok h1" "objs h1 = objs (w_h w)"
    using GetObj_known [OF host st ok r [unfolded ref] g1 d1] by blast
  obtain h2 where h2: "v2_Get S ref h1 = (Inr (Some r), h2)" "ok h2" "objs h2 = objs (w_h w)"
    using get_result [OF host ok get(2,3), of ref] get_state [OF host get(2), of ref] r get(3) by (metis prod.collapse)
  obtain t h3 where now: "h_now (so_dyn S) h2 = (t, h3)" by (cases "h_now (so_dyn S) h2")
  have t: "0 < t" "t < max_time" and h3: "ok h3" "objs h3 = objs (w_h w)"
    using host_api.clock_range [OF host h2(2)] host_api.clock [OF host h2(2)] wired h2 now by (auto simp: v2_wired_def)
  let ?r = "r\<lparr>kr_deleted := Some t\<rparr>"
  have rk: "krm_ok (so_checks S) ?r" using rok(1) t by (simp add: krm_ok_def time_ok_def)
  obtain uid rv h4 where put: "v2_Put S ?r h3 = (Inr (stored_krm uid rv ?r), h4)" "ok h4"
    "objs h4 = with_record (objs h3) ref (Some (stored_obj ?r uid rv))"
    using v2_put_spec [OF host h3(1) rk] rok(2) by auto
  let ?s = "stored_krm uid rv ?r" and ?w4 = "w\<lparr>w_h := h4, w_b := b2\<rparr>"
  let ?p2 = "p2\<lparr>vp_api := apiVersionOf (vr_desc R), vp_kind := vd_Kind (vr_desc R)\<rparr>"
  obtain m where s: "stitchFromRecord R raw2 (Some ?s) (vc_ns c) name ?w4 = (Inr (Obj m ?p2), ?w4)"
    "shows_record ?s (if kr_recordRV ?s = [] then v2_CurrentResourceVersion ?w4 else kr_recordRV ?s) m"
    using stitch_with_record [OF d2, of ?s "vc_ns c" name ?w4] by blast
  have md: "om_deleted m = Some (trunc_s t)" "om_fins m = kr_fins r"
    using s(2) t(1) by (simp_all add: shows_record_def stored_krm_def trunc_opt_def isSet_def)
  let ?out = "fst (v2_publish Modified (Obj m ?p2) ?w4)"
  let ?w5 = "snd (v2_publish Modified (Obj m ?p2) ?w4)"
  have mark: "markDeleted R S c name prior r (w\<lparr>w_b := b1, w_h := h2\<rparr>) = (Inr (?out, False), ?w5)" for prior
    using now put(1) g2 s(1) by (simp add: markDeleted_def hh viaHost_eq viaBackend_eq split_beta Let_def)
  have "v2_DeleteObj R c name v w = (Inr (?out, False), ?w5)"
    using wr get(1) v st h2(1) fins mark by (simp add: v2_DeleteObj_def viaHost_eq ref)
  moreover have "fst (v2_Get S ref h4) = Inr (Some ?s)"
    using v2_get_stored [OF host put(2) rk, of uid rv] put(3) rok(2) by auto
  moreover have "accessor ?out = Some (m\<lparr>om_rv := dec_nat (unat (w_rv w + 1))\<rparr>)" by (simp add: v2_publish_def Let_def stampRV_def)
  moreover have "w_log ?w5 = w_log w @ [\<lparr>ev_type = Modified, ev_obj = ?out\<rparr>]" "w_b ?w5 = b2" "w_h ?w5 = h4"
    by (simp_all add: v2_publish_def Let_def)
  moreover have "om_deleted (m\<lparr>om_rv := dec_nat (unat (w_rv w + 1))\<rparr>) = Some (trunc_s t)"
    "om_fins (m\<lparr>om_rv := dec_nat (unat (w_rv w + 1))\<rparr>) = kr_fins r" using md by simp_all
  ultimately show ?thesis using t(1) by metis
qed

lemma stitch_host:
  assumes host: "host_api (so_dyn S) ok objs ver" and hh: "vr_host R = so_dyn S" and ok: "ok (w_h w)"
    and s: "stitchFromRecord R raw rec ns name w = (x, w')"
  shows "ok (w_h w') \<and> objs (w_h w') = objs (w_h w) \<and> w_b w' = w_b w"
proof -
  have u: "ok (snd (h_uuid (so_dyn S) h)) \<and> objs (snd (h_uuid (so_dyn S) h)) = objs h" if "ok h" for h
    using host_api.uuid [OF host that] by simp
  have n: "ok (snd (h_now (so_dyn S) h)) \<and> objs (snd (h_now (so_dyn S) h)) = objs h" if "ok h" for h
    by (rule host_api.clock [OF host that])
  have "ok (w_h w') \<and> objs (w_h w') = objs (w_h w) \<and> w_b w' = w_b w" if "v2_synthesize R m w = (m', w')" for m m'
    using that u [OF ok] n [OF ok] n [of "snd (h_uuid (so_dyn S) (w_h w))"] ok
    by (auto simp: v2_synthesize_def viaHost_eq hh Let_def split: if_splits)
  then show ?thesis
    using s ok by (auto simp: stitchFromRecord_def Let_def split: sum.splits robj.splits option.splits prod.splits)
qed

lemma GetObj_host:
  assumes host: "host_api (so_dyn S) ok objs ver" and wired: "v2_wired R S ok" and ok: "ok (w_h w)"
    and g: "v2_GetObj R c name w = (Inr obj, w')"
  shows "ok (w_h w') \<and> objs (w_h w') = objs (w_h w)"
proof -
  have st: "vr_store R = Some S" and hh: "vr_host R = so_dyn S" using wired by (simp_all add: v2_wired_def)
  obtain x w1 where b: "viaBackend (bc_Get (vr_client R) (v2_userFromCtx c) (vc_ns c) name) w = (x, w1)" by fastforce
  obtain raw where x: "x = Inr raw" using g b by (cases x) (auto simp: v2_GetObj_def)
  have w1: "w_h w1 = w_h w" using b by (auto simp: viaBackend_eq)
  obtain rec w2 where r: "recordFor R (vc_ns c) name w1 = (rec, w2)" by fastforce
  have w2: "ok (w_h w2)" "objs (w_h w2) = objs (w_h w)"
    using r get_state [OF host, of "w_h w1"] ok w1 by (auto simp: recordFor_def st viaHost_eq)
  have "stitchFromRecord R raw rec (vc_ns c) name w2 = (Inr obj, w')"
    using g by (simp add: v2_GetObj_def b x assembleOne_def st r)
  then show ?thesis using stitch_host [OF host hh w2(1)] w2(2) by metis
qed

text \<open>
  C14: Clearing the last finalizer finishes a deletion.  An update that empties the finalizers of an object whose record carries
  finalizers and a deletion mark removes the object from the backend (which may have lost it already) and its record from the
  store, and publishes exactly one event, Deleted, with the object it returns; the update itself is not stored.
\<close>

theorem update_completes_delete:
  assumes host: "host_api (so_dyn S) ok objs ver" and wired: "v2_wired R S ok" and ok: "ok (w_h w)"
    and g: "v2_GetObj R c name w = (Inr cur, w1)" and oi: "oi (Some cur) = Inr (Obj m p)" "run_validate_update uv (Obj m p) cur = None"
    and a: "v2_runAdmission R (Obj m p) (map_option Some (encodeObject R cur)) ''UPDATE'' w1 = (Inr raw1, w2)"
    and b: "backendMutateValidate R c raw1 (map_option Some (encodeObject R cur)) name ''UPDATE'' w2 = (Inr raw2, w3)"
    and ref: "ref = v2_refFor R (vc_ns c) name"
    and r: "fst (v2_Get S ref (w_h w)) = Inr (Some r)" "kr_deleted r \<noteq> None" "kr_fins r \<noteq> []" and cleared: "om_fins m = []"
    and d: "bc_Delete (vr_client R) (v2_userFromCtx c) (vc_ns c) name (w_b w3) = (derr, b1)" "deleteFailed derr = None"
  shows "\<exists>out w'. v2_Update R c name oi cv uv force fm w = (Inr (out, False), w') \<and> w_b w' = b1 \<and>
     fst (v2_Get S ref (w_h w')) = Inr None \<and> objs (w_h w') = with_record (objs (w_h w)) ref None \<and>
     w_log w' = w_log w @ [\<lparr>ev_type = Deleted, ev_obj = out\<rparr>]"
proof -
  have st: "vr_store R = Some S" and hh: "vr_host R = so_dyn S" and wr: "vd_Writable (vr_desc R)" using wired by (simp_all add: v2_wired_def)
  have q: "silent w w3" using GetObj_silent [OF g] runAdmission_silent [OF a] admit_silent [OF b] silent_trans by metis
  have h3: "ok (w_h w3)" "objs (w_h w3) = objs (w_h w)"
    using GetObj_host [OF host wired ok g] runAdmission_frame [OF a] admit_frame [OF b] by simp_all
  let ?rec = "recordFromLibraryObject (Obj m p) ref"
  obtain h4 where rf: "recordFor R (vc_ns c) name w3 = (Some r, w3\<lparr>w_h := h4\<rparr>)" "ok h4" "objs h4 = objs (w_h w)"
    using recordFor_host [OF host st h3(1), of "vc_ns c" name "Some r"] get_result [OF host ok h3, of ref] r(1) h3(2) ref by auto
  let ?rec1 = "inheritRecord (Some r) ?rec"
  obtain u t h5 where mint: "mintUIDTime R (isSynthetic (kr_uid ?rec1)) ?rec1 (w3\<lparr>w_h := h4\<rparr>) = (?rec1\<lparr>kr_uid := u, kr_created := t\<rparr>, w3\<lparr>w_h := h5\<rparr>)"
    "ok h5" "objs h5 = objs (w_h w)"
    using v2_mint_frame [OF host hh, of "w3\<lparr>w_h := h4\<rparr>" "isSynthetic (kr_uid ?rec1)" ?rec1] rf(2,3) by auto
  let ?rec2 = "?rec1\<lparr>kr_uid := u, kr_created := t\<rparr>"
  have ref2: "kr_ref ?rec2 = ref" by (simp add: inheritRecord_def recordFromLibraryObject_def empty_krm_def)
  have fc: "finalizersCleared (Some r) ?rec2"
    using r(2,3) cleared by (simp add: finalizersCleared_def inheritRecord_def recordFromLibraryObject_def)
  obtain e h6 where del: "v2_Delete S ref h5 = (e, h6)" "ok h6" "objs h6 = with_record (objs (w_h w)) ref None"
    using v2_delete_spec [OF host mint(2), of ref] mint(3) by auto
  let ?w6 = "w3\<lparr>w_b := b1, w_h := h6\<rparr>"
  obtain x w7 where s: "stitchFromRecord R (businessJSON R (Obj m p)) None (vc_ns c) name ?w6 = (x, w7)" by fastforce
  have w7: "ok (w_h w7)" "objs (w_h w7) = objs h6" "w_b w7 = b1" and q7: "silent w w7"
    using stitch_host [OF host hh _ s] del(2) stitch_silent [OF s] q by (auto intro: silent_trans)
  define o' where "o' = (case x of Inr vanishing \<Rightarrow> vanishing | Inl e \<Rightarrow> Obj m p)"
  let ?out = "fst (v2_publish Deleted o' w7)" and ?w8 = "snd (v2_publish Deleted o' w7)"
  have "completeDelete R S c name (Obj m p) ?rec2 (w3\<lparr>w_h := h5\<rparr>) = (Inr (?out, False), ?w8)"
    using d del(1) s by (simp add: completeDelete_def viaBackend_eq viaHost_eq ref2 Let_def o'_def split_beta split: sum.split)
  then have "v2_Update R c name oi cv uv force fm w = (Inr (?out, False), ?w8)"
    using wr g oi a b rf(1) mint(1) fc by (simp add: v2_Update_def Let_def updateMeta_def st ref [symmetric])
  moreover have "w_b ?w8 = b1" "w_h ?w8 = w_h w7" "w_log ?w8 = w_log w @ [\<lparr>ev_type = Deleted, ev_obj = ?out\<rparr>]"
    using w7 q7 by (simp_all add: v2_publish_def Let_def silent_def)
  moreover have "fst (v2_Get S ref (w_h w7)) = Inr None"
    using get_absent [OF host w7(1), of ref] w7(2) del(3) by auto
  ultimately show ?thesis using w7(2) del(3) by auto
qed

text \<open>
  C33: An update is never refused as stale.  Without admission rules, the outcome of an update (its answer, the record and the
  object it stores and the events it publishes) does not depend on the resource version of the object the client sends: the
  version is not compared with anything, so an update based on an old read overwrites the changes made since.
\<close>

theorem update_ignores_resource_version:
  assumes "vr_admission R = None" and "\<not> vd_SupportsMutation (vr_desc R)" and "\<not> vd_SupportsValidation (vr_desc R)"
    and "\<And>rv. encodeObject R (stampRV obj rv) = Some (j rv)" and "\<And>rv. businessJSONFromBytes (Some (j rv)) = biz"
  shows "v2_Update R c name (\<lambda>_. Inr (stampRV obj rv1)) None None force fm w = v2_Update R c name (\<lambda>_. Inr (stampRV obj rv2)) None None force fm w"
proof -
  have rec: "recordFromLibraryObject (stampRV obj rv) ref = recordFromLibraryObject obj ref" for rv ref
    by (cases obj) (simp_all add: recordFromLibraryObject_def stampRV_def)
  have adm: "v2_runAdmission R (stampRV obj rv) old op w = (Inr (Some (j rv)), w)" for rv old op w
    using assms(1,4) by (simp add: v2_runAdmission_def)
  have bmv: "backendMutateValidate R c raw old nm op w = (Inr raw, w)" for raw old nm op w
    using assms(2,3) by (simp add: backendMutateValidate_def backendMutate_def Let_def)
  have bj: "businessJSON R (stampRV obj rv) = biz" for rv using assms(4,5) by (simp add: businessJSON_def)
  have pub: "v2_publish t (stampRV obj rv) w = v2_publish t obj w" for t rv w by (simp add: v2_publish_def Let_def)
  have cd': "completeDelete R S c name (stampRV obj rv1) rec w = completeDelete R S c name (stampRV obj rv2) rec w" for S rec w
    unfolding completeDelete_def bj pub ..
  have ub: "updateBackend R c name (Some (j rv1)) rec fm w = updateBackend R c name (Some (j rv2)) rec fm w" for rec w
    unfolding updateBackend_def assms(5) ..
  have um: "updateMeta R c name (stampRV obj rv1) (Some (j rv1)) fm w = updateMeta R c name (stampRV obj rv2) (Some (j rv2)) fm w" for w
    unfolding updateMeta_def rec cd' ub ..
  have cr: "v2_Create R c (stampRV obj rv1) None fm w = v2_Create R c (stampRV obj rv2) None fm w" for w
  proof (cases obj)
    case (Obj m p)
    have acc: "accessor (stampRV obj rv) = Some (m\<lparr>om_rv := rv\<rparr>)" for rv by (simp add: Obj)
    have crec: "createRecord R (stampRV obj rv) = createRecord R obj" for rv
      unfolding createRecord_def fun_eq_iff rec by blast
    show ?thesis unfolding v2_Create_def run_validate_def adm bmv crec acc option.case sum.case prod.case assms(5) by simp
  next
    case (Bare p)
    then show ?thesis by (simp add: v2_Create_def run_validate_def stampRV_def)
  qed
  show ?thesis
    unfolding v2_Update_def run_validate_def run_validate_update_def sum.case option.case Let_def adm prod.case bmv um cr ..
qed

section \<open>A concrete adapter\<close>

text \<open>
  A backend that keeps the objects it is given, a codec that reads and writes names, namespaces and resource versions, and the
  simulated host with its clock and UUID generator standing still.
\<close>

type_synonym kv = "(string \<times> json option) list"

definition kv_key :: "string \<Rightarrow> json option \<Rightarrow> string" where
  "kv_key ns j = gcKey ns (nameOfRaw j)"

definition no_object :: rpc_err where
  "no_object = RpcStatus C_NotFound ''no such object''"

definition kv_client :: "kv client" where
  "kv_client =
     \<lparr>bc_Get = (\<lambda>u ns n b. ((case map_of b (gcKey ns n) of None \<Rightarrow> Inl no_object | Some j \<Rightarrow> Inr j), b)),
      bc_List = (\<lambda>u ns sel b. (Inr (map snd b), b)),
      bc_Create = (\<lambda>u ns j fm b. if map_of b (kv_key ns j) = None then (Inr j, aput (kv_key ns j) j b)
         else (Inl (RpcStatus C_AlreadyExists ''exists''), b)),
      bc_Update = (\<lambda>u ns n j fm b. if map_of b (gcKey ns n) = None then (Inl no_object, b) else (Inr j, aput (gcKey ns n) j b)),
      bc_Delete = (\<lambda>u ns n b. if map_of b (gcKey ns n) = None then (Some no_object, b) else (None, adel (gcKey ns n) b)),
      bc_Mutate = (\<lambda>q b. (Inr None, b)), bc_Validate = (\<lambda>q b. (Inr \<lparr>vr_Allowed = True, vr_Reason = [], vr_Causes = []\<rparr>, b)),
      bc_Watch = (\<lambda>b. (Inl RpcEOF, b))\<rparr>"

definition strAt :: "jmap \<Rightarrow> string \<Rightarrow> string" where
  "strAt m k = (case map_of m k of Some (JStr s) \<Rightarrow> s | _ \<Rightarrow> [])"

definition kv_codecs :: codecs where
  "kv_codecs =
     \<lparr>cd_metaTo = (\<lambda>m. entry (om_name m \<noteq> []) ''name'' (JStr (om_name m)) @ entry (om_ns m \<noteq> []) ''namespace'' (JStr (om_ns m)) @
         entry (om_rv m \<noteq> []) ''resourceVersion'' (JStr (om_rv m))),
      cd_metaFrom = (\<lambda>m. Some (empty_meta\<lparr>om_name := strAt m ''name'', om_ns := strAt m ''namespace'', om_rv := strAt m ''resourceVersion''\<rparr>)),
      cd_unEncode = (\<lambda>_. None), cd_unDecode = (\<lambda>_. None), cd_selText = (\<lambda>_. []),
      cd_checks = \<lparr>jc_managed = (\<lambda>_. True), jc_owners = (\<lambda>_. True)\<rparr>\<rparr>"

definition frozen_host :: "etcd host" where
  "frozen_host = etcd_host\<lparr>h_now := (\<lambda>s. (5 * ns_per_s, s)), h_uuid := (\<lambda>s. (''u'', s))\<rparr>"

definition frozen_store :: "etcd Store" where
  "frozen_store = test_store\<lparr>so_dyn := frozen_host\<rparr>"

text \<open>The host after so many writes of others.\<close>

definition kv_etcd :: "nat \<Rightarrow> etcd" where
  "kv_etcd n = \<lparr>es_counter = n, es_current = [], es_objs = [], es_clock = 0\<rparr>"

definition kv_desc :: vdesc where
  "kv_desc = \<lparr>vd_Group = ''g'', vd_Version = ''v1'', vd_Resource = ''things'', vd_Kind = ''Thing'', vd_Singular = ''thing'',
     vd_Namespaced = True, vd_Writable = True, vd_SupportsServerSideApply = False, vd_UseTypedWrapper = True, vd_Columns = [],
     vd_RowFields = [], vd_GroupResource = None, vd_SupportsValidation = False, vd_SupportsMutation = False,
     vd_WatchMode = None, vd_PollInterval = 0\<rparr>"

definition kv_start :: "etcd \<Rightarrow> kv \<Rightarrow> (etcd, kv) vREST \<times> (etcd, kv) world" where
  "kv_start h b = v2_New kv_codecs frozen_host (\<lambda>_. []) (\<lambda>m. m) kv_desc kv_client h b []"

definition kv_rest :: "(etcd, kv) vREST" where
  "kv_rest = WithMetadataStore frozen_store (fst (kv_start (kv_etcd 0) []))"

definition kv_ctx :: vctx where
  "kv_ctx = \<lparr>vc_user = None, vc_ns = ''ns''\<rparr>"

definition thing :: "string list \<Rightarrow> vobj" where
  "thing fins = Obj (empty_meta\<lparr>om_name := ''a'', om_ns := ''ns'', om_fins := fins\<rparr>) \<lparr>vp_api = ''g/v1'', vp_kind = ''Thing'', vp_content = []\<rparr>"

definition thing_json :: "json option" where
  "thing_json = Some (JObj [(''apiVersion'', JStr ''g/v1''), (''kind'', JStr ''Thing''),
     (''metadata'', JObj [(''name'', JStr ''a''), (''namespace'', JStr ''ns'')])])"

text \<open>The object and its record, which the host stored at version 41, before the adapter started.\<close>

definition kv_record :: "string list \<Rightarrow> gotime option \<Rightarrow> krm" where
  "kv_record fins del = (empty_krm (v2_refFor kv_rest ''ns'' ''a''))\<lparr>kr_uid := ''u1'', kr_fins := fins, kr_deleted := del\<rparr>"

definition kv_host :: "string list \<Rightarrow> gotime option \<Rightarrow> etcd" where
  "kv_host fins del = \<lparr>es_counter = 41, es_current = [((meta_res, ''g.things.ns.a''), ''41'')],
     es_objs = [((meta_res, ''g.things.ns.a''), stored_obj (kv_record fins del) ''m1'' ''41'')], es_clock = 0\<rparr>"

definition kv_world :: "string list \<Rightarrow> gotime option \<Rightarrow> (etcd, kv) world" where
  "kv_world fins del = snd (kv_start (kv_host fins del) [(''ns/a'', thing_json)])"

lemma frozen_api: "host_api (so_dyn frozen_store) es_ok es_lookup es_ver"
  using etcd.host_api_axioms by (auto simp: host_api_def frozen_host_def frozen_store_def ns_per_s_def)

lemma kv_wired: "v2_wired kv_rest frozen_store es_ok"
  by (simp add: v2_wired_def kv_rest_def kv_start_def v2_New_def WithMetadataStore_def frozen_store_def frozen_host_def kv_desc_def
      max_time_def ns_per_s_def)

lemma kv_record_name: "v2_RecordName (v2_refFor kv_rest ''ns'' ''a'') = ''g.things.ns.a''"
  by code_simp

lemma dec_nat_41: "dec_nat 41 = ''41''" and dec_nat_2: "dec_nat 2 = ''2''" and dec_nat_1: "dec_nat 1 = ''1''"
  by code_simp+

lemma kv_host_ok: "es_ok (kv_host fins del)"
  using dec_nat_41 by (auto simp: es_ok_def kv_host_def stored_obj_def kv_record_def empty_krm_def kv_record_name intro!: exI [of _ 41])

lemma kv_record_ok: "time_ok del \<Longrightarrow> krm_ok (so_checks frozen_store) (kv_record fins del)"
  by (simp add: krm_ok_def kv_record_def empty_krm_def v2_refFor_def kv_rest_def kv_start_def v2_New_def WithMetadataStore_def kv_desc_def max_time_def ns_per_s_def)

lemma kv_record_ref: "kr_ref (kv_record fins del) = v2_refFor kv_rest ''ns'' ''a''"
  by (simp add: kv_record_def empty_krm_def)

lemma kv_get:
  assumes "time_ok del"
  shows "fst (v2_Get frozen_store (v2_refFor kv_rest ''ns'' ''a'') (kv_host fins del)) = Inr (Some (stored_krm ''m1'' ''41'' (kv_record fins del)))"
  using v2_get_stored [OF frozen_api kv_host_ok [of fins del] kv_record_ok [OF assms, of fins], of "''m1''" "''41''"]
  by (auto simp: kv_record_ref es_lookup_def kv_host_def kv_record_name)

lemmas kv_rest_defs = kv_rest_def kv_start_def v2_New_def WithMetadataStore_def kv_desc_def

lemma kv_sel: "vr_client kv_rest = kv_client" "vr_desc kv_rest = kv_desc" "vr_codecs kv_rest = kv_codecs" "vr_admission kv_rest = None"
  "vr_store kv_rest = Some frozen_store" "vr_host kv_rest = frozen_host" "vr_gr kv_rest = \<lparr>gr_group = ''g'', gr_resource = ''things''\<rparr>"
  by (simp_all add: kv_rest_defs)

lemma kv_world_sel: "w_h (kv_world fins del) = kv_host fins del" "w_b (kv_world fins del) = [(''ns/a'', thing_json)]"
  "w_rv (kv_world fins del) = 1" "w_log (kv_world fins del) = []"
  by (simp_all add: kv_world_def kv_start_def v2_New_def)

lemma kv_decode: "decodeOne kv_rest thing_json = Inr (Obj (empty_meta\<lparr>om_name := ''a'', om_ns := ''ns''\<rparr>)
    \<lparr>vp_api = ''g/v1'', vp_kind = ''Thing'', vp_content = []\<rparr>)"
  by (simp add: decodeOne_def kv_sel kv_desc_def obj_UnmarshalJSON_def thing_json_def decodeMap_def kv_codecs_def strAt_def empty_meta_def adel_def)

lemma kv_gcKey: "gcKey ''ns'' ''a'' = ''ns/a''"
  by (simp add: gcKey_def)

lemma kv_admit: "v2_runAdmission kv_rest obj old op w = (Inr (encodeObject kv_rest obj), w)" 
  "backendMutateValidate kv_rest c raw old' name op w = (Inr raw, w)"
  by (simp_all add: v2_runAdmission_def encodeObject_def backendMutateValidate_def backendMutate_def kv_sel kv_desc_def Let_def)

lemma kv_business: "om_name m = ''a'' \<Longrightarrow> om_ns m = ''ns'' \<Longrightarrow>
   businessJSONFromBytes (encodeObject kv_rest (Obj m \<lparr>vp_api = ''g/v1'', vp_kind = ''Thing'', vp_content = []\<rparr>)) = Some (the thing_json)"
  by (simp add: encodeObject_def kv_sel kv_desc_def obj_MarshalJSON_def AsMap_def kv_codecs_def businessJSONFromBytes_def decodeMap_def
      entry_def thing_json_def Let_def aput_def)

section \<open>Witnesses\<close>

abbreviation thing_payload :: vpayload where
  "thing_payload \<equiv> \<lparr>vp_api = ''g/v1'', vp_kind = ''Thing'', vp_content = []\<rparr>"

definition thing_meta :: "string list \<Rightarrow> ometa" where
  "thing_meta fins = empty_meta\<lparr>om_name := ''a'', om_ns := ''ns'', om_fins := fins\<rparr>"

lemma thing_eq: "thing fins = Obj (thing_meta fins) thing_payload"
  by (simp add: thing_def thing_meta_def)

lemma thing_meta_sel: "om_name (thing_meta fins) = ''a''" "om_ns (thing_meta fins) = ''ns''" "om_uid (thing_meta fins) = []"
  "om_fins (thing_meta fins) = fins" "meta_ok frozen_store (thing_meta fins)"
  by (simp_all add: thing_meta_def empty_meta_def meta_ok_def max_time_def ns_per_s_def time_ok_def)

lemma kv_ctx_ns: "vc_ns kv_ctx = ''ns''"
  by (simp add: kv_ctx_def)

text \<open>Without a store: an object created while a watch is open, and deleted.\<close>

definition bare_rest :: "(etcd, kv) vREST" where
  "bare_rest = fst (kv_start (kv_etcd 0) [])"

definition bare_world :: "(etcd, kv) world" where
  "bare_world = snd (kv_start (kv_etcd 0) [])"


lemma kv_fetch: "bc_Get kv_client u ''ns'' ''a'' [(''ns/a'', thing_json)] = (Inr thing_json, [(''ns/a'', thing_json)])"
  by (simp add: kv_client_def kv_gcKey)

lemma kv_stored_list:
  assumes "time_ok del" and that: "w_h w = kv_host fins del"
  shows "listRecords kv_rest ''ns'' w = ([(''ns/a'', stored_krm ''m1'' ''41'' (kv_record fins del))], w)"
proof -
  have ref: "kr_ref (kv_record fins del) = \<lparr>rf_group = ''g'', rf_resource = ''things'', rf_namespace = ''ns'', rf_name = ''a''\<rparr>"
    by (simp add: kv_record_ref v2_refFor_def kv_sel)
  have rs: "v2_RefFromUnstructured (stored_obj (kv_record fins del) ''m1'' ''41'') =
      \<lparr>rf_group = ''g'', rf_resource = ''things'', rf_namespace = ''ns'', rf_name = ''a''\<rparr>"
    using ref_of_encode [where r = "kv_record fins del"] by (simp add: stored_obj_def ref)
  have "v2_keep frozen_store ''g'' ''things'' (stored_obj (kv_record fins del) ''m1'' ''41'') = Some (stored_krm ''m1'' ''41'' (kv_record fins del))"
    using rs by (simp add: v2_keep_def refPath_eq v2_ref_eq [symmetric] decode_stored_obj [OF kv_record_ok [OF assms(1)]])
  then have "v2_List frozen_store ''g'' ''things'' (kv_host fins del) = (Inr [stored_krm ''m1'' ''41'' (kv_record fins del)], kv_host fins del)"
    by (simp add: v2_List_def frozen_store_def frozen_host_def etcd_host_def es_list_def kv_host_def List.map_filter_simps)
  then show ?thesis
    using that by (simp add: listRecords_def kv_sel viaHost_eq kv_desc_def ref kv_gcKey aput_def)
qed

theorem list_then_watch_expires_witness:
  "\<exists>l w'. v2_ListObjs kv_rest kv_ctx None (kv_world [] None) = (Inr l, w') \<and>
     v2_Watch kv_rest kv_ctx (Some \<lparr>lo_label = None, lo_field = None, lo_rv = vl_rv l, lo_bookmarks = True, lo_limit = 0, lo_continue = []\<rparr>) w' =
       (Inl (Expired (vl_rv l) ''1''), w')"
proof -
  let ?w = "kv_world [] None"
  let ?r = "stored_krm ''m1'' ''41'' (kv_record [] None)"
  have b: "viaBackend (bc_List (vr_client kv_rest) (v2_userFromCtx kv_ctx) (vc_ns kv_ctx) (selectorString (vr_codecs kv_rest) None)) ?w
      = (Inr [thing_json], ?w)"
    by (simp add: viaBackend_eq kv_sel kv_client_def kv_world_sel)
  have recs: "listRecords kv_rest (vc_ns kv_ctx) ?w = ([(''ns/a'', ?r)], ?w)"
    using kv_stored_list [of None ?w "[]"] by (simp add: kv_world_sel kv_ctx_ns time_ok_def)
  have nm: "nameNamespaceFromJSON thing_json = (''a'', ''ns'')" by code_simp
  have "parse_uint64 ''41'' = Some 41" using parse_dec_nat [of 41] by (simp add: dec_nat_41)
  then have ver: "recordVersion [(''ns/a'', ?r)] (vc_ns kv_ctx) thing_json = 41" by (simp add: recordVersion_def nm kv_gcKey)
  have "\<exists>l w'. v2_ListObjs kv_rest kv_ctx None ?w = (Inr l, w')"
    unfolding v2_ListObjs_def b using stitch_with_record [OF kv_decode, of ?r "''ns''" "''a''" ?w]
    by (auto simp: recs [unfolded kv_ctx_ns] stitchObj_def nm kv_gcKey kv_ctx_ns v2_matchesLabels_def selectorFromOpts_def
        everything_def Let_def split: option.splits)
  then obtain l w' where l: "v2_ListObjs kv_rest kv_ctx None ?w = (Inr l, w')" by blast
  have less: "unat (w_rv ?w) < Max (recordVersion [(''ns/a'', ?r)] (vc_ns kv_ctx) ` set [thing_json])" and e: "ls_empty (selectorFromOpts None)"
    and ne: "[thing_json] \<noteq> []"
    by (simp_all add: ver kv_world_sel selectorFromOpts_def everything_def)
  let ?o = "\<lparr>lo_label = None, lo_field = None, lo_rv = vl_rv l, lo_bookmarks = True, lo_limit = 0, lo_continue = []\<rparr>"
  have "v2_Watch kv_rest kv_ctx (Some ?o) w' = (Inl (Expired (vl_rv l) (dec_nat (unat (w_rv ?w)))), w')"
    by (rule conjunct2 [OF list_then_watch_expires [OF l e b recs less ne]]) simp
  moreover have "dec_nat (unat (w_rv ?w)) = ''1''" using dec_nat_1 by (simp add: kv_world_sel)
  ultimately show ?thesis using l by (metis (no_types))
qed

lemma kv_kv_key: "kv_key ''ns'' thing_json = ''ns/a''"
  by code_simp

lemma kv_biz: "businessJSONFromBytes (encodeObject kv_rest (thing fins)) = Some (the thing_json)"
  using kv_business [of "thing_meta fins"] by (simp add: thing_eq thing_meta_sel)

lemma the_thing: "Some (the thing_json) = thing_json"
  by (simp add: thing_json_def)

theorem create_conflict_destroys_record_witness:
  "fst (v2_Get frozen_store (v2_refFor kv_rest ''ns'' ''a'') (w_h (kv_world [''f''] None))) =
       Inr (Some (stored_krm ''m1'' ''41'' (kv_record [''f''] None))) \<and>
   (\<exists>w'. v2_Create kv_rest kv_ctx (thing []) None [] (kv_world [''f''] None) = (Inl (AlreadyExists ''a''), w') \<and>
     fst (v2_Get frozen_store (v2_refFor kv_rest ''ns'' ''a'') (w_h w')) = Inr None)"
proof -
  let ?w = "kv_world [''f''] None"
  have ok: "es_ok (w_h ?w)" by (simp add: kv_world_sel kv_host_ok)
  have v: "run_validate None (Obj (thing_meta []) thing_payload) = None" by (simp add: run_validate_def)
  have biz: "businessJSONFromBytes (encodeObject kv_rest (Obj (thing_meta []) thing_payload)) = Some (the thing_json)"
    using kv_biz [of "[]"] by (simp add: thing_eq)
  have e: "bc_Create (vr_client kv_rest) (v2_userFromCtx kv_ctx) (vc_ns kv_ctx) (Some (the thing_json)) [] (w_b ?w) =
      (Inl (RpcStatus C_AlreadyExists ''exists''), w_b ?w)"
    by (simp add: kv_sel kv_client_def kv_ctx_ns the_thing kv_kv_key kv_world_sel)
  have "\<exists>h. v2_Create kv_rest kv_ctx (thing []) None [] ?w = (Inl (AlreadyExists ''a''), ?w\<lparr>w_h := h, w_b := w_b ?w\<rparr>) \<and>
      fst (v2_Get frozen_store (v2_refFor kv_rest ''ns'' ''a'') h) = Inr None"
    using create_conflict_destroys_record [OF frozen_api kv_wired ok thing_meta_sel(5) v kv_admit(1) kv_admit(2) biz e]
    by (auto simp: thing_eq thing_meta_sel kv_ctx_ns)
  then obtain h where h: "v2_Create kv_rest kv_ctx (thing []) None [] ?w = (Inl (AlreadyExists ''a''), ?w\<lparr>w_h := h, w_b := w_b ?w\<rparr>)"
      "fst (v2_Get frozen_store (v2_refFor kv_rest ''ns'' ''a'') h) = Inr None" by blast
  have "w_h (?w\<lparr>w_h := h, w_b := w_b ?w\<rparr>) = h" by simp
  then have "\<exists>w'. v2_Create kv_rest kv_ctx (thing []) None [] ?w = (Inl (AlreadyExists ''a''), w') \<and>
     fst (v2_Get frozen_store (v2_refFor kv_rest ''ns'' ''a'') (w_h w')) = Inr None" using h by metis
  then show ?thesis using kv_get [of None "[''f'']"] by (simp add: time_ok_def kv_world_sel)
qed

theorem v2_create_commits_witness:
  "\<exists>(r :: krm) mo mg w3 w4. v2_Create kv_rest kv_ctx (thing [''f'']) None [] (snd (kv_start (kv_etcd 7) [])) = (Inr (Obj mo thing_payload), w3) \<and>
     v2_GetObj kv_rest kv_ctx ''a'' w3 = (Inr (Obj mg thing_payload), w4) \<and> om_rv mo = ''2'' \<and> om_rv mg = kr_recordRV r \<and>
     om_fins mo = [''f''] \<and> om_fins mg = [''f''] \<and> om_uid mo = om_uid mg"
proof -
  let ?w = "snd (kv_start (kv_etcd 7) [])"
  have ok: "es_ok (w_h ?w)" by (simp add: kv_start_def v2_New_def kv_etcd_def es_ok_def)
  have v: "run_validate None (Obj (thing_meta [''f'']) thing_payload) = None" by (simp add: run_validate_def)
  have biz: "businessJSONFromBytes (encodeObject kv_rest (Obj (thing_meta [''f'']) thing_payload)) = Some (the thing_json)"
    using kv_biz [of "[''f'']"] by (simp add: thing_eq)
  have wb: "w_b ?w = []" "w_rv ?w = 1" by (simp_all add: kv_start_def v2_New_def)
  have bc: "bc_Create (vr_client kv_rest) (v2_userFromCtx kv_ctx) (vc_ns kv_ctx) (Some (the thing_json)) [] (w_b ?w) =
      (Inr thing_json, [(''ns/a'', thing_json)])"
    by (simp add: kv_sel kv_client_def kv_ctx_ns the_thing kv_kv_key wb aput_def)
  have g: "bc_Get (vr_client kv_rest) (v2_userFromCtx kv_ctx) (vc_ns kv_ctx) (om_name (thing_meta [''f''])) [(''ns/a'', thing_json)] =
      (Inr thing_json, [(''ns/a'', thing_json)])"
    by (simp add: kv_sel kv_ctx_ns thing_meta_sel kv_fetch)
  have p: "thing_payload\<lparr>vp_api := apiVersionOf (vr_desc kv_rest), vp_kind := vd_Kind (vr_desc kv_rest)\<rparr> = thing_payload"
    by (simp add: apiVersionOf_def kv_sel kv_desc_def)
  have two: "dec_nat (unat (1 + 1 :: 64 word)) = ''2''" using dec_nat_2 by simp
  note t = v2_create_commits [OF frozen_api kv_wired ok thing_meta_sel(5) v kv_admit(1) kv_admit(2) biz bc kv_decode g kv_decode,
      unfolded p wb two thing_eq [symmetric] thing_meta_sel]
  obtain r mo mg w3 w4 where "v2_Create kv_rest kv_ctx (thing [''f'']) None [] ?w = (Inr (Obj mo thing_payload), w3)"
    "v2_GetObj kv_rest kv_ctx ''a'' w3 = (Inr (Obj mg thing_payload), w4)" "shows_record r ''2'' mo" "same_meta r (thing_meta [''f''])"
    "shows_record r (kr_recordRV r) mg"
    using t by (elim exE conjE) (rule that)
  note c = this
  have "om_rv mo = ''2'' \<and> om_rv mg = kr_recordRV r \<and> om_fins mo = [''f''] \<and> om_fins mg = [''f''] \<and> om_uid mo = om_uid mg"
    using c(3-5) by (simp add: shows_record_def same_meta_def thing_meta_sel)
  then show ?thesis using c(1,2) by blast
qed

theorem v2_delete_keeps_finalized_witness:
  "\<exists>t uid rv out w'. v2_DeleteObj kv_rest kv_ctx ''a'' None (kv_world [''f''] None) = (Inr (out, False), w') \<and>
     w_b w' = [(''ns/a'', thing_json)] \<and> w_log w' = [\<lparr>ev_type = Modified, ev_obj = out\<rparr>] \<and>
     fst (v2_Get frozen_store (v2_refFor kv_rest ''ns'' ''a'') (w_h w')) =
       Inr (Some (stored_krm uid rv ((stored_krm ''m1'' ''41'' (kv_record [''f''] None))\<lparr>kr_deleted := Some t\<rparr>)))"
proof -
  let ?w = "kv_world [''f''] None" and ?r = "stored_krm ''m1'' ''41'' (kv_record [''f''] None)"
  have ok: "es_ok (w_h ?w)" by (simp add: kv_world_sel kv_host_ok)
  have v: "run_validate None obj = None" for obj :: vobj by (simp add: run_validate_def)
  have ref: "v2_refFor kv_rest ''ns'' ''a'' = v2_refFor kv_rest (vc_ns kv_ctx) ''a''" by (simp add: kv_ctx_ns)
  have r: "fst (v2_Get frozen_store (v2_refFor kv_rest ''ns'' ''a'') (w_h ?w)) = Inr (Some ?r)"
    using kv_get [of None "[''f'']"] by (simp add: time_ok_def kv_world_sel)
  have rok: "krm_ok (so_checks frozen_store) ?r" "kr_ref ?r = v2_refFor kv_rest ''ns'' ''a''" "kr_fins ?r \<noteq> []" "kr_deleted ?r = None"
    using kv_record_ok [of None "[''f'']"]
    by (simp_all add: time_ok_def kv_record_ref krm_ok_def stored_krm_def kv_record_def empty_krm_def trunc_s_def trunc_opt_def ns_per_s_def)
  have g: "bc_Get (vr_client kv_rest) (v2_userFromCtx kv_ctx) (vc_ns kv_ctx) ''a'' (w_b ?w) = (Inr thing_json, [(''ns/a'', thing_json)])"
    "bc_Get (vr_client kv_rest) (v2_userFromCtx kv_ctx) (vc_ns kv_ctx) ''a'' [(''ns/a'', thing_json)] = (Inr thing_json, [(''ns/a'', thing_json)])"
    by (simp_all add: kv_sel kv_ctx_ns kv_fetch kv_world_sel)
  show ?thesis
    using v2_delete_keeps_finalized [OF frozen_api kv_wired ok v ref r rok g(1) kv_decode g(2) kv_decode]
    unfolding kv_world_sel append_Nil by blast
qed

theorem update_completes_delete_witness:
  "\<exists>out w'. v2_Update kv_rest kv_ctx ''a'' (\<lambda>_. Inr (thing [])) None None False [] (kv_world [''f''] (Some (5 * ns_per_s))) = (Inr (out, False), w') \<and>
     w_b w' = [] \<and> fst (v2_Get frozen_store (v2_refFor kv_rest ''ns'' ''a'') (w_h w')) = Inr None \<and>
     w_log w' = [\<lparr>ev_type = Deleted, ev_obj = out\<rparr>]"
proof -
  let ?d = "Some (5 * ns_per_s)"
  let ?w = "kv_world [''f''] ?d" and ?r = "stored_krm ''m1'' ''41'' (kv_record [''f''] ?d)"
  have time: "time_ok ?d" by (simp add: time_ok_def max_time_def ns_per_s_def)
  have ok: "es_ok (w_h ?w)" by (simp add: kv_world_sel kv_host_ok)
  have ref: "v2_refFor kv_rest ''ns'' ''a'' = v2_refFor kv_rest (vc_ns kv_ctx) ''a''" by (simp add: kv_ctx_ns)
  have r: "fst (v2_Get frozen_store (v2_refFor kv_rest ''ns'' ''a'') (w_h ?w)) = Inr (Some ?r)"
    using kv_get [OF time, of "[''f'']"] by (simp add: kv_world_sel)
  have rr: "kr_deleted ?r \<noteq> None" "kr_fins ?r \<noteq> []" by (simp_all add: stored_krm_def kv_record_def trunc_opt_def ns_per_s_def)
  have g: "bc_Get (vr_client kv_rest) (v2_userFromCtx kv_ctx) (vc_ns kv_ctx) ''a'' (w_b ?w) = (Inr thing_json, [(''ns/a'', thing_json)])"
    by (simp add: kv_sel kv_ctx_ns kv_fetch kv_world_sel)
  obtain cur h where cur: "v2_GetObj kv_rest kv_ctx ''a'' ?w = (Inr cur, ?w\<lparr>w_b := [(''ns/a'', thing_json)], w_h := h\<rparr>)"
    using GetObj_known [OF frozen_api kv_sel(5) ok r [unfolded ref] g kv_decode] by blast
  have uv: "run_validate_update None (Obj (thing_meta []) thing_payload) cur = None" by (simp add: run_validate_update_def)
  have d: "bc_Delete (vr_client kv_rest) (v2_userFromCtx kv_ctx) (vc_ns kv_ctx) ''a'' (w_b (?w\<lparr>w_b := [(''ns/a'', thing_json)], w_h := h\<rparr>)) = (None, [])"
    "deleteFailed None = None"
    by (simp_all add: kv_sel kv_client_def kv_ctx_ns kv_gcKey adel_def deleteFailed_def)
  show ?thesis
    using update_completes_delete [OF frozen_api kv_wired ok cur _ uv kv_admit(1) kv_admit(2) ref r rr thing_meta_sel(4) d,
        where oi = "\<lambda>_. Inr (thing [])" and cv = None and force = False and fm = "[]"]
    by (auto simp: thing_eq kv_world_sel)
qed

theorem update_ignores_resource_version_witness:
  "v2_Update kv_rest kv_ctx ''a'' (\<lambda>_. Inr (stampRV (thing []) ''1'')) None None False [] (kv_world [] None) =
   v2_Update kv_rest kv_ctx ''a'' (\<lambda>_. Inr (stampRV (thing []) ''41'')) None None False [] (kv_world [] None)"
proof (rule update_ignores_resource_version [where j = "\<lambda>rv. the (encodeObject kv_rest (stampRV (thing []) rv))" and biz = "Some (the thing_json)"])
  fix rv
  show e: "encodeObject kv_rest (stampRV (thing []) rv) = Some (the (encodeObject kv_rest (stampRV (thing []) rv)))"
    by (simp add: encodeObject_def kv_sel kv_desc_def)
  show "businessJSONFromBytes (Some (the (encodeObject kv_rest (stampRV (thing []) rv)))) = Some (the thing_json)"
    unfolding e [symmetric] using kv_business [of "(thing_meta [])\<lparr>om_rv := rv\<rparr>"] by (simp add: thing_eq stampRV_def thing_meta_def empty_meta_def)
qed (simp_all add: kv_sel kv_desc_def)

end
