(* ===== verification/V2Typing.thy ===== *)
theory V2Typing
  imports V2RestSpec
begin

text \<open>
  The type of what the component REST adapter serves: an object with the version and kind of the adapter's descriptor, a resource
  version, and a namespace only when the resource has namespaces.
\<close>

definition well_typed :: "('h, 'b) vREST \<Rightarrow> vobj \<Rightarrow> bool" where
  "well_typed R obj \<longleftrightarrow>
     (case obj of
        Bare p \<Rightarrow> False
      | Obj m p \<Rightarrow> vp_api p = apiVersionOf (vr_desc R) \<and> vp_kind p = vd_Kind (vr_desc R) \<and> om_rv m \<noteq> [] \<and>
          (vd_Namespaced (vr_desc R) \<or> om_ns m = []))"

lemma synthesize_typed:
  assumes "v2_synthesize R m w = (m', w')"
  shows "om_rv m' \<noteq> [] \<and> om_ns m' = om_ns m"
proof -
  obtain u wu where u: "viaHost (h_uuid (vr_host R)) w = (u, wu)" by fastforce
  show ?thesis
  proof (cases "om_uid m = []")
    case True
    then show ?thesis using assms
      by (cases "om_rv m = []"; cases "om_created m = 0") (auto simp: v2_synthesize_def u v2_CurrentResourceVersion_def Let_def split: prod.splits)
  next
    case False
    then show ?thesis using assms
      by (cases "om_rv m = []"; cases "om_created m = 0") (auto simp: v2_synthesize_def v2_CurrentResourceVersion_def Let_def split: prod.splits)
  qed
qed

lemma overlay_typed: "om_rv (v2_overlay R r rv m) = (if kr_recordRV r \<noteq> [] then kr_recordRV r else rv)" "om_ns (v2_overlay R r rv m) = om_ns m"
  by (simp_all add: v2_overlay_def)

lemma stitch_typed:
  assumes "stitchFromRecord R raw rec ns name w = (Inr obj, w')"
  shows "well_typed R obj"
proof -
  obtain m0 p0 where d: "decodeOne R raw = Inr (Obj m0 p0)"
    using assms by (auto simp: stitchFromRecord_def split: sum.splits robj.splits)
  let ?m = "v2_named R ns name m0"
  have ns: "vd_Namespaced (vr_desc R) \<or> om_ns ?m = []" by (simp add: v2_named_def)
  show ?thesis
  proof (cases rec)
    case None
    obtain m1 w1 where 1: "v2_synthesize R ?m w = (m1, w1)" by fastforce
    show ?thesis using assms d None 1 synthesize_typed [OF 1] ns by (auto simp: stitchFromRecord_def well_typed_def Let_def)
  next
    case (Some r)
    show ?thesis using assms d Some ns
      by (auto simp: stitchFromRecord_def well_typed_def Let_def overlay_typed v2_CurrentResourceVersion_def)
  qed
qed

lemma stitchItems_typed:
  "stitchItems R opts records ns raws acc n w = (Inr (items, rv), w') \<Longrightarrow> list_all (well_typed R) acc \<Longrightarrow> list_all (well_typed R) items"
proof (induction raws arbitrary: acc n w)
  case (Cons raw raws)
  obtain x w1 where x: "stitchObj R raw records ns w = (x, w1)" by fastforce
  show ?case
  proof (cases x)
    case (Inr p)
    obtain obj m where p: "p = (obj, m)" by fastforce
    have "well_typed R obj" using x Inr p stitch_typed by (auto simp: stitchObj_def Let_def split: prod.splits sum.splits)
    with Cons x Inr p show ?thesis by (auto split: if_splits)
  qed (use Cons.prems(1) x in simp)
qed simp



end
