(* ===== verification/HttpBackend.thy ===== *)
theory HttpBackend
  imports V2Rest
begin

text \<open>
  \<open>runtime/component/v2/httpbackend\<close> (\<open>client.go\<close>): the backend client over HTTP/JSON with server-sent events for
  watches, as the \<open>client\<close> record of the REST adapter.  \<open>net/http\<close> and \<open>net/url\<close> enter as the record \<open>http_lib\<close>: a request goes
  to a transport over the backend's state \<open>'b\<close>.  The body of a response is its text with the JSON value it decodes to.
\<close>

section \<open>HTTP\<close>

datatype http_method = GET | POST | PUT | DELETE

text \<open>A parsed base URL: its scheme and host, and its query.\<close>

record base_url =
  bu_root :: string
  bu_query :: string

record hreq =
  hq_method :: http_method
  hq_root :: string
  hq_path :: string
  hq_query :: string
  hq_headers :: "(string \<times> string) list"
  hq_body :: "json option"

text \<open>A response: its status, the text and the JSON value of its body, and the error that ends reading the body.\<close>

record hresp =
  hs_status :: int
  hs_text :: string
  hs_json :: "json option"
  hs_fail :: "string option"

datatype http_err = BadRequestURL string | DoFailed string

record 'b http_lib =
  hl_parse :: "string \<Rightarrow> string + base_url"
  hl_do :: "hreq \<Rightarrow> 'b \<Rightarrow> (http_err + hresp) \<times> 'b"
  hl_json :: "string \<Rightarrow> json option"

record 'b http_Client =
  hc_lib :: "'b http_lib"
  hc_base :: base_url

definition HasPrefix :: "string \<Rightarrow> string \<Rightarrow> bool" where
  "HasPrefix s p \<longleftrightarrow> take (length p) s = p"

text \<open>\<open>New\<close>; the header timeout belongs to the transport.\<close>

definition http_New :: "'b http_lib \<Rightarrow> string \<Rightarrow> string + 'b http_Client" where
  "http_New L addr =
     (let a = (if \<not> HasPrefix addr ''http://'' \<and> \<not> HasPrefix addr ''https://'' then ''http://'' @ addr else addr) in
      case hl_parse L a of Inl e \<Rightarrow> Inl e | Inr u \<Rightarrow> Inr \<lparr>hc_lib = L, hc_base = u\<rparr>)"

section \<open>Identity headers\<close>

definition is_lower :: "char \<Rightarrow> bool" where
  "is_lower c \<longleftrightarrow> CHR ''a'' \<le> c \<and> c \<le> CHR ''z''"

definition is_upper :: "char \<Rightarrow> bool" where
  "is_upper c \<longleftrightarrow> CHR ''A'' \<le> c \<and> c \<le> CHR ''Z''"

definition field_punct :: "char set" where
  "field_punct = set ''!#$&*+-.^_|~'' \<union> {CHR 0x27, CHR 0x60}"

definition upper_hex :: "nat \<Rightarrow> char" where
  "upper_hex n = (if n < 10 then digit n else char_of (n + 55))"

definition headerEscapeExtraKey :: "string \<Rightarrow> string" where
  "headerEscapeExtraKey k = concat (map (\<lambda>c.
     if is_digit c \<or> is_upper c \<or> is_lower c \<or> c \<in> field_punct then [c]
     else [CHR ''%'', upper_hex (of_char c div 16), upper_hex (of_char c mod 16)]) k)"

text \<open>\<open>textproto.CanonicalMIMEHeaderKey\<close> of a valid field name: a capital at the start and after every dash, small letters elsewhere.\<close>

definition lower :: "char \<Rightarrow> char" where
  "lower c = (if is_upper c then char_of (of_char c + (32 :: nat)) else c)"

fun canonicalFrom :: "bool \<Rightarrow> string \<Rightarrow> string" where
  "canonicalFrom up [] = []"
| "canonicalFrom up (c # cs) = (if up then upper c else lower c) # canonicalFrom (c = CHR ''-'') cs"

definition setHeader :: "string \<Rightarrow> string \<Rightarrow> (string \<times> string) list \<Rightarrow> (string \<times> string) list" where
  "setHeader k v h = aput (canonicalFrom True k) v h"

definition applyUserHeaders :: "proto_user option \<Rightarrow> (string \<times> string) list \<Rightarrow> (string \<times> string) list" where
  "applyUserHeaders user h =
     (case user of
        None \<Rightarrow> h
      | Some u \<Rightarrow>
          (let h1 = (if pu_Name u \<noteq> [] then setHeader ''X-Aggexp-User-Name'' (pu_Name u) h else h);
               h2 = (if pu_Uid u \<noteq> [] then setHeader ''X-Aggexp-User-Uid'' (pu_Uid u) h1 else h1);
               h3 = (if pu_Groups u \<noteq> [] then setHeader ''X-Aggexp-User-Groups'' (join '','' (pu_Groups u)) h2 else h2)
           in fold (\<lambda>(k, vs) m. if vs = [] then m
                      else setHeader (''X-Aggexp-User-Extra-'' @ headerEscapeExtraKey k) (join '','' vs) m) (pu_Extra u) h3))"

section \<open>Requests\<close>

definition msgFields :: "string \<Rightarrow> json \<Rightarrow> string \<Rightarrow> string \<times> bool" where
  "msgFields f v s = intoString v s"

definition extractMessage :: "hresp \<Rightarrow> string" where
  "extractMessage r =
     (if hs_text r = [] then []
      else case unmarshalStruct [''message''] msgFields [] (hs_json r) of
             None \<Rightarrow> trimSpace (hs_text r)
           | Some m \<Rightarrow> (if m \<noteq> [] then m else trimSpace (hs_text r)))"

definition mustReadMessage :: "hresp \<Rightarrow> string" where
  "mustReadMessage r = (if hs_fail r \<noteq> None then [] else extractMessage r)"

definition codeOfStatus :: "int \<Rightarrow> rpc_code" where
  "codeOfStatus status =
     (if status = 404 then C_NotFound
      else if status = 409 then C_AlreadyExists
      else if status = 400 then C_InvalidArgument
      else if status = 403 then C_PermissionDenied
      else if status = 503 \<or> status = 502 \<or> status = 504 then C_Unavailable
      else C_Other 2)"

definition translateHTTPStatus :: "int \<Rightarrow> string \<Rightarrow> rpc_err" where
  "translateHTTPStatus status msg =
     RpcStatus (codeOfStatus status) (if msg = [] then ''backend returned HTTP '' @ dec_int status else msg)"

definition internal_err :: "string \<Rightarrow> rpc_err" where
  "internal_err msg = RpcStatus (C_Other 13) msg"

text \<open>A path is cut at its first question mark: what follows is the query.\<close>

definition splitPathQuery :: "string \<Rightarrow> string \<Rightarrow> string \<times> string" where
  "splitPathQuery path baseQuery =
     (if CHR ''?'' \<in> set path
      then (takeWhile (\<lambda>c. c \<noteq> CHR ''?'') path, tl (dropWhile (\<lambda>c. c \<noteq> CHR ''?'') path))
      else (path, baseQuery))"

definition requestFor :: "'b http_Client \<Rightarrow> http_method \<Rightarrow> string \<Rightarrow> proto_user option \<Rightarrow> json option \<Rightarrow> hreq" where
  "requestFor c m path user body =
     (let (p, q) = splitPathQuery path (bu_query (hc_base c));
          h0 = (if body \<noteq> None then setHeader ''Content-Type'' ''application/json'' [] else [])
      in \<lparr>hq_method = m, hq_root = bu_root (hc_base c), hq_path = p, hq_query = q,
          hq_headers = applyUserHeaders user (setHeader ''Accept'' ''application/json'' h0), hq_body = body\<rparr>)"

definition doStatus :: "'b http_Client \<Rightarrow> http_method \<Rightarrow> string \<Rightarrow> proto_user option \<Rightarrow> json option \<Rightarrow> 'b \<Rightarrow>
    (rpc_err + hresp) \<times> 'b" where
  "doStatus c m path user body b =
     (case hl_do (hc_lib c) (requestFor c m path user body) b of
        (Inl (BadRequestURL e), b1) \<Rightarrow> (Inl (RpcOther e), b1)
      | (Inl (DoFailed e), b1) \<Rightarrow> (Inl (RpcStatus C_Unavailable e), b1)
      | (Inr r, b1) \<Rightarrow>
          (case hs_fail r of
             Some e \<Rightarrow> (Inl (internal_err e), b1)
           | None \<Rightarrow>
               (if 200 \<le> hs_status r \<and> hs_status r < 300 then (Inr r, b1)
                else (Inl (translateHTTPStatus (hs_status r) (extractMessage r)), b1))))"

definition objectsPath :: "string \<Rightarrow> string" where
  "objectsPath ns = ''/objects/'' @ ns"

definition objectPath :: "string \<Rightarrow> string \<Rightarrow> string" where
  "objectPath ns name = ''/objects/'' @ ns @ ''/'' @ name"

section \<open>Decoding answers\<close>

text \<open>A slice: elements are decoded over those that are already there.\<close>

fun intoElems :: "(json \<Rightarrow> 'a \<Rightarrow> 'a \<times> bool) \<Rightarrow> 'a \<Rightarrow> json list \<Rightarrow> 'a list \<Rightarrow> 'a list \<times> bool" where
  "intoElems f zero [] olds = ([], True)"
| "intoElems f zero (v # vs) olds =
     (let (x, ok) = f v (case olds of [] \<Rightarrow> zero | o' # _ \<Rightarrow> o'); (xs, oks) = intoElems f zero vs (tl olds) in (x # xs, ok \<and> oks))"

definition intoList :: "(json \<Rightarrow> 'a \<Rightarrow> 'a \<times> bool) \<Rightarrow> 'a \<Rightarrow> json \<Rightarrow> 'a list \<Rightarrow> 'a list \<times> bool" where
  "intoList f zero v old =
     (case v of JArr vs \<Rightarrow> intoElems f zero vs old | JNull \<Rightarrow> ([], True) | _ \<Rightarrow> (old, False))"

text \<open>\<open>json.RawMessage\<close> takes any value, \<open>null\<close> included.\<close>

definition intoRaw :: "json \<Rightarrow> json option \<Rightarrow> json option \<times> bool" where
  "intoRaw v old = (Some v, True)"

definition intoInt32 :: "json \<Rightarrow> int \<Rightarrow> int \<times> bool" where
  "intoInt32 v old =
     (case v of JInt i \<Rightarrow> (if - (2 ^ 31) \<le> i \<and> i < 2 ^ 31 then (i, True) else (old, False)) | JNull \<Rightarrow> (old, True) | _ \<Rightarrow> (old, False))"

definition http_Get :: "'b http_Client \<Rightarrow> proto_user option \<Rightarrow> string \<Rightarrow> string \<Rightarrow> 'b \<Rightarrow> (rpc_err + json option) \<times> 'b" where
  "http_Get c u ns name b =
     (case doStatus c GET (objectPath ns name) u None b of (Inl e, b1) \<Rightarrow> (Inl e, b1) | (Inr r, b1) \<Rightarrow> (Inr (hs_json r), b1))"

definition itemsField :: "string \<Rightarrow> json \<Rightarrow> json option list \<Rightarrow> json option list \<times> bool" where
  "itemsField f v items = intoList intoRaw None v items"

text \<open>The selector of the request is not sent.\<close>

definition http_List :: "'b http_Client \<Rightarrow> proto_user option \<Rightarrow> string \<Rightarrow> string \<Rightarrow> 'b \<Rightarrow> (rpc_err + json option list) \<times> 'b" where
  "http_List c u ns sel b =
     (case doStatus c GET (objectsPath ns) u None b of
        (Inl e, b1) \<Rightarrow> (Inl e, b1)
      | (Inr r, b1) \<Rightarrow>
          (case unmarshalStruct [''items''] itemsField [] (hs_json r) of
             None \<Rightarrow> (Inl (internal_err ''decode list''), b1)
           | Some items \<Rightarrow> (Inr items, b1)))"

definition http_Create :: "'b http_Client \<Rightarrow> proto_user option \<Rightarrow> string \<Rightarrow> json option \<Rightarrow> string \<Rightarrow> 'b \<Rightarrow> (rpc_err + json option) \<times> 'b" where
  "http_Create c u ns raw fm b =
     (case doStatus c POST (objectsPath ns) u raw b of (Inl e, b1) \<Rightarrow> (Inl e, b1) | (Inr r, b1) \<Rightarrow> (Inr (hs_json r), b1))"

text \<open>\<open>Update\<close>, and \<open>Apply\<close> with \<open>force\<close>; also whether the object was created.\<close>

definition http_Put :: "'b http_Client \<Rightarrow> bool \<Rightarrow> proto_user option \<Rightarrow> string \<Rightarrow> string \<Rightarrow> json option \<Rightarrow> 'b \<Rightarrow> (rpc_err + json option \<times> bool) \<times> 'b" where
  "http_Put c force u ns name raw b =
     (case doStatus c PUT (objectPath ns name @ (if force then ''?forceAllowCreate=true'' else [])) u raw b of
        (Inl e, b1) \<Rightarrow> (Inl e, b1)
      | (Inr r, b1) \<Rightarrow> (Inr (hs_json r, hs_status r = 201), b1))"

definition http_Update :: "'b http_Client \<Rightarrow> bool \<Rightarrow> proto_user option \<Rightarrow> string \<Rightarrow> string \<Rightarrow> json option \<Rightarrow> 'b \<Rightarrow> (rpc_err + json option \<times> bool) \<times> 'b" where
  "http_Update c forceAllowCreate u ns name raw b = http_Put c forceAllowCreate u ns name raw b"

definition http_Apply :: "'b http_Client \<Rightarrow> proto_user option \<Rightarrow> string \<Rightarrow> string \<Rightarrow> json option \<Rightarrow> 'b \<Rightarrow> (rpc_err + json option \<times> bool) \<times> 'b" where
  "http_Apply c u ns name raw b = http_Put c True u ns name raw b"

definition http_Delete :: "'b http_Client \<Rightarrow> proto_user option \<Rightarrow> string \<Rightarrow> string \<Rightarrow> 'b \<Rightarrow> rpc_err option \<times> 'b" where
  "http_Delete c u ns name b =
     (case doStatus c DELETE (objectPath ns name) u None b of (Inl e, b1) \<Rightarrow> (Some e, b1) | (Inr r, b1) \<Rightarrow> (None, b1))"

section \<open>Admission\<close>

text \<open>The body of \<open>Validate\<close> and \<open>Mutate\<close>; an object that is not JSON cannot be marshalled, and the request goes without a body.\<close>

definition admitBody :: "admit_req \<Rightarrow> json option" where
  "admitBody q =
     (case (aq_obj q, case aq_old q of None \<Rightarrow> Some JNull | Some old \<Rightarrow> old) of
        (Some j, Some old) \<Rightarrow> Some (JObj [(''name'', JStr (aq_name q)), (''namespace'', JStr (aq_ns q)), (''object'', j),
          (''oldObject'', old), (''operation'', JStr (aq_op q))])
      | _ \<Rightarrow> None)"

definition causeField :: "string \<Rightarrow> json \<Rightarrow> string \<times> string \<Rightarrow> (string \<times> string) \<times> bool" where
  "causeField f v p =
     (if f = ''field'' then (let (s, ok) = intoString v (fst p) in ((s, snd p), ok))
      else if f = ''message'' then (let (s, ok) = intoString v (snd p) in ((fst p, s), ok))
      else (p, snd (intoString v [])))"

definition intoCause :: "json \<Rightarrow> string \<times> string \<Rightarrow> (string \<times> string) \<times> bool" where
  "intoCause v p = intoStruct [''field'', ''message'', ''type''] causeField v p"

definition validateField :: "string \<Rightarrow> json \<Rightarrow> validate_resp \<Rightarrow> validate_resp \<times> bool" where
  "validateField f v r =
     (if f = ''allowed'' then (let (x, ok) = intoBool v (vr_Allowed r) in (r\<lparr>vr_Allowed := x\<rparr>, ok))
      else if f = ''reason'' then (let (s, ok) = intoString v (vr_Reason r) in (r\<lparr>vr_Reason := s\<rparr>, ok))
      else (let (cs, ok) = intoList intoCause ([], []) v (vr_Causes r) in (r\<lparr>vr_Causes := cs\<rparr>, ok)))"

definition http_Validate :: "'b http_Client \<Rightarrow> admit_req \<Rightarrow> 'b \<Rightarrow> (rpc_err + validate_resp) \<times> 'b" where
  "http_Validate c q b =
     (case doStatus c POST ''/validate'' (aq_user q) (admitBody q) b of
        (Inl e, b1) \<Rightarrow> (Inl e, b1)
      | (Inr r, b1) \<Rightarrow>
          (case unmarshalStruct [''allowed'', ''reason'', ''causes''] validateField \<lparr>vr_Allowed = False, vr_Reason = [], vr_Causes = []\<rparr> (hs_json r) of
             None \<Rightarrow> (Inl (internal_err ''decode validate''), b1)
           | Some resp \<Rightarrow> (Inr resp, b1)))"

definition mutatedField :: "string \<Rightarrow> json \<Rightarrow> json option \<Rightarrow> json option \<times> bool" where
  "mutatedField f v x = intoRaw v x"

definition http_Mutate :: "'b http_Client \<Rightarrow> admit_req \<Rightarrow> 'b \<Rightarrow> (rpc_err + json option option) \<times> 'b" where
  "http_Mutate c q b =
     (case doStatus c POST ''/mutate'' (aq_user q) (admitBody q) b of
        (Inl e, b1) \<Rightarrow> (Inl e, b1)
      | (Inr r, b1) \<Rightarrow>
          (case unmarshalStruct [''mutatedObject''] mutatedField None (hs_json r) of
             None \<Rightarrow> (Inl (internal_err ''decode mutate''), b1)
           | Some raw \<Rightarrow> (Inr (map_option Some raw), b1)))"

section \<open>The schema\<close>

record table_column =
  tc_Name :: string
  tc_Type :: string
  tc_Format :: string
  tc_Description :: string
  tc_Priority :: int

text \<open>\<open>httpSchemaResponse\<close>; the strings and booleans by the names of their fields.\<close>

record schema_resp =
  sr_strings :: "string \<Rightarrow> string"
  sr_bools :: "string \<Rightarrow> bool"
  sr_lists :: "string \<Rightarrow> string list"
  sr_schema :: "json option option"
  sr_columns :: "table_column list"

definition stringFields :: "string list" where
  "stringFields = [''group'', ''version'', ''resource'', ''kind'', ''singular'', ''watchCapability'']"

definition boolFields :: "string list" where
  "boolFields = [''namespaced'', ''writable'', ''schemaIsOpenapi'', ''supportsServerSideApply'', ''supportsValidation'', ''supportsMutation'']"

definition listFields :: "string list" where
  "listFields = [''rowFields'', ''shortNames'', ''categories'']"

definition zero_schema :: schema_resp where
  "zero_schema = \<lparr>sr_strings = (\<lambda>_. []), sr_bools = (\<lambda>_. False), sr_lists = (\<lambda>_. []), sr_schema = None, sr_columns = []\<rparr>"

definition zero_column :: table_column where
  "zero_column = \<lparr>tc_Name = [], tc_Type = [], tc_Format = [], tc_Description = [], tc_Priority = 0\<rparr>"

definition columnField :: "string \<Rightarrow> json \<Rightarrow> table_column \<Rightarrow> table_column \<times> bool" where
  "columnField f v c =
     (if f = ''name'' then (let (s, ok) = intoString v (tc_Name c) in (c\<lparr>tc_Name := s\<rparr>, ok))
      else if f = ''type'' then (let (s, ok) = intoString v (tc_Type c) in (c\<lparr>tc_Type := s\<rparr>, ok))
      else if f = ''format'' then (let (s, ok) = intoString v (tc_Format c) in (c\<lparr>tc_Format := s\<rparr>, ok))
      else if f = ''description'' then (let (s, ok) = intoString v (tc_Description c) in (c\<lparr>tc_Description := s\<rparr>, ok))
      else (let (i, ok) = intoInt32 v (tc_Priority c) in (c\<lparr>tc_Priority := i\<rparr>, ok)))"

definition intoColumn :: "json \<Rightarrow> table_column \<Rightarrow> table_column \<times> bool" where
  "intoColumn v c = intoStruct [''name'', ''type'', ''format'', ''description'', ''priority''] columnField v c"

definition schemaField :: "string \<Rightarrow> json \<Rightarrow> schema_resp \<Rightarrow> schema_resp \<times> bool" where
  "schemaField f v r =
     (if f \<in> set stringFields then (let (s, ok) = intoString v (sr_strings r f) in (r\<lparr>sr_strings := (sr_strings r)(f := s)\<rparr>, ok))
      else if f \<in> set boolFields then (let (x, ok) = intoBool v (sr_bools r f) in (r\<lparr>sr_bools := (sr_bools r)(f := x)\<rparr>, ok))
      else if f \<in> set listFields then (let (xs, ok) = intoList intoString [] v (sr_lists r f) in (r\<lparr>sr_lists := (sr_lists r)(f := xs)\<rparr>, ok))
      else if f = ''columns'' then (let (cs, ok) = intoList intoColumn zero_column v (sr_columns r) in (r\<lparr>sr_columns := cs\<rparr>, ok))
      else (let (raw, ok) = intoRaw v None in (r\<lparr>sr_schema := Some raw\<rparr>, ok)))"

definition http_GetSchema :: "'b http_Client \<Rightarrow> 'b \<Rightarrow> (rpc_err + schema_resp) \<times> 'b" where
  "http_GetSchema c b =
     (case doStatus c GET ''/schema'' None None b of
        (Inl e, b1) \<Rightarrow> (Inl e, b1)
      | (Inr r, b1) \<Rightarrow>
          (case unmarshalStruct (stringFields @ boolFields @ listFields @ [''columns'', ''schema'']) schemaField zero_schema (hs_json r) of
             None \<Rightarrow> (Inl (internal_err ''decode schema''), b1)
           | Some s \<Rightarrow> (Inr s, b1)))"

section \<open>Server-sent events\<close>

definition trimRight :: "string \<Rightarrow> string" where
  "trimRight s = rev (dropWhile (\<lambda>c. c = CHR 0x0D \<or> c = CHR 0x0A) (rev s))"

definition trimPrefix :: "string \<Rightarrow> string \<Rightarrow> string" where
  "trimPrefix s p = (if HasPrefix s p then drop (length p) s else s)"

definition wrappedField :: "string \<Rightarrow> json \<Rightarrow> string \<times> json option \<Rightarrow> (string \<times> json option) \<times> bool" where
  "wrappedField f v p =
     (if f = ''type'' then (let (s, ok) = intoString v (fst p) in ((s, snd p), ok))
      else (let (raw, ok) = intoRaw v (snd p) in ((fst p, raw), ok)))"

definition pushTypeOf :: "string \<Rightarrow> push_type" where
  "pushTypeOf t =
     (let u = toUpper t in
      if u = ''ADDED'' then EVENT_ADDED
      else if u = ''MODIFIED'' then EVENT_MODIFIED
      else if u = ''DELETED'' then EVENT_DELETED
      else EVENT_OTHER)"

definition parseWatchEventData :: "(string \<Rightarrow> json option) \<Rightarrow> string \<Rightarrow> rpc_err + push_type \<times> json option" where
  "parseWatchEventData parse raw =
     (case unmarshalStruct [''type'', ''object''] wrappedField ([], None) (parse raw) of
        None \<Rightarrow> Inl (RpcOther ''decode SSE event'')
      | Some (t, obj) \<Rightarrow> Inr (pushTypeOf t, obj))"

text \<open>What \<open>ReadString\<close> gives: a line with its end, or what is left.\<close>

definition nextLine :: "string \<Rightarrow> string \<times> string" where
  "nextLine s = (takeWhile (\<lambda>c. c \<noteq> CHR 0x0A) s @ take 1 (dropWhile (\<lambda>c. c \<noteq> CHR 0x0A) s), drop 1 (dropWhile (\<lambda>c. c \<noteq> CHR 0x0A) s))"

lemma drop_dropWhile_shorter: "s \<noteq> [] \<Longrightarrow> length (drop 1 (dropWhile P s)) < length s"
  using length_dropWhile_le [of P s] by (cases s) (auto simp: le_imp_less_Suc simp del: length_drop, simp_all)

lemma nextLine_shorter: "s \<noteq> [] \<Longrightarrow> (l, r) = nextLine s \<Longrightarrow> length r < length s"
  using drop_dropWhile_shorter [of s "\<lambda>c. c \<noteq> CHR 0x0A"] by (simp add: nextLine_def)

lemma nextLine_Nil: "nextLine [] = ([], [])"
  by (simp add: nextLine_def)

lemma trimRight_Nil: "trimRight [] = []"
  by (simp add: trimRight_def)

lemma nextLine_trimmed: "(l, r) = nextLine s \<Longrightarrow> trimRight l \<noteq> [] \<Longrightarrow> length r < length s"
  using nextLine_shorter nextLine_Nil trimRight_Nil by (metis prod.inject)

definition addData :: "string \<Rightarrow> string \<Rightarrow> string" where
  "addData buf d = (if buf \<noteq> [] then buf @ [CHR 0x0A] else buf) @ d"

text \<open>
  \<open>Recv\<close> on the text still to come; \<open>fin\<close> is the error the connection ends with, \<open>None\<close> when it is closed properly.  The data
  gathered so far comes as the first argument.
\<close>

function sseRecv :: "(string \<Rightarrow> json option) \<Rightarrow> string option \<Rightarrow> string \<Rightarrow> string \<Rightarrow> (rpc_err + push_type \<times> json option) \<times> string" where
  "sseRecv parse fin buf s =
     (let (line, rest) = nextLine s; eof = (CHR 0x0A \<notin> set s) in
      if eof \<and> fin \<noteq> None then (Inl (RpcOther (the fin)), [])
      else if eof \<and> buf = [] \<and> line = [] then (Inl RpcEOF, [])
      else let trimmed = trimRight line in
           if trimmed = [] then
             (if buf = [] then (if eof then (Inl RpcEOF, []) else sseRecv parse fin [] rest)
              else (parseWatchEventData parse buf, rest))
           else if HasPrefix trimmed '':'' then sseRecv parse fin buf rest
           else if HasPrefix trimmed ''data:'' then sseRecv parse fin (addData buf (trimPrefix (trimPrefix trimmed ''data:'') '' '')) rest
           else sseRecv parse fin buf rest)"
  by pat_completeness auto

termination
proof (relation "measure (\<lambda>(parse, fin, buf, s). length s)", goal_cases)
  case (2 parse fin buf s line rest eof trimmed)
  then have "s \<noteq> []" by auto
  then show ?case using nextLine_shorter 2 by simp
qed (use nextLine_trimmed in simp_all)

declare sseRecv.simps [simp del]

lemma sseRecv_Nil:
  "sseRecv parse fin buf [] =
     (case fin of Some e \<Rightarrow> (Inl (RpcOther e), []) | None \<Rightarrow> if buf = [] then (Inl RpcEOF, []) else (parseWatchEventData parse buf, []))"
  by (subst sseRecv.simps) (simp add: nextLine_Nil trimRight_Nil split: option.splits)

lemma sseRecv_shorter:
  "sseRecv parse fin buf s = (Inr ev, rest) \<Longrightarrow> length rest \<le> length s \<and> (buf = [] \<longrightarrow> length rest < length s)"
proof (induction parse fin buf s rule: sseRecv.induct)
  case (1 parse fin buf s)
  obtain line r where n: "(line, r) = nextLine s" by (metis prod.collapse)
  show ?case
  proof (cases "s = []")
    case True
    with 1(5) show ?thesis by (auto simp: sseRecv_Nil split: if_splits option.splits)
  next
    case False
    have lt: "length r < length s" using nextLine_shorter [OF False n] .
    from 1(5) have "sseRecv parse fin buf s = (Inr ev, rest)" .
    then show ?thesis using lt 1(1-4) [OF n refl refl] n [symmetric]
      by (simp only: sseRecv.simps [of parse fin buf s] Let_def split: if_splits)
         (auto simp: Let_def n [symmetric] split: if_splits)
  qed
qed

text \<open>All the events of a stream, and the error it ends with.\<close>

function sseAll :: "(string \<Rightarrow> json option) \<Rightarrow> string option \<Rightarrow> string \<Rightarrow> (push_type \<times> json option) list \<times> rpc_err" where
  "sseAll parse fin s =
     (case sseRecv parse fin [] s of
        (Inl e, _) \<Rightarrow> ([], e)
      | (Inr ev, rest) \<Rightarrow> (let (evs, e) = sseAll parse fin rest in (ev # evs, e)))"
  by pat_completeness auto

termination
proof (relation "measure (\<lambda>(parse, fin, s). length s)", goal_cases)
  case (2 parse fin s p1 b ev)
  then show ?case using sseRecv_shorter [of parse fin "[]" s ev b] by simp
qed simp

declare sseAll.simps [simp del]

definition watchRequest :: "'b http_Client \<Rightarrow> hreq" where
  "watchRequest c = \<lparr>hq_method = GET, hq_root = bu_root (hc_base c), hq_path = ''/watch/'', hq_query = bu_query (hc_base c),
     hq_headers = setHeader ''Accept'' ''text/event-stream'' [], hq_body = None\<rparr>"

definition http_Watch :: "'b http_Client \<Rightarrow> 'b \<Rightarrow> (rpc_err + (push_type \<times> json option) list \<times> rpc_err) \<times> 'b" where
  "http_Watch c b =
     (case hl_do (hc_lib c) (watchRequest c) b of
        (Inl (BadRequestURL e), b1) \<Rightarrow> (Inl (RpcOther e), b1)
      | (Inl (DoFailed e), b1) \<Rightarrow> (Inl (RpcStatus C_Unavailable e), b1)
      | (Inr r, b1) \<Rightarrow>
          (if hs_status r \<noteq> 200 then (Inl (translateHTTPStatus (hs_status r) (mustReadMessage r)), b1)
           else (Inr (sseAll (hl_json (hc_lib c)) (hs_fail r) (hs_text r)), b1)))"

text \<open>The client as the REST adapter sees it; its \<open>Update\<close> never forces a creation and does not look whether one happened.\<close>

definition http_backend :: "'b http_Client \<Rightarrow> 'b client" where
  "http_backend c = \<lparr>bc_Get = http_Get c, bc_List = http_List c, bc_Create = http_Create c,
     bc_Update = (\<lambda>u ns name raw fm b. case http_Update c False u ns name raw b of (Inl e, b1) \<Rightarrow> (Inl e, b1) | (Inr (j, _), b1) \<Rightarrow> (Inr j, b1)),
     bc_Delete = http_Delete c, bc_Mutate = http_Mutate c, bc_Validate = http_Validate c, bc_Watch = http_Watch c\<rparr>"

end
