(* ===== verification/HttpSpec.thy ===== *)
theory HttpSpec
  imports HttpBackend V2RestSpec
begin

text \<open>
  What the HTTP backend client promises: the events of a watch are those of the backend's event stream, and the
  identity and the object a request names, as far as they survive the encoding in headers and paths.
\<close>

section \<open>The event stream\<close>

text \<open>
  What a backend writes: comments (used to keep the connection alive), and events over one or more lines of data, with the type
  and object that the text stands for.
\<close>

datatype sse_frame = SseComment string | SseEvent "string list" string json

definition plain_line :: "string \<Rightarrow> bool" where
  "plain_line s \<longleftrightarrow> s \<noteq> [] \<and> CHR 0x0A \<notin> set s \<and> last s \<noteq> CHR 0x0D"

fun frame_text :: "sse_frame \<Rightarrow> string" where
  "frame_text (SseComment c) = CHR '':'' # c @ [CHR 0x0A]"
| "frame_text (SseEvent ds t obj) = concat (map (\<lambda>d. ''data: '' @ d @ [CHR 0x0A]) ds) @ [CHR 0x0A]"

fun wf_frame :: "(string \<Rightarrow> json option) \<Rightarrow> sse_frame \<Rightarrow> bool" where
  "wf_frame parse (SseComment c) \<longleftrightarrow> plain_line c"
| "wf_frame parse (SseEvent ds t obj) \<longleftrightarrow> ds \<noteq> [] \<and> list_all plain_line ds \<and>
     parse (join [CHR 0x0A] ds) = Some (JObj [(''type'', JStr t), (''object'', obj)])"

fun frame_events :: "sse_frame \<Rightarrow> (push_type \<times> json option) list" where
  "frame_events (SseComment c) = []"
| "frame_events (SseEvent ds t obj) = [(pushTypeOf t, Some obj)]"

definition end_error :: "string option \<Rightarrow> rpc_err" where
  "end_error fin = (case fin of None \<Rightarrow> RpcEOF | Some e \<Rightarrow> RpcOther e)"

lemma takeWhile_line: "CHR 0x0A \<notin> set l \<Longrightarrow> takeWhile (\<lambda>c. c \<noteq> CHR 0x0A) (l @ CHR 0x0A # r) = l"
  by (induction l) auto

lemma dropWhile_line: "CHR 0x0A \<notin> set l \<Longrightarrow> dropWhile (\<lambda>c. c \<noteq> CHR 0x0A) (l @ CHR 0x0A # r) = CHR 0x0A # r"
  by (induction l) auto

lemma nextLine_line: "CHR 0x0A \<notin> set l \<Longrightarrow> nextLine (l @ CHR 0x0A # r) = (l @ [CHR 0x0A], r)"
  by (simp add: nextLine_def takeWhile_line dropWhile_line)

lemma trimRight_plain: "plain_line l \<Longrightarrow> trimRight (p @ l @ [CHR 0x0A]) = p @ l"
  by (cases l rule: rev_cases) (auto simp: trimRight_def plain_line_def)

lemma sseRecv_line:
  assumes "plain_line d" and "CHR 0x0A \<notin> set p"
  shows "sseRecv parse fin buf (p @ d @ CHR 0x0A # r) =
     (if HasPrefix (p @ d) '':'' then sseRecv parse fin buf r
      else if HasPrefix (p @ d) ''data:'' then sseRecv parse fin (addData buf (trimPrefix (trimPrefix (p @ d) ''data:'') '' '')) r
      else sseRecv parse fin buf r)"
proof -
  have "nextLine (p @ d @ CHR 0x0A # r) = (p @ d @ [CHR 0x0A], r)"
    using nextLine_line [of "p @ d" r] assms by (simp add: plain_line_def)
  moreover have "d \<noteq> []" using assms by (simp add: plain_line_def)
  ultimately show ?thesis
    using assms by (subst sseRecv.simps) (simp add: Let_def trimRight_plain del: append_eq_append_conv)
qed

lemma sseRecv_comment: "plain_line c \<Longrightarrow> sseRecv parse fin buf (CHR '':'' # c @ CHR 0x0A # r) = sseRecv parse fin buf r"
  using sseRecv_line [of c "'':''" parse fin buf r] by (simp add: HasPrefix_def)

lemma sseRecv_data:
  "plain_line d \<Longrightarrow> sseRecv parse fin buf (''data: '' @ d @ CHR 0x0A # r) = sseRecv parse fin (addData buf d) r"
  using sseRecv_line [of d "''data: ''" parse fin buf r] by (simp add: HasPrefix_def trimPrefix_def)

lemma sseRecv_blank: "buf \<noteq> [] \<Longrightarrow> sseRecv parse fin buf (CHR 0x0A # r) = (parseWatchEventData parse buf, r)"
  using nextLine_line [of "[]" r] by (subst sseRecv.simps) (simp add: trimRight_def)

lemma sseRecv_datas:
  "list_all plain_line ds \<Longrightarrow>
   sseRecv parse fin buf (concat (map (\<lambda>d. ''data: '' @ d @ [CHR 0x0A]) ds) @ r) = sseRecv parse fin (foldl addData buf ds) r"
  using sseRecv_data by (induction ds arbitrary: buf) simp_all

lemma addData_join: "buf \<noteq> [] \<Longrightarrow> foldl addData buf ds = join [CHR 0x0A] (buf # ds)"
proof (induction ds arbitrary: buf)
  case (Cons d ds)
  have "addData buf d = buf @ CHR 0x0A # d" using Cons(2) by (simp add: addData_def)
  with Cons(1) [of "addData buf d"] show ?case by (cases ds) simp_all
qed simp

lemma event_fields: "fieldFor [''type'', ''object''] ''type'' = Some ''type''" "fieldFor [''type'', ''object''] ''object'' = Some ''object''"
  by code_simp+

lemma sseRecv_event:
  assumes "wf_frame parse (SseEvent ds t obj)"
  shows "sseRecv parse fin [] (frame_text (SseEvent ds t obj) @ r) = (Inr (pushTypeOf t, Some obj), r)"
proof -
  obtain d ds' where ds: "ds = d # ds'" "d \<noteq> []" using assms by (cases ds) (auto simp: plain_line_def)
  have b: "foldl addData [] ds = join [CHR 0x0A] ds" using ds addData_join [of d ds'] by (simp add: addData_def)
  moreover have "join [CHR 0x0A] ds \<noteq> []" using ds by (cases ds') simp_all
  moreover have "parseWatchEventData parse (join [CHR 0x0A] ds) = Inr (pushTypeOf t, Some obj)"
    using assms by (simp add: parseWatchEventData_def unmarshalStruct_def intoStruct_def event_fields wrappedField_def intoRaw_def intoString_def)
  ultimately show ?thesis using assms sseRecv_datas [of ds parse fin "[]" "CHR 0x0A # r"] by (simp add: sseRecv_blank)
qed

lemma sseAll_comment: "plain_line c \<Longrightarrow> sseAll parse fin (CHR '':'' # c @ CHR 0x0A # r) = sseAll parse fin r"
  by (subst (1 2) sseAll.simps) (simp add: sseRecv_comment)

text \<open>
  A backend that writes comments and events, each event over one or more lines of data whose text is the JSON of a type
  and an object, has every event delivered, in order, and no other.  When the connection then ends properly the stream ends with
  EOF, and when it breaks off, in the middle of a line or not, with the error: what was complete before is still delivered.
\<close>

theorem sse_stream_delivers:
  assumes "list_all (wf_frame parse) fs" and "CHR 0x0A \<notin> set part" and "fin = None \<longrightarrow> part = []"
  shows "sseAll parse fin (concat (map frame_text fs) @ part) = (concat (map frame_events fs), end_error fin)"
  using assms(1)
proof (induction fs)
  case Nil
  show ?case using assms(2,3)
    by (subst sseAll.simps, subst sseRecv.simps) (auto simp: end_error_def nextLine_Nil split: prod.splits option.splits)
next
  case (Cons f fs)
  show ?case
  proof (cases f)
    case (SseComment c)
    with Cons show ?thesis by (simp add: sseAll_comment)
  next
    case (SseEvent ds t obj)
    then show ?thesis using Cons sseRecv_event [of parse ds t obj] by (subst sseAll.simps) simp
  qed
qed


text \<open>A backend that answers a watch with one comment and one event, written over two lines.\<close>

definition demo_frames :: "sse_frame list" where
  "demo_frames = [SseComment ''ping'', SseEvent [''{'', ''}''] ''added'' JNull]"

definition stream_client :: "kv http_Client" where
  "stream_client = \<lparr>hc_lib = \<lparr>hl_parse = (\<lambda>a. Inl a),
       hl_do = (\<lambda>q b. (Inr \<lparr>hs_status = 200, hs_text = concat (map frame_text demo_frames) @ ''data'', hs_json = None, hs_fail = Some ''reset''\<rparr>, b)),
       hl_json = (\<lambda>s. Some (JObj [(''type'', JStr ''added''), (''object'', JNull)]))\<rparr>, hc_base = \<lparr>bu_root = [], bu_query = []\<rparr>\<rparr>"


section \<open>Names in paths\<close>

text \<open>
  Names are not escaped in the path of a request, which is cut at its first question mark.  For a backend that
  serves objects by method and path, a request to delete the object named \<open>name ? rest\<close> deletes the object \<open>name\<close>, whatever the
  \<open>rest\<close>, and a read of it returns the object \<open>name\<close>: the object acted upon is not the one that was authorized.
\<close>

theorem name_cut_at_question_mark:
  assumes "CHR ''?'' \<notin> set ns" and "CHR ''?'' \<notin> set name" and "\<And>q b x. hl_do (hc_lib c) (q\<lparr>hq_query := x\<rparr>) b = hl_do (hc_lib c) q b"
  shows "http_Delete c u ns (name @ CHR ''?'' # rest) b = http_Delete c u ns name b \<and>
    http_Get c u ns (name @ CHR ''?'' # rest) b = http_Get c u ns name b"
proof -
  have cut: "CHR ''?'' \<notin> set p \<Longrightarrow> splitPathQuery (p @ CHR ''?'' # rest) bq = (p, rest)" for p bq
    by (induction p) (auto simp: splitPathQuery_def)
  have "requestFor c m (objectPath ns (name @ CHR ''?'' # rest)) u None =
      (requestFor c m (objectPath ns name) u None)\<lparr>hq_query := rest\<rparr>" for m
    using cut [of "''/objects/'' @ ns @ ''/'' @ name"] assms(1,2)
    by (simp add: requestFor_def objectPath_def splitPathQuery_def)
  then show ?thesis by (simp add: http_Delete_def http_Get_def doStatus_def assms(3))
qed

text \<open>A transport to a backend that records the methods and paths it is asked for.\<close>

definition log_client :: "(http_method \<times> string) list http_Client" where
  "log_client = \<lparr>hc_lib = \<lparr>hl_parse = (\<lambda>a. Inl a),
       hl_do = (\<lambda>q b. (Inr \<lparr>hs_status = 200, hs_text = [], hs_json = None, hs_fail = None\<rparr>, b @ [(hq_method q, hq_path q)])),
       hl_json = (\<lambda>_. None)\<rparr>, hc_base = \<lparr>bu_root = ''http://backend'', bu_query = []\<rparr>\<rparr>"

lemma name_cut_at_question_mark_witness:
  "http_Delete log_client None ''ns'' (''a'' @ CHR ''?'' # ''b'') [] = http_Delete log_client None ''ns'' ''a'' [] \<and>
   http_Get log_client None ''ns'' (''a'' @ CHR ''?'' # ''b'') [] = http_Get log_client None ''ns'' ''a'' []"
  by (rule name_cut_at_question_mark) (simp_all add: log_client_def)

section \<open>Identity in headers\<close>

text \<open>
  The groups of the user travel as one header, separated by commas.  The backend sees the same request for a user
  in several groups as for a user in one group whose name is theirs with commas between.
\<close>

theorem groups_header_ambiguous:
  assumes "gs \<noteq> []"
  shows "requestFor c m path (Some (u\<lparr>pu_Groups := [join '','' gs]\<rparr>)) body = requestFor c m path (Some (u\<lparr>pu_Groups := gs\<rparr>)) body"
proof -
  have "applyUserHeaders (Some (u\<lparr>pu_Groups := [join '','' gs]\<rparr>)) h = applyUserHeaders (Some (u\<lparr>pu_Groups := gs\<rparr>)) h" for h
    using assms by (simp add: applyUserHeaders_def Let_def)
  then show ?thesis by (simp add: requestFor_def)
qed

lemma groups_header_ambiguous_witness:
  "requestFor log_client GET ''/objects/ns'' (Some (\<lparr>pu_Name = ''u'', pu_Uid = [], pu_Groups = [], pu_Extra = []\<rparr>\<lparr>pu_Groups := [join '','' [''dev'', ''ops'']]\<rparr>)) None =
   requestFor log_client GET ''/objects/ns'' (Some (\<lparr>pu_Name = ''u'', pu_Uid = [], pu_Groups = [], pu_Extra = []\<rparr>\<lparr>pu_Groups := [''dev'', ''ops'']\<rparr>)) None"
  by (rule groups_header_ambiguous) simp

end
