(* ===== verification/V2OpenApi.thy ===== *)
theory V2OpenApi
  imports V2Rest
begin

text \<open>
  \<open>runtime/component/v2/openapi/openapi.go\<close>: the OpenAPI definitions of component resources.  A schema is what the code
  sets of kube-openapi's \<open>spec.Schema\<close>; decoding one from JSON, and the generated baseline definitions, are parameters.  A writing to a nil map, which
  panics, is a value.
\<close>

section \<open>Schemas\<close>

record gvk =
  gk_Group :: string
  gk_Version :: string
  gk_Kind :: string

datatype oschema = Schema (os_Description: string) (os_Type: "string list") (os_Required: "string list") (os_Ref: string)
  (os_Properties: "(string \<times> oschema) list") (os_Items: "oschema option") (os_Extensions: jmap) (os_Rest: jmap)

definition GVKExtension :: string where
  "GVKExtension = ''x-kubernetes-group-version-kind''"

definition gvkEntry :: "gvk \<Rightarrow> json" where
  "gvkEntry g = JArr [JObj [(''group'', JStr (gk_Group g)), (''kind'', JStr (gk_Kind g)), (''version'', JStr (gk_Version g))]]"

text \<open>The bytes of a schema: none, a text that is not JSON, or JSON.\<close>

type_synonym raw = "json option option"

definition ParseBackendSchema :: "(json \<Rightarrow> oschema option) \<Rightarrow> raw \<Rightarrow> gvk \<Rightarrow> string + oschema" where
  "ParseBackendSchema decode raw g =
     (case raw of
        None \<Rightarrow> Inl ''no OpenAPI provided''
      | Some t \<Rightarrow>
          (case Option.bind t decode of
             None \<Rightarrow> Inl ''unmarshal OpenAPI v3''
           | Some (Schema d ty req ref ps items ext oth) \<Rightarrow>
               Inr (Schema d (if ty = [] then [''object''] else ty) req ref ps items (aput GVKExtension (gvkEntry g) ext) oth)))"

definition Fallback :: "gvk \<Rightarrow> string \<Rightarrow> oschema" where
  "Fallback g description =
     Schema (if description = [] then ''Dynamic resource served by a component-server backend. No OpenAPI was supplied; fields are undocumented.''
             else description) [''object''] [] [] [] None
       [(''x-kubernetes-preserve-unknown-fields'', JBool True), (GVKExtension, gvkEntry g)] []"

fun splitOn :: "char \<Rightarrow> string \<Rightarrow> string list" where
  "splitOn sep [] = [[]]"
| "splitOn sep (c # cs) =
     (if c = sep then [] # splitOn sep cs
      else case splitOn sep cs of [] \<Rightarrow> [[c]] | p # ps \<Rightarrow> (c # p) # ps)"

definition FriendlyRef :: "string \<Rightarrow> string" where
  "FriendlyRef name =
     (case split2 (CHR ''/'') name of
        [] \<Rightarrow> name
      | first # tail \<Rightarrow>
          (let host = join ''.'' (rev (splitOn (CHR ''.'') first)) in
           case tail of [] \<Rightarrow> host | p # _ \<Rightarrow> host @ ''.'' @ replace_char (CHR ''/'') (CHR ''.'') p))"

definition plainSchema :: "string \<Rightarrow> string list \<Rightarrow> string \<Rightarrow> oschema option \<Rightarrow> oschema" where
  "plainSchema d ty ref items = Schema d ty [] ref [] items [] []"

definition TrimSuffix :: "string \<Rightarrow> string \<Rightarrow> string" where
  "TrimSuffix s suf = (let n = length s - length suf in if length suf \<le> length s \<and> drop n s = suf then take n s else s)"

definition WrapAsList :: "gvk \<Rightarrow> string \<Rightarrow> oschema" where
  "WrapAsList g itemKey =
     Schema (gk_Kind g @ '' is a list of '' @ TrimSuffix (gk_Kind g) ''List'' @ ''.'') [''object''] [''items''] []
       [(''apiVersion'', plainSchema ''APIVersion defines the versioned schema of this representation of an object.'' [''string''] [] None),
        (''kind'', plainSchema ''Kind is a string value representing the REST resource this object represents.'' [''string''] [] None),
        (''metadata'', plainSchema ''Standard list metadata.'' [] ''#/definitions/io.k8s.apimachinery.pkg.apis.meta.v1.ListMeta'' None),
        (''items'', plainSchema ''List of items.'' [''array''] []
           (Some (plainSchema [] [] (''#/definitions/'' @ FriendlyRef itemKey) None)))]
       None [(GVKExtension, gvkEntry g)] []"

section \<open>Composition\<close>

record openapi_definition =
  od_Schema :: oschema
  od_Dependencies :: "string list"

type_synonym definitions = "(string \<times> openapi_definition) list"

definition baselineDependencies :: "string list" where
  "baselineDependencies = [''k8s.io/apimachinery/pkg/apis/meta/v1.ObjectMeta'', ''k8s.io/apimachinery/pkg/apis/meta/v1.ListMeta'']"

text \<open>\<open>get\<close> is called each time the composition is.\<close>

definition Compose :: "('r \<Rightarrow> definitions) \<Rightarrow> definitions \<Rightarrow> 'r \<Rightarrow> definitions" where
  "Compose baseline get ref = fold (\<lambda>(k, v) defs. aput k v defs) get (baseline ref)"

definition ComposeStatic :: "('r \<Rightarrow> definitions) \<Rightarrow> oschema \<Rightarrow> oschema \<Rightarrow> string \<Rightarrow> string \<Rightarrow> 'r \<Rightarrow> definitions" where
  "ComposeStatic baseline item lst itemKey listKey ref =
     Compose baseline
       (aput listKey \<lparr>od_Schema = lst, od_Dependencies = baselineDependencies\<rparr>
         [(itemKey, \<lparr>od_Schema = item, od_Dependencies = baselineDependencies\<rparr>)]) ref"

section \<open>Synthesis\<close>

text \<open>The call panics, fails, or gives the text of the lifted schema.\<close>

datatype 'a outcome = Panics | Fails string | Gives 'a

definition orDefault :: "string \<Rightarrow> json \<Rightarrow> jmap \<Rightarrow> jmap" where
  "orDefault k v m = (if map_of m k = None then aput k v m else m)"

definition typedAt :: "string \<Rightarrow> jmap \<Rightarrow> jmap" where
  "typedAt k props = (case map_of props k of Some (JObj m) \<Rightarrow> aput k (JObj (orDefault ''type'' (JStr ''object'') m)) props | _ \<Rightarrow> props)"

definition standardProps :: "jmap \<Rightarrow> jmap" where
  "standardProps props =
     aput ''metadata'' (JObj [(''$ref'', JStr ''#/definitions/io.k8s.apimachinery.pkg.apis.meta.v1.ObjectMeta''), (''description'', JStr ''Standard object metadata.'')])
       (aput ''kind'' (JObj [(''description'', JStr ''Kind is a string value representing the REST resource this object represents.''), (''type'', JStr ''string'')])
         (aput ''apiVersion'' (JObj [(''description'', JStr ''APIVersion defines the versioned schema of this representation of an object.''), (''type'', JStr ''string'')]) props))"

definition propsOf :: "jmap \<Rightarrow> jmap" where
  "propsOf root = (case map_of root ''properties'' of Some (JObj m) \<Rightarrow> m | _ \<Rightarrow> [])"

definition liftSchema :: "gvk \<Rightarrow> jmap \<Rightarrow> jmap" where
  "liftSchema g root =
     (let r1 = (if map_of root ''type'' = None \<or> map_of root ''type'' = Some JNull then aput ''type'' (JStr ''object'') root else root);
          props = typedAt ''status'' (typedAt ''spec'' (standardProps (propsOf r1)));
          r2 = aput GVKExtension (gvkEntry g) (aput ''properties'' (JObj props) r1)
      in orDefault ''description'' (JStr (gk_Kind g @ '' is a Kubernetes resource served via runtime/component/v2 (Track B synthesis).'')) r2)"

definition Synthesize :: "gvk \<Rightarrow> raw \<Rightarrow> raw outcome" where
  "Synthesize g jsonSchema =
     (case jsonSchema of
        None \<Rightarrow> Fails ''empty JSON schema''
      | Some t \<Rightarrow>
          (case decodeMap t of
             None \<Rightarrow> Fails ''unmarshal JSON schema''
           | Some None \<Rightarrow> Panics
           | Some (Some root) \<Rightarrow> Gives (Some (Some (JObj (liftSchema g root))))))"

section \<open>What synthesis guarantees\<close>

lemma map_of_orDefault: "map_of (orDefault k v m) x = (if x = k \<and> map_of m k = None then Some v else map_of m x)"
  by (simp add: orDefault_def)

definition typedObject :: "json option \<Rightarrow> json option" where
  "typedObject v = (case v of Some (JObj m) \<Rightarrow> Some (JObj (orDefault ''type'' (JStr ''object'') m)) | _ \<Rightarrow> v)"

lemma map_of_typedAt: "map_of (typedAt k props) x = (if x = k then typedObject (map_of props x) else map_of props x)"
  by (auto simp: typedAt_def typedObject_def split: option.splits json.splits)

lemma propsOf_type: "propsOf (aput ''type'' v root) = propsOf root"
  by (simp add: propsOf_def)

text \<open>
  C19: Synthesis is total on JSON objects.  Whatever a backend's schema holds, the schema it gives names the group, version
  and kind, has a type and a description, describes \<open>apiVersion\<close>, \<open>kind\<close> and \<open>metadata\<close> in the standard way, keeps every other
  property, \<open>spec\<close> and \<open>status\<close> with a type when they are objects, and keeps every other key.  It
  fails on an empty text and on what is no JSON object, except that it panics on \<open>null\<close>.
\<close>

theorem synthesize_outcomes:
  "case Synthesize g text of
     Panics \<Rightarrow> text = Some (Some JNull)
   | Fails e \<Rightarrow> text = None \<or> (\<exists>t. text = Some t \<and> decodeMap t = None)
   | Gives out \<Rightarrow> \<exists>root root' props. text = Some (Some (JObj root)) \<and> out = Some (Some (JObj root')) \<and>
       (\<forall>k. map_of props k =
          (if k \<in> {''apiVersion'', ''kind'', ''metadata''} then map_of (standardProps []) k
           else if k \<in> {''spec'', ''status''} then typedObject (map_of (propsOf root) k)
           else map_of (propsOf root) k)) \<and>
       (\<forall>k. map_of root' k =
          (if k = GVKExtension then Some (gvkEntry g)
           else if k = ''properties'' then Some (JObj props)
           else if k = ''type'' \<and> map_of root k \<in> {None, Some JNull} then Some (JStr ''object'')
           else if k = ''description'' \<and> map_of root k = None
             then Some (JStr (gk_Kind g @ '' is a Kubernetes resource served via runtime/component/v2 (Track B synthesis).''))
           else map_of root k))"
proof (cases "Synthesize g text")
  case (Gives out)
  then obtain root where r: "text = Some (Some (JObj root))" "out = Some (Some (JObj (liftSchema g root)))"
    by (auto simp: Synthesize_def decodeMap_def split: option.splits json.splits if_splits)
  define props where "props = typedAt ''status'' (typedAt ''spec'' (standardProps (propsOf root)))"
  have "map_of props k =
      (if k \<in> {''apiVersion'', ''kind'', ''metadata''} then map_of (standardProps []) k
       else if k \<in> {''spec'', ''status''} then typedObject (map_of (propsOf root) k)
       else map_of (propsOf root) k)" for k
    by (simp add: props_def map_of_typedAt standardProps_def)
  moreover have "map_of (liftSchema g root) k =
      (if k = GVKExtension then Some (gvkEntry g)
       else if k = ''properties'' then Some (JObj props)
       else if k = ''type'' \<and> map_of root k \<in> {None, Some JNull} then Some (JStr ''object'')
       else if k = ''description'' \<and> map_of root k = None
         then Some (JStr (gk_Kind g @ '' is a Kubernetes resource served via runtime/component/v2 (Track B synthesis).''))
       else map_of root k)" for k
    by (auto simp add: liftSchema_def Let_def map_of_orDefault propsOf_type props_def GVKExtension_def)
  ultimately show ?thesis using Gives r by (simp only: outcome.case option.inject json.inject) blast
qed (auto simp: Synthesize_def decodeMap_def split: option.splits json.splits)

end
