(* ===== verification/Multiplex.thy ===== *)
theory Multiplex
  imports HttpBackend V2OpenApi
begin

text \<open>
  \<open>runtime/component/v2/multiplex/multiplex.go\<close>: the reconciler that turns \<open>APIDefinition\<close> objects of the host cluster into
  API groups of the running server.  One state holds the host, the backends, the admission heap, whether a server is
  attached, the work queue and the table of installed definitions.  The host's client, the generic server's
  \<open>InstallAPIGroup\<close>, the dialling of gRPC and the decoding of library types are the record \<open>mx_env\<close>.  Reconciliation runs in
  one worker; a panic of it is a value.
\<close>

section \<open>Definitions\<close>

record api_def =
  ad_Group :: string
  ad_Version :: string
  ad_Kind :: string
  ad_Plural :: string
  ad_Singular :: string
  ad_Scope :: string
  ad_SchemaSource :: string
  ad_Schema :: raw
  ad_Transport :: string
  ad_Address :: string
  ad_WatchCapability :: string
  ad_Admission :: "json Config"

text \<open>The object of the host: its name, its generation and the JSON it marshals to.\<close>

record def_obj =
  do_name :: string
  do_generation :: int
  do_tree :: jmap

definition zero_def :: api_def where
  "zero_def = \<lparr>ad_Group = [], ad_Version = [], ad_Kind = [], ad_Plural = [], ad_Singular = [], ad_Scope = [], ad_SchemaSource = [],
     ad_Schema = None, ad_Transport = [], ad_Address = [], ad_WatchCapability = [], ad_Admission = \<lparr>cf_Mutations = [], cf_Validations = []\<rparr>\<rparr>"

definition mutationField :: "string \<Rightarrow> json \<Rightarrow> json Mutation \<Rightarrow> json Mutation \<times> bool" where
  "mutationField f v m =
     (if f = ''jsonPath'' then (let (s, ok) = intoString v (mu_JSONPath m) in (m\<lparr>mu_JSONPath := s\<rparr>, ok))
      else if f = ''op'' then (let (s, ok) = intoString v (mu_Op m) in (m\<lparr>mu_Op := s\<rparr>, ok))
      else if f = ''value'' then (m\<lparr>mu_Value := v\<rparr>, True)
      else (let (ss, ok) = intoList intoString [] v (mu_Operations m) in (m\<lparr>mu_Operations := ss\<rparr>, ok)))"

definition validationField :: "string \<Rightarrow> json \<Rightarrow> Validation \<Rightarrow> Validation \<times> bool" where
  "validationField f v r =
     (if f = ''expression'' then (let (s, ok) = intoString v (va_Expression r) in (r\<lparr>va_Expression := s\<rparr>, ok))
      else if f = ''message'' then (let (s, ok) = intoString v (va_Message r) in (r\<lparr>va_Message := s\<rparr>, ok))
      else if f = ''fieldPath'' then (let (s, ok) = intoString v (va_FieldPath r) in (r\<lparr>va_FieldPath := s\<rparr>, ok))
      else (let (ss, ok) = intoList intoString [] v (va_Operations r) in (r\<lparr>va_Operations := ss\<rparr>, ok)))"

definition configField :: "string \<Rightarrow> json \<Rightarrow> json Config \<Rightarrow> json Config \<times> bool" where
  "configField f v c =
     (if f = ''mutations'' then
        (let (ms, ok) = intoList (intoStruct [''jsonPath'', ''op'', ''value'', ''operations''] mutationField)
              \<lparr>mu_JSONPath = [], mu_Op = [], mu_Value = JNull, mu_Operations = []\<rparr> v (cf_Mutations c) in (c\<lparr>cf_Mutations := ms\<rparr>, ok))
      else
        (let (vs, ok) = intoList (intoStruct [''expression'', ''message'', ''fieldPath'', ''operations''] validationField)
              \<lparr>va_Expression = [], va_Message = [], va_FieldPath = [], va_Operations = []\<rparr> v (cf_Validations c) in (c\<lparr>cf_Validations := vs\<rparr>, ok)))"

definition backendField :: "string \<Rightarrow> json \<Rightarrow> api_def \<Rightarrow> api_def \<times> bool" where
  "backendField f v d =
     (if f = ''transport'' then (let (s, ok) = intoString v (ad_Transport d) in (d\<lparr>ad_Transport := s\<rparr>, ok))
      else (let (s, ok) = intoString v (ad_Address d) in (d\<lparr>ad_Address := s\<rparr>, ok)))"

text \<open>\<open>runtime.RawExtension\<close> ignores \<open>null\<close>.\<close>

definition specField :: "string \<Rightarrow> json \<Rightarrow> api_def \<Rightarrow> api_def \<times> bool" where
  "specField f v d =
     (if f = ''group'' then (let (s, ok) = intoString v (ad_Group d) in (d\<lparr>ad_Group := s\<rparr>, ok))
      else if f = ''version'' then (let (s, ok) = intoString v (ad_Version d) in (d\<lparr>ad_Version := s\<rparr>, ok))
      else if f = ''kind'' then (let (s, ok) = intoString v (ad_Kind d) in (d\<lparr>ad_Kind := s\<rparr>, ok))
      else if f = ''plural'' then (let (s, ok) = intoString v (ad_Plural d) in (d\<lparr>ad_Plural := s\<rparr>, ok))
      else if f = ''singular'' then (let (s, ok) = intoString v (ad_Singular d) in (d\<lparr>ad_Singular := s\<rparr>, ok))
      else if f = ''scope'' then (let (s, ok) = intoString v (ad_Scope d) in (d\<lparr>ad_Scope := s\<rparr>, ok))
      else if f = ''schemaSource'' then (let (s, ok) = intoString v (ad_SchemaSource d) in (d\<lparr>ad_SchemaSource := s\<rparr>, ok))
      else if f = ''schema'' then (if v = JNull then (d, True) else (d\<lparr>ad_Schema := Some (Some v)\<rparr>, True))
      else if f = ''backend'' then intoStruct [''transport'', ''address''] backendField v d
      else if f = ''watchCapability'' then (let (s, ok) = intoString v (ad_WatchCapability d) in (d\<lparr>ad_WatchCapability := s\<rparr>, ok))
      else (let (c, ok) = intoStruct [''mutations'', ''validations''] configField v (ad_Admission d) in (d\<lparr>ad_Admission := c\<rparr>, ok)))"

definition specFields :: "string list" where
  "specFields = [''group'', ''version'', ''kind'', ''plural'', ''singular'', ''scope'', ''schemaSource'', ''schema'', ''backend'', ''watchCapability'', ''admission'']"

text \<open>Only the spec is used; \<open>others\<close> says whether the metadata and the status decode into the library's types.\<close>

definition defField :: "(string \<Rightarrow> json \<Rightarrow> bool) \<Rightarrow> string \<Rightarrow> json \<Rightarrow> api_def \<Rightarrow> api_def \<times> bool" where
  "defField others f v d = (if f = ''spec'' then intoStruct specFields specField v d else (d, others f v))"

definition requiredFields :: "api_def \<Rightarrow> (string \<times> string) list" where
  "requiredFields d = [(''group'', ad_Group d), (''version'', ad_Version d), (''kind'', ad_Kind d), (''plural'', ad_Plural d),
     (''singular'', ad_Singular d), (''backend.address'', ad_Address d)]"

definition parseAPIDef :: "(string \<Rightarrow> json \<Rightarrow> bool) \<Rightarrow> def_obj \<Rightarrow> string + api_def" where
  "parseAPIDef others u =
     (case unmarshalStruct [''apiVersion'', ''kind'', ''metadata'', ''spec'', ''status''] (defField others) zero_def (Some (JObj (do_tree u))) of
        None \<Rightarrow> Inl ''decode APIDefinition''
      | Some d \<Rightarrow>
          (case find (\<lambda>(k, v). v = []) (requiredFields d) of
             Some (k, _) \<Rightarrow> Inl (''spec.'' @ k @ '' is required'')
           | None \<Rightarrow> Inr d))"

section \<open>State\<close>

text \<open>\<open>group.Group\<close> (\<open>runtime/group/group.go\<close>): the group and version, whether there is a scheme, and the storage of each resource.\<close>

record 'r api_group =
  ag_Group :: string
  ag_Version :: string
  ag_Scheme :: bool
  ag_Resources :: "(string \<times> 'r) list"

text \<open>The upstream watch of a definition: \<open>cancelWatch\<close> is nil, set, or has been called.\<close>

datatype upstream = NotStarted | Watching | Cancelled

record ('h, 'b) installed =
  in_key :: string
  in_Group :: string
  in_Version :: string
  in_kind :: string
  in_plural :: string
  in_singular :: string
  in_namespaced :: bool
  in_apiServiceName :: string
  in_rest :: "('h, 'b) vREST"
  in_groupInstaller :: "('h, 'b) vREST api_group"
  in_watch :: upstream
  in_shut :: bool
  in_itemKey :: string
  in_listKey :: string
  in_itemSchema :: oschema
  in_listSchema :: oschema
  in_alive :: bool

record 'h mx_options =
  mo_CABundle :: string
  mo_ServiceName :: string
  mo_ServiceNamespace :: string
  mo_ReconcileResyncPeriod :: int
  mo_BackendTimeout :: int
  mo_ShutdownGrace :: int
  mo_FieldManager :: string
  mo_MetadataStore :: "'h Store option"

definition mx_Defaults :: "'h mx_options" where
  "mx_Defaults = \<lparr>mo_CABundle = [], mo_ServiceName = ''aggexp'', mo_ServiceNamespace = ''aggexp-system'',
     mo_ReconcileResyncPeriod = 60 * ns_per_s, mo_BackendTimeout = 15 * ns_per_s, mo_ShutdownGrace = 25 * ns_per_s,
     mo_FieldManager = ''aggexp-v2-multiplex'', mo_MetadataStore = None\<rparr>"

record ('h, 'b) mux =
  mx_opts :: "'h mx_options"
  mx_h :: 'h
  mx_b :: 'b
  mx_heap :: heap
  mx_server :: bool
  mx_installed :: "(string \<times> ('h, 'b) installed) list"
  mx_queue :: "string list"

definition mx_New :: "'h mx_options \<Rightarrow> 'h \<Rightarrow> 'b \<Rightarrow> heap \<Rightarrow> ('h, 'b) mux" where
  "mx_New o' h b heap =
     \<lparr>mx_opts = \<lparr>mo_CABundle = mo_CABundle o', mo_ServiceName = mo_ServiceName o', mo_ServiceNamespace = mo_ServiceNamespace o',
        mo_ReconcileResyncPeriod = (if mo_ReconcileResyncPeriod o' \<le> 0 then 60 * ns_per_s else mo_ReconcileResyncPeriod o'),
        mo_BackendTimeout = (if mo_BackendTimeout o' \<le> 0 then 15 * ns_per_s else mo_BackendTimeout o'),
        mo_ShutdownGrace = (if mo_ShutdownGrace o' \<le> 0 then 25 * ns_per_s else mo_ShutdownGrace o'),
        mo_FieldManager = (if mo_FieldManager o' = [] then ''aggexp-v2-multiplex'' else mo_FieldManager o'),
        mo_MetadataStore = mo_MetadataStore o'\<rparr>,
      mx_h = h, mx_b = b, mx_heap = heap, mx_server = False, mx_installed = [], mx_queue = []\<rparr>"

definition AttachServer :: "('h, 'b) mux \<Rightarrow> ('h, 'b) mux" where
  "AttachServer w = w\<lparr>mx_server := True\<rparr>"

section \<open>The host\<close>

record api_service =
  as_name :: string
  as_managedBy :: string
  as_group :: string
  as_version :: string
  as_groupPriorityMinimum :: int
  as_versionPriority :: int
  as_caBundle :: string
  as_service :: "string \<times> string \<times> int"
  as_rv :: string

record condition =
  co_type :: string
  co_status :: string
  co_reason :: string
  co_message :: string
  co_lastTransitionTime :: string
  co_observedGeneration :: int

text \<open>The merge patch of a status; a missing \<open>registeredAPIService\<close> stays as it is.\<close>

record status_patch =
  sp_observedGeneration :: int
  sp_registeredAPIService :: "string option"
  sp_conditions :: "condition list"

text \<open>A backend: the client of the REST adapter, and \<open>GetSchema\<close>.\<close>

record 'b backend =
  bk_client :: "'b client"
  bk_GetSchema :: "'b \<Rightarrow> (rpc_err + schema_resp) \<times> 'b"

text \<open>Errors of libraries enter messages by their text.\<close>

record ('h, 'b) mx_env =
  me_getDef :: "string \<Rightarrow> 'h \<Rightarrow> def_obj res \<times> 'h"
  me_patchStatus :: "string \<Rightarrow> status_patch \<Rightarrow> 'h \<Rightarrow> api_err option \<times> 'h"
  me_getService :: "string \<Rightarrow> 'h \<Rightarrow> api_service res \<times> 'h"
  me_createService :: "api_service \<Rightarrow> 'h \<Rightarrow> api_err option \<times> 'h"
  me_updateService :: "api_service \<Rightarrow> 'h \<Rightarrow> api_err option \<times> 'h"
  me_deleteService :: "string \<Rightarrow> 'h \<Rightarrow> api_err option \<times> 'h"
  me_InstallAPIGroup :: "('h, 'b) vREST api_group \<Rightarrow> 'h \<Rightarrow> string option \<times> 'h"
  me_http :: "'b http_lib"
  me_Dial :: "string \<Rightarrow> 'b \<Rightarrow> (string + 'b backend) \<times> 'b"
  me_decodeSchema :: "json \<Rightarrow> oschema option"
  me_others :: "string \<Rightarrow> json \<Rightarrow> bool"
  me_cel :: cel_lib
  me_rpcText :: "rpc_err \<Rightarrow> string"
  me_apiText :: "api_err \<Rightarrow> string"
  me_newText :: "new_err \<Rightarrow> string"
  me_codecs :: codecs
  me_host :: "'h host"
  me_hash :: "json option \<Rightarrow> string"
  me_visit :: "(string \<times> pollEntry) list \<Rightarrow> (string \<times> pollEntry) list"

definition onHost :: "('h \<Rightarrow> 'a \<times> 'h) \<Rightarrow> ('h, 'b) mux \<Rightarrow> 'a \<times> ('h, 'b) mux" where
  "onHost f w = (let (x, h) = f (mx_h w) in (x, w\<lparr>mx_h := h\<rparr>))"

definition onBackends :: "('b \<Rightarrow> 'a \<times> 'b) \<Rightarrow> ('h, 'b) mux \<Rightarrow> 'a \<times> ('h, 'b) mux" where
  "onBackends f w = (let (x, b) = f (mx_b w) in (x, w\<lparr>mx_b := b\<rparr>))"

section \<open>Status\<close>

definition newCondition :: "('h, 'b) mx_env \<Rightarrow> string \<Rightarrow> string \<Rightarrow> string \<Rightarrow> string \<Rightarrow> int \<Rightarrow> ('h, 'b) mux \<Rightarrow> condition \<times> ('h, 'b) mux" where
  "newCondition E t s reason msg gen w =
     (let (now, w1) = onHost (h_now (me_host E)) w in
      (\<lparr>co_type = t, co_status = s, co_reason = reason, co_message = msg, co_lastTransitionTime = rfc3339 now, co_observedGeneration = gen\<rparr>, w1))"

text \<open>A failed patch is only logged.\<close>

definition writeStatus :: "('h, 'b) mx_env \<Rightarrow> string \<Rightarrow> status_patch \<Rightarrow> ('h, 'b) mux \<Rightarrow> ('h, 'b) mux" where
  "writeStatus E name p w = snd (onHost (me_patchStatus E name p) w)"

definition recordSuccess :: "('h, 'b) mx_env \<Rightarrow> def_obj \<Rightarrow> ('h, 'b) installed \<Rightarrow> ('h, 'b) mux \<Rightarrow> ('h, 'b) mux" where
  "recordSuccess E u inst w =
     (let gen = do_generation u; svc = in_apiServiceName inst;
          (c1, w1) = newCondition E ''Ready'' ''True'' ''Reconciled'' (''APIDefinition reconciled; APIService '' @ svc @ '' active'') gen w;
          (c2, w2) = newCondition E ''Available'' ''True'' ''APIServiceRegistered'' (''APIService '' @ svc @ '' exists on host cluster'') gen w1
      in writeStatus E (do_name u) \<lparr>sp_observedGeneration = gen, sp_registeredAPIService = Some svc, sp_conditions = [c1, c2]\<rparr> w2)"

definition recordCondition :: "('h, 'b) mx_env \<Rightarrow> string \<Rightarrow> string \<Rightarrow> string \<Rightarrow> string \<Rightarrow> string \<Rightarrow> ('h, 'b) mux \<Rightarrow> ('h, 'b) mux" where
  "recordCondition E name condType status reason msg w =
     (let (r, w1) = onHost (me_getDef E name) w;
          gen = (case r of Inl _ \<Rightarrow> 0 | Inr o' \<Rightarrow> do_generation o');
          (c, w2) = newCondition E condType status reason msg gen w1
      in writeStatus E name \<lparr>sp_observedGeneration = gen, sp_registeredAPIService = None, sp_conditions = [c]\<rparr> w2)"

text \<open>\<open>strings.Contains\<close>.\<close>

fun Contains :: "string \<Rightarrow> string \<Rightarrow> bool" where
  "Contains [] sub \<longleftrightarrow> sub = []"
| "Contains (c # cs) sub \<longleftrightarrow> HasPrefix (c # cs) sub \<or> Contains cs sub"

definition classifyReason :: "string \<Rightarrow> string" where
  "classifyReason s =
     (if Contains s ''GetSchema'' \<or> Contains s ''dial'' \<or> Contains s ''connect'' then ''BackendUnreachable''
      else if Contains s ''synthesis'' \<or> Contains s ''parse OpenAPI'' \<or> Contains s ''schemaSource'' then ''SchemaInvalid''
      else if Contains s ''admission compile'' then ''AdmissionInvalid''
      else ''ReconcileError'')"

section \<open>API services\<close>

definition buildAPIServiceUnstructured :: "string \<Rightarrow> string \<Rightarrow> string \<Rightarrow> string \<Rightarrow> string \<Rightarrow> string \<Rightarrow> api_service" where
  "buildAPIServiceUnstructured name g v svcName svcNs ca =
     \<lparr>as_name = name, as_managedBy = ''aggexp-v2-multiplex'', as_group = g, as_version = v, as_groupPriorityMinimum = 1000,
      as_versionPriority = 15, as_caBundle = ca, as_service = (svcName, svcNs, 443), as_rv = []\<rparr>"

definition ensureAPIService :: "('h, 'b) mx_env \<Rightarrow> ('h, 'b) installed \<Rightarrow> ('h, 'b) mux \<Rightarrow> (string + ('h, 'b) installed) \<times> ('h, 'b) mux" where
  "ensureAPIService E inst w =
     (let o' = mx_opts w;
          u = buildAPIServiceUnstructured (in_apiServiceName inst) (in_Group inst) (in_Version inst) (mo_ServiceName o') (mo_ServiceNamespace o') (mo_CABundle o')
      in case onHost (me_getService E (in_apiServiceName inst)) w of
           (Inl e, w1) \<Rightarrow>
             (if \<not> is_not_found e then (Inl (''get apiservice: '' @ me_apiText E e), w1)
              else case onHost (me_createService E u) w1 of
                     (Some e', w2) \<Rightarrow> (Inl (''create apiservice: '' @ me_apiText E e'), w2)
                   | (None, w2) \<Rightarrow> (Inr (inst\<lparr>in_alive := True\<rparr>), w2))
         | (Inr existing, w1) \<Rightarrow>
             (case onHost (me_updateService E (u\<lparr>as_rv := as_rv existing\<rparr>)) w1 of
                (Some e', w2) \<Rightarrow> (Inl (''update apiservice: '' @ me_apiText E e'), w2)
              | (None, w2) \<Rightarrow> (Inr (inst\<lparr>in_alive := True\<rparr>), w2)))"

section \<open>Building an adapter\<close>

definition toLower :: "string \<Rightarrow> string" where
  "toLower s = map lower s"

text \<open>\<open>%q\<close> of a printable text.\<close>

definition quoted :: "string \<Rightarrow> string" where
  "quoted s = CHR 0x22 # concat (map (\<lambda>c. if c = CHR 0x22 \<or> c = CHR 0x5C then [CHR 0x5C, c] else [c]) s) @ [CHR 0x22]"

definition selectBackend :: "('h, 'b) mx_env \<Rightarrow> api_def \<Rightarrow> ('h, 'b) mux \<Rightarrow> (string + 'b backend) \<times> ('h, 'b) mux" where
  "selectBackend E d w =
     (let t = toLower (ad_Transport d) in
      if t = [] \<or> t = ''http''
      then (case http_New (me_http E) (ad_Address d) of
              Inl e \<Rightarrow> (Inl (''http client: '' @ e), w)
            | Inr c \<Rightarrow> (Inr \<lparr>bk_client = http_backend c, bk_GetSchema = http_GetSchema c\<rparr>, w))
      else if t = ''grpc''
      then (case onBackends (me_Dial E (ad_Address d)) w of
              (Inl e, w1) \<Rightarrow> (Inl (''grpc dial: '' @ e), w1)
            | (Inr bk, w1) \<Rightarrow> (Inr bk, w1))
      else (Inl (''unknown backend transport '' @ quoted (ad_Transport d)), w))"

text \<open>The schema, whether it is OpenAPI, the columns, the row fields and the watch capability.\<close>

definition fetchSchema :: "('h, 'b) mx_env \<Rightarrow> api_def \<Rightarrow> 'b backend \<Rightarrow> ('h, 'b) mux \<Rightarrow>
    (string + raw \<times> bool \<times> string list \<times> string list \<times> string) \<times> ('h, 'b) mux" where
  "fetchSchema E d bk w =
     (let src = ad_SchemaSource d in
      if src = [] \<or> src = ''backendJSONSchema''
      then (case onBackends (bk_GetSchema bk) w of
              (Inl e, w1) \<Rightarrow> (Inl (''backend GetSchema: '' @ me_rpcText E e), w1)
            | (Inr r, w1) \<Rightarrow>
                (Inr (sr_schema r, sr_bools r ''schemaIsOpenapi'', map tc_Name (sr_columns r), sr_lists r ''rowFields'',
                  if ad_WatchCapability d = [] then sr_strings r ''watchCapability'' else ad_WatchCapability d), w1))
      else if src = ''configEmbedded''
      then (if ad_Schema d = None then (Inl ''schemaSource=configEmbedded but spec.schema is missing'', w)
            else (Inr (ad_Schema d, False, [], [], ad_WatchCapability d), w))
      else (Inl (''unknown schemaSource '' @ quoted src), w))"

definition ObjectCanonicalName :: string where
  "ObjectCanonicalName = ''github.com/cheeseandcereal/aggexp/runtime/component/v2/scheme.Object''"

definition ObjectListCanonicalName :: string where
  "ObjectListCanonicalName = ''github.com/cheeseandcereal/aggexp/runtime/component/v2/scheme.ObjectList''"

text \<open>The descriptor of the adapter: it takes nothing of the schema but the columns and the watch capability.\<close>

definition descriptorFor :: "api_def \<Rightarrow> string list \<Rightarrow> string list \<Rightarrow> string \<Rightarrow> vdesc" where
  "descriptorFor d cols rows cap =
     \<lparr>vd_Group = ad_Group d, vd_Version = ad_Version d, vd_Resource = ad_Plural d, vd_Kind = ad_Kind d, vd_Singular = ad_Singular d,
      vd_Namespaced = (ad_Scope d = ''Namespaced''), vd_Writable = True, vd_SupportsServerSideApply = True, vd_UseTypedWrapper = True,
      vd_Columns = (if cols = [] then [''Name'', ''Age''] else cols),
      vd_RowFields = (if cols = [] then [''.metadata.name'', ''.metadata.creationTimestamp''] else rows),
      vd_GroupResource = Some \<lparr>gr_group = ad_Group d, gr_resource = ad_Plural d\<rparr>,
      vd_SupportsValidation = False, vd_SupportsMutation = False,
      vd_WatchMode = Some (if toLower cap = ''push'' \<or> toLower cap = ''both'' then ModePush else ModePoll), vd_PollInterval = 0\<rparr>"

text \<open>The engine of a definition with rules; the values of its rules go to the heap.\<close>

definition engineFor :: "('h, 'b) mx_env \<Rightarrow> json Config \<Rightarrow> ('h, 'b) mux \<Rightarrow> (string + Engine option) \<times> ('h, 'b) mux" where
  "engineFor E cfg w =
     (if cf_Validations cfg = [] \<and> cf_Mutations cfg = [] then (Inr None, w)
      else let (ms, hp) = loadMutations (cf_Mutations cfg) (mx_heap w); w1 = w\<lparr>mx_heap := hp\<rparr> in
           case engine_New (me_cel E) \<lparr>cf_Mutations = ms, cf_Validations = cf_Validations cfg\<rparr> of
             Inl e \<Rightarrow> (Inl (''admission compile: '' @ me_newText E e), w1)
           | Inr eng \<Rightarrow> (Inr (Some eng), w1))"

definition adapterFor :: "('h, 'b) mx_env \<Rightarrow> vdesc \<Rightarrow> 'b client \<Rightarrow> ('h, 'b) mux \<Rightarrow> ('h, 'b) vREST" where
  "adapterFor E desc c w =
     (let R = fst (v2_New (me_codecs E) (me_host E) (me_hash E) (me_visit E) desc c (mx_h w) (mx_b w) (mx_heap w)) in
      case mo_MetadataStore (mx_opts w) of None \<Rightarrow> R | Some s \<Rightarrow> WithMetadataStore s R)"

definition entryFor :: "string \<Rightarrow> api_def \<Rightarrow> ('h, 'b) vREST \<Rightarrow> oschema \<Rightarrow> ('h, 'b) installed" where
  "entryFor defName d R item =
     \<lparr>in_key = defName, in_Group = ad_Group d, in_Version = ad_Version d, in_kind = ad_Kind d,
      in_plural = ad_Plural d, in_singular = ad_Singular d, in_namespaced = (ad_Scope d = ''Namespaced''),
      in_apiServiceName = ad_Version d @ ''.'' @ ad_Group d, in_rest = R,
      in_groupInstaller = \<lparr>ag_Group = ad_Group d, ag_Version = ad_Version d, ag_Scheme = True, ag_Resources = [(ad_Plural d, R)]\<rparr>,
      in_watch = NotStarted, in_shut = False,
      in_itemKey = ObjectCanonicalName, in_listKey = ObjectListCanonicalName, in_itemSchema = item,
      in_listSchema = WrapAsList \<lparr>gk_Group = ad_Group d, gk_Version = ad_Version d, gk_Kind = ad_Kind d @ ''List''\<rparr> ObjectCanonicalName,
      in_alive = False\<rparr>"

definition buildInstall :: "('h, 'b) mx_env \<Rightarrow> string \<Rightarrow> api_def \<Rightarrow> ('h, 'b) mux \<Rightarrow> ('h, 'b) installed outcome \<times> ('h, 'b) mux" where
  "buildInstall E defName d w =
     (case selectBackend E d w of
        (Inl e, w1) \<Rightarrow> (Fails e, w1)
      | (Inr bk, w1) \<Rightarrow>
          (case fetchSchema E d bk w1 of
             (Inl e, w2) \<Rightarrow> (Fails e, w2)
           | (Inr (raw0, isOpenAPI, cols, rows, cap), w2) \<Rightarrow>
               (let g = \<lparr>gk_Group = ad_Group d, gk_Version = ad_Version d, gk_Kind = ad_Kind d\<rparr> in
                case (if isOpenAPI then Gives raw0 else Synthesize g raw0) of
                  Panics \<Rightarrow> (Panics, w2)
                | Fails e \<Rightarrow> (Fails (''synthesis lift: '' @ e), w2)
                | Gives rawSchema \<Rightarrow>
                    (case ParseBackendSchema (me_decodeSchema E) rawSchema g of
                       Inl e \<Rightarrow> (Fails (''parse OpenAPI: '' @ e), w2)
                     | Inr item \<Rightarrow>
                         (let desc = descriptorFor d cols rows cap; R = adapterFor E desc (bk_client bk) w2 in
                          case engineFor E (ad_Admission d) w2 of
                            (Inl e, w3) \<Rightarrow> (Fails e, w3)
                          | (Inr eng, w3) \<Rightarrow>
                              (let R1 = (if eng = None then R else WithAdmission eng R) in
                               (Gives (entryFor defName d R1 item), w3)))))))"

section \<open>Installing\<close>

definition group_Install :: "('h, 'b) mx_env \<Rightarrow> ('h, 'b) vREST api_group \<Rightarrow> ('h, 'b) mux \<Rightarrow> string option \<times> ('h, 'b) mux" where
  "group_Install E g w =
     (if \<not> ag_Scheme g then (Some ''Group.Scheme is required'', w)
      else case onHost (me_InstallAPIGroup E g) w of
             (Some e, w1) \<Rightarrow>
               (Some (''install api group '' @ (if ag_Group g = [] then ag_Version g else ag_Group g @ ''/'' @ ag_Version g) @ '': '' @ e), w1)
           | (None, w1) \<Rightarrow> (None, w1))"

definition installGroup :: "('h, 'b) mx_env \<Rightarrow> ('h, 'b) installed \<Rightarrow> ('h, 'b) mux \<Rightarrow> string option \<times> ('h, 'b) mux" where
  "installGroup E inst w =
     (if \<not> mx_server w then (Some ''apiserver not yet attached'', w)
      else case group_Install E (in_groupInstaller inst) w of
             (Some e, w1) \<Rightarrow> (Some (''InstallAPIGroup: '' @ e), w1)
           | (None, w1) \<Rightarrow> (None, w1))"

definition putInst :: "string \<Rightarrow> ('h, 'b) installed \<Rightarrow> ('h, 'b) mux \<Rightarrow> ('h, 'b) mux" where
  "putInst key i w = w\<lparr>mx_installed := aput key i (mx_installed w)\<rparr>"

section \<open>Reconciliation\<close>

definition defKey :: "api_def \<Rightarrow> string" where
  "defKey d = ad_Group d @ ''/'' @ ad_Version d"

definition installNew :: "('h, 'b) mx_env \<Rightarrow> def_obj \<Rightarrow> string \<Rightarrow> ('h, 'b) installed \<Rightarrow> ('h, 'b) mux \<Rightarrow> unit outcome \<times> ('h, 'b) mux" where
  "installNew E u key inst w =
     (let name = do_name u in
      case installGroup E inst (putInst key inst w) of
        (Some e, w1) \<Rightarrow>
          (Fails e, recordCondition E name ''Ready'' ''False'' ''InstallGroupFailed'' e (w1\<lparr>mx_installed := adel key (mx_installed w1)\<rparr>))
      | (None, w1) \<Rightarrow>
          (case ensureAPIService E inst w1 of
             (Inl e, w2) \<Rightarrow> (Fails e, recordCondition E name ''Available'' ''False'' ''APIServiceError'' e w2)
           | (Inr inst1, w2) \<Rightarrow>
               (let inst2 = inst1\<lparr>in_watch := Watching\<rparr> in (Gives (), recordSuccess E u inst2 (putInst key inst2 w2)))))"

definition reconcileUpsert :: "('h, 'b) mx_env \<Rightarrow> def_obj \<Rightarrow> ('h, 'b) mux \<Rightarrow> unit outcome \<times> ('h, 'b) mux" where
  "reconcileUpsert E u w =
     (let name = do_name u in
      case parseAPIDef (me_others E) u of
        Inl e \<Rightarrow> (Fails e, recordCondition E name ''Ready'' ''False'' ''SchemaInvalid'' e w)
      | Inr d \<Rightarrow>
          (case map_of (mx_installed w) (defKey d) of
             Some i \<Rightarrow>
               (if in_key i \<noteq> name
                then (let msg = ''group/version '' @ defKey d @ '' is already registered by APIDefinition '' @ quoted (in_key i)
                      in (Fails msg, recordCondition E name ''Ready'' ''False'' ''Conflict'' msg w))
                else if in_alive i then (Gives (), recordSuccess E u i w)
                else (case ensureAPIService E i w of
                        (Inl e, w1) \<Rightarrow> (Fails e, recordCondition E name ''Available'' ''False'' ''APIServiceError'' e w1)
                      | (Inr i1, w1) \<Rightarrow> (Gives (), recordSuccess E u i1 (putInst (defKey d) i1 w1))))
           | None \<Rightarrow>
               (case buildInstall E name d w of
                  (Panics, w1) \<Rightarrow> (Panics, w1)
                | (Fails e, w1) \<Rightarrow> (Fails e, recordCondition E name ''Ready'' ''False'' (classifyReason e) e w1)
                | (Gives inst, w1) \<Rightarrow> installNew E u (defKey d) inst w1)))"

definition tornDown :: "('h, 'b) installed \<Rightarrow> ('h, 'b) installed" where
  "tornDown i = i\<lparr>in_alive := False, in_watch := (if in_watch i = NotStarted then NotStarted else Cancelled), in_shut := True\<rparr>"

text \<open>\<open>err != nil && !apierrors.IsNotFound(err)\<close>.\<close>

definition deleteError :: "api_err option \<Rightarrow> api_err option" where
  "deleteError failed = (case failed of None \<Rightarrow> None | Some e \<Rightarrow> if is_not_found e then None else Some e)"

text \<open>The table is ranged over in its own order; only the first entry of the definition is torn down, and it stays in the table.\<close>

definition reconcileDelete :: "('h, 'b) mx_env \<Rightarrow> string \<Rightarrow> ('h, 'b) mux \<Rightarrow> unit outcome \<times> ('h, 'b) mux" where
  "reconcileDelete E name w =
     (case find (\<lambda>(k, i). in_key i = name) (mx_installed w) of
        None \<Rightarrow> (Gives (), w)
      | Some (key, i) \<Rightarrow>
          (let (failed, w1) = (if in_alive i then onHost (me_deleteService E (in_apiServiceName i)) w else (None, w)) in
           case deleteError failed of
             Some e \<Rightarrow> (Fails (''delete apiservice '' @ in_apiServiceName i @ '': '' @ me_apiText E e), w1)
           | None \<Rightarrow> (Gives (), putInst key (tornDown i) w1)))"

definition reconcile :: "('h, 'b) mx_env \<Rightarrow> string \<Rightarrow> ('h, 'b) mux \<Rightarrow> unit outcome \<times> ('h, 'b) mux" where
  "reconcile E name w =
     (case onHost (me_getDef E name) w of
        (Inl e, w1) \<Rightarrow>
          (if is_not_found e then reconcileDelete E name w1
           else (Fails (''get apidefinition '' @ name @ '': '' @ me_apiText E e), w1))
      | (Inr u, w1) \<Rightarrow> reconcileUpsert E u w1)"

section \<open>The queue\<close>

text \<open>A queue holds a name once; events of objects without a name are dropped.\<close>

definition enqueue :: "string \<Rightarrow> ('h, 'b) mux \<Rightarrow> ('h, 'b) mux" where
  "enqueue name w = (if name = [] \<or> name \<in> set (mx_queue w) then w else w\<lparr>mx_queue := mx_queue w @ [name]\<rparr>)"

text \<open>One item of the worker; what fails is queued again.\<close>

definition processNext :: "('h, 'b) mx_env \<Rightarrow> ('h, 'b) mux \<Rightarrow> ('h, 'b) mux option" where
  "processNext E w =
     (case mx_queue w of
        [] \<Rightarrow> Some w
      | name # q \<Rightarrow>
          (case reconcile E name (w\<lparr>mx_queue := q\<rparr>) of
             (Panics, _) \<Rightarrow> None
           | (Fails e, w1) \<Rightarrow> Some (enqueue name w1)
           | (Gives _, w1) \<Rightarrow> Some w1))"

section \<open>Shutting down, and OpenAPI\<close>

fun sweepEntries :: "('h, 'b) mx_env \<Rightarrow> (string \<times> ('h, 'b) installed) list \<Rightarrow> ('h, 'b) mux \<Rightarrow> ('h, 'b) mux" where
  "sweepEntries E [] w = w"
| "sweepEntries E ((key, i) # es) w =
     (if \<not> in_alive i then sweepEntries E es w
      else case onHost (me_deleteService E (in_apiServiceName i)) w of
             (failed, w1) \<Rightarrow>
               (if deleteError failed = None
                then sweepEntries E es (putInst key (i\<lparr>in_alive := False\<rparr>) w1)
                else sweepEntries E es w1))"

definition ShutdownSweep :: "('h, 'b) mx_env \<Rightarrow> ('h, 'b) mux \<Rightarrow> ('h, 'b) mux" where
  "ShutdownSweep E w = sweepEntries E (mx_installed w) w"

definition OpenAPIClosure :: "('r \<Rightarrow> definitions) \<Rightarrow> ('h, 'b) mux \<Rightarrow> 'r \<Rightarrow> definitions" where
  "OpenAPIClosure baseline w =
     Compose baseline
       (fold (\<lambda>(k, i) out. aput (in_listKey i) \<lparr>od_Schema = in_listSchema i, od_Dependencies = []\<rparr>
                (aput (in_itemKey i) \<lparr>od_Schema = in_itemSchema i, od_Dependencies = []\<rparr> out)) (mx_installed w) [])"

end
