(* ===== verification/MultiplexSpec.thy ===== *)
theory MultiplexSpec
  imports Multiplex V2RestSpec
begin

text \<open>
  What the multiplexing reconciler promises: who owns a group and version, what a definition that is already installed gets, what the
  adapters it builds leave out, and what OpenAPI shows of several definitions.
\<close>

section \<open>Frames\<close>

text \<open>Operations that touch the host, the backends and the heap but no part of the multiplexer's own state.\<close>

definition mx_same :: "('h, 'b) mux \<Rightarrow> ('h, 'b) mux \<Rightarrow> bool" where
  "mx_same w w' \<longleftrightarrow> mx_installed w' = mx_installed w \<and> mx_queue w' = mx_queue w \<and> mx_server w' = mx_server w \<and> mx_opts w' = mx_opts w"

lemma mx_same_refl [simp]: "mx_same w w"
  by (simp add: mx_same_def)

lemma mx_same_trans: "mx_same w w1 \<Longrightarrow> mx_same w1 w2 \<Longrightarrow> mx_same w w2"
  by (simp add: mx_same_def)

lemma onHost_same: "onHost f w = (x, w') \<Longrightarrow> mx_same w w'"
  by (auto simp: onHost_def mx_same_def split: prod.splits)

lemma onBackends_same: "onBackends f w = (x, w') \<Longrightarrow> mx_same w w'"
  by (auto simp: onBackends_def mx_same_def split: prod.splits)

lemma newCondition_same: "newCondition E t s r m g w = (c, w') \<Longrightarrow> mx_same w w'"
  by (auto simp: newCondition_def dest: onHost_same split: prod.splits)

lemma writeStatus_same [simp]: "mx_same v (writeStatus E n p w) \<longleftrightarrow> mx_same v w"
proof -
  have "mx_same w (writeStatus E n p w)" unfolding writeStatus_def by (metis onHost_same prod.collapse)
  then show ?thesis by (auto simp: mx_same_def)
qed

lemma recordCondition_same: "mx_same w (recordCondition E n t s r m w)"
  unfolding recordCondition_def Let_def
  by (auto split: prod.splits dest!: onHost_same newCondition_same dest: mx_same_trans)

lemma recordSuccess_same: "mx_same w (recordSuccess E u i w)"
  unfolding recordSuccess_def Let_def
  by (auto split: prod.splits dest!: newCondition_same dest: mx_same_trans)

lemma ensure_same:
  assumes "ensureAPIService E i w = (r, w')"
  shows "mx_same w w'" and "r = Inr i1 \<Longrightarrow> i1 = i\<lparr>in_alive := True\<rparr>"
  using assms unfolding ensureAPIService_def Let_def
  by (auto split: prod.splits sum.splits option.splits if_splits dest!: onHost_same dest: mx_same_trans)

lemma selectBackend_same: "selectBackend E d w = (r, w') \<Longrightarrow> mx_same w w'"
  unfolding selectBackend_def Let_def by (auto split: prod.splits sum.splits if_splits dest!: onBackends_same)

lemma fetchSchema_same: "fetchSchema E d bk w = (r, w') \<Longrightarrow> mx_same w w'"
  unfolding fetchSchema_def Let_def by (auto split: prod.splits sum.splits if_splits dest!: onBackends_same)

lemma engineFor_same: "engineFor E cfg w = (r, w') \<Longrightarrow> mx_same w w'"
  unfolding engineFor_def Let_def by (auto simp: mx_same_def split: prod.splits sum.splits if_splits)

text \<open>What an entry that was built holds.\<close>

definition fresh_entry :: "string \<Rightarrow> api_def \<Rightarrow> ('h, 'b) installed \<Rightarrow> bool" where
  "fresh_entry n d i \<longleftrightarrow> in_key i = n \<and> in_Group i = ad_Group d \<and> in_Version i = ad_Version d \<and>
     in_apiServiceName i = ad_Version d @ ''.'' @ ad_Group d \<and> in_itemKey i = ObjectCanonicalName \<and> in_listKey i = ObjectListCanonicalName \<and>
     in_watch i = NotStarted \<and> \<not> in_shut i \<and> \<not> in_alive i \<and>
     \<not> vd_SupportsValidation (vr_desc (in_rest i)) \<and> \<not> vd_SupportsMutation (vr_desc (in_rest i)) \<and> vd_Writable (vr_desc (in_rest i))"

lemma adapterFor_desc: "vr_desc (adapterFor E desc c w) = desc"
  by (simp add: adapterFor_def v2_New_def WithMetadataStore_def Let_def split: option.splits)

lemma fresh_entryFor:
  assumes "vr_desc R = descriptorFor d cols rows cap"
  shows "fresh_entry n d (entryFor n d R item)"
  by (simp add: fresh_entry_def entryFor_def assms descriptorFor_def)

lemma fresh_built:
  "fresh_entry n d (entryFor n d (adapterFor E (descriptorFor d cols rows cap) c w) item)"
  "fresh_entry n d (entryFor n d (WithAdmission eng (adapterFor E (descriptorFor d cols rows cap) c w)) item)"
  by (rule fresh_entryFor, simp add: adapterFor_desc WithAdmission_def)+

lemma build_result:
  assumes "buildInstall E n d w = (r, w')"
  shows "mx_same w w'" and "r = Gives i \<Longrightarrow> fresh_entry n d i"
proof -
  obtain r1 w1 where 1: "selectBackend E d w = (r1, w1)" by fastforce
  note [simp] = 1
  have s1: "mx_same w w1" using selectBackend_same [OF 1] .
  have "mx_same w w' \<and> (r = Gives i \<longrightarrow> fresh_entry n d i)"
  proof (cases r1)
    case (Inr bk)
    obtain r2 w2 where 2: "fetchSchema E d bk w1 = (r2, w2)" by fastforce
    have s2: "mx_same w w2" using fetchSchema_same [OF 2] s1 mx_same_trans by metis
    show ?thesis
    proof (cases r2)
      case r2: (Inr x)
      obtain r3 w3 where 3: "engineFor E (ad_Admission d) w2 = (r3, w3)" by fastforce
      have "mx_same w w3" using engineFor_same [OF 3] s2 mx_same_trans by metis
      with assms s2 show ?thesis
        unfolding buildInstall_def by (auto simp: 2 Inr r2 3 Let_def fresh_built split: prod.splits sum.splits if_splits outcome.splits)
    qed (use assms s2 in \<open>auto simp: buildInstall_def 2 Inr\<close>)
  qed (use assms s1 in \<open>auto simp: buildInstall_def\<close>)
  then show "mx_same w w'" and "r = Gives i \<Longrightarrow> fresh_entry n d i" by blast+
qed

lemma installGroup_same: "installGroup E i w = (r, w') \<Longrightarrow> mx_same w w'"
  unfolding installGroup_def group_Install_def by (auto dest: onHost_same split: prod.splits option.splits if_splits)

section \<open>Entries over time\<close>

text \<open>
  What may change of an entry: whether its APIService is known to exist, and that it is torn down.  The adapter, the schemas and the
  owner stay; a watch that was never started stays so, and one that was cancelled too.
\<close>

definition entry_kept :: "('h, 'b) installed \<Rightarrow> ('h, 'b) installed \<Rightarrow> bool" where
  "entry_kept i i' \<longleftrightarrow> i' = i\<lparr>in_alive := in_alive i', in_watch := in_watch i', in_shut := in_shut i'\<rparr> \<and>
     (in_shut i \<longrightarrow> in_shut i') \<and> (in_watch i' = in_watch i \<or> in_watch i = Watching \<and> in_watch i' = Cancelled)"

type_synonym ('h, 'b) table = "(string \<times> ('h, 'b) installed) list"

definition table_kept :: "('h, 'b) table \<Rightarrow> ('h, 'b) table \<Rightarrow> bool" where
  "table_kept T T' \<longleftrightarrow> (\<forall>k i. map_of T k = Some i \<longrightarrow> (\<exists>i'. map_of T' k = Some i' \<and> entry_kept i i'))"

definition wf_entry :: "string \<Rightarrow> ('h, 'b) installed \<Rightarrow> bool" where
  "wf_entry k i \<longleftrightarrow> k = in_Group i @ ''/'' @ in_Version i \<and> in_apiServiceName i = in_Version i @ ''.'' @ in_Group i \<and>
     in_itemKey i = ObjectCanonicalName \<and> in_listKey i = ObjectListCanonicalName \<and>
     \<not> vd_SupportsValidation (vr_desc (in_rest i)) \<and> \<not> vd_SupportsMutation (vr_desc (in_rest i)) \<and> vd_Writable (vr_desc (in_rest i))"

definition wf_table :: "('h, 'b) table \<Rightarrow> bool" where
  "wf_table T \<longleftrightarrow> distinct (akeys T) \<and> (\<forall>k i. map_of T k = Some i \<longrightarrow> wf_entry k i)"

lemma entry_kept_refl [simp]: "entry_kept i i"
  by (simp add: entry_kept_def)

lemma entry_kept_alive [simp]: "entry_kept i (i\<lparr>in_alive := a\<rparr>)"
  by (simp add: entry_kept_def)

lemma entry_kept_tornDown [simp]: "entry_kept i (tornDown i)"
  by (cases "in_watch i") (simp_all add: entry_kept_def tornDown_def)

lemma entry_kept_trans: "entry_kept i i1 \<Longrightarrow> entry_kept i1 i2 \<Longrightarrow> entry_kept i i2"
  unfolding entry_kept_def by (cases i) (cases i1; cases i2; auto)

lemma entry_kept_wf: "entry_kept i i' \<Longrightarrow> wf_entry k i \<Longrightarrow> wf_entry k i'"
  by (cases i; cases i') (simp add: entry_kept_def wf_entry_def)

lemma table_kept_refl [simp]: "table_kept T T"
  by (simp add: table_kept_def)

lemma table_kept_trans: "table_kept T T1 \<Longrightarrow> table_kept T1 T2 \<Longrightarrow> table_kept T T2"
  unfolding table_kept_def by (meson entry_kept_trans)

text \<open>A step of the table: one that keeps its entries and its form.\<close>

definition table_step :: "('h, 'b) table \<Rightarrow> ('h, 'b) table \<Rightarrow> bool" where
  "table_step T T' \<longleftrightarrow> table_kept T T' \<and> (wf_table T \<longrightarrow> wf_table T')"

lemma table_step_refl [simp]: "table_step T T"
  by (simp add: table_step_def)

lemma table_step_trans: "table_step T T1 \<Longrightarrow> table_step T1 T2 \<Longrightarrow> table_step T T2"
  unfolding table_step_def using table_kept_trans by blast

lemma table_step_put: "map_of T k = Some i \<Longrightarrow> entry_kept i i' \<Longrightarrow> table_step T (aput k i' T)"
  using entry_kept_wf [of i i' k] by (auto simp: table_step_def table_kept_def wf_table_def)

lemma table_step_add: "map_of T k = None \<Longrightarrow> wf_entry k i \<Longrightarrow> table_step T (aput k i T)"
  by (auto simp: table_step_def table_kept_def wf_table_def)

lemma adel_aput: "map_of T k = None \<Longrightarrow> adel k (aput k i T) = T"
  by (induction T) (auto simp: adel_def delete_id split: if_splits)

lemma fresh_wf:
  assumes "fresh_entry n d i"
  shows "wf_entry (defKey d) i" "wf_entry (defKey d) (i\<lparr>in_alive := True, in_watch := Watching\<rparr>)"
  using assms by (simp_all add: fresh_entry_def wf_entry_def defKey_def)

lemmas same_table = mx_same_def [THEN iffD1, THEN conjunct1]

lemma status_table [simp]:
  "mx_installed (recordCondition E n t s r m w) = mx_installed w" "mx_installed (recordSuccess E u i w) = mx_installed w"
  using same_table [OF recordCondition_same] same_table [OF recordSuccess_same] by metis+

lemma installNew_step:
  assumes "installNew E u (defKey d) i w = (r, w')" and "fresh_entry n d i" and "map_of (mx_installed w) (defKey d) = None"
  shows "table_step (mx_installed w) (mx_installed w')"
proof -
  let ?T = "mx_installed w" and ?k = "defKey d"
  obtain r1 w1 where 1: "installGroup E i (putInst ?k i w) = (r1, w1)" by fastforce
  have t1: "mx_installed w1 = aput ?k i ?T" using same_table [OF installGroup_same [OF 1]] by (simp add: putInst_def)
  obtain r2 w2 where 2: "ensureAPIService E i w1 = (r2, w2)" by fastforce
  note ens = ensure_same [OF 2]
  have t2: "mx_installed w2 = aput ?k i ?T" using same_table [OF ens(1)] t1 by simp
  have twice: "aput ?k y (aput ?k x ?T) = aput ?k y ?T" for x y by (induction ?T) (auto simp: aput_def)
  have "mx_installed w' \<in> {?T, aput ?k i ?T, aput ?k (i\<lparr>in_alive := True, in_watch := Watching\<rparr>) ?T}"
  proof (cases r1)
    case (Some e)
    then show ?thesis using assms(1) 1 t1 adel_aput [OF assms(3)] by (auto simp: installNew_def Let_def)
  next
    case None
    then show ?thesis
      using assms(1) 1 2 t2 twice ens(2)
      by (cases r2) (auto simp: installNew_def Let_def putInst_def)
  qed
  then show ?thesis using table_step_add [OF assms(3)] fresh_wf [OF assms(2)] by (elim insertE) auto
qed

lemma reconcileUpsert_step:
  assumes "reconcileUpsert E u w = (r, w')"
  shows "table_step (mx_installed w) (mx_installed w')"
proof (cases "parseAPIDef (me_others E) u")
  case (Inl e)
  with assms show ?thesis by (auto simp: reconcileUpsert_def Let_def)
next
  case p: (Inr d)
  show ?thesis
  proof (cases "map_of (mx_installed w) (defKey d)")
    case None
    obtain r1 w1 where 1: "buildInstall E (do_name u) d w = (r1, w1)" by fastforce
    note b = build_result [OF 1]
    have t: "mx_installed w1 = mx_installed w" using same_table [OF b(1)] .
    show ?thesis
    proof (cases r1)
      case (Gives i)
      with assms p None 1 have "installNew E u (defKey d) i w1 = (r, w')" by (simp add: reconcileUpsert_def Let_def)
      from installNew_step [OF this b(2) [OF Gives]] t None show ?thesis by simp
    qed (use assms p None 1 t in \<open>auto simp: reconcileUpsert_def Let_def\<close>)
  next
    case (Some i)
    obtain r1 w1 where 1: "ensureAPIService E i w = (r1, w1)" by fastforce
    note ens = ensure_same [OF 1]
    show ?thesis
      using assms p Some 1 same_table [OF ens(1)] ens(2) table_step_put [OF Some entry_kept_alive]
      by (auto simp: reconcileUpsert_def Let_def putInst_def split: if_splits sum.splits)
  qed
qed

lemma find_entry: "find (\<lambda>(k, i). in_key i = name) T = Some (k, i) \<Longrightarrow> distinct (akeys T) \<Longrightarrow> map_of T k = Some i"
  by (auto simp: find_Some_iff intro!: map_of_is_SomeI) (metis nth_mem)

lemma reconcileDelete_step:
  assumes "reconcileDelete E name w = (r, w')" and "distinct (akeys (mx_installed w))"
  shows "table_step (mx_installed w) (mx_installed w')"
proof (cases "find (\<lambda>(k, i). in_key i = name) (mx_installed w)")
  case None
  with assms show ?thesis by (simp add: reconcileDelete_def)
next
  case (Some ki)
  obtain k i where ki: "ki = (k, i)" by fastforce
  obtain f w1 where 1: "onHost (me_deleteService E (in_apiServiceName i)) w = (f, w1)" by fastforce
  have t: "mx_installed w1 = mx_installed w" using same_table [OF onHost_same [OF 1]] .
  show ?thesis
    using assms(1) Some ki 1 t table_step_put [OF find_entry [OF Some [unfolded ki] assms(2)] entry_kept_tornDown]
    by (auto simp: reconcileDelete_def Let_def putInst_def split: if_splits option.splits)
qed

lemma reconcile_step:
  assumes "reconcile E name w = (r, w')" and "distinct (akeys (mx_installed w))"
  shows "table_step (mx_installed w) (mx_installed w')"
proof -
  obtain x w1 where 1: "onHost (me_getDef E name) w = (x, w1)" by fastforce
  have t: "mx_installed w1 = mx_installed w" using same_table [OF onHost_same [OF 1]] .
  show ?thesis
    using assms 1 t reconcileDelete_step [of E name w1 r w'] reconcileUpsert_step [of E _ w1 r w']
    by (auto simp: reconcile_def split: sum.splits if_splits)
qed

lemma enqueue_table [simp]: "mx_installed (enqueue name w) = mx_installed w"
  by (simp add: enqueue_def)

lemma sweep_step:
  "distinct (akeys (mx_installed w)) \<Longrightarrow> distinct (akeys es) \<Longrightarrow> (\<And>k i. (k, i) \<in> set es \<Longrightarrow> map_of (mx_installed w) k = Some i) \<Longrightarrow>
   table_step (mx_installed w) (mx_installed (sweepEntries E es w))"
proof (induction es arbitrary: w)
  case (Cons e es)
  obtain k i where e: "e = (k, i)" by fastforce
  obtain f w1 where 1: "onHost (me_deleteService E (in_apiServiceName i)) w = (f, w1)" by fastforce
  have t: "mx_installed w1 = mx_installed w" using same_table [OF onHost_same [OF 1]] .
  have at: "map_of (mx_installed w) k = Some i" using Cons.prems(3) e by simp
  let ?w2 = "putInst k (i\<lparr>in_alive := False\<rparr>) w1"
  have new: "k' \<noteq> k" if "(k', i') \<in> set es" for k' i' using Cons.prems(2) e that by force
  have IH: "table_step (mx_installed v) (mx_installed (sweepEntries E es v))"
    if "mx_installed v = mx_installed w \<or> v = ?w2" for v
    using that Cons.prems e t new by (intro Cons.IH) (auto simp: putInst_def)
  have s2: "table_step (mx_installed w) (mx_installed ?w2)" using table_step_put [OF at entry_kept_alive] t by (simp add: putInst_def)
  show ?case
    using IH [of w] IH [of w1] table_step_trans [OF s2 IH [of ?w2]] 1 t e by simp
qed simp

text \<open>Informer events, the attachment of the server, turns of the worker and the sweep at shutdown, in any order.\<close>

datatype mx_op = Attach | Event string | Work | Sweep

definition mx_step :: "('h, 'b) mx_env \<Rightarrow> mx_op \<Rightarrow> ('h, 'b) mux \<Rightarrow> ('h, 'b) mux option" where
  "mx_step E op w =
     (case op of Attach \<Rightarrow> Some (AttachServer w) | Event n \<Rightarrow> Some (enqueue n w) | Work \<Rightarrow> processNext E w | Sweep \<Rightarrow> Some (ShutdownSweep E w))"

fun mx_run :: "('h, 'b) mx_env \<Rightarrow> mx_op list \<Rightarrow> ('h, 'b) mux \<Rightarrow> ('h, 'b) mux option" where
  "mx_run E [] w = Some w"
| "mx_run E (op # ops) w = Option.bind (mx_step E op w) (mx_run E ops)"

lemma mx_step_table:
  assumes "mx_step E op w = Some w'" and "wf_table (mx_installed w)"
  shows "table_step (mx_installed w) (mx_installed w')"
proof (cases op)
  case Work
  have d: "distinct (akeys (mx_installed (w\<lparr>mx_queue := q\<rparr>)))" for q using assms(2) by (simp add: wf_table_def)
  show ?thesis
  proof (cases "mx_queue w")
    case (Cons name q)
    obtain r w1 where 1: "reconcile E name (w\<lparr>mx_queue := q\<rparr>) = (r, w1)" by fastforce
    from reconcile_step [OF this d] have "table_step (mx_installed w) (mx_installed w1)" by simp
    with assms(1) Work Cons 1 show ?thesis by (auto simp: mx_step_def processNext_def split: outcome.splits)
  qed (use assms(1) Work in \<open>simp add: mx_step_def processNext_def\<close>)
next
  case Sweep
  have d: "distinct (akeys (mx_installed w))" using assms(2) by (simp add: wf_table_def)
  with sweep_step [of w "mx_installed w" E] assms(1) Sweep show ?thesis by (auto simp: mx_step_def ShutdownSweep_def)
qed (use assms(1) in \<open>auto simp: mx_step_def AttachServer_def\<close>)

lemma mx_run_table: "mx_run E ops w = Some w' \<Longrightarrow> wf_table (mx_installed w) \<Longrightarrow> table_step (mx_installed w) (mx_installed w')"
proof (induction ops arbitrary: w)
  case (Cons op ops)
  then obtain w1 where 1: "mx_step E op w = Some w1" "mx_run E ops w1 = Some w'" by (auto simp: Option.bind_eq_Some_conv)
  note s = mx_step_table [OF 1(1) Cons.prems(2)]
  then have "wf_table (mx_installed w1)" using Cons.prems(2) by (simp add: table_step_def)
  with Cons.IH [OF 1(2)] s show ?case using table_step_trans by metis
qed simp

lemma wf_New: "wf_table (mx_installed (mx_New o' h b hp))"
  by (simp add: mx_New_def wf_table_def)

text \<open>
  C15: A group and version stays with the definition that installed it.  In every run of the multiplexer, whatever the
  host, the server and the backends answer, an entry of the table sits under its own group and version, and once it is there it stays:
  its owner, its adapter and its schemas never change; all that changes is whether its APIService is known to exist and, when its
  definition is deleted, that it is torn down, which nothing undoes: a watch that was never started or was cancelled never runs again.
\<close>

theorem group_version_owner:
  assumes "mx_run E ops1 (mx_New o' h b hp) = Some w1" and "mx_run E ops2 w1 = Some w2" and "map_of (mx_installed w1) k = Some i"
  shows "k = in_Group i @ ''/'' @ in_Version i \<and> (\<exists>i'. map_of (mx_installed w2) k = Some i' \<and>
    i' = i\<lparr>in_alive := in_alive i', in_watch := in_watch i', in_shut := in_shut i'\<rparr> \<and>
    in_shut i \<le> in_shut i' \<and> (in_watch i' = in_watch i \<or> in_watch i = Watching \<and> in_watch i' = Cancelled))"
proof -
  have wf: "wf_table (mx_installed w1)" using mx_run_table [OF assms(1) wf_New] wf_New [of o' h b hp] by (simp add: table_step_def)
  then have "k = in_Group i @ ''/'' @ in_Version i" using assms(3) by (simp add: wf_table_def wf_entry_def)
  with mx_run_table [OF assms(2) wf] assms(3) show ?thesis
    unfolding table_step_def table_kept_def entry_kept_def le_bool_def by blast
qed

section \<open>Definitions that are already installed\<close>


section \<open>What adapters leave out\<close>

text \<open>
  A multiplexed backend is never asked to validate or mutate.  Whatever its schema declares, the adapter that is
  built for it takes writes, and hands every object on without consulting the backend's \<open>Validate\<close> and \<open>Mutate\<close>.
\<close>

theorem multiplexed_backend_never_validates:
  assumes "buildInstall E n d w = (Gives i, w')"
  shows "vd_Writable (vr_desc (in_rest i)) \<and> backendMutateValidate (in_rest i) c obj old name op v = (Inr obj, v)"
  using build_result(2) [OF assms refl] by (simp add: fresh_entry_def backendMutateValidate_def backendMutate_def Let_def)

section \<open>OpenAPI\<close>

lemma Compose_map: "distinct (akeys out) \<Longrightarrow> map_of (Compose baseline out ref) = map_of (baseline ref) ++ map_of out"
proof -
  have "distinct (akeys out) \<Longrightarrow> map_of (fold (\<lambda>(k, v) m. aput k v m) out m) = map_of m ++ map_of out" for m
  proof (induction out arbitrary: m)
    case (Cons e out)
    moreover have "map_of out (fst e) = None" using Cons.prems by (simp add: map_of_eq_None_iff)
    ultimately show ?case using Cons.IH [of "aput (fst e) (snd e) m"]
      by (cases e) (simp add: fun_eq_iff map_add_def split: option.splits)
  qed simp
  then show "distinct (akeys out) \<Longrightarrow> ?thesis" by (simp add: Compose_def)
qed

lemma closure_entries:
  assumes "list_all (\<lambda>(k, i). in_itemKey i = ObjectCanonicalName \<and> in_listKey i = ObjectListCanonicalName) T"
  shows "fold (\<lambda>(k, i) out. aput (in_listKey i) \<lparr>od_Schema = in_listSchema i, od_Dependencies = []\<rparr>
      (aput (in_itemKey i) \<lparr>od_Schema = in_itemSchema i, od_Dependencies = []\<rparr> out)) T [] =
    (if T = [] then []
     else [(ObjectCanonicalName, \<lparr>od_Schema = in_itemSchema (snd (last T)), od_Dependencies = []\<rparr>),
           (ObjectListCanonicalName, \<lparr>od_Schema = in_listSchema (snd (last T)), od_Dependencies = []\<rparr>)])"
  using assms
proof (induction T rule: rev_induct)
  case (snoc e T)
  then show ?case by (cases e) (simp add: ObjectCanonicalName_def ObjectListCanonicalName_def)
qed simp

text \<open>
  C40: OpenAPI shows one definition of all.  Every definition registers its schemas under the same two keys, those of the typed
  wrapper, so in every run the composed definitions are the baseline with the schemas of just one installed definition, the one the
  table is ranged over last; those of the others are lost.
\<close>

theorem openapi_shows_one_definition:
  assumes "mx_run E ops (mx_New o' h b hp) = Some w"
  shows "map_of (OpenAPIClosure baseline w ref) =
    (if mx_installed w = [] then map_of (baseline ref)
     else (map_of (baseline ref))
       (ObjectCanonicalName \<mapsto> \<lparr>od_Schema = in_itemSchema (snd (last (mx_installed w))), od_Dependencies = []\<rparr>,
        ObjectListCanonicalName \<mapsto> \<lparr>od_Schema = in_listSchema (snd (last (mx_installed w))), od_Dependencies = []\<rparr>))"
proof -
  have "wf_table (mx_installed w)" using mx_run_table [OF assms wf_New] wf_New [of o' h b hp] by (simp add: table_step_def)
  then have l: "list_all (\<lambda>(k, i). in_itemKey i = ObjectCanonicalName \<and> in_listKey i = ObjectListCanonicalName) (mx_installed w)"
    by (auto simp: wf_table_def wf_entry_def list_all_iff)
  have k: "ObjectCanonicalName \<noteq> ObjectListCanonicalName" by (simp add: ObjectCanonicalName_def ObjectListCanonicalName_def)
  show ?thesis unfolding OpenAPIClosure_def closure_entries [OF l] using k
    by (auto simp: Compose_map fun_eq_iff map_add_def)
qed

section \<open>Deletion\<close>

text \<open>
  Deleting a definition tears down one of its entries.  A definition whose group or version was changed has
  two; after the deletion the other still serves, with its APIService and its watch.
\<close>

theorem delete_leaves_other_entries:
  assumes "reconcileDelete E name w = (r, w')" and "map_of (mx_installed w) k1 = Some i1" and "map_of (mx_installed w) k2 = Some i2"
    and "k1 \<noteq> k2" and "in_key i1 = name" and "in_key i2 = name"
  shows "map_of (mx_installed w') k1 = Some i1 \<or> map_of (mx_installed w') k2 = Some i2"
proof (cases "find (\<lambda>(k, i). in_key i = name) (mx_installed w)")
  case None
  with assms(1,2) show ?thesis by (simp add: reconcileDelete_def)
next
  case (Some ki)
  obtain k i where ki: "ki = (k, i)" by fastforce
  obtain f w1 where 1: "onHost (me_deleteService E (in_apiServiceName i)) w = (f, w1)" by fastforce
  have t: "mx_installed w1 = mx_installed w" using same_table [OF onHost_same [OF 1]] .
  show ?thesis
    using assms Some ki 1 t by (auto simp: reconcileDelete_def Let_def putInst_def split: if_splits option.splits)
qed

section \<open>A running multiplexer\<close>

text \<open>A host with one definition, a backend over gRPC that describes its objects by the empty schema.\<close>

definition demo_def :: def_obj where
  "demo_def = \<lparr>do_name = ''things'', do_generation = 1, do_tree = [(''spec'', JObj [(''group'', JStr ''g''), (''version'', JStr ''v1''),
     (''kind'', JStr ''Thing''), (''plural'', JStr ''things''), (''singular'', JStr ''thing''), (''scope'', JStr ''Namespaced''),
     (''backend'', JObj [(''transport'', JStr ''grpc''), (''address'', JStr ''b'')])])]\<rparr>"

definition demo_spec :: api_def where
  "demo_spec = zero_def\<lparr>ad_Group := ''g'', ad_Version := ''v1'', ad_Kind := ''Thing'', ad_Plural := ''things'', ad_Singular := ''thing'',
     ad_Scope := ''Namespaced'', ad_Transport := ''grpc'', ad_Address := ''b''\<rparr>"

definition demo_backend :: "kv backend" where
  "demo_backend = \<lparr>bk_client = kv_client, bk_GetSchema = (\<lambda>b. (Inr (zero_schema\<lparr>sr_schema := Some (Some (JObj []))\<rparr>), b))\<rparr>"

definition demo_env :: "(etcd, kv) mx_env" where
  "demo_env = \<lparr>me_getDef = (\<lambda>n h. (Inr demo_def, h)), me_patchStatus = (\<lambda>n p h. (None, h)), me_getService = (\<lambda>n h. (Inl (NotFound n), h)),
     me_createService = (\<lambda>s h. (None, h)), me_updateService = (\<lambda>s h. (None, h)), me_deleteService = (\<lambda>n h. (None, h)),
     me_InstallAPIGroup = (\<lambda>g h. (None, h)),
     me_http = \<lparr>hl_parse = (\<lambda>a. Inl a), hl_do = (\<lambda>q b. (Inl (DoFailed []), b)), hl_json = (\<lambda>s. None)\<rparr>,
     me_Dial = (\<lambda>a b. (Inr demo_backend, b)), me_decodeSchema = (\<lambda>j. Some (Schema [] [] [] [] [] None [] [])), me_others = (\<lambda>f v. True),
     me_cel = \<lparr>cel_env = None, cel_compile = (\<lambda>x. Inl x)\<rparr>, me_rpcText = (\<lambda>e. []), me_apiText = (\<lambda>e. []), me_newText = (\<lambda>e. []),
     me_codecs = kv_codecs, me_host = frozen_host, me_hash = (\<lambda>j. []), me_visit = (\<lambda>m. m)\<rparr>"

definition demo_start :: "(etcd, kv) mux" where
  "demo_start = mx_New mx_Defaults (kv_etcd 0) [] []"

definition demo_entry :: "(etcd, kv) installed" where
  "demo_entry = entryFor ''things'' demo_spec (adapterFor demo_env (descriptorFor demo_spec [] [] []) kv_client demo_start)
     (Schema [] [''object''] [] [] [] None [(GVKExtension, gvkEntry \<lparr>gk_Group = ''g'', gk_Version = ''v1'', gk_Kind = ''Thing''\<rparr>)] [])"

lemma demo_parse: "parseAPIDef (\<lambda>f v. True) demo_def = Inr demo_spec"
  by code_simp

lemma demo_selects: "toLower ''grpc'' = ''grpc''" "ad_Transport demo_spec = ''grpc''" "ad_SchemaSource demo_spec = []" "ad_Admission demo_spec = \<lparr>cf_Mutations = [], cf_Validations = []\<rparr>"
  "ad_Group demo_spec = ''g''" "ad_Version demo_spec = ''v1''" "ad_Kind demo_spec = ''Thing''" "ad_WatchCapability demo_spec = []" "defKey demo_spec = ''g/v1''"
  by code_simp+

lemma demo_build:
  assumes "mx_opts w = mx_opts demo_start"
  shows "buildInstall demo_env ''things'' demo_spec w = (Gives demo_entry, w)"
proof -
  have a: "adapterFor demo_env desc c w = adapterFor demo_env desc c demo_start" for desc c
    using assms by (simp add: adapterFor_def v2_New_def Let_def)
  show ?thesis
    by (simp add: buildInstall_def selectBackend_def fetchSchema_def engineFor_def demo_selects demo_env_def [THEN arg_cong, of me_Dial]
        demo_env_def [THEN arg_cong, of me_decodeSchema] onBackends_def demo_backend_def zero_schema_def Synthesize_def decodeMap_def
        ParseBackendSchema_def demo_entry_def a)
qed

lemma demo_env_fields:
  "me_getDef demo_env = (\<lambda>n h. (Inr demo_def, h))" "me_others demo_env = (\<lambda>f v. True)" "me_getService demo_env = (\<lambda>n h. (Inl (NotFound n), h))"
  "me_createService demo_env = (\<lambda>s h. (None, h))" "me_InstallAPIGroup demo_env = (\<lambda>g h. (None, h))"
  by (simp_all add: demo_env_def)

lemma demo_names: "do_name demo_def = ''things''" "in_key demo_entry = ''things''" "ag_Scheme (in_groupInstaller demo_entry)" "\<not> in_alive demo_entry"
  by (simp_all add: demo_def_def demo_entry_def entryFor_def)

lemma demo_reconcile:
  assumes "mx_opts w = mx_opts demo_start" and "mx_server w" and "mx_installed w = []"
  shows "\<exists>w'. reconcile demo_env ''things'' w = (Gives (), w') \<and> mx_same (w\<lparr>mx_installed := [(''g/v1'', demo_entry\<lparr>in_alive := True, in_watch := Watching\<rparr>)]\<rparr>) w'"
proof -
  let ?i = "demo_entry\<lparr>in_alive := True, in_watch := Watching\<rparr>"
  have "reconcile demo_env ''things'' w = (Gives (), recordSuccess demo_env demo_def ?i (w\<lparr>mx_installed := [(''g/v1'', ?i)]\<rparr>))"
    using assms
    by (simp add: reconcile_def reconcileUpsert_def onHost_def demo_env_fields demo_parse demo_selects demo_build
        installNew_def installGroup_def group_Install_def ensureAPIService_def putInst_def Let_def demo_names)
  then show ?thesis using recordSuccess_same by blast
qed

lemma demo_run:
  "\<exists>w. mx_run demo_env [Attach, Event ''things'', Work] demo_start = Some w \<and>
     mx_installed w = [(''g/v1'', demo_entry\<lparr>in_alive := True, in_watch := Watching\<rparr>)] \<and> mx_opts w = mx_opts demo_start"
proof -
  let ?w = "(AttachServer demo_start)\<lparr>mx_queue := []\<rparr>"
  obtain w' where "reconcile demo_env ''things'' ?w = (Gives (), w')"
    "mx_same (?w\<lparr>mx_installed := [(''g/v1'', demo_entry\<lparr>in_alive := True, in_watch := Watching\<rparr>)]\<rparr>) w'"
    using demo_reconcile [of ?w] by (auto simp: AttachServer_def demo_start_def mx_New_def)
  then show ?thesis
    by (simp add: mx_step_def processNext_def enqueue_def AttachServer_def demo_start_def mx_New_def mx_same_def)
qed

definition demo_installed :: "(etcd, kv) mux" where
  "demo_installed = the (mx_run demo_env [Attach, Event ''things'', Work] demo_start)"

lemma demo_installed_run:
  "mx_run demo_env [Attach, Event ''things'', Work] demo_start = Some demo_installed"
  "mx_installed demo_installed = [(''g/v1'', demo_entry\<lparr>in_alive := True, in_watch := Watching\<rparr>)]"
  using demo_run by (auto simp: demo_installed_def)

lemma group_version_owner_witness:
  "\<exists>i'. map_of (mx_installed (ShutdownSweep demo_env demo_installed)) ''g/v1'' = Some i' \<and>
     i' = (demo_entry\<lparr>in_alive := True, in_watch := Watching\<rparr>)\<lparr>in_alive := in_alive i', in_watch := in_watch i', in_shut := in_shut i'\<rparr>"
  using group_version_owner [OF demo_installed_run(1) [unfolded demo_start_def], of "[Sweep]" "ShutdownSweep demo_env demo_installed" "''g/v1''"]
  by (auto simp: mx_step_def demo_installed_run(2))


lemma multiplexed_backend_never_validates_witness:
  "vd_Writable (vr_desc (in_rest demo_entry)) \<and>
   backendMutateValidate (in_rest demo_entry) kv_ctx None None ''a'' ''CREATE'' (kv_world [] None) = (Inr None, kv_world [] None)"
  by (rule multiplexed_backend_never_validates [OF demo_build [OF refl]])

lemma openapi_shows_one_definition_witness:
  "map_of (OpenAPIClosure (\<lambda>r. []) demo_installed ()) =
     [ObjectCanonicalName \<mapsto> \<lparr>od_Schema = in_itemSchema demo_entry, od_Dependencies = []\<rparr>,
      ObjectListCanonicalName \<mapsto> \<lparr>od_Schema = in_listSchema demo_entry, od_Dependencies = []\<rparr>]"
  using openapi_shows_one_definition [OF demo_installed_run(1) [unfolded demo_start_def], of "\<lambda>r. []" "()"]
  by (simp add: demo_installed_run(2))

text \<open>A definition whose version was changed.\<close>

definition demo_moved :: "(etcd, kv) mux" where
  "demo_moved = demo_start\<lparr>mx_installed := [(''g/v1'', demo_entry\<lparr>in_alive := True\<rparr>), (''g/v2'', demo_entry\<lparr>in_alive := True, in_Version := ''v2''\<rparr>)]\<rparr>"

lemma delete_leaves_other_entries_witness:
  "map_of (mx_installed (snd (reconcileDelete demo_env ''things'' demo_moved))) ''g/v1'' = Some (demo_entry\<lparr>in_alive := True\<rparr>) \<or>
   map_of (mx_installed (snd (reconcileDelete demo_env ''things'' demo_moved))) ''g/v2'' = Some (demo_entry\<lparr>in_alive := True, in_Version := ''v2''\<rparr>)"
  by (rule delete_leaves_other_entries [OF prod.collapse [symmetric]]) (simp_all add: demo_moved_def demo_entry_def entryFor_def)

end
