(* ===== verification/V1Rest.thy ===== *)
theory V1Rest
  imports V2Rest V2OpenApi Multiplex
begin

text \<open>
  The first component runtime, \<open>runtime/component\<close>: the REST adapter over one gRPC backend (\<open>grpcbackend/rest.go\<close>), its OpenAPI
  definitions (\<open>openapi/compose.go\<close>) and the assembly of a server around a backend (\<open>api.go\<close>).  The typed wrapper of
  \<open>scheme/object.go\<close> is, line for line, that of the second runtime, whose model is used.  The state is the host (for its
  clock), the backend, the counter and the log of events handed to the broadcaster; every operation is atomic.
\<close>

section \<open>The adapter\<close>

record 'b v1_client =
  c1_GetSchema :: "'b \<Rightarrow> (rpc_err + schema_resp) \<times> 'b"
  c1_Get :: "proto_user option \<Rightarrow> string \<Rightarrow> string \<Rightarrow> 'b \<Rightarrow> (rpc_err + json option) \<times> 'b"
  c1_List :: "proto_user option \<Rightarrow> string \<Rightarrow> string \<Rightarrow> 'b \<Rightarrow> (rpc_err + json option list) \<times> 'b"
  c1_Create :: "proto_user option \<Rightarrow> string \<Rightarrow> json option \<Rightarrow> string \<Rightarrow> 'b \<Rightarrow> (rpc_err + json option) \<times> 'b"
  c1_Update :: "proto_user option \<Rightarrow> string \<Rightarrow> string \<Rightarrow> json option \<Rightarrow> bool \<Rightarrow> string \<Rightarrow> 'b \<Rightarrow> (rpc_err + json option \<times> bool) \<times> 'b"
  c1_Delete :: "proto_user option \<Rightarrow> string \<Rightarrow> string \<Rightarrow> 'b \<Rightarrow> (rpc_err + json option \<times> bool) \<times> 'b"
  c1_Watch :: "'b \<Rightarrow> (rpc_err + (push_type \<times> json option) list \<times> rpc_err) \<times> 'b"

record v1_desc =
  d1_Group :: string
  d1_Version :: string
  d1_Resource :: string
  d1_Kind :: string
  d1_Singular :: string
  d1_Namespaced :: bool
  d1_Writable :: bool
  d1_SupportsServerSideApply :: bool
  d1_UseTypedWrapper :: bool
  d1_Columns :: "string list"
  d1_RowFields :: "string list"
  d1_GroupResource :: "group_resource option"

record ('h, 'b) v1_REST =
  v1_desc :: v1_desc
  v1_client :: "'b v1_client"
  v1_codecs :: codecs
  v1_host :: "'h host"

record ('h, 'b) v1_world =
  v1_h :: 'h
  v1_b :: 'b
  v1_rv :: "64 word"
  v1_log :: "vpayload event list"

definition v1_New :: "codecs \<Rightarrow> 'h host \<Rightarrow> v1_desc \<Rightarrow> 'b v1_client \<Rightarrow> 'h \<Rightarrow> 'b \<Rightarrow> ('h, 'b) v1_REST \<times> ('h, 'b) v1_world" where
  "v1_New C H d c h b =
     (\<lparr>v1_desc = (if d1_GroupResource d = None then d\<lparr>d1_GroupResource := Some \<lparr>gr_group = d1_Group d, gr_resource = d1_Resource d\<rparr>\<rparr> else d),
       v1_client = c, v1_codecs = C, v1_host = H\<rparr>,
      \<lparr>v1_h = h, v1_b = b, v1_rv = 1, v1_log = []\<rparr>)"

definition v1_backend :: "('b \<Rightarrow> 'a \<times> 'b) \<Rightarrow> ('h, 'b) v1_world \<Rightarrow> 'a \<times> ('h, 'b) v1_world" where
  "v1_backend f w = (let (x, b) = f (v1_b w) in (x, w\<lparr>v1_b := b\<rparr>))"

definition v1_apiVersion :: "v1_desc \<Rightarrow> string" where
  "v1_apiVersion d = (if d1_Group d = [] then d1_Version d else d1_Group d @ ''/'' @ d1_Version d)"

definition v1_NewObj :: "('h, 'b) v1_REST \<Rightarrow> vobj" where
  "v1_NewObj R = Obj empty_meta \<lparr>vp_api = v1_apiVersion (v1_desc R), vp_kind = d1_Kind (v1_desc R), vp_content = []\<rparr>"

definition v1_NewList :: "('h, 'b) v1_REST \<Rightarrow> vlist" where
  "v1_NewList R = \<lparr>vl_kind = d1_Kind (v1_desc R) @ ''List'', vl_items = [], vl_rv = []\<rparr>"

definition v1_translateErr :: "rpc_err \<Rightarrow> string \<Rightarrow> api_err" where
  "v1_translateErr err name =
     (case err of
        RpcStatus code msg \<Rightarrow>
          (case code of
             C_NotFound \<Rightarrow> NotFound name
           | C_AlreadyExists \<Rightarrow> AlreadyExists name
           | C_InvalidArgument \<Rightarrow> BadRequest msg
           | C_PermissionDenied \<Rightarrow> Forbidden name msg
           | C_Unavailable \<Rightarrow> ServiceUnavailable msg
           | C_Other n \<Rightarrow> Internal (Plain (''backend: '' @ msg)))
      | RpcEOF \<Rightarrow> Internal (Plain ''EOF'')
      | RpcOther t \<Rightarrow> Internal (Plain t))"

definition v1_objFromJSON :: "('h, 'b) v1_REST \<Rightarrow> json option \<Rightarrow> vobj res" where
  "v1_objFromJSON R raw =
     (case (if d1_UseTypedWrapper (v1_desc R) then obj_UnmarshalJSON (v1_codecs R) raw else cd_unDecode (v1_codecs R) raw) of
        None \<Rightarrow> Inl (Internal (Plain ''decode object''))
      | Some obj \<Rightarrow> Inr obj)"

definition v1_encodeObject :: "('h, 'b) v1_REST \<Rightarrow> vobj \<Rightarrow> json option" where
  "v1_encodeObject R obj = (if d1_UseTypedWrapper (v1_desc R) then Some (obj_MarshalJSON (v1_codecs R) obj)
     else cd_unEncode (v1_codecs R) obj)"

definition v1_CurrentResourceVersion :: "('h, 'b) v1_world \<Rightarrow> string" where
  "v1_CurrentResourceVersion w = dec_nat (unat (v1_rv w))"

section \<open>Reads\<close>

definition v1_Get :: "('h, 'b) v1_REST \<Rightarrow> vctx \<Rightarrow> string \<Rightarrow> ('h, 'b) v1_world \<Rightarrow> vobj res \<times> ('h, 'b) v1_world" where
  "v1_Get R c name w =
     (case v1_backend (c1_Get (v1_client R) (v2_userFromCtx c) (vc_ns c) name) w of
        (Inl e, w1) \<Rightarrow> (Inl (v1_translateErr e name), w1)
      | (Inr raw, w1) \<Rightarrow>
          (case v1_objFromJSON R raw of
             Inl e \<Rightarrow> (Inl e, w1)
           | Inr obj \<Rightarrow>
               (Inr (with_meta (\<lambda>m. if om_rv m = [] then m\<lparr>om_rv := v1_CurrentResourceVersion w1\<rparr> else m) obj), w1)))"

text \<open>The items that match, decoded; the first that does not decode is the error.\<close>

fun v1_decodeItems :: "('h, 'b) v1_REST \<Rightarrow> list_options option \<Rightarrow> json option list \<Rightarrow> vobj list res" where
  "v1_decodeItems R opts [] = Inr []"
| "v1_decodeItems R opts (raw # raws) =
     (case v1_objFromJSON R raw of
        Inl e \<Rightarrow> Inl e
      | Inr obj \<Rightarrow> map_sum id (\<lambda>objs. if v2_matchesLabels obj opts then obj # objs else objs) (v1_decodeItems R opts raws))"

definition v1_List :: "('h, 'b) v1_REST \<Rightarrow> vctx \<Rightarrow> list_options option \<Rightarrow> ('h, 'b) v1_world \<Rightarrow> vlist res \<times> ('h, 'b) v1_world" where
  "v1_List R c opts w =
     (case v1_backend (c1_List (v1_client R) (v2_userFromCtx c) (vc_ns c) (selectorString (v1_codecs R) opts)) w of
        (Inl e, w1) \<Rightarrow> (Inl (v1_translateErr e []), w1)
      | (Inr raws, w1) \<Rightarrow>
          (case v1_decodeItems R opts raws of
             Inl e \<Rightarrow> (Inl e, w1)
           | Inr objs \<Rightarrow> (Inr ((v1_NewList R)\<lparr>vl_items := objs, vl_rv := v1_CurrentResourceVersion w1\<rparr>), w1)))"

definition v1_admits :: "lsel \<Rightarrow> vpayload event \<Rightarrow> bool" where
  "v1_admits sel ev = (case accessor (ev_obj ev) of None \<Rightarrow> True | Some m \<Rightarrow> ls_matches sel (om_labels m))"

text \<open>The filter of a stream applies to its prefix too; a stream is filtered by labels only.\<close>

definition v1_Watch :: "('h, 'b) v1_REST \<Rightarrow> vctx \<Rightarrow> list_options option \<Rightarrow> ('h, 'b) v1_world \<Rightarrow> vpayload wstream res \<times> ('h, 'b) v1_world" where
  "v1_Watch R c opts w =
     (let req = requestedRV opts in
      if req \<noteq> [] \<and> req \<noteq> ''0'' \<and> (case parse_uint64 req of None \<Rightarrow> True | Some n \<Rightarrow> n \<noteq> unat (v1_rv w))
      then (Inl (Expired req (v1_CurrentResourceVersion w)), w)
      else case v1_backend (c1_List (v1_client R) (v2_userFromCtx c) (vc_ns c) (selectorString (v1_codecs R) opts)) w of
             (Inl e, w1) \<Rightarrow> (Inl (v1_translateErr e []), w1)
           | (Inr raws, w1) \<Rightarrow>
               (case v1_decodeItems R opts raws of
                  Inl e \<Rightarrow> (Inl e, w1)
                | Inr objs \<Rightarrow>
                    (let sel = selectorFromOpts opts in
                     (Inr \<lparr>ws_prefix = map (\<lambda>o'. \<lparr>ev_type = Added, ev_obj = o'\<rparr>) objs,
                           ws_filter = (if ls_empty sel then (\<lambda>_. True) else v1_admits sel)\<rparr>, w1))))"

section \<open>The upstream watch\<close>

definition v1_publish :: "event_type \<Rightarrow> vobj \<Rightarrow> ('h, 'b) v1_world \<Rightarrow> ('h, 'b) v1_world" where
  "v1_publish t obj w =
     (case accessor obj of
        None \<Rightarrow> w\<lparr>v1_log := v1_log w @ [\<lparr>ev_type = t, ev_obj = obj\<rparr>]\<rparr>
      | Some m \<Rightarrow> (let n = v1_rv w + 1
                  in w\<lparr>v1_rv := n, v1_log := v1_log w @ [\<lparr>ev_type = t, ev_obj = stampRV obj (dec_nat (unat n))\<rparr>]\<rparr>))"

definition v1_pushEvent :: "('h, 'b) v1_REST \<Rightarrow> push_type \<times> json option \<Rightarrow> ('h, 'b) v1_world \<Rightarrow> ('h, 'b) v1_world" where
  "v1_pushEvent R ev w =
     (case v1_objFromJSON R (snd ev) of
        Inl e \<Rightarrow> w
      | Inr obj \<Rightarrow>
          (case fst ev of
             EVENT_ADDED \<Rightarrow> v1_publish Added obj w
           | EVENT_MODIFIED \<Rightarrow> v1_publish Modified obj w
           | EVENT_DELETED \<Rightarrow> v1_publish Deleted obj w
           | EVENT_OTHER \<Rightarrow> w))"

definition v1_runUpstreamWatch :: "('h, 'b) v1_REST \<Rightarrow> ('h, 'b) v1_world \<Rightarrow> rpc_err \<times> ('h, 'b) v1_world" where
  "v1_runUpstreamWatch R w =
     (case v1_backend (c1_Watch (v1_client R)) w of
        (Inl e, w1) \<Rightarrow> (e, w1)
      | (Inr (evs, e), w1) \<Rightarrow> (e, fold (v1_pushEvent R) evs w1))"

section \<open>Writes\<close>

definition v1_nameOf :: "vobj \<Rightarrow> string" where
  "v1_nameOf obj = (case accessor obj of None \<Rightarrow> [] | Some m \<Rightarrow> om_name m)"

definition v1_Create :: "('h, 'b) v1_REST \<Rightarrow> vctx \<Rightarrow> vobj \<Rightarrow> vpayload validate \<Rightarrow> string \<Rightarrow> ('h, 'b) v1_world \<Rightarrow> vobj res \<times> ('h, 'b) v1_world" where
  "v1_Create R c obj createValidation fm w =
     (if \<not> d1_Writable (v1_desc R) then (Inl (MethodNotSupported ''create''), w)
      else case run_validate createValidation obj of
        Some e \<Rightarrow> (Inl e, w)
      | None \<Rightarrow>
          (case v1_encodeObject R obj of
             None \<Rightarrow> (Inl (BadRequest ''encode object''), w)
           | Some raw \<Rightarrow>
               (case v1_backend (c1_Create (v1_client R) (v2_userFromCtx c) (vc_ns c) (Some raw) fm) w of
                  (Inl e, w1) \<Rightarrow> (Inl (v1_translateErr e (v1_nameOf obj)), w1)
                | (Inr j, w1) \<Rightarrow> (v1_objFromJSON R j, w1))))"

text \<open>The object \<open>Update\<close> starts from: none when it may create one that is missing.\<close>

definition v1_current :: "('h, 'b) v1_REST \<Rightarrow> vctx \<Rightarrow> string \<Rightarrow> bool \<Rightarrow> ('h, 'b) v1_world \<Rightarrow> vobj option res \<times> ('h, 'b) v1_world" where
  "v1_current R c name forceAllowCreate w =
     (case v1_backend (c1_Get (v1_client R) (v2_userFromCtx c) (vc_ns c) name) w of
        (Inl (RpcStatus C_NotFound msg), w1) \<Rightarrow> ((if forceAllowCreate then Inr None else Inl (NotFound name)), w1)
      | (Inl e, w1) \<Rightarrow> (Inl (v1_translateErr e name), w1)
      | (Inr raw, w1) \<Rightarrow> (map_sum id Some (v1_objFromJSON R raw), w1))"

definition v1_Update :: "('h, 'b) v1_REST \<Rightarrow> vctx \<Rightarrow> string \<Rightarrow> vpayload updated_info \<Rightarrow> vpayload validate \<Rightarrow> vpayload validate_update \<Rightarrow> bool \<Rightarrow>
    string \<Rightarrow> ('h, 'b) v1_world \<Rightarrow> (vobj \<times> bool) res \<times> ('h, 'b) v1_world" where
  "v1_Update R c name objInfo createValidation updateValidation forceAllowCreate fm w =
     (if \<not> d1_Writable (v1_desc R) then (Inl (MethodNotSupported ''update''), w)
      else case v1_current R c name forceAllowCreate w of
        (Inl e, w1) \<Rightarrow> (Inl e, w1)
      | (Inr current, w1) \<Rightarrow>
          (case objInfo current of
             Inl e \<Rightarrow> (Inl e, w1)
           | Inr updated \<Rightarrow>
               (case (case current of None \<Rightarrow> run_validate createValidation updated | Some old \<Rightarrow> run_validate_update updateValidation updated old) of
                  Some e \<Rightarrow> (Inl e, w1)
                | None \<Rightarrow>
                    (case v1_encodeObject R updated of
                       None \<Rightarrow> (Inl (BadRequest ''encode object''), w1)
                     | Some raw \<Rightarrow>
                         (case v1_backend (c1_Update (v1_client R) (v2_userFromCtx c) (vc_ns c) name (Some raw) forceAllowCreate fm) w1 of
                            (Inl e, w2) \<Rightarrow> (Inl (v1_translateErr e name), w2)
                          | (Inr (j, created), w2) \<Rightarrow> (map_sum id (\<lambda>stored. (stored, created)) (v1_objFromJSON R j), w2))))))"

definition v1_Delete :: "('h, 'b) v1_REST \<Rightarrow> vctx \<Rightarrow> string \<Rightarrow> vpayload validate \<Rightarrow> ('h, 'b) v1_world \<Rightarrow> (vobj \<times> bool) res \<times> ('h, 'b) v1_world" where
  "v1_Delete R c name deleteValidation w =
     (if \<not> d1_Writable (v1_desc R) then (Inl (MethodNotSupported ''delete''), w)
      else let (refused, w1) =
             (if deleteValidation = None then (None, w)
              else case v1_backend (c1_Get (v1_client R) (v2_userFromCtx c) (vc_ns c) name) w of
                     (Inl e, w') \<Rightarrow> (Some (v1_translateErr e name), w')
                   | (Inr raw, w') \<Rightarrow>
                       ((case v1_objFromJSON R raw of Inl e \<Rightarrow> Some e | Inr obj \<Rightarrow> run_validate deleteValidation obj), w'))
           in case refused of
                Some e \<Rightarrow> (Inl e, w1)
              | None \<Rightarrow>
                  (case v1_backend (c1_Delete (v1_client R) (v2_userFromCtx c) (vc_ns c) name) w1 of
                     (Inl e, w2) \<Rightarrow> (Inl (v1_translateErr e name), w2)
                   | (Inr (j, deleted), w2) \<Rightarrow> (map_sum id (\<lambda>stored. (stored, deleted)) (v1_objFromJSON R j), w2)))"

section \<open>Tables\<close>

text \<open>The path language and the ages are those of the second runtime.\<close>

definition v1_rowCell :: "('h, 'b) v1_REST \<Rightarrow> jmap \<Rightarrow> string \<Rightarrow> ('h, 'b) v1_world \<Rightarrow> json \<times> ('h, 'b) v1_world" where
  "v1_rowCell R content path w =
     (case LookupField content path of
        JStr s \<Rightarrow>
          (if path = ''.metadata.creationTimestamp''
           then (if parse_rfc3339 s = None then (JStr (ageOf 0 s), w)
                 else (let (now, h) = h_now (v1_host R) (v1_h w) in (JStr (ageOf now s), w\<lparr>v1_h := h\<rparr>)))
           else (JStr s, w))
      | v \<Rightarrow> (v, w))"

fun v1_rowFromContent :: "('h, 'b) v1_REST \<Rightarrow> jmap \<Rightarrow> string list \<Rightarrow> ('h, 'b) v1_world \<Rightarrow> json list \<times> ('h, 'b) v1_world" where
  "v1_rowFromContent R content [] w = ([], w)"
| "v1_rowFromContent R content (p # ps) w =
     (let (v, w1) = v1_rowCell R content p w; (vs, w2) = v1_rowFromContent R content ps w1 in (v # vs, w2))"

definition v1_contentOf :: "('h, 'b) v1_REST \<Rightarrow> vobj \<Rightarrow> jmap" where
  "v1_contentOf R obj =
     (if d1_UseTypedWrapper (v1_desc R) then AsMap (v1_codecs R) obj
      else (case cd_unEncode (v1_codecs R) obj of Some (JObj m) \<Rightarrow> m | _ \<Rightarrow> []))"

fun v1_rowsFor :: "('h, 'b) v1_REST \<Rightarrow> vobj list \<Rightarrow> ('h, 'b) v1_world \<Rightarrow> (json list \<times> vobj) list \<times> ('h, 'b) v1_world" where
  "v1_rowsFor R [] w = ([], w)"
| "v1_rowsFor R (obj # objs) w =
     (let (cells, w1) = v1_rowFromContent R (v1_contentOf R obj) (d1_RowFields (v1_desc R)) w; (rows, w2) = v1_rowsFor R objs w1
      in ((cells, obj) # rows, w2))"

definition v1_ConvertToTable :: "('h, 'b) v1_REST \<Rightarrow> vobj + vlist \<Rightarrow> ('h, 'b) v1_world \<Rightarrow> vtable \<times> ('h, 'b) v1_world" where
  "v1_ConvertToTable R object w =
     (let (objs, rv) = (case object of Inl obj \<Rightarrow> ([obj], []) | Inr l \<Rightarrow> (vl_items l, vl_rv l));
          (rows, w1) = v1_rowsFor R objs w
      in (\<lparr>vt_columns = d1_Columns (v1_desc R), vt_rows = rows, vt_rv = rv\<rparr>, w1))"

section \<open>OpenAPI\<close>

definition v1_Fallback :: "gvk \<Rightarrow> string \<Rightarrow> oschema" where
  "v1_Fallback g description =
     Schema (if description = [] then ''Dynamic resource served by a component-server backend. Backend did not provide an OpenAPI schema; fields are not documented.''
             else description) [''object''] [] [] [] None
       [(''x-kubernetes-preserve-unknown-fields'', JBool True), (GVKExtension, gvkEntry g)] []"

definition mustSpecRef :: "string \<Rightarrow> string" where
  "mustSpecRef name = ''#/components/schemas/'' @ FriendlyRef name"

definition v1_WrapAsList :: "gvk \<Rightarrow> string \<Rightarrow> oschema" where
  "v1_WrapAsList g itemKey =
     Schema (gk_Kind g @ '' is a list of '' @ TrimSuffix (gk_Kind g) ''List'' @ ''.'') [''object''] [''items''] []
       [(''apiVersion'', plainSchema ''APIVersion defines the versioned schema of this representation of an object.'' [''string''] [] None),
        (''kind'', plainSchema ''Kind is a string value representing the REST resource this object represents.'' [''string''] [] None),
        (''metadata'', plainSchema ''Standard list metadata.'' [] (mustSpecRef ''k8s.io/apimachinery/pkg/apis/meta/v1.ListMeta'') None),
        (''items'', plainSchema ''List of items.'' [''array''] [] (Some (plainSchema [] [] (mustSpecRef itemKey) None)))]
       None [(GVKExtension, gvkEntry g)] []"

definition v1_Compose :: "('r \<Rightarrow> definitions) \<Rightarrow> oschema \<Rightarrow> oschema \<Rightarrow> string \<Rightarrow> string \<Rightarrow> 'r \<Rightarrow> definitions" where
  "v1_Compose generated item lst itemKey listKey ref =
     aput listKey \<lparr>od_Schema = lst, od_Dependencies = baselineDependencies\<rparr>
       (aput itemKey \<lparr>od_Schema = item, od_Dependencies = baselineDependencies\<rparr> (generated ref))"

section \<open>The component server\<close>

definition DynObjectCanonicalName :: string where
  "DynObjectCanonicalName = ''github.com/cheeseandcereal/aggexp/runtime/component/scheme.Object''"

definition DynObjectListCanonicalName :: string where
  "DynObjectListCanonicalName = ''github.com/cheeseandcereal/aggexp/runtime/component/scheme.ObjectList''"

definition UnstructuredCanonicalName :: string where
  "UnstructuredCanonicalName = ''k8s.io/apimachinery/pkg/apis/meta/v1/unstructured.Unstructured''"

definition UnstructuredListCanonicalName :: string where
  "UnstructuredListCanonicalName = ''k8s.io/apimachinery/pkg/apis/meta/v1/unstructured.UnstructuredList''"

record comp_options =
  cp_BackendAddr :: string
  cp_BackendTimeout :: int
  cp_UseTypedWrapper :: bool
  cp_ServerName :: string
  cp_PolicyGroup :: string

definition comp_NewOptions :: comp_options where
  "comp_NewOptions = \<lparr>cp_BackendAddr = ''localhost:9090'', cp_BackendTimeout = 10 * ns_per_s, cp_UseTypedWrapper = True,
     cp_ServerName = ''aggexp-component'', cp_PolicyGroup = []\<rparr>"

text \<open>The errors of the server's options come first.\<close>

definition comp_Validate :: "string list \<Rightarrow> comp_options \<Rightarrow> string list" where
  "comp_Validate serverErrs o' = serverErrs @ (if trimSpace (cp_BackendAddr o') = [] then [''--backend-addr is required''] else [])"

definition v1_descriptor :: "schema_resp \<Rightarrow> bool \<Rightarrow> v1_desc" where
  "v1_descriptor resp typed =
     \<lparr>d1_Group = sr_strings resp ''group'', d1_Version = sr_strings resp ''version'', d1_Resource = sr_strings resp ''resource'',
      d1_Kind = sr_strings resp ''kind'', d1_Singular = sr_strings resp ''singular'', d1_Namespaced = sr_bools resp ''namespaced'',
      d1_Writable = sr_bools resp ''writable'', d1_SupportsServerSideApply = sr_bools resp ''supportsServerSideApply'',
      d1_UseTypedWrapper = typed, d1_Columns = map tc_Name (sr_columns resp), d1_RowFields = sr_lists resp ''rowFields'',
      d1_GroupResource = Some \<lparr>gr_group = sr_strings resp ''group'', gr_resource = sr_strings resp ''resource''\<rparr>\<rparr>"

text \<open>What \<open>Run\<close> hands to the generic server: the adapter, its group, the definitions, the name of the server and the policy group.\<close>

record ('h, 'b, 'r) comp_server =
  cs_rest :: "('h, 'b) v1_REST"
  cs_group :: "('h, 'b) v1_REST api_group"
  cs_definitions :: "'r \<Rightarrow> definitions"
  cs_name :: string
  cs_PolicyGroup :: string

definition comp_assemble :: "(json \<Rightarrow> oschema option) \<Rightarrow> ('r \<Rightarrow> definitions) \<Rightarrow> codecs \<Rightarrow> 'h host \<Rightarrow> comp_options \<Rightarrow> 'b v1_client \<Rightarrow> schema_resp \<Rightarrow>
    'h \<Rightarrow> 'b \<Rightarrow> ('h, 'b, 'r) comp_server" where
  "comp_assemble decode generated C H o' c resp h b =
     (let d = v1_descriptor resp (cp_UseTypedWrapper o');
          g = \<lparr>gk_Group = d1_Group d, gk_Version = d1_Version d, gk_Kind = d1_Kind d\<rparr>;
          itemKey = (if cp_UseTypedWrapper o' then DynObjectCanonicalName else UnstructuredCanonicalName);
          listKey = (if cp_UseTypedWrapper o' then DynObjectListCanonicalName else UnstructuredListCanonicalName);
          item = (case ParseBackendSchema decode (sr_schema resp) g of Inl e \<Rightarrow> v1_Fallback g [] | Inr s \<Rightarrow> s);
          lst = v1_WrapAsList (g\<lparr>gk_Kind := gk_Kind g @ ''List''\<rparr>) itemKey;
          R = fst (v1_New C H d c h b)
      in \<lparr>cs_rest = R,
          cs_group = \<lparr>ag_Group = d1_Group d, ag_Version = d1_Version d, ag_Scheme = True, ag_Resources = [(d1_Resource d, R)]\<rparr>,
          cs_definitions = v1_Compose generated item lst itemKey listKey,
          cs_name = (if cp_ServerName o' = [] then ''aggexp-component'' else cp_ServerName o'),
          cs_PolicyGroup = (if cp_PolicyGroup o' = [] then d1_Group d else cp_PolicyGroup o')\<rparr>)"

text \<open>\<open>Run\<close>, up to starting the server.\<close>

definition comp_Run :: "(json \<Rightarrow> oschema option) \<Rightarrow> ('r \<Rightarrow> definitions) \<Rightarrow> codecs \<Rightarrow> 'h host \<Rightarrow> (string \<Rightarrow> string + 'b v1_client) \<Rightarrow> (rpc_err \<Rightarrow> string) \<Rightarrow>
    comp_options \<Rightarrow> 'h \<Rightarrow> 'b \<Rightarrow> (string + ('h, 'b, 'r) comp_server) \<times> 'b" where
  "comp_Run decode generated C H dial errText o' h b =
     (case dial (cp_BackendAddr o') of
        Inl e \<Rightarrow> (Inl (''dial backend '' @ cp_BackendAddr o' @ '': '' @ e), b)
      | Inr c \<Rightarrow>
          (case c1_GetSchema c b of
             (Inl e, b1) \<Rightarrow> (Inl (''GetSchema: '' @ errText e), b1)
           | (Inr resp, b1) \<Rightarrow> (Inr (comp_assemble decode generated C H o' c resp h b1), b1)))"

end
