(* ===== verification/V1RestSpec.thy ===== *)
theory V1RestSpec
  imports V1Rest V2RestSpec
begin

text \<open>
  What the first component runtime promises: its events are those of the backend's stream, in order and with consecutive
  resource versions; requests publish none; and a watch is filtered by labels only.
\<close>

section \<open>Requests\<close>

definition v1_quiet :: "('h, 'b) v1_world \<Rightarrow> ('h, 'b) v1_world \<Rightarrow> bool" where
  "v1_quiet w w' \<longleftrightarrow> v1_log w' = v1_log w \<and> v1_rv w' = v1_rv w"

lemma v1_backend_quiet: "v1_backend f w = (x, w') \<Longrightarrow> v1_quiet w w'"
  by (auto simp: v1_backend_def v1_quiet_def split: prod.splits)

lemma v1_quiet_refl [simp]: "v1_quiet w w"
  by (simp add: v1_quiet_def)

lemma v1_quiet_trans: "v1_quiet w w1 \<Longrightarrow> v1_quiet w1 w2 \<Longrightarrow> v1_quiet w w2"
  by (simp add: v1_quiet_def)

lemma v1_Get_quiet: "v1_Get R c name w = (x, w') \<Longrightarrow> v1_quiet w w'"
  unfolding v1_Get_def by (auto dest!: v1_backend_quiet split: prod.splits sum.splits)

lemma v1_List_quiet: "v1_List R c opts w = (x, w') \<Longrightarrow> v1_quiet w w'"
  unfolding v1_List_def by (auto dest!: v1_backend_quiet split: prod.splits sum.splits)

lemma v1_Watch_quiet: "v1_Watch R c opts w = (x, w') \<Longrightarrow> v1_quiet w w'"
  unfolding v1_Watch_def Let_def by (auto dest!: v1_backend_quiet split: prod.splits sum.splits if_splits)

lemma v1_Create_quiet: "v1_Create R c obj v fm w = (x, w') \<Longrightarrow> v1_quiet w w'"
  unfolding v1_Create_def by (auto dest!: v1_backend_quiet split: prod.splits sum.splits option.splits if_splits)

lemma v1_current_quiet: "v1_current R c name f w = (x, w') \<Longrightarrow> v1_quiet w w'"
  unfolding v1_current_def by (auto dest!: v1_backend_quiet split: prod.splits sum.splits rpc_err.splits rpc_code.splits)

lemma v1_Update_quiet:
  assumes "v1_Update R c name info v u f fm w = (x, w')"
  shows "v1_quiet w w'"
proof -
  obtain cur w1 where 1: "v1_current R c name f w = (cur, w1)" by fastforce
  note q = v1_current_quiet [OF 1]
  show ?thesis
    using assms 1 q unfolding v1_Update_def
    by (auto dest!: v1_backend_quiet dest: v1_quiet_trans split: prod.splits sum.splits option.splits if_splits)
qed

lemma v1_Delete_quiet:
  assumes "v1_Delete R c name v w = (x, w')"
  shows "v1_quiet w w'"
proof -
  obtain g w1 where 1: "v1_backend (c1_Get (v1_client R) (v2_userFromCtx c) (vc_ns c) name) w = (g, w1)" by fastforce
  note q = v1_backend_quiet [OF 1]
  show ?thesis
    using assms 1 q unfolding v1_Delete_def Let_def
    by (auto dest!: v1_backend_quiet dest: v1_quiet_trans split: prod.splits sum.splits option.splits if_splits)
qed

section \<open>Events\<close>

text \<open>Requests and openings of the upstream watch; the answers of requests do not matter here.\<close>

datatype v1_op =
    V1Get vctx string
  | V1List vctx "list_options option"
  | V1Watch vctx "list_options option"
  | V1Create vctx vobj "vpayload validate" string
  | V1Update vctx string "vpayload updated_info" "vpayload validate" "vpayload validate_update" bool string
  | V1Delete vctx string "vpayload validate"
  | V1Upstream

fun v1_step :: "('h, 'b) v1_REST \<Rightarrow> v1_op \<Rightarrow> ('h, 'b) v1_world \<Rightarrow> ('h, 'b) v1_world" where
  "v1_step R (V1Get c n) w = snd (v1_Get R c n w)"
| "v1_step R (V1List c l) w = snd (v1_List R c l w)"
| "v1_step R (V1Watch c l) w = snd (v1_Watch R c l w)"
| "v1_step R (V1Create c obj v fm) w = snd (v1_Create R c obj v fm w)"
| "v1_step R (V1Update c n i v u f fm) w = snd (v1_Update R c n i v u f fm w)"
| "v1_step R (V1Delete c n v) w = snd (v1_Delete R c n v w)"
| "v1_step R V1Upstream w = snd (v1_runUpstreamWatch R w)"

definition v1_run :: "('h, 'b) v1_REST \<Rightarrow> v1_op list \<Rightarrow> ('h, 'b) v1_world \<Rightarrow> ('h, 'b) v1_world" where
  "v1_run R ops w = fold (v1_step R) ops w"

lemma v1_request_quiet: "op \<noteq> V1Upstream \<Longrightarrow> v1_quiet w (v1_step R op w)"
  by (cases op) (auto intro: v1_Get_quiet v1_List_quiet v1_Watch_quiet v1_Create_quiet v1_Update_quiet v1_Delete_quiet prod.collapse [symmetric])

text \<open>The events one stream gives rise to: those that decode and are changes.\<close>

definition change_type :: "push_type \<Rightarrow> event_type option" where
  "change_type t = (case t of EVENT_ADDED \<Rightarrow> Some Added | EVENT_MODIFIED \<Rightarrow> Some Modified | EVENT_DELETED \<Rightarrow> Some Deleted | EVENT_OTHER \<Rightarrow> None)"

definition v1_changes :: "('h, 'b) v1_REST \<Rightarrow> (push_type \<times> json option) list \<Rightarrow> (event_type \<times> vobj) list" where
  "v1_changes R evs = concat (map (\<lambda>(t, raw). case (v1_objFromJSON R raw, change_type t) of (Inr obj, Some ty) \<Rightarrow> [(ty, obj)] | _ \<Rightarrow> []) evs)"

lemma pushEvent_changes:
  "v1_pushEvent R ev w = fold (\<lambda>(t, obj). v1_publish t obj) (v1_changes R [ev]) w"
  by (cases ev; cases "fst ev") (auto simp: v1_pushEvent_def v1_changes_def change_type_def split: sum.splits)

lemma fold_pushEvent: "fold (v1_pushEvent R) evs w = fold (\<lambda>(t, obj). v1_publish t obj) (v1_changes R evs) w"
proof (induction evs arbitrary: w)
  case (Cons ev evs)
  have "v1_changes R (ev # evs) = v1_changes R [ev] @ v1_changes R evs" by (simp add: v1_changes_def)
  then show ?case using Cons pushEvent_changes [of R ev w] by (simp del: split_paired_All)
qed (simp add: v1_changes_def)

text \<open>Publishing stamps objects in turn.\<close>

definition has_meta :: "vobj \<Rightarrow> bool" where
  "has_meta obj \<longleftrightarrow> accessor obj \<noteq> None"

definition stampedEvents :: "64 word \<Rightarrow> (event_type \<times> vobj) list \<Rightarrow> vpayload event list" where
  "stampedEvents n cs = map (\<lambda>(i, t, obj). \<lparr>ev_type = t, ev_obj = stampRV obj (dec_nat (unat (n + of_nat (i + 1))))\<rparr>) (zip [0..<length cs] cs)"

lemma stampedEvents_Cons:
  "stampedEvents n ((t, obj) # cs) = \<lparr>ev_type = t, ev_obj = stampRV obj (dec_nat (unat (n + 1)))\<rparr> # stampedEvents (n + 1) cs"
proof -
  have z: "zip [0..<length ((t, obj) # cs)] ((t, obj) # cs) = (0, t, obj) # map (\<lambda>(i, c). (i + 1, c)) (zip [0..<length cs] cs)"
    by (simp only: length_Cons upt_conv_Cons [OF zero_less_Suc] map_Suc_upt [symmetric] zip_Cons_Cons zip_map1) simp
  show ?thesis unfolding stampedEvents_def z by (simp add: case_prod_beta algebra_simps)
qed

lemma publish_all:
  "list_all (\<lambda>(t, obj). has_meta obj) cs \<Longrightarrow>
   fold (\<lambda>(t, obj). v1_publish t obj) cs w = w\<lparr>v1_rv := v1_rv w + of_nat (length cs), v1_log := v1_log w @ stampedEvents (v1_rv w) cs\<rparr>"
proof (induction cs arbitrary: w)
  case (Cons c cs)
  obtain t obj where c: "c = (t, obj)" by fastforce
  have "v1_publish t obj w = w\<lparr>v1_rv := v1_rv w + 1, v1_log := v1_log w @ [\<lparr>ev_type = t, ev_obj = stampRV obj (dec_nat (unat (v1_rv w + 1)))\<rparr>]\<rparr>"
    using Cons.prems c by (auto simp: v1_publish_def has_meta_def Let_def)
  then show ?case using Cons c by (simp add: stampedEvents_Cons algebra_simps)
qed (simp add: stampedEvents_def)

lemma typed_has_meta: "d1_UseTypedWrapper (v1_desc R) \<Longrightarrow> list_all (\<lambda>(t, obj). has_meta obj) (v1_changes R evs)"
  by (induction evs) (auto simp: v1_changes_def v1_objFromJSON_def obj_UnmarshalJSON_def has_meta_def Let_def split: sum.splits option.splits if_splits)


text \<open>The adapter with the typed wrapper is an event counter: every event of a run carries the version of its place in the log.\<close>

definition v1_typed :: "('h, 'b) v1_REST \<Rightarrow> ('h, 'b) v1_REST" where
  "v1_typed R = R\<lparr>v1_desc := (v1_desc R)\<lparr>d1_UseTypedWrapper := True\<rparr>\<rparr>"

lemma stampedEvents_nth:
  assumes "i < length cs"
  shows "event_rvs (stampedEvents n cs) ! i \<in> {None, Some (dec_nat (unat (n + of_nat i + 1)))}"
proof -
  obtain t obj where "cs ! i = (t, obj)" by fastforce
  then show ?thesis using assms
    by (cases obj) (simp_all add: event_rvs_def stampedEvents_def stampRV_def algebra_simps)
qed

lemma stampedEvents_after: "stamped_after n (stampedEvents n cs)"
  unfolding stamped_after_def
proof (intro allI impI)
  fix i
  assume "i < length (stampedEvents n cs)"
  then have "i < length cs" by (simp add: stampedEvents_def)
  then show "event_rvs (stampedEvents n cs) ! i \<in> {None, Some (dec_nat (unat (n + of_nat i + 1)))}" by (rule stampedEvents_nth)
qed

lemma v1_step_counts:
  "\<exists>evs. v1_log (v1_step (v1_typed R) op w) = v1_log w @ evs \<and> v1_rv (v1_step (v1_typed R) op w) = v1_rv w + of_nat (length evs) \<and>
     stamped_after (v1_rv w) evs"
proof (cases "op = V1Upstream")
  case True
  have t: "d1_UseTypedWrapper (v1_desc (v1_typed R))" by (simp add: v1_typed_def)
  have l: "length (stampedEvents n cs) = length cs" for n cs by (simp add: stampedEvents_def)
  show ?thesis
    by (auto simp: True v1_runUpstreamWatch_def v1_backend_def fold_pushEvent publish_all [OF typed_has_meta [OF t]] l
        split: prod.splits sum.splits intro: stampedEvents_after)
next
  case False
  then show ?thesis using v1_request_quiet [of op w "v1_typed R"] by (simp add: v1_quiet_def)
qed

interpretation v1c: event_counter "v1_step (v1_typed R)" v1_rv v1_log for R
  by unfold_locales (rule v1_step_counts)

lemma v1_run_counted:
  assumes "counted (v1_rv w) (v1_log w)" and "length (v1_log (v1_run (v1_typed R) ops w)) + 1 < 2 ^ 64"
  shows "counted (v1_rv (v1_run (v1_typed R) ops w)) (v1_log (v1_run (v1_typed R) ops w))"
  using v1c.run_counted assms unfolding v1_run_def by blast

section \<open>Watches\<close>

text \<open>
  A watch opens exactly from no version, from \<open>0\<close> or from the very version of the counter; its first events are the
  matching objects of the backend's list for the request, and a watch without label selector lets every later event of the adapter through,
  whatever its namespace: a watch of one namespace is sent the objects of all others.
\<close>

theorem v1_watch_crosses_namespaces:
  assumes "v1_Watch R c opts w = (Inr s, w')" and "ls_empty (selectorFromOpts opts)"
  shows "ws_filter s ev \<and> requestedRV opts \<in> {[], ''0''} \<union> {v. parse_uint64 v = Some (unat (v1_rv w))} \<and>
    (\<exists>raws. fst (c1_List (v1_client R) (v2_userFromCtx c) (vc_ns c) (selectorString (v1_codecs R) opts) (v1_b w)) = Inr raws \<and>
       map_sum id (map (\<lambda>o'. \<lparr>ev_type = Added, ev_obj = o'\<rparr>)) (v1_decodeItems R opts raws) = Inr (ws_prefix s))"
  using assms
  by (auto simp: v1_Watch_def v1_backend_def Let_def split: prod.splits sum.splits if_splits option.splits)

section \<open>A small backend\<close>

definition v1_demo_client :: "kv v1_client" where
  "v1_demo_client = \<lparr>c1_GetSchema = (\<lambda>b. (Inr zero_schema, b)),
     c1_Get = (\<lambda>u ns n b. (case map_of b (gcKey ns n) of None \<Rightarrow> (Inl (RpcStatus C_NotFound []), b) | Some j \<Rightarrow> (Inr j, b))),
     c1_List = (\<lambda>u ns sel b. (Inr (map snd b), b)), c1_Create = (\<lambda>u ns j fm b. (Inr j, aput (kv_key ns j) j b)),
     c1_Update = (\<lambda>u ns n j f fm b. (Inr (j, False), aput (gcKey ns n) j b)), c1_Delete = (\<lambda>u ns n b. (Inr (None, True), adel (gcKey ns n) b)),
     c1_Watch = (\<lambda>b. (Inr (map (\<lambda>(k, j). (EVENT_ADDED, j)) b, RpcEOF), b))\<rparr>"

definition v1_demo :: "(etcd, kv) v1_REST \<times> (etcd, kv) v1_world" where
  "v1_demo = v1_New kv_codecs frozen_host
     \<lparr>d1_Group = ''g'', d1_Version = ''v1'', d1_Resource = ''things'', d1_Kind = ''Thing'', d1_Singular = ''thing'', d1_Namespaced = True,
      d1_Writable = True, d1_SupportsServerSideApply = True, d1_UseTypedWrapper = True, d1_Columns = [], d1_RowFields = [], d1_GroupResource = None\<rparr>
     v1_demo_client (kv_etcd 0) [(''ns/a'', Some (JObj [(''spec'', JNull)]))]"


lemma v1_watch_crosses_namespaces_witness:
  "\<exists>s. fst (v1_Watch (fst v1_demo) kv_ctx None ((snd v1_demo)\<lparr>v1_b := []\<rparr>)) = Inr s \<and>
     ws_filter s \<lparr>ev_type = Added, ev_obj = Obj (empty_meta\<lparr>om_ns := ''other''\<rparr>) \<lparr>vp_api = [], vp_kind = [], vp_content = []\<rparr>\<rparr>"
proof -
  obtain s w' where r: "v1_Watch (fst v1_demo) kv_ctx None ((snd v1_demo)\<lparr>v1_b := []\<rparr>) = (Inr s, w')"
    by (simp add: v1_Watch_def v1_demo_def v1_New_def v1_demo_client_def v1_backend_def requestedRV_def selectorFromOpts_def everything_def Let_def)
  have e: "ls_empty (selectorFromOpts None)" by (simp add: selectorFromOpts_def everything_def)
  show ?thesis using v1_watch_crosses_namespaces [OF r e] r by simp
qed

end
