(* ===== verification/RvAuthority.thy ===== *)
theory RvAuthority
  imports LibAdapter "HOL-Library.Word"
begin

text \<open>
  \<open>runtime/component/v2/watch/watch.go\<close>: the authority over resource versions, a 64-bit atomic counter
  that follows the versions of stored records, and the bookmark object.  Every operation on the counter is one atomic step;
  only \<open>Observe\<close> takes several, and other goroutines may act between its load and its compare-and-swap.
\<close>

section \<open>The counter\<close>

type_synonym authority = "64 word"

definition authority_New :: authority where
  "authority_New = 1"

definition authority_Next :: "authority \<Rightarrow> string \<times> authority" where
  "authority_Next c = (dec_nat (unat (c + 1)), c + 1)"

definition authority_Current :: "authority \<Rightarrow> string" where
  "authority_Current c = dec_nat (unat c)"

text \<open>
  The retry loop of \<open>Observe\<close>: in attempt \<open>i\<close> the others turn the loaded value \<open>c\<close> into \<open>env i c\<close> before the swap, which succeeds
  when the counter is still \<open>c\<close>.  The number is the attempts left, \<open>None\<close> when they run out.
\<close>

fun observeLoop :: "(nat \<Rightarrow> authority \<Rightarrow> authority) \<Rightarrow> authority \<Rightarrow> nat \<Rightarrow> nat \<Rightarrow> authority \<Rightarrow> authority option" where
  "observeLoop env n 0 i c = None"
| "observeLoop env n (Suc left) i c =
     (if n \<le> c then Some c
      else (let c' = env i c in if c' = c then Some n else observeLoop env n left (i + 1) c'))"

text \<open>\<open>Observe\<close> without interference.\<close>

definition authority_Observe :: "string \<Rightarrow> authority \<Rightarrow> authority" where
  "authority_Observe rv c =
     (case parse_uint64 rv of
        None \<Rightarrow> c
      | Some n \<Rightarrow> (case observeLoop (\<lambda>i x. x) (of_nat n) 1 0 c of None \<Rightarrow> c | Some c' \<Rightarrow> c'))"

definition authority_Resolve :: "string \<Rightarrow> authority \<Rightarrow> string \<times> authority" where
  "authority_Resolve rv c =
     (if rv \<noteq> [] then (rv, authority_Observe rv c) else (authority_Current c, c))"

text \<open>\<open>BookmarkObject\<close>: both shapes carry the kind, the annotation and the version; \<open>new\<close> is the empty object of the kind.\<close>

definition BookmarkObject :: "'p robj \<Rightarrow> string \<Rightarrow> 'p robj" where
  "BookmarkObject new rv = with_meta (\<lambda>m. m\<lparr>om_anns := [(''k8s.io/initial-events-end'', ''true'')], om_rv := rv\<rparr>) new"

section \<open>Lemmas\<close>

lemma unat64: "unat (x :: 64 word) < 2 ^ 64"
  using unsigned_less [of x, where 'a = nat] by simp

lemma Observe_max: "parse_uint64 rv = Some n \<Longrightarrow> authority_Observe rv c = max c (of_nat n)"
  by (auto simp: authority_Observe_def max_def Let_def)

lemma Observe_le: "c \<le> authority_Observe rv c"
  by (cases "parse_uint64 rv") (simp_all add: Observe_max, simp add: authority_Observe_def)

lemma BookmarkObject_event: "BookmarkObject new rv = ev_obj (makeBookmarkEvent new rv)"
  by (cases new) (simp_all add: BookmarkObject_def makeBookmarkEvent_def bookmarkAnnotationKey_def)

lemma observe_terminates:
  assumes "\<forall>i x. x \<le> env i x" and "unat n - unat c < left"
  shows "\<exists>r. observeLoop env n left i c = Some r \<and> n \<le> r"
  using assms(2)
proof (induction left arbitrary: i c)
  case (Suc left)
  show ?case
  proof (cases "n \<le> c")
    case False
    let ?c = "env i c"
    show ?thesis
    proof (cases "?c = c")
      case True then show ?thesis using False by simp
    next
      case moved: False
      then have "unat c < unat ?c" using assms(1) by (metis order_le_less word_less_nat_alt)
      moreover have "unat c < unat n" using False by (simp add: word_le_nat_alt)
      ultimately have "unat n - unat ?c < left" using Suc.prems by linarith
      then show ?thesis using Suc.IH [of ?c "i + 1"] False moved by (simp add: Let_def)
    qed
  qed simp
qed simp

section \<open>Histories\<close>

datatype auth_op = ANext | AObserve string | AResolve string

text \<open>The number of the version an operation hands out or takes in, and the counter after it.\<close>

definition auth_step :: "auth_op \<Rightarrow> authority \<Rightarrow> nat option \<times> authority" where
  "auth_step a c =
     (case a of
        ANext \<Rightarrow> (let (rv, c') = authority_Next c in (parse_uint64 rv, c'))
      | AObserve rv \<Rightarrow> (parse_uint64 rv, authority_Observe rv c)
      | AResolve rv \<Rightarrow> (let (out, c') = authority_Resolve rv c in (parse_uint64 out, c')))"

text \<open>A history from a counter: its versions, the counter after it, and whether it got by without wrapping around.\<close>

fun auth_run :: "auth_op list \<Rightarrow> authority \<Rightarrow> nat list \<times> authority \<times> bool" where
  "auth_run [] c = ([], c, True)"
| "auth_run (a # ops) c =
     (let (v, c1) = auth_step a c; (vs, c2, ok) = auth_run ops c1
      in ((case v of None \<Rightarrow> vs | Some x \<Rightarrow> x # vs), c2, ok \<and> \<not> (a = ANext \<and> c = -1)))"

lemma Next_unat: "c \<noteq> -1 \<Longrightarrow> unat (c + 1) = unat c + 1" for c :: authority
  by (metis Suc_eq_plus1 add.commute add.right_inverse add_left_imp_eq unatSuc)

lemma auth_step_bounds:
  assumes "a = ANext \<longrightarrow> c \<noteq> -1" and "auth_step a c = (v, c')"
  shows "c \<le> c'" and "v = Some x \<Longrightarrow> x \<le> unat c'"
proof -
  have n: "unat (of_nat k :: authority) = k" if "parse_uint64 rv = Some k" for rv k
    using parse_uint64_bound [OF that] by (simp add: unat_of_nat)
  have o: "k \<le> unat (authority_Observe rv c)" if "parse_uint64 rv = Some k" for rv k
    using that n [OF that] by (simp add: Observe_max max_def word_le_nat_alt)
  have nx: "a = ANext \<Longrightarrow> unat (c + 1) = unat c + 1" using assms(1) Next_unat by blast
  show "c \<le> c'"
    using assms(2) nx Observe_le [of c, unfolded word_le_nat_alt] by (cases a)
      (auto simp: auth_step_def authority_Next_def authority_Resolve_def word_le_nat_alt split: if_splits)
  show "v = Some x \<Longrightarrow> x \<le> unat c'"
    using assms(2) o unat64 [of c] unat64 [of "c + 1"] by (cases a)
      (auto simp: auth_step_def authority_Next_def authority_Resolve_def authority_Current_def split: if_splits)
qed

lemma auth_run_bounds:
  assumes "auth_run ops c = (vs, c', True)"
  shows "c \<le> c'" and "\<forall>v \<in> set vs. v \<le> unat c'"
proof -
  have "c \<le> c' \<and> (\<forall>v \<in> set vs. v \<le> unat c')" using assms
  proof (induction ops arbitrary: c vs c')
    case (Cons a ops)
    obtain v c1 where a: "auth_step a c = (v, c1)" by fastforce
    obtain ws c2 ok where r: "auth_run ops c1 = (ws, c2, ok)" by (metis prod_cases3)
    have e: "c2 = c'" "ok" "a = ANext \<longrightarrow> c \<noteq> -1" "vs = (case v of None \<Rightarrow> ws | Some x \<Rightarrow> x # ws)"
      using Cons.prems by (auto simp: a r)
    have ih: "c1 \<le> c' \<and> (\<forall>v \<in> set ws. v \<le> unat c')" using Cons.IH [of c1 ws c'] r e(1,2) by simp
    have "c \<le> c1" and b: "v = Some x \<Longrightarrow> x \<le> unat c1" for x using auth_step_bounds [OF e(3) a] by blast+
    then have "c \<le> c'" using ih by (meson order_trans)
    moreover have "x \<le> unat c'" if "v = Some x" for x
      using b [OF that] ih by (meson order_trans word_le_nat_alt)
    ultimately show ?case using ih e(4) by (auto split: option.splits)
  qed simp
  then show "c \<le> c'" and "\<forall>v \<in> set vs. v \<le> unat c'" by blast+
qed

section \<open>Properties\<close>

text \<open>
  C38: Observe always returns: whatever other goroutines do to the counter between its load and its
  compare-and-swap, as long as they only advance it, at most as many attempts fail as the observed version is
  ahead of the counter, and the counter is at least the observed version afterwards.
\<close>

theorem observe_returns:
  assumes "\<forall>i x. x \<le> env i x"
  shows "\<exists>r. observeLoop env n (unat n - unat c + 1) i c = Some r \<and> n \<le> r"
  by (rule observe_terminates [OF assms]) simp

theorem observe_returns_witness:
  "\<exists>r. observeLoop (\<lambda>i x. if i = 0 then max x 4 else x) 7 6 0 2 = Some r \<and> 7 \<le> r"
proof -
  have "unat (7 :: authority) - unat (2 :: authority) + 1 = 6" by simp
  then show ?thesis using observe_returns [of "\<lambda>i x. if i = 0 then max x 4 else x" 7 2 0] by simp
qed

text \<open>
  C39: As long as the counter does not wrap around at 2^64, every version the authority makes with Next is greater
  than every version it has handed out or taken in before, whether made by Next, observed from a record or resolved.
\<close>

theorem authority_next_is_greatest:
  assumes "auth_run ops c = (vs, c', True)" and "c' \<noteq> -1"
  shows "\<exists>v. parse_uint64 (fst (authority_Next c')) = Some v \<and> (\<forall>x \<in> set vs. x < v)"
proof -
  have "parse_uint64 (fst (authority_Next c')) = Some (unat (c' + 1))"
    using parse_dec_nat [OF unat64] by (simp add: authority_Next_def)
  then show ?thesis using auth_run_bounds(2) [OF assms(1)] Next_unat [OF assms(2)] by auto
qed

theorem authority_next_is_greatest_witness:
  "\<exists>v. parse_uint64 (fst (authority_Next 9)) = Some v \<and> (\<exists>vs. auth_run [ANext, AObserve ''9''] authority_New = (vs, 9, True) \<and> v > 9)"
proof -
  have two: "dec_nat 2 = ''2''" by code_simp
  have nine: "dec_nat 9 = ''9''" by code_simp
  have p: "parse_uint64 ''2'' = Some 2" "parse_uint64 ''9'' = Some 9"
    using parse_dec_nat [of 2] parse_dec_nat [of 9] by (simp_all add: two nine)
  have r: "auth_run [ANext, AObserve ''9''] authority_New = ([2, 9], 9, True)"
    by (simp add: auth_step_def authority_Next_def authority_New_def two p Observe_max)
  show ?thesis using authority_next_is_greatest [OF r] r by auto
qed

end
