(* ===== verification/Spec2Isabelle.thy ===== *)
theory Spec2Isabelle
  imports Storage PollWatch Subresource LeaseLocker MhWatchSpec CrdStore Authz V2RestSpec V2Typing HttpSpec MultiplexSpec V1RestSpec RvAuthority
begin

text \<open>
  Verification of the runtime of an aggregated Kubernetes API server, the Go packages under \<open>src/runtime\<close>: adapters that
  serve a resource of the aggregation layer from storage that is not the cluster's etcd.  All file names below are relative to that directory.

  The program.  A generic API server (\<open>k8s.io/apiserver\<close>) calls a REST adapter: \<open>Get\<close>, \<open>List\<close>, \<open>Watch\<close>, \<open>Create\<close>, \<open>Update\<close>,
  \<open>Delete\<close>, \<open>ConvertToTable\<close>.  There are five families of adapters, each over another kind of storage, and around them pollers, lockers,
  collectors and authorizers.  An adapter keeps a 64-bit counter, mints resource versions from it, and hands events to a broadcaster that serves the
  watches.

  \<^item> The minimal adapter (\<open>storage/\<close>) over a \<open>Backend\<close> that reads and, maybe, writes.
  \<^item> The enhanced adapter (\<open>library/\<close>) over the same interface, with pagination, field selectors, optimistic concurrency,
    bookmarks, subresources, deterministic UIDs; a poll watcher for backends that only list; a lease locker and a store over a
    custom resource of the host cluster as backends.
  \<^item> The multi-host adapter (\<open>library/multihost/\<close>): bodies and metadata records live in two custom resources of the host cluster,
    shared by many replicas; writes lock the record; a hub serves watches per identity.
  \<^item> The first component runtime (\<open>component/\<close>) relays one backend over gRPC.
  \<^item> The second component runtime (\<open>component/v2/\<close>) joins the objects of a backend, over gRPC or HTTP, with metadata records on the host, runs admission
    rules, collects orphaned records, and multiplexes many backends in one process.

  How the model stands to the code.  A Go struct is a \<open>record\<close>, an enum a \<open>datatype\<close>, a method a \<open>definition\<close> or \<open>fun\<close> with the method's name
  (prefixed where names repeat: \<open>mh_\<close> multi-host, \<open>st_\<close> minimal, \<open>crd_\<close>, \<open>v1_\<close>, \<open>v2_\<close>, \<open>mx_\<close>, \<open>http_\<close>) that takes
  the state and returns the result and the new state.  Errors are the
  values of \<open>api_err\<close> (and \<open>rpc_err\<close> for backends) in the left of a sum; panics are values too.  Counters are \<open>64 word\<close>.  A Go map is an association
  list without repeated keys; where the order of iteration can show, it is a parameter or the order of the list.  A broadcaster is the log of
  the events it was given.  Strings are lists of bytes.  A JSON text is the value it decodes to, \<open>None\<close> when it does not.

  Each operation is atomic, as the code's mutexes make it for the state of one adapter; where several replicas or goroutines meet, the steps between
  which others may act are separate: the interference between the parts of a locked write (\<open>MhLock\<close>), the stages of a watcher
  (\<open>MhWatch\<close>), the swaps of the authority (\<open>RvAuthority\<close>), the turns of the worker (\<open>MultiplexSpec\<close>).  What is not in the repository is a parameter:
  the host API server and its informers, the clock and UUIDs (\<open>host\<close>), the lease client, gRPC and HTTP clients, CEL,
  the metav1 codecs.  The laws the code relies on are locales, each interpreted on the repository's own provider.

  The theories.
  \<^item> Ground: \<open>Prelude\<close> (association lists, sorting, the collections of rules), \<open>GoStd\<close> (\<open>strconv\<close>, \<open>strings\<close>, base64), \<open>GoSha256\<close>, \<open>GoTime\<close>
    (RFC 3339 and its round trip), \<open>GoJson\<close> (filling structs), \<open>KubeTypes\<close> (API errors, object metadata, list options, events), \<open>Unstructured\<close>.
  \<^item> \<open>library/\<close>: \<open>LibHelpers\<close> (\<open>helpers.go\<close>, \<open>uid.go\<close>), \<open>Pagination\<close>, \<open>FieldSel\<close>, \<open>Occ\<close>, \<open>LibAdapter\<close> (\<open>adapter.go\<close>, \<open>options.go\<close>,
    \<open>bookmark.go\<close>); \<open>LibInvariants\<close> has the invariant of every run of the adapter and the locale \<open>writable_backend\<close>, which \<open>MemBackend\<close> (the
    backend of \<open>adapter_test.go\<close>) and \<open>CrdStore\<close> (\<open>crdstore.go\<close>) provide; \<open>PollWatch\<close>, \<open>Subresource\<close>, \<open>LeaseLocker\<close>.  \<open>Storage\<close> is the minimal
    adapter, which the enhanced one refines.
  \<^item> \<open>library/multihost/\<close>: \<open>MhRef\<close>, \<open>MhRecord\<close> (names, the codec of records), \<open>HostApi\<close> (locale \<open>host_api\<close>; the etcd simulation
    of \<open>multihost_test.go\<close> provides it), \<open>MetaStore\<close>, \<open>MhLock\<close>, \<open>BodyStore\<close>, \<open>MhAdapter\<close> and what it guarantees, \<open>MhAdapterSpec\<close>;
    \<open>MhWatch\<close> and \<open>MhWatchSpec\<close> (fan-out, order of events, replay, polling; locale \<open>watch_stitcher\<close>).
  \<^item> \<open>component/v2/\<close>: \<open>V2Store\<close> (\<open>metadatastore\<close>), \<open>V2Gc\<close> (\<open>gc\<close>), \<open>Admission\<close>, \<open>RvAuthority\<close> (\<open>watch\<close>), \<open>V2Rest\<close> (\<open>grpcbackend\<close> and the
    typed wrapper of \<open>scheme\<close>), with \<open>EventCounter\<close> (locale \<open>event_counter\<close>: a counter beside a log of
    events, interpreted on this adapter and on \<open>V1Rest\<close>), \<open>V2Frames\<close> (which operations publish), \<open>V2RestSpec\<close> and \<open>V2Typing\<close>; \<open>HttpBackend\<close> and \<open>HttpSpec\<close> (\<open>httpbackend\<close>);
    \<open>V2OpenApi\<close> (\<open>openapi\<close>); \<open>Multiplex\<close> and \<open>MultiplexSpec\<close> (\<open>multiplex\<close>, and \<open>group/group.go\<close>).
  \<^item> \<open>component/\<close>: \<open>V1Rest\<close> (\<open>grpcbackend\<close>, \<open>openapi/compose.go\<close>, \<open>api.go\<close>) and \<open>V1RestSpec\<close>.
  \<^item> \<open>authz/\<close>: \<open>Authz\<close>.

  What the lemmas show.  Invariants of every run: counters count the events, events carry consecutive versions, entries of the
  multiplexer keep their owners.  Functional results of whole operations on all branches: creates, updates and deletes of every
  adapter, sweeps, poll rounds, fan-out, admission.  Refinement of the minimal adapter by the enhanced one; the poll round equals a difference of
  snapshots.  Round trips: records, the metadata store, event streams.  Optimistic concurrency and locks lose no update.  Error paths: what panics,
  what is refused, when an authorizer gives no opinion.  Where the code does not keep what it means to,
  the theorem states what it does instead, and the manifest lists the finding.

  Bounds and fuel.  Retry loops (locks, transactions, leases) recurse on the budget of attempts that the code has.  \<open>Observe\<close> has none in the
  code: its model takes fuel, and the property shows when it returns.  The walk over pages of \<open>Pagination\<close> is a specification with fuel, and any fuel
  above the number of remaining items suffices.  Reading server-sent events recurses on the text that is left.  \<open>readTree\<close> of \<open>Admission\<close> takes
  the size of the heap as fuel.  Theorems on counters assume fewer than \<open>2 ^ 64\<close> events where the counter must not have wrapped.

  Not modelled.  The directories under \<open>src/experiments\<close> are disposable prototypes that repeat what \<open>runtime/\<close> holds.  Generated code: protocol buffers,
  \<open>openapi/generated.go\<close>, deep copies.  \<open>server/options.go\<close>: flags and the construction of the generic server.  The
  goroutines that repeat a modelled step for ever (tickers, reconnecting loops), the start of informers, logging and metrics
  endpoints; cancellation of contexts, except where a watcher or a definition is stopped.
\<close>

end
